(* ===== verification/JsNumber.thy ===== *)
theory JsNumber
  imports Complex_Main
begin

section \<open>JavaScript numbers\<close>

text \<open>
  The Number type of JavaScript as the scripts use it: the finite values are reals, and the
  three special values are kept, so that a division by zero, an undefined operand or a
  comparison with \<open>NaN\<close> behaves as it does in the code.  An \<open>undefined\<close> operand of an
  arithmetic operation or of \<open><\<close> converts to \<open>NaN\<close>, and is written \<open>NaN\<close> in the model.
  Two things are left out: the rounding of finite results to 53 bits (with the overflow to an
  infinity it implies) and the sign of zero.
\<close>

datatype jsnum = is_Num: Num (num_val: real) | Infinity | NegInfinity | NaN

text \<open>The infinity with a given sign, \<open>NaN\<close> for sign zero: \<open>0 / 0\<close> and \<open>0 * Infinity\<close>.\<close>

definition inf_of :: "real \<Rightarrow> jsnum" where
  "inf_of s = (if s > 0 then Infinity else if s < 0 then NegInfinity else NaN)"

fun num_sgn :: "jsnum \<Rightarrow> real" where
  "num_sgn (Num a) = sgn a"
| "num_sgn Infinity = 1"
| "num_sgn NegInfinity = - 1"
| "num_sgn NaN = 0"

definition num_neg :: "jsnum \<Rightarrow> jsnum" where
  "num_neg x =
     (case x of Num a \<Rightarrow> Num (- a) | Infinity \<Rightarrow> NegInfinity | NegInfinity \<Rightarrow> Infinity | NaN \<Rightarrow> NaN)"

definition num_div :: "jsnum \<Rightarrow> jsnum \<Rightarrow> jsnum" where
  "num_div x y =
     (case (x, y) of
        (Num a, Num b) \<Rightarrow> if b = 0 then inf_of a else Num (a / b)
      | (NaN, _) \<Rightarrow> NaN
      | (_, NaN) \<Rightarrow> NaN
      | (Num a, _) \<Rightarrow> Num 0
      | (_, Num b) \<Rightarrow> if b < 0 then num_neg x else x
      | _ \<Rightarrow> NaN)"

definition num_less :: "jsnum \<Rightarrow> jsnum \<Rightarrow> bool" where
  "num_less x y =
     (case (x, y) of
        (Num a, Num b) \<Rightarrow> a < b
      | (NaN, _) \<Rightarrow> False
      | (_, NaN) \<Rightarrow> False
      | (Infinity, _) \<Rightarrow> False
      | (_, NegInfinity) \<Rightarrow> False
      | _ \<Rightarrow> True)"

instantiation jsnum :: "{plus, minus, uminus, times, inverse, ord}"
begin

definition plus_jsnum :: "jsnum \<Rightarrow> jsnum \<Rightarrow> jsnum" where
  "plus_jsnum x y =
     (case (x, y) of
        (Num a, Num b) \<Rightarrow> Num (a + b)
      | (NaN, _) \<Rightarrow> NaN
      | (_, NaN) \<Rightarrow> NaN
      | (Infinity, NegInfinity) \<Rightarrow> NaN
      | (NegInfinity, Infinity) \<Rightarrow> NaN
      | (Infinity, _) \<Rightarrow> Infinity
      | (_, Infinity) \<Rightarrow> Infinity
      | _ \<Rightarrow> NegInfinity)"

definition uminus_jsnum :: "jsnum \<Rightarrow> jsnum" where
  "uminus_jsnum x = num_neg x"

definition minus_jsnum :: "jsnum \<Rightarrow> jsnum \<Rightarrow> jsnum" where
  "minus_jsnum x y = x + (- y)"

definition times_jsnum :: "jsnum \<Rightarrow> jsnum \<Rightarrow> jsnum" where
  "times_jsnum x y =
     (case (x, y) of
        (Num a, Num b) \<Rightarrow> Num (a * b)
      | (NaN, _) \<Rightarrow> NaN
      | (_, NaN) \<Rightarrow> NaN
      | _ \<Rightarrow> inf_of (num_sgn x * num_sgn y))"

definition divide_jsnum :: "jsnum \<Rightarrow> jsnum \<Rightarrow> jsnum" where
  "divide_jsnum x y = num_div x y"

definition inverse_jsnum :: "jsnum \<Rightarrow> jsnum" where
  "inverse_jsnum x = num_div (Num 1) x"

definition less_jsnum :: "jsnum \<Rightarrow> jsnum \<Rightarrow> bool" where
  "less_jsnum x y = num_less x y"

definition less_eq_jsnum :: "jsnum \<Rightarrow> jsnum \<Rightarrow> bool" where
  "less_eq_jsnum x y \<longleftrightarrow> x \<noteq> NaN \<and> y \<noteq> NaN \<and> \<not> num_less y x"

instance ..

end

text \<open>The operators on finite operands, and what \<open>NaN\<close> does to each of them.\<close>

named_theorems js_num "evaluation of JavaScript arithmetic and comparison"

lemma num_arith [simp, js_num]:
  "Num a + Num b = Num (a + b)" "Num a - Num b = Num (a - b)" "- Num a = Num (- a)"
  "Num a * Num b = Num (a * b)"
  by (simp_all add: plus_jsnum_def minus_jsnum_def uminus_jsnum_def num_neg_def times_jsnum_def)

lemma num_divide [js_num]: "Num a / Num b = (if b = 0 then inf_of a else Num (a / b))"
  by (simp add: divide_jsnum_def num_div_def)

lemma num_divide_nonzero [simp]: "b \<noteq> 0 \<Longrightarrow> Num a / Num b = Num (a / b)"
  by (simp add: divide_jsnum_def num_div_def)

lemma num_cmp [simp, js_num]:
  "Num a < Num b \<longleftrightarrow> a < b" "Num a \<le> Num b \<longleftrightarrow> a \<le> b"
  by (auto simp: less_jsnum_def less_eq_jsnum_def num_less_def)

lemma nan_arith [simp, js_num]:
  "NaN + x = NaN" "x + NaN = NaN" "NaN - x = NaN" "x - NaN = NaN" "- NaN = NaN"
  "NaN * x = NaN" "x * NaN = NaN" "NaN / x = NaN" "x / NaN = NaN"
  by (cases x; simp add: plus_jsnum_def minus_jsnum_def uminus_jsnum_def num_neg_def times_jsnum_def
      divide_jsnum_def num_div_def)+

lemma nan_cmp [simp, js_num]: "\<not> NaN < x" "\<not> x < NaN" "\<not> NaN \<le> x" "\<not> x \<le> NaN"
  by (cases x; simp add: less_jsnum_def less_eq_jsnum_def num_less_def)+

lemma inf_of_simps [simp, js_num]: "inf_of 0 = NaN" "s > 0 \<Longrightarrow> inf_of s = Infinity"
  "s < 0 \<Longrightarrow> inf_of s = NegInfinity"
  by (simp_all add: inf_of_def)

lemma num_less_Infinity [simp, js_num]: "Num a < Infinity" "\<not> Infinity < Num a"
  "\<not> Num a < NegInfinity" "NegInfinity < Num a"
  by (simp_all add: less_jsnum_def num_less_def)

lemma is_NumE [elim]:
  assumes "is_Num x"
  obtains r where "x = Num r"
  using assms by (cases x) auto

lemma is_Num_arith [intro, simp]:
  "is_Num x \<Longrightarrow> is_Num y \<Longrightarrow> is_Num (x + y)" "is_Num x \<Longrightarrow> is_Num y \<Longrightarrow> is_Num (x - y)"
  "is_Num x \<Longrightarrow> is_Num (- x)" "is_Num x \<Longrightarrow> is_Num y \<Longrightarrow> is_Num (x * y)"
  by (auto elim!: is_NumE)

lemma not_less_num: "is_Num x \<Longrightarrow> is_Num y \<Longrightarrow> \<not> x < y \<longleftrightarrow> y \<le> x"
  by (auto elim!: is_NumE)

text \<open>Loose and strict equality of two numbers: \<open>NaN\<close> is equal to nothing.\<close>

definition js_eq :: "jsnum \<Rightarrow> jsnum \<Rightarrow> bool" where
  "js_eq x y \<longleftrightarrow> x = y \<and> x \<noteq> NaN"

lemma js_eq_simps [simp, js_num]: "js_eq (Num a) (Num b) \<longleftrightarrow> a = b" "\<not> js_eq NaN x" "\<not> js_eq x NaN"
  by (auto simp: js_eq_def)

text \<open>A number used as a condition.\<close>

definition num_truthy :: "jsnum \<Rightarrow> bool" where
  "num_truthy x \<longleftrightarrow> x \<noteq> NaN \<and> x \<noteq> Num 0"

section \<open>The Math functions\<close>

text \<open>
  \<open>Math.pow\<close> is only called with the exponents 2 and 3, which are natural numbers here.
  \<open>Math.atan2(y, x)\<close> is the argument of the complex number \<open>x + iy\<close>: same range, and 0 at
  the origin.
\<close>

fun Math_abs :: "jsnum \<Rightarrow> jsnum" where
  "Math_abs (Num a) = Num \<bar>a\<bar>"
| "Math_abs NaN = NaN"
| "Math_abs _ = Infinity"

fun Math_floor :: "jsnum \<Rightarrow> jsnum" where
  "Math_floor (Num a) = Num (of_int \<lfloor>a\<rfloor>)"
| "Math_floor x = x"

definition Math_round :: "jsnum \<Rightarrow> jsnum" where
  "Math_round x = Math_floor (x + Num (1 / 2))"

definition Math_max :: "jsnum \<Rightarrow> jsnum \<Rightarrow> jsnum" where
  "Math_max x y = (if x = NaN \<or> y = NaN then NaN else if x < y then y else x)"

definition Math_min :: "jsnum \<Rightarrow> jsnum \<Rightarrow> jsnum" where
  "Math_min x y = (if x = NaN \<or> y = NaN then NaN else if y < x then y else x)"

fun Math_sqrt :: "jsnum \<Rightarrow> jsnum" where
  "Math_sqrt (Num a) = (if a < 0 then NaN else Num (sqrt a))"
| "Math_sqrt Infinity = Infinity"
| "Math_sqrt _ = NaN"

fun Math_pow :: "jsnum \<Rightarrow> nat \<Rightarrow> jsnum" where
  "Math_pow x 0 = Num 1"
| "Math_pow x (Suc n) = x * Math_pow x n"

fun Math_cos :: "jsnum \<Rightarrow> jsnum" where
  "Math_cos (Num a) = Num (cos a)"
| "Math_cos _ = NaN"

fun Math_sin :: "jsnum \<Rightarrow> jsnum" where
  "Math_sin (Num a) = Num (sin a)"
| "Math_sin _ = NaN"

fun Math_atan2 :: "jsnum \<Rightarrow> jsnum \<Rightarrow> jsnum" where
  "Math_atan2 (Num y) (Num x) = Num (Arg (Complex x y))"
| "Math_atan2 _ _ = NaN"

lemma Math_max_Num [simp, js_num]: "Math_max (Num a) (Num b) = Num (max a b)"
  by (simp add: Math_max_def max_def)

lemma Math_min_Num [simp, js_num]: "Math_min (Num a) (Num b) = Num (min a b)"
  by (auto simp: Math_min_def min_def)

lemma Math_pow_Num [simp]: "Math_pow (Num a) n = Num (a ^ n)"
  by (induction n) simp_all

lemma Math_sqrt_sum_squares [simp]:
  "Math_sqrt (Num (a * a + b * b)) = Num (sqrt (a * a + b * b))"
  using sum_squares_ge_zero [of a b] by (simp add: not_less)

text \<open>Distance comparisons of the scripts reduce to comparisons of squares.\<close>

lemma sqrt_le_iff_square:
  "0 \<le> d \<Longrightarrow> sqrt (a * a + b * b) \<le> d \<longleftrightarrow> a * a + b * b \<le> d * d"
  using real_sqrt_le_iff [of "a * a + b * b" "d * d"] by simp

end
