(* ===== verification/JsPrelude.thy ===== *)
theory JsPrelude
  imports JsNumber "HOL-Library.Word"
begin

section \<open>Shared notions of the models\<close>

text \<open>
  Results of operations that can fail, loops over an index range, the supply of random
  numbers, and the parts of the String and Array interfaces that several scripts use.
\<close>

subsection \<open>Exceptions\<close>

text \<open>
  An operation that can throw returns \<open>Inl\<close> of the exception.  \<open>Hangs\<close> stands for a loop
  that never ends, and \<open>RangeError\<close> for the exhaustion of the call stack.  No script catches
  an exception it models with this type, so the state at the throw is not kept.
\<close>

datatype js_error = TypeError | ReferenceError | RangeError | SyntaxError | URIError | IndexSizeError | Hangs

type_synonym 'a res = "js_error + 'a"

definition andThen :: "'a res \<Rightarrow> ('a \<Rightarrow> 'b res) \<Rightarrow> 'b res" where
  "andThen m f = (case m of Inl e \<Rightarrow> Inl e | Inr x \<Rightarrow> f x)"

lemma andThen_simps [simp]: "andThen (Inl e) f = Inl e" "andThen (Inr x) f = f x"
  by (simp_all add: andThen_def)

lemma andThen_Inr_iff: "andThen m f = Inr y \<longleftrightarrow> (\<exists>x. m = Inr x \<and> f x = Inr y)"
  by (cases m) auto

lemma andThen_InrE:
  assumes "andThen m f = Inr y"
  obtains x where "m = Inr x" and "f x = Inr y"
  using assms by (auto simp: andThen_Inr_iff)

lemma andThen_assoc: "andThen (andThen m f) g = andThen m (\<lambda>x. andThen (f x) g)"
  by (cases m) auto

lemma andThen_total:
  assumes "\<exists>x. m = Inr x" and "\<And>x. m = Inr x \<Longrightarrow> \<exists>y. f x = Inr y"
  shows "\<exists>y. andThen m f = Inr y"
  using assms by auto

subsection \<open>Loops\<close>

text \<open>A \<open>for\<close> loop whose index runs over a list, with a body that can throw.\<close>

fun for_each :: "('i \<Rightarrow> 's \<Rightarrow> 's res) \<Rightarrow> 'i list \<Rightarrow> 's \<Rightarrow> 's res" where
  "for_each f [] s = Inr s"
| "for_each f (i # is) s = andThen (f i s) (for_each f is)"

lemma for_each_append: "for_each f (xs @ ys) s = andThen (for_each f xs s) (for_each f ys)"
  by (induction xs arbitrary: s) (auto simp: andThen_def split: sum.splits)

lemma for_each_invariant:
  assumes "for_each f xs s = Inr t" and "P s"
    and "\<And>i s t. i \<in> set xs \<Longrightarrow> P s \<Longrightarrow> f i s = Inr t \<Longrightarrow> P t"
  shows "P t"
  using assms
proof (induction xs arbitrary: s)
  case Nil
  then show ?case by simp
next
  case (Cons x xs)
  from Cons.prems(1) obtain u where u: "f x s = Inr u" "for_each f xs u = Inr t"
    by (auto elim: andThen_InrE)
  have "P u" using Cons.prems(3) [OF _ Cons.prems(2) u(1)] by simp
  with u(2) show ?case
    by (rule Cons.IH) (use Cons.prems(3) in auto)
qed

text \<open>The same with an assertion that depends on how far the index has come.\<close>

lemma for_each_range:
  assumes "for_each f [a..<b] s = Inr t" and "a \<le> b" and "P a s"
    and "\<And>i s t. a \<le> i \<Longrightarrow> i < b \<Longrightarrow> P i s \<Longrightarrow> f i s = Inr t \<Longrightarrow> P (Suc i) t"
  shows "P b t"
  using assms
proof (induction "b - a" arbitrary: a s)
  case 0
  then show ?case by simp
next
  case (Suc n)
  from Suc.hyps(2) have less: "a < b" by simp
  with Suc.prems(1) have "andThen (f a s) (for_each f [Suc a..<b]) = Inr t"
    by (simp add: upt_conv_Cons)
  then obtain u where u: "f a s = Inr u" "for_each f [Suc a..<b] u = Inr t"
    by (rule andThen_InrE)
  have "P (Suc a) u" using Suc.prems(4) [OF _ less Suc.prems(3) u(1)] by simp
  moreover have "n = b - Suc a" "Suc a \<le> b" using Suc.hyps(2) less by simp_all
  ultimately show ?case
    using Suc.hyps(1) [OF _ u(2)] Suc.prems(4) by simp
qed

text \<open>A loop whose body never throws returns.\<close>

lemma for_each_total:
  assumes "P s" and "\<And>i s. i \<in> set xs \<Longrightarrow> P s \<Longrightarrow> \<exists>t. f i s = Inr t \<and> P t"
  shows "\<exists>t. for_each f xs s = Inr t \<and> P t"
  using assms
proof (induction xs arbitrary: s)
  case Nil
  then show ?case by simp
next
  case (Cons x xs)
  from Cons.prems obtain u where "f x s = Inr u" "P u" by fastforce
  with Cons show ?case by fastforce
qed

text \<open>
  The number of iterations of \<open>for (var i = 0; i < nb; i++)\<close> for a number \<open>nb\<close> that need not be
  an integer: the least \<open>n\<close> with \<open>\<not> n < nb\<close>; none if the loop never ends.
\<close>

definition loop_count :: "jsnum \<Rightarrow> nat option" where
  "loop_count nb = (case nb of Num r \<Rightarrow> Some (nat \<lceil>r\<rceil>) | Infinity \<Rightarrow> None | _ \<Rightarrow> Some 0)"

lemma loop_count_Num [simp]: "loop_count (Num r) = Some (nat \<lceil>r\<rceil>)"
  by (simp add: loop_count_def)

lemma less_nat_ceiling: "i < nat \<lceil>r\<rceil> \<longleftrightarrow> real i < r"
  by linarith

lemma loop_count_sound:
  "loop_count nb = Some n \<Longrightarrow> Num (real i) < nb \<longleftrightarrow> i < n"
  by (cases nb) (auto simp: loop_count_def less_jsnum_def num_less_def less_nat_ceiling)

lemma loop_count_None: "loop_count nb = None \<Longrightarrow> Num (real i) < nb"
  by (cases nb) (auto simp: loop_count_def)

subsection \<open>Random numbers\<close>

text \<open>
  \<open>Math.random()\<close> takes the next number of a supply.  The supply is an arbitrary sequence of
  reals and each number is reduced to its fractional part, so a draw lies in \<open>[0, 1)\<close> as the
  language promises, and every sequence of draws in \<open>[0, 1)\<close> is the result of some supply.
\<close>

type_synonym rng = "nat \<Rightarrow> real"

definition Math_random :: "rng \<Rightarrow> jsnum \<times> rng" where
  "Math_random g = (Num (frac (g 0)), \<lambda>n. g (Suc n))"

definition random_if :: "bool \<Rightarrow> rng \<Rightarrow> jsnum \<times> rng" where
  \<comment> \<open>\<open>(b ? Math.random() : 1)\<close>\<close>
  "random_if b g = (if b then Math_random g else (Num 1, g))"

lemma Math_random_range:
  "Math_random g = (u, g') \<Longrightarrow> \<exists>r. u = Num r \<and> 0 \<le> r \<and> r < 1"
  by (auto simp: Math_random_def frac_lt_1)

lemma random_if_range:
  "random_if b g = (u, g') \<Longrightarrow> \<exists>r. u = Num r \<and> 0 \<le> r \<and> r \<le> 1"
  by (auto simp: random_if_def Math_random_def less_imp_le [OF frac_lt_1] split: if_splits)

subsection \<open>Strings and arrays\<close>

text \<open>
  A property that holds either a string or an array of strings.  Both have a method
  \<open>indexOf\<close>: on a string it looks for a substring, on an array for an element.
\<close>

datatype str_or_arr = JStrV string | JArrV "string list"

fun str_index_from :: "int \<Rightarrow> string \<Rightarrow> string \<Rightarrow> int" where
  "str_index_from i v s =
     (if take (length v) s = v then i
      else case s of [] \<Rightarrow> - 1 | c # cs \<Rightarrow> str_index_from (i + 1) v cs)"

declare str_index_from.simps [simp del]

definition str_indexOf :: "string \<Rightarrow> string \<Rightarrow> int" where
  "str_indexOf s v = str_index_from 0 v s"

fun arr_index_from :: "int \<Rightarrow> 'a \<Rightarrow> 'a list \<Rightarrow> int" where
  "arr_index_from i v [] = - 1"
| "arr_index_from i v (x # xs) = (if x = v then i else arr_index_from (i + 1) v xs)"

fun indexOf :: "str_or_arr \<Rightarrow> string \<Rightarrow> int" where
  "indexOf (JStrV s) v = str_indexOf s v"
| "indexOf (JArrV xs) v = arr_index_from 0 v xs"

lemma arr_index_from_ge:
  "0 \<le> i \<Longrightarrow> arr_index_from i v xs > - 1 \<longleftrightarrow> v \<in> set xs"
  by (induction xs arbitrary: i) auto

lemma str_index_from_found:
  "0 \<le> i \<Longrightarrow> str_index_from i v s > - 1 \<longleftrightarrow> (\<exists>us ws. s = us @ v @ ws)"
proof (induction s arbitrary: i)
  case Nil
  then show ?case by (subst str_index_from.simps) auto
next
  case (Cons c s)
  show ?case
  proof (cases "take (length v) (c # s) = v")
    case True
    then have "c # s = [] @ v @ drop (length v) (c # s)"
      by (metis append_take_drop_id append_Nil)
    then have "\<exists>us ws. c # s = us @ v @ ws" by blast
    with True Cons.prems show ?thesis by (subst str_index_from.simps) auto
  next
    case False
    have "(\<exists>us ws. c # s = us @ v @ ws) \<longleftrightarrow> (\<exists>us ws. s = us @ v @ ws)" (is "?l \<longleftrightarrow> ?r")
    proof
      assume ?l
      then obtain us ws where eq: "c # s = us @ v @ ws" by blast
      with False have "us \<noteq> []" by auto
      with eq show ?r by (cases us) auto
    next
      assume ?r
      then show ?l by (metis append_Cons)
    qed
    with False Cons show ?thesis by (subst str_index_from.simps) simp
  qed
qed

lemma indexOf_found:
  "indexOf a v > - 1 \<longleftrightarrow>
     (case a of JStrV s \<Rightarrow> (\<exists>us ws. s = us @ v @ ws) | JArrV xs \<Rightarrow> v \<in> set xs)"
  by (cases a) (simp_all add: str_indexOf_def str_index_from_found arr_index_from_ge)

text \<open>\<open>Array.prototype.join\<close>, and \<open>String.prototype.substr\<close> with a start only.\<close>

fun str_join :: "string \<Rightarrow> string list \<Rightarrow> string" where
  "str_join sep [] = []"
| "str_join sep [s] = s"
| "str_join sep (s # ss) = s @ sep @ str_join sep ss"

definition substr_from :: "string \<Rightarrow> int \<Rightarrow> string" where
  "substr_from s start =
     drop (nat (if start < 0 then max 0 (int (length s) + start) else start)) s"

subsection \<open>Lists\<close>

lemma list_all_update: "list_all P xs \<Longrightarrow> P x \<Longrightarrow> list_all P (xs[i := x])"
  by (induction xs arbitrary: i) (auto split: nat.splits)

lemma list_all_nthD: "list_all P xs \<Longrightarrow> i < length xs \<Longrightarrow> P (xs ! i)"
  by (simp add: list_all_length)

end
