(* ===== verification/Particles_State.thy ===== *)
theory Particles_State
  imports JsPrelude
begin

section \<open>particles.js: the state of an instance\<close>

text \<open>
  The object \<open>pJS\<close> of \<open>www/js/particles.js\<close>.  The nested option objects become one record per
  group (\<open>particles.size\<close>, \<open>particles.move\<close>, ...), with the group's name in the field names.
  An option that is \<open>undefined\<close> is \<open>NaN\<close> where the code uses it as a number.  Objects that the
  code shares by reference are the particles: each is created once and changed only through its
  place in \<open>particles.array\<close>, so the array holds them by value, and \<open>pid\<close> tells which object a
  pending image load belongs to.
\<close>

subsection \<open>Colours\<close>

record rgb =
  rgb_r :: jsnum
  rgb_g :: jsnum
  rgb_b :: jsnum

record hsl =
  hsl_h :: jsnum
  hsl_s :: jsnum
  hsl_l :: jsnum

text \<open>The colour strings written to the canvas: \<open>'rgba(r,g,b,a)'\<close> and \<open>'hsla(h,s%,l%,a)'\<close>.\<close>

datatype css_color = Rgba jsnum jsnum jsnum jsnum | Hsla jsnum jsnum jsnum jsnum | CssText string

text \<open>\<open>p.color\<close>: \<open>rgb\<close> is absent or \<open>null\<close> (\<open>None\<close>) or an object, \<open>hsl\<close> likewise.\<close>

record pcolor =
  color_rgb :: "rgb option"
  color_hsl :: "hsl option"

text \<open>\<open>particles.color.value\<close>: an array of hex strings, an object, or a string.\<close>

datatype color_value =
    ColorArray "string list"
  | ColorObject "rgb option" "hsl option"
  | ColorString string

subsection \<open>A particle\<close>

record img =
  img_src :: string
  img_ratio :: jsnum
  img_loaded :: "bool option"
  img_obj :: bool

record particle =
  pid :: nat
  px :: jsnum
  py :: jsnum
  vx :: jsnum
  vy :: jsnum
  vx_i :: jsnum
  vy_i :: jsnum
  radius :: jsnum
  size_status :: bool
  vs :: jsnum
  opacity :: jsnum
  opacity_status :: bool
  vo :: jsnum
  pcol :: pcolor
  pshape :: "string option"
  radius_bubble :: "jsnum option"
  opacity_bubble :: "jsnum option"
  pimg :: "img option"

subsection \<open>The options\<close>

record number_cfg =
  number_value :: jsnum
  density_enable :: bool
  density_value_area :: jsnum

record shape_cfg =
  shape_type :: str_or_arr
  stroke_width :: jsnum
  stroke_color :: string
  nb_sides :: jsnum
  image_src :: string
  image_width :: jsnum
  image_height :: jsnum

record opacity_cfg =
  opacity_value :: jsnum
  opacity_random :: bool
  opacity_anim_enable :: bool
  opacity_anim_speed :: jsnum
  opacity_min :: jsnum
  opacity_anim_sync :: bool

record size_cfg =
  size_value :: jsnum
  size_random :: bool
  size_anim_enable :: bool
  size_anim_speed :: jsnum
  size_min :: jsnum
  size_anim_sync :: bool

record line_cfg =
  line_enable :: bool
  line_distance :: jsnum
  line_color :: string
  line_opacity :: jsnum
  line_width :: jsnum
  color_rgb_line :: "rgb option"

record move_cfg =
  move_enable :: bool
  move_speed :: jsnum
  direction :: string
  move_random :: bool
  straight :: bool
  out_mode :: string
  bounce :: bool
  attract_enable :: bool
  rotateX :: jsnum
  rotateY :: jsnum

record inter_cfg =
  detect_on :: string
  onhover_enable :: bool
  onhover_mode :: str_or_arr
  onclick_enable :: bool
  onclick_mode :: str_or_arr
  ev_resize :: bool
  grab_distance :: jsnum
  grab_opacity :: jsnum
  bubble_distance :: jsnum
  bubble_size :: jsnum
  bubble_duration :: jsnum
  bubble_opacity :: jsnum
  repulse_distance :: jsnum
  repulse_duration :: jsnum
  push_nb :: jsnum
  remove_nb :: jsnum

record config =
  numberc :: number_cfg
  colorc :: color_value
  shapec :: shape_cfg
  opacityc :: opacity_cfg
  sizec :: size_cfg
  linec :: line_cfg
  movec :: move_cfg
  interc :: inter_cfg
  retina_detect :: bool

subsection \<open>Canvas, mouse and temporaries\<close>

record canvas =
  canvas_w :: jsnum
  canvas_h :: jsnum
  pxratio :: jsnum
  el_width :: jsnum
  el_height :: jsnum

text \<open>What the page gives: the layout size of the element, the pixel ratio, the stack depth.\<close>

record env =
  offsetWidth :: jsnum
  offsetHeight :: jsnum
  devicePixelRatio :: jsnum
  max_depth :: nat

text \<open>A mouse coordinate is \<open>undefined\<close>, \<open>null\<close> or a number; this is its numeric value.\<close>

datatype mouse_pos = MUndef | MNull | MNum jsnum

fun to_number :: "mouse_pos \<Rightarrow> jsnum" where
  "to_number MUndef = NaN"
| "to_number MNull = Num 0"
| "to_number (MNum n) = n"

datatype mouse_status = StatusUndef | MouseMove | MouseLeave

record mouse =
  pos_x :: mouse_pos
  pos_y :: mouse_pos
  click_pos_x :: mouse_pos
  click_pos_y :: mouse_pos
  click_time :: jsnum

record tmp_obj =
  obj_size_value :: jsnum
  obj_size_anim_speed :: jsnum
  obj_move_speed :: jsnum
  obj_line_distance :: jsnum
  obj_line_width :: jsnum
  obj_grab_distance :: jsnum
  obj_bubble_distance :: jsnum
  obj_bubble_size :: jsnum
  obj_repulse_distance :: jsnum

record tmp =
  tobj :: tmp_obj
  retina :: bool
  pushing :: bool
  bubble_clicking :: bool
  bubble_duration_end :: bool
  repulse_clicking :: "bool option"
  repulse_count :: jsnum
  repulse_finish :: bool
  img_type :: "string option"
  source_svg :: "string option"
  img_loaded_obj :: bool
  count_svg :: jsnum
  img_error :: bool

subsection \<open>Drawing commands\<close>

datatype canvas_op =
    FillStyle css_color
  | StrokeStyle css_color
  | LineWidth jsnum
  | BeginPath
  | ClosePath
  | MoveTo jsnum jsnum
  | LineTo jsnum jsnum
  | Arc jsnum jsnum jsnum
  | Rect jsnum jsnum jsnum jsnum
  | DrawImage jsnum jsnum jsnum jsnum
  | FillRect jsnum jsnum jsnum jsnum
  | ClearRect jsnum jsnum jsnum jsnum
  | Translate jsnum jsnum
  | Rotate jsnum
  | Save
  | Restore
  | Stroke
  | Fill

subsection \<open>The instance\<close>

text \<open>
  \<open>frames\<close> are the animation frames requested and not yet run, by their identifiers;
  \<open>img_requests\<close> the image and file loads under way; \<open>svg_requests\<close> the particles whose coloured
  image is loading; \<open>repulse_timers\<close> the number of running \<open>repulse\<close> timeouts; \<open>ops\<close> what has
  been drawn, oldest first.
\<close>

record pjs =
  cfg :: config
  canv :: canvas
  environ :: env
  parr :: "particle list"
  mouse :: mouse
  status :: mouse_status
  tmp :: tmp
  rng :: rng
  next_pid :: nat
  now :: jsnum
  ops :: "canvas_op list"
  frames :: "nat list"
  next_frame :: nat
  drawAnimFrame :: "nat option"
  resize_listeners :: nat
  img_requests :: nat
  svg_requests :: "nat list"
  repulse_timers :: nat

definition emit :: "canvas_op list \<Rightarrow> pjs \<Rightarrow> pjs" where
  "emit l s = s\<lparr>ops := ops s @ l\<rparr>"

text \<open>\<open>isInArray(value, array)\<close>; a single mode given as a string is searched as a string.\<close>

definition isInArray :: "string \<Rightarrow> str_or_arr \<Rightarrow> bool" where
  "isInArray value arr \<longleftrightarrow> indexOf arr value > - 1"

definition clamp :: "jsnum \<Rightarrow> jsnum \<Rightarrow> jsnum \<Rightarrow> jsnum" where
  "clamp number lo hi = Math_min (Math_max number lo) hi"

lemma clamp_Num [simp]: "clamp (Num a) (Num b) (Num c) = Num (min (max a b) c)"
  by (simp add: clamp_def)

lemma isInArray_array [simp]: "isInArray v (JArrV xs) \<longleftrightarrow> v \<in> set xs"
  by (simp add: isInArray_def arr_index_from_ge)

lemma isInArray_string: "isInArray v (JStrV s) \<longleftrightarrow> (\<exists>us ws. s = us @ v @ ws)"
  by (simp add: isInArray_def indexOf_found del: indexOf.simps)

text \<open>The distance of two points, as every interaction computes it.\<close>

definition dist_xy :: "jsnum \<Rightarrow> jsnum \<Rightarrow> jsnum" where
  "dist_xy dx dy = Math_sqrt (dx * dx + dy * dy)"

lemma dist_xy_Num [simp]: "dist_xy (Num a) (Num b) = Num (sqrt (a * a + b * b))"
  by (simp add: dist_xy_def del: Math_sqrt.simps)

section \<open>hexToRgb\<close>

definition is_hex :: "char \<Rightarrow> bool" where
  \<comment> \<open>\<open>[a-f\d]\<close> with the flag \<open>i\<close>\<close>
  "is_hex c \<longleftrightarrow> c \<in> set ''0123456789abcdefABCDEF''"

fun hex_digit :: "char \<Rightarrow> nat" where
  "hex_digit c =
     (let n = (of_char c :: nat) in
      if n \<ge> 97 then n - 87 else if n \<ge> 65 then n - 55 else n - 48)"

definition parseInt16 :: "char \<Rightarrow> char \<Rightarrow> jsnum" where
  \<comment> \<open>\<open>parseInt\<close> of two hexadecimal digits\<close>
  "parseInt16 a b = Num (of_nat (16 * hex_digit a + hex_digit b))"

definition strip_hash :: "string \<Rightarrow> string" where
  \<comment> \<open>the optional \<open>#\<close> at the start of both patterns\<close>
  "strip_hash s = (case s of [] \<Rightarrow> [] | c # cs \<Rightarrow> if c = CHR ''#'' then cs else s)"

definition expand_shorthand :: "string \<Rightarrow> string" where
  "expand_shorthand hex =
     (case strip_hash hex of
        [r, g, b] \<Rightarrow> if is_hex r \<and> is_hex g \<and> is_hex b then [r, r, g, g, b, b] else hex
      | _ \<Rightarrow> hex)"

definition hexToRgb :: "string \<Rightarrow> rgb option" where
  "hexToRgb hex =
     (case strip_hash (expand_shorthand hex) of
        [r1, r2, g1, g2, b1, b2] \<Rightarrow>
          if list_all is_hex [r1, r2, g1, g2, b1, b2]
          then Some \<lparr>rgb_r = parseInt16 r1 r2, rgb_g = parseInt16 g1 g2, rgb_b = parseInt16 b1 b2\<rparr>
          else None
      | _ \<Rightarrow> None)"

end
