(* ===== verification/Particles_Interact.thy ===== *)
theory Particles_Interact
  imports Particles_State
begin

section \<open>particles.js: interactions\<close>

text \<open>
  The interactions between two particles (\<open>pJS.fn.interact\<close>) and between a particle and the mouse
  (\<open>grabParticle\<close>, \<open>bubbleParticle\<close>, \<open>repulseParticle\<close> of \<open>pJS.fn.modes\<close>).
\<close>

subsection \<open>Between two particles\<close>

text \<open>
  A line of the link and grab effects: its colour is \<open>color_rgb_line\<close>, whose fields are read, so
  an absent colour throws.
\<close>

definition stroke_line ::
    "line_cfg \<Rightarrow> jsnum \<Rightarrow> jsnum \<Rightarrow> jsnum \<Rightarrow> jsnum \<Rightarrow> jsnum \<Rightarrow> canvas_op list res" where
  "stroke_line c opacity_line x1 y1 x2 y2 =
     (case color_rgb_line c of
        None \<Rightarrow> Inl TypeError
      | Some k \<Rightarrow>
          Inr [StrokeStyle (Rgba (rgb_r k) (rgb_g k) (rgb_b k) opacity_line),
               LineWidth (line_width c), BeginPath, MoveTo x1 y1, LineTo x2 y2, Stroke, ClosePath])"

definition link_opacity :: "jsnum \<Rightarrow> jsnum \<Rightarrow> jsnum \<Rightarrow> jsnum" where
  "link_opacity opa dst distance = opa - (dst / (Num 1 / opa)) / distance"

definition linkParticles :: "line_cfg \<Rightarrow> particle \<Rightarrow> particle \<Rightarrow> canvas_op list res" where
  "linkParticles c p1 p2 =
     (let dx = px p1 - px p2; dy = py p1 - py p2; dst = dist_xy dx dy in
      if dst \<le> line_distance c then
        (let opacity_line = link_opacity (line_opacity c) dst (line_distance c) in
         if opacity_line > Num 0
         then stroke_line c opacity_line (px p1) (py p1) (px p2) (py p2)
         else Inr [])
      else Inr [])"

definition attractParticles :: "config \<Rightarrow> particle \<Rightarrow> particle \<Rightarrow> particle \<times> particle" where
  "attractParticles c p1 p2 =
     (let dx = px p1 - px p2; dy = py p1 - py p2; dst = dist_xy dx dy in
      if dst \<le> line_distance (linec c) then
        (let ax = dx / (rotateX (movec c) * Num 1000);
             ay = dy / (rotateY (movec c) * Num 1000)
         in (p1\<lparr>vx := vx p1 - ax, vy := vy p1 - ay\<rparr>, p2\<lparr>vx := vx p2 + ax, vy := vy p2 + ay\<rparr>))
      else (p1, p2))"

definition bounceParticles :: "particle \<Rightarrow> particle \<Rightarrow> particle \<times> particle" where
  "bounceParticles p1 p2 =
     (let dx = px p1 - px p2; dy = py p1 - py p2; dst = dist_xy dx dy;
          dist_p = radius p1 + radius p2 in
      if dst \<le> dist_p
      then (p1\<lparr>vx := - vx p1, vy := - vy p1\<rparr>, p2\<lparr>vx := - vx p2, vy := - vy p2\<rparr>)
      else (p1, p2))"

text \<open>The three interactions of one pair, in the order of the inner loop of \<open>particlesUpdate\<close>.\<close>

definition interact_pair ::
    "config \<Rightarrow> particle \<Rightarrow> particle \<Rightarrow> (canvas_op list \<times> particle \<times> particle) res" where
  "interact_pair c p p2 =
     andThen (if line_enable (linec c) then linkParticles (linec c) p p2 else Inr [])
       (\<lambda>l. let (p, p2) = (if attract_enable (movec c) then attractParticles c p p2 else (p, p2));
                (p, p2) = (if bounce (movec c) then bounceParticles p p2 else (p, p2))
            in Inr (l, p, p2))"

subsection \<open>With the mouse: grab\<close>

definition grabParticle :: "pjs \<Rightarrow> particle \<Rightarrow> canvas_op list res" where
  "grabParticle s p =
     (let i = interc (cfg s); mx = to_number (pos_x (mouse s)); my = to_number (pos_y (mouse s)) in
      if onhover_enable i \<and> status s = MouseMove then
        (let dist_mouse = dist_xy (px p - mx) (py p - my) in
         if dist_mouse \<le> grab_distance i then
           (let opacity_line = link_opacity (grab_opacity i) dist_mouse (grab_distance i) in
            if opacity_line > Num 0
            then stroke_line (linec (cfg s)) opacity_line (px p) (py p) mx my
            else Inr [])
         else Inr [])
      else Inr [])"

subsection \<open>With the mouse: bubble\<close>

definition bubble_init :: "particle \<Rightarrow> particle" where
  "bubble_init p = p\<lparr>opacity_bubble := Some (opacity p), radius_bubble := Some (radius p)\<rparr>"

definition bubble_hover_size :: "jsnum \<Rightarrow> jsnum \<Rightarrow> jsnum \<Rightarrow> particle \<Rightarrow> particle" where
  "bubble_hover_size bsize psize ratio p =
     (if \<not> js_eq bsize psize then
        (if bsize > psize then
           (let sz = radius p + (bsize * ratio) in
            if sz \<ge> Num 0 then p\<lparr>radius_bubble := Some sz\<rparr> else p)
         else
           (let dif = radius p - bsize; sz = radius p - (dif * ratio) in
            if sz > Num 0 then p\<lparr>radius_bubble := Some sz\<rparr>
            else p\<lparr>radius_bubble := Some (Num 0)\<rparr>))
      else p)"

definition bubble_hover_opacity :: "jsnum \<Rightarrow> jsnum \<Rightarrow> jsnum \<Rightarrow> particle \<Rightarrow> particle" where
  "bubble_hover_opacity bopa popa ratio p =
     (if \<not> js_eq bopa popa then
        (if bopa > popa then
           (let opa = bopa * ratio in
            if opa > opacity p \<and> opa \<le> bopa then p\<lparr>opacity_bubble := Some opa\<rparr> else p)
         else
           (let opa = opacity p - (popa - bopa) * ratio in
            if opa < opacity p \<and> opa \<ge> bopa then p\<lparr>opacity_bubble := Some opa\<rparr> else p))
      else p)"

definition bubble_hover :: "pjs \<Rightarrow> particle \<Rightarrow> particle" where
  "bubble_hover s p =
     (let i = interc (cfg s);
          dx_mouse = px p - to_number (pos_x (mouse s));
          dy_mouse = py p - to_number (pos_y (mouse s));
          dist_mouse = dist_xy dx_mouse dy_mouse;
          ratio = Num 1 - dist_mouse / bubble_distance i;
          p = (if dist_mouse \<le> bubble_distance i then
                 (if ratio \<ge> Num 0 \<and> status s = MouseMove then
                    bubble_hover_opacity (bubble_opacity i) (opacity_value (opacityc (cfg s))) ratio
                      (bubble_hover_size (bubble_size i) (size_value (sizec (cfg s))) ratio p)
                  else p)
               else bubble_init p)
      in if status s = MouseLeave then bubble_init p else p)"

text \<open>
  The local function \<open>process\<close> of the click branch, for one of the two attributes: the new value
  of \<open>p_obj_bubble\<close>.
\<close>

definition bubble_process ::
    "bool \<Rightarrow> jsnum \<Rightarrow> jsnum \<Rightarrow> jsnum \<Rightarrow> jsnum \<Rightarrow> jsnum \<Rightarrow> jsnum \<Rightarrow> jsnum option \<Rightarrow> jsnum \<Rightarrow> jsnum option" where
  "bubble_process duration_end dist_mouse distance time_spent duration
       bubble_param particles_param p_obj_bubble p_obj =
     (if \<not> js_eq bubble_param particles_param then
        (if \<not> duration_end then
           (if dist_mouse \<le> distance then
              (let obj = (case p_obj_bubble of Some b \<Rightarrow> b | None \<Rightarrow> p_obj) in
               if \<not> js_eq obj bubble_param
               then Some (p_obj - (time_spent * (p_obj - bubble_param) / duration))
               else p_obj_bubble)
            else None)
         else
           (case p_obj_bubble of
              Some _ \<Rightarrow>
                (let value_tmp = p_obj - (time_spent * (p_obj - bubble_param) / duration);
                     dif = bubble_param - value_tmp
                 in Some (bubble_param + dif))
            | None \<Rightarrow> None))
      else p_obj_bubble)"

definition bubble_click :: "pjs \<Rightarrow> particle \<Rightarrow> pjs \<times> particle" where
  "bubble_click s p =
     (if bubble_clicking (tmp s) then
        (let i = interc (cfg s);
             dx_mouse = px p - to_number (click_pos_x (mouse s));
             dy_mouse = py p - to_number (click_pos_y (mouse s));
             dist_mouse = dist_xy dx_mouse dy_mouse;
             time_spent = (now s - click_time (mouse s)) / Num 1000;
             s = (if time_spent > bubble_duration i
                  then s\<lparr>tmp := (tmp s)\<lparr>bubble_duration_end := True\<rparr>\<rparr> else s);
             s = (if time_spent > bubble_duration i * Num 2
                  then s\<lparr>tmp := (tmp s)\<lparr>bubble_clicking := False, bubble_duration_end := False\<rparr>\<rparr>
                  else s)
         in if bubble_clicking (tmp s) then
              (let proc = bubble_process (bubble_duration_end (tmp s)) dist_mouse (bubble_distance i)
                            time_spent (bubble_duration i);
                   p = p\<lparr>radius_bubble :=
                           proc (bubble_size i) (size_value (sizec (cfg s))) (radius_bubble p) (radius p)\<rparr>;
                   p = p\<lparr>opacity_bubble :=
                           proc (bubble_opacity i) (opacity_value (opacityc (cfg s)))
                             (opacity_bubble p) (opacity p)\<rparr>
               in (s, p))
            else (s, p))
      else (s, p))"

definition bubbleParticle :: "pjs \<Rightarrow> particle \<Rightarrow> pjs \<times> particle" where
  "bubbleParticle s p =
     (let i = interc (cfg s) in
      if onhover_enable i \<and> isInArray ''bubble'' (onhover_mode i) then (s, bubble_hover s p)
      else if onclick_enable i \<and> isInArray ''bubble'' (onclick_mode i) then bubble_click s p
      else (s, p))"

subsection \<open>With the mouse: repulse\<close>

definition repulse_hover :: "pjs \<Rightarrow> particle \<Rightarrow> particle" where
  "repulse_hover s p =
     (let dx_mouse = px p - to_number (pos_x (mouse s));
          dy_mouse = py p - to_number (pos_y (mouse s));
          dist_mouse = dist_xy dx_mouse dy_mouse;
          normVec_x = dx_mouse / dist_mouse;
          normVec_y = dy_mouse / dist_mouse;
          repulseRadius = repulse_distance (interc (cfg s));
          velocity = Num 100;
          repulseFactor =
            clamp ((Num 1 / repulseRadius) *
                   (Num (- 1) * Math_pow (dist_mouse / repulseRadius) 2 + Num 1) *
                   repulseRadius * velocity) (Num 0) (Num 50);
          x = px p + normVec_x * repulseFactor;
          y = py p + normVec_y * repulseFactor
      in if out_mode (movec (cfg s)) = ''bounce'' then
           (let p = (if x - radius p > Num 0 \<and> x + radius p < canvas_w (canv s)
                     then p\<lparr>px := x\<rparr> else p)
            in if y - radius p > Num 0 \<and> y + radius p < canvas_h (canv s)
               then p\<lparr>py := y\<rparr> else p)
         else p\<lparr>px := x, py := y\<rparr>)"

text \<open>Reversing a velocity that would leave the canvas, along one axis.\<close>

definition reflect :: "jsnum \<Rightarrow> jsnum \<Rightarrow> jsnum \<Rightarrow> jsnum \<Rightarrow> jsnum" where
  "reflect x r len v = (if x + r > len then - v else if x - r < Num 0 then - v else v)"

definition repulse_process :: "pjs \<Rightarrow> jsnum \<Rightarrow> jsnum \<Rightarrow> jsnum \<Rightarrow> particle \<Rightarrow> particle" where
  "repulse_process s dx dy force p =
     (let f = Math_atan2 dy dx;
          p = p\<lparr>vx := force * Math_cos f, vy := force * Math_sin f\<rparr>
      in if out_mode (movec (cfg s)) = ''bounce'' then
           (let x = px p + vx p; y = py p + vy p in
            p\<lparr>vx := reflect x (radius p) (canvas_w (canv s)) (vx p),
              vy := reflect y (radius p) (canvas_h (canv s)) (vy p)\<rparr>)
         else p)"

definition repulse_click :: "pjs \<Rightarrow> particle \<Rightarrow> pjs \<times> particle" where
  "repulse_click s p =
     (let t = tmp s;
          t = (if \<not> repulse_finish t then
                 (let t = t\<lparr>repulse_count := repulse_count t + Num 1\<rparr> in
                  if js_eq (repulse_count t) (Num (real (length (parr s))))
                  then t\<lparr>repulse_finish := True\<rparr> else t)
               else t);
          s = s\<lparr>tmp := t\<rparr>
      in if repulse_clicking t = Some True then
           (let repulseRadius = Math_pow (repulse_distance (interc (cfg s)) / Num 6) 3;
                dx = to_number (click_pos_x (mouse s)) - px p;
                dy = to_number (click_pos_y (mouse s)) - py p;
                d = dx * dx + dy * dy;
                force = - repulseRadius / d * Num 1
            in (s, if d \<le> repulseRadius then repulse_process s dx dy force p else p))
         else if repulse_clicking t = Some False then (s, p\<lparr>vx := vx_i p, vy := vy_i p\<rparr>)
         else (s, p))"

definition repulseParticle :: "pjs \<Rightarrow> particle \<Rightarrow> pjs \<times> particle" where
  "repulseParticle s p =
     (let i = interc (cfg s) in
      if onhover_enable i \<and> isInArray ''repulse'' (onhover_mode i) \<and> status s = MouseMove
      then (s, repulse_hover s p)
      else if onclick_enable i \<and> isInArray ''repulse'' (onclick_mode i) then repulse_click s p
      else (s, p))"

end
