(* ===== verification/Particles_Create.thy ===== *)
theory Particles_Create
  imports Particles_State
begin

section \<open>particles.js: creating a particle\<close>

text \<open>
  The constructor \<open>pJS.fn.particle\<close>, one definition per section of its body, and the vendor
  functions it calls (\<open>checkOverlap\<close>, \<open>createSvgImg\<close>).  Random numbers are drawn in the order
  the code draws them.
\<close>

subsection \<open>Size, position, opacity, velocity\<close>

definition init_size :: "size_cfg \<Rightarrow> rng \<Rightarrow> (jsnum \<times> jsnum) \<times> rng" where
  \<comment> \<open>the pair is \<open>(radius, vs)\<close>; \<open>vs\<close> stays undefined without the size animation\<close>
  "init_size c g =
     (let (u, g) = random_if (size_random c) g;
          r = u * size_value c in
      if size_anim_enable c then
        (let v = size_anim_speed c / Num 100 in
         if \<not> size_anim_sync c
         then (let (u, g) = Math_random g in ((r, v * u), g))
         else ((r, v), g))
      else ((r, NaN), g))"

text \<open>The correction that moves a new particle away from the border, along one axis.\<close>

definition into_canvas :: "jsnum \<Rightarrow> jsnum \<Rightarrow> jsnum \<Rightarrow> jsnum" where
  "into_canvas len r x =
     (if x > len - r * Num 2 then x - r else if x < r * Num 2 then x + r else x)"

definition init_position ::
    "canvas \<Rightarrow> (jsnum \<times> jsnum) option \<Rightarrow> rng \<Rightarrow> (jsnum \<times> jsnum) \<times> rng" where
  "init_position c position g =
     (case position of
        Some (x, y) \<Rightarrow> ((x, y), g)
      | None \<Rightarrow>
          (let (u, g) = Math_random g; (v, g) = Math_random g
           in ((u * canvas_w c, v * canvas_h c), g)))"

definition init_opacity :: "opacity_cfg \<Rightarrow> rng \<Rightarrow> (jsnum \<times> jsnum) \<times> rng" where
  "init_opacity c g =
     (let (u, g) = random_if (opacity_random c) g;
          opa = u * opacity_value c in
      if opacity_anim_enable c then
        (let v = opacity_anim_speed c / Num 100 in
         if \<not> opacity_anim_sync c
         then (let (u, g) = Math_random g in ((opa, v * u), g))
         else ((opa, v), g))
      else ((opa, NaN), g))"

definition velbase :: "string \<Rightarrow> jsnum \<times> jsnum" where
  "velbase d =
     (if d = ''top'' then (Num 0, Num (- 1))
      else if d = ''top-right'' then (Num 0.5, Num (- 0.5))
      else if d = ''right'' then (Num 1, Num 0)
      else if d = ''bottom-right'' then (Num 0.5, Num 0.5)
      else if d = ''bottom'' then (Num 0, Num 1)
      else if d = ''bottom-left'' then (Num (- 0.5), Num 1)
      else if d = ''left'' then (Num (- 1), Num 0)
      else if d = ''top-left'' then (Num (- 0.5), Num (- 0.5))
      else (Num 0, Num 0))"

definition init_velocity :: "move_cfg \<Rightarrow> rng \<Rightarrow> (jsnum \<times> jsnum) \<times> rng" where
  "init_velocity c g =
     (let (bx, by) = velbase (direction c) in
      if straight c then
        (if move_random c
         then (let (u, g) = Math_random g; (v, g) = Math_random g in ((bx * u, by * v), g))
         else ((bx, by), g))
      else
        (let (u, g) = Math_random g; (v, g) = Math_random g
         in ((bx + u - Num 0.5, by + v - Num 0.5), g)))"

subsection \<open>Colour and shape\<close>

text \<open>
  The index \<open>Math.floor(Math.random() * length)\<close> of an array; an empty array gives \<open>undefined\<close>.
\<close>

definition random_index :: "nat \<Rightarrow> rng \<Rightarrow> nat option \<times> rng" where
  "random_index n g =
     (let (u, g) = Math_random g in
      (case Math_floor (u * Num (real n)) of
         Num r \<Rightarrow> (if nat \<lfloor>r\<rfloor> < n then Some (nat \<lfloor>r\<rfloor>) else None, g)
       | _ \<Rightarrow> (None, g)))"

definition random_byte :: "rng \<Rightarrow> jsnum \<times> rng" where
  "random_byte g =
     (let (u, g) = Math_random g
      in (Math_floor (u * (Num 255 - Num 0 + Num 1)) + Num 0, g))"

definition init_color :: "color_value \<Rightarrow> rng \<Rightarrow> (pcolor \<times> rng) res" where
  \<comment> \<open>\<open>hexToRgb(undefined)\<close> throws\<close>
  "init_color c g =
     (case c of
        ColorArray cs \<Rightarrow>
          (let (i, g) = random_index (length cs) g in
           (case i of
              None \<Rightarrow> Inl TypeError
            | Some k \<Rightarrow> Inr (\<lparr>color_rgb = hexToRgb (cs ! k), color_hsl = None\<rparr>, g)))
      | ColorObject k h \<Rightarrow> Inr (\<lparr>color_rgb = k, color_hsl = h\<rparr>, g)
      | ColorString v \<Rightarrow>
          (if v = ''random'' then
             (let (r, g) = random_byte g; (gr, g) = random_byte g; (b, g) = random_byte g in
              Inr (\<lparr>color_rgb = Some \<lparr>rgb_r = r, rgb_g = gr, rgb_b = b\<rparr>, color_hsl = None\<rparr>, g))
           else Inr (\<lparr>color_rgb = hexToRgb v, color_hsl = None\<rparr>, g)))"

definition init_shape :: "shape_cfg \<Rightarrow> rng \<Rightarrow> string option \<times> rng" where
  "init_shape c g =
     (case shape_type c of
        JArrV ts \<Rightarrow>
          (let (i, g) = random_index (length ts) g in
           (case i of None \<Rightarrow> (None, g) | Some k \<Rightarrow> (Some (ts ! k), g)))
      | JStrV t \<Rightarrow> (Some t, g))"

text \<open>The \<open>fillStyle\<close> of a particle: \<open>rgb\<close> if there is one, else \<open>hsl\<close>, which must then exist.\<close>

definition particle_css :: "pcolor \<Rightarrow> jsnum \<Rightarrow> css_color res" where
  "particle_css c a =
     (case color_rgb c of
        Some k \<Rightarrow> Inr (Rgba (rgb_r k) (rgb_g k) (rgb_b k) a)
      | None \<Rightarrow>
          (case color_hsl c of
             Some h \<Rightarrow> Inr (Hsla (hsl_h h) (hsl_s h) (hsl_l h) a)
           | None \<Rightarrow> Inl TypeError))"

subsection \<open>Coloured SVG images\<close>

text \<open>
  \<open>svgXml.replace(/#([0-9A-F]{3,6})/gi, ...)\<close>: a \<open>#\<close> followed by at least three hexadecimal
  digits is replaced, together with at most six of them, by the colour of the particle.
\<close>

datatype svg_piece = SvgChar char | SvgColor css_color

fun svg_recolor :: "css_color res \<Rightarrow> string \<Rightarrow> svg_piece list res" where
  "svg_recolor col [] = Inr []"
| "svg_recolor col (c # cs) =
     (let k = length (takeWhile is_hex (take 6 cs)) in
      if c = CHR ''#'' \<and> 3 \<le> k
      then andThen col (\<lambda>v. andThen (svg_recolor col (drop k cs)) (\<lambda>ps. Inr (SvgColor v # ps)))
      else andThen (svg_recolor col cs) (\<lambda>ps. Inr (SvgChar c # ps)))"

definition createSvgImg :: "particle \<Rightarrow> pjs \<Rightarrow> pjs res" where
  \<comment> \<open>the image element is a load under way; \<open>svg_loaded\<close> below is its \<open>load\<close> listener\<close>
  "createSvgImg p s =
     (case source_svg (tmp s) of
        None \<Rightarrow> Inl TypeError
      | Some svgXml \<Rightarrow>
          andThen (svg_recolor (particle_css (pcol p) (opacity p)) svgXml)
            (\<lambda>_. Inr (s\<lparr>svg_requests := svg_requests s @ [pid p]\<rparr>)))"

definition set_img_loaded :: "nat \<Rightarrow> particle \<Rightarrow> particle" where
  "set_img_loaded i p =
     (if pid p = i
      then p\<lparr>pimg := map_option (\<lambda>m. m\<lparr>img_obj := True, img_loaded := Some True\<rparr>) (pimg p)\<rparr>
      else p)"

definition svg_loaded :: "nat \<Rightarrow> pjs \<Rightarrow> pjs" where
  "svg_loaded i s =
     s\<lparr>parr := map (set_img_loaded i) (parr s),
       svg_requests := remove1 i (svg_requests s),
       tmp := (tmp s)\<lparr>count_svg := count_svg (tmp s) + Num 1\<rparr>\<rparr>"

definition init_image :: "shape_cfg \<Rightarrow> img" where
  "init_image sh =
     (let ratio = image_width sh / image_height sh in
      \<lparr>img_src = image_src sh, img_ratio = (if \<not> num_truthy ratio then Num 1 else ratio),
       img_loaded = None, img_obj = False\<rparr>)"

subsection \<open>Overlap\<close>

text \<open>
  \<open>checkOverlap(p1, position)\<close>.  The loop runs over the whole array and does not stop after it
  has moved the particle, which the recursive call does without a position.  The depth of the
  recursion is bounded by the call stack: at depth 0 the call throws a \<open>RangeError\<close>.
\<close>

definition overlaps :: "particle \<Rightarrow> particle \<Rightarrow> bool" where
  "overlaps p1 p2 \<longleftrightarrow> dist_xy (px p1 - px p2) (py p1 - py p2) \<le> radius p1 + radius p2"

fun overlap_loop ::
    "(particle \<Rightarrow> rng \<Rightarrow> (particle \<times> rng) res) \<Rightarrow> canvas \<Rightarrow> (jsnum \<times> jsnum) option \<Rightarrow>
     particle list \<Rightarrow> particle \<Rightarrow> rng \<Rightarrow> (particle \<times> rng) res" where
  "overlap_loop rec c position [] p1 g = Inr (p1, g)"
| "overlap_loop rec c position (p2 # ps) p1 g =
     (if overlaps p1 p2
      then (let ((x, y), g) = init_position c position g in
            andThen (rec (p1\<lparr>px := x, py := y\<rparr>) g)
              (\<lambda>(p1, g). overlap_loop rec c position ps p1 g))
      else overlap_loop rec c position ps p1 g)"

fun checkOverlap ::
    "nat \<Rightarrow> canvas \<Rightarrow> particle list \<Rightarrow> (jsnum \<times> jsnum) option \<Rightarrow> particle \<Rightarrow> rng \<Rightarrow>
     (particle \<times> rng) res" where
  "checkOverlap 0 c arr position p1 g = Inl RangeError"
| "checkOverlap (Suc depth) c arr position p1 g =
     overlap_loop (checkOverlap depth c arr None) c position arr p1 g"

subsection \<open>The constructor\<close>

text \<open>The first half of the body: size, position, and the check for overlaps.\<close>

definition place_particle :: "(jsnum \<times> jsnum) option \<Rightarrow> pjs \<Rightarrow> (particle \<times> rng) res" where
  "place_particle position s =
     (let ((r, v), g) = init_size (sizec (cfg s)) (rng s);
          ((x, y), g) = init_position (canv s) position g;
          x = into_canvas (canvas_w (canv s)) r x;
          y = into_canvas (canvas_h (canv s)) r y;
          p = \<lparr>pid = next_pid s, px = x, py = y, vx = NaN, vy = NaN, vx_i = NaN, vy_i = NaN,
               radius = r, size_status = False, vs = v, opacity = NaN, opacity_status = False,
               vo = NaN, pcol = \<lparr>color_rgb = None, color_hsl = None\<rparr>, pshape = None,
               radius_bubble = None, opacity_bubble = None, pimg = None\<rparr>
      in if bounce (movec (cfg s))
         then checkOverlap (max_depth (environ s)) (canv s) (parr s) position p g
         else Inr (p, g))"

text \<open>Opacity, velocity and shape of a placed particle of colour \<open>col\<close>.\<close>

definition dress_particle :: "config \<Rightarrow> pcolor \<Rightarrow> particle \<Rightarrow> rng \<Rightarrow> particle \<times> rng" where
  "dress_particle c col p g =
     (let ((opa, w), g) = init_opacity (opacityc c) g;
          ((ax, ay), g) = init_velocity (movec c) g;
          (sh, g) = init_shape (shapec c) g
      in (p\<lparr>pcol := col, opacity := opa, vo := w, vx := ax, vy := ay, vx_i := ax, vy_i := ay,
            pshape := sh\<rparr>, g))"

text \<open>The last part: the image of a particle whose shape is an image.\<close>

definition attach_image :: "particle \<Rightarrow> pjs \<Rightarrow> (particle \<times> pjs) res" where
  "attach_image p s =
     (if pshape p = Some ''image'' then
        (let p = p\<lparr>pimg := Some (init_image (shapec (cfg s)))\<rparr> in
         if img_type (tmp s) = Some ''svg'' \<and> source_svg (tmp s) \<noteq> None
         then andThen (createSvgImg p s)
           (\<lambda>s. Inr (if pushing (tmp s)
                     then p\<lparr>pimg := map_option (img_loaded_update (\<lambda>_. Some False)) (pimg p)\<rparr>
                     else p, s))
         else Inr (p, s))
      else Inr (p, s))"

definition new_particle :: "(jsnum \<times> jsnum) option \<Rightarrow> pjs \<Rightarrow> (particle \<times> pjs) res" where
  "new_particle position s =
     andThen (place_particle position s)
       (\<lambda>(p, g). andThen (init_color (colorc (cfg s)) g)
         (\<lambda>(col, g).
            let (p, g) = dress_particle (cfg s) col p g
            in attach_image p (s\<lparr>rng := g, next_pid := next_pid s + 1\<rparr>)))"

lemma new_particle_stages:
  assumes "new_particle position s = Inr (q, t)"
  obtains p g col g' p' g'' where
    "place_particle position s = Inr (p, g)" "init_color (colorc (cfg s)) g = Inr (col, g')"
    "dress_particle (cfg s) col p g' = (p', g'')"
    "attach_image p' (s\<lparr>rng := g'', next_pid := next_pid s + 1\<rparr>) = Inr (q, t)"
  using assms unfolding new_particle_def
  by (auto simp: Let_def elim!: andThen_InrE split: prod.splits)

end
