(* ===== verification/Particles_Frame.thy ===== *)
theory Particles_Frame
  imports Particles_Interact Particles_Create
begin

section \<open>particles.js: one frame\<close>

text \<open>
  \<open>particlesUpdate\<close>, the drawing of a particle and \<open>particlesDraw\<close>; then the operations that
  change the number of particles, which redraw when the animation is off.
\<close>

subsection \<open>particlesUpdate\<close>

definition move_particle :: "move_cfg \<Rightarrow> particle \<Rightarrow> particle" where
  "move_particle c p =
     (if move_enable c
      then (let ms = move_speed c / Num 2 in p\<lparr>px := px p + vx p * ms, py := py p + vy p * ms\<rparr>)
      else p)"

definition update_opacity :: "opacity_cfg \<Rightarrow> particle \<Rightarrow> particle" where
  "update_opacity c p =
     (if opacity_anim_enable c then
        (let p = (if opacity_status p then
                    (let p = (if opacity p \<ge> opacity_value c then p\<lparr>opacity_status := False\<rparr> else p)
                     in p\<lparr>opacity := opacity p + vo p\<rparr>)
                  else
                    (let p = (if opacity p \<le> opacity_min c then p\<lparr>opacity_status := True\<rparr> else p)
                     in p\<lparr>opacity := opacity p - vo p\<rparr>))
         in if opacity p < Num 0 then p\<lparr>opacity := Num 0\<rparr> else p)
      else p)"

definition update_size :: "size_cfg \<Rightarrow> particle \<Rightarrow> particle" where
  "update_size c p =
     (if size_anim_enable c then
        (let p = (if size_status p then
                    (let p = (if radius p \<ge> size_value c then p\<lparr>size_status := False\<rparr> else p)
                     in p\<lparr>radius := radius p + vs p\<rparr>)
                  else
                    (let p = (if radius p \<le> size_min c then p\<lparr>size_status := True\<rparr> else p)
                     in p\<lparr>radius := radius p - vs p\<rparr>))
         in if radius p < Num 0 then p\<lparr>radius := Num 0\<rparr> else p)
      else p)"

definition wrap_position :: "move_cfg \<Rightarrow> canvas \<Rightarrow> particle \<Rightarrow> rng \<Rightarrow> particle \<times> rng" where
  "wrap_position m c p g =
     (let w = canvas_w c; h = canvas_h c;
          (x_left, x_right, y_top, y_bottom) =
            (if out_mode m = ''bounce'' then (radius p, w, radius p, h)
             else (- radius p, w + radius p, - radius p, h + radius p));
          (p, g) =
            (if px p - radius p > w then
               (let (u, g) = Math_random g in (p\<lparr>px := x_left, py := u * h\<rparr>, g))
             else if px p + radius p < Num 0 then
               (let (u, g) = Math_random g in (p\<lparr>px := x_right, py := u * h\<rparr>, g))
             else (p, g))
      in if py p - radius p > h then
           (let (u, g) = Math_random g in (p\<lparr>py := y_top, px := u * w\<rparr>, g))
         else if py p + radius p < Num 0 then
           (let (u, g) = Math_random g in (p\<lparr>py := y_bottom, px := u * w\<rparr>, g))
         else (p, g))"

definition bounce_walls :: "move_cfg \<Rightarrow> canvas \<Rightarrow> particle \<Rightarrow> particle" where
  "bounce_walls m c p =
     (if out_mode m = ''bounce''
      then p\<lparr>vx := reflect (px p) (radius p) (canvas_w c) (vx p),
             vy := reflect (py p) (radius p) (canvas_h c) (vy p)\<rparr>
      else p)"

text \<open>The part of an iteration that concerns the particle alone: motion, animation, borders.\<close>

definition advance :: "config \<Rightarrow> canvas \<Rightarrow> particle \<Rightarrow> rng \<Rightarrow> particle \<times> rng" where
  "advance c cv p g =
     (let p = update_size (sizec c) (update_opacity (opacityc c) (move_particle (movec c) p));
          (p, g) = wrap_position (movec c) cv p g
      in (bounce_walls (movec c) cv p, g))"

text \<open>The mouse effects, each applied when one of its modes is configured.\<close>

definition mouse_effects :: "pjs \<Rightarrow> particle \<Rightarrow> (pjs \<times> particle) res" where
  "mouse_effects s p =
     (let i = interc (cfg s) in
      andThen (if isInArray ''grab'' (onhover_mode i) then grabParticle s p else Inr [])
        (\<lambda>l. let s = emit l s;
                 (s, p) = (if isInArray ''bubble'' (onhover_mode i) \<or> isInArray ''bubble'' (onclick_mode i)
                           then bubbleParticle s p else (s, p));
                 (s, p) = (if isInArray ''repulse'' (onhover_mode i) \<or> isInArray ''repulse'' (onclick_mode i)
                           then repulseParticle s p else (s, p))
             in Inr (s, p)))"

definition interact_at :: "nat \<Rightarrow> nat \<Rightarrow> pjs \<Rightarrow> pjs res" where
  "interact_at i j s =
     andThen (interact_pair (cfg s) (parr s ! i) (parr s ! j))
       (\<lambda>(l, p, p2). Inr ((emit l s)\<lparr>parr := (parr s)[i := p, j := p2]\<rparr>))"

definition update_at :: "nat \<Rightarrow> pjs \<Rightarrow> pjs res" where
  "update_at i s =
     (let (p, g) = advance (cfg s) (canv s) (parr s ! i) (rng s) in
      andThen (mouse_effects (s\<lparr>rng := g\<rparr>) p)
        (\<lambda>(s, p).
           let s = s\<lparr>parr := (parr s)[i := p]\<rparr> in
           if line_enable (linec (cfg s)) \<or> attract_enable (movec (cfg s))
           then for_each (interact_at i) [i + 1..<length (parr s)] s
           else Inr s))"

text \<open>
  The loop rereads the length of the array; no iteration changes it (\<open>update_at_frame\<close>), so the
  index runs over the initial length.
\<close>

definition particlesUpdate :: "pjs \<Rightarrow> pjs res" where
  "particlesUpdate s = for_each update_at [0..<length (parr s)] s"

subsection \<open>Drawing\<close>

definition drawShape ::
    "jsnum \<Rightarrow> jsnum \<Rightarrow> jsnum \<Rightarrow> jsnum \<Rightarrow> jsnum \<Rightarrow> canvas_op list res" where
  "drawShape startX startY sideLength sideCountNumerator sideCountDenominator =
     (let sideCount = sideCountNumerator * sideCountDenominator;
          decimalSides = sideCountNumerator / sideCountDenominator;
          interiorAngleDegrees = (Num 180 * (decimalSides - Num 2)) / decimalSides;
          interiorAngle = Num pi - Num pi * interiorAngleDegrees / Num 180
      in case loop_count sideCount of
           None \<Rightarrow> Inl Hangs
         | Some n \<Rightarrow>
             Inr ([Save, BeginPath, Translate startX startY, MoveTo (Num 0) (Num 0)] @
                  concat (replicate n
                    [LineTo sideLength (Num 0), Translate sideLength (Num 0), Rotate interiorAngle]) @
                  [Fill, Restore]))"

definition ctx_arc :: "jsnum \<Rightarrow> jsnum \<Rightarrow> jsnum \<Rightarrow> canvas_op list res" where
  \<comment> \<open>\<open>ctx.arc\<close> with finite arguments refuses a negative radius, and does nothing if one is not finite\<close>
  "ctx_arc x y r =
     (if is_Num x \<and> is_Num y \<and> is_Num r then (if r < Num 0 then Inl IndexSizeError else Inr [Arc x y r]) else Inr [])"

definition draw_shape :: "pjs \<Rightarrow> particle \<Rightarrow> jsnum \<Rightarrow> canvas_op list res" where
  "draw_shape s p r =
     (let x = px p; y = py p; nb = nb_sides (shapec (cfg s)) in
      case pshape p of
        None \<Rightarrow> Inr []
      | Some sh \<Rightarrow>
         (if sh = ''circle'' then ctx_arc x y r
          else if sh = ''edge'' then Inr [Rect (x - r) (y - r) (r * Num 2) (r * Num 2)]
          else if sh = ''triangle'' then
            drawShape (x - r) (y + r / Num 1.66) (r * Num 2) (Num 3) (Num 2)
          else if sh = ''polygon'' then
            drawShape (x - r / (nb / Num 3.5)) (y - r / (Num 2.66 / Num 3.5))
              (r * Num 2.66 / (nb / Num 3)) nb (Num 1)
          else if sh = ''star'' then
            drawShape (x - r * Num 2 / (nb / Num 4)) (y - r / (Num 2 * Num 2.66 / Num 3.5))
              (r * Num 2 * Num 2.66 / (nb / Num 3)) nb (Num 2)
          else if sh = ''image'' then
            (case pimg p of
               None \<Rightarrow> Inl TypeError
             | Some m \<Rightarrow>
                 (let img_obj = (if img_type (tmp s) = Some ''svg'' then img_obj m
                                 else img_loaded_obj (tmp s))
                  in Inr (if img_obj
                          then [DrawImage (x - r) (y - r) (r * Num 2) (r * Num 2 / img_ratio m)]
                          else [])))
          else Inr []))"

definition draw_particle :: "pjs \<Rightarrow> particle \<Rightarrow> canvas_op list res" where
  "draw_particle s p =
     (let r = (case radius_bubble p of Some b \<Rightarrow> b | None \<Rightarrow> radius p);
          opa = (case opacity_bubble p of Some b \<Rightarrow> b | None \<Rightarrow> opacity p);
          sh = shapec (cfg s)
      in andThen (particle_css (pcol p) opa)
           (\<lambda>color_value. andThen (draw_shape s p r)
             (\<lambda>l. Inr ([FillStyle color_value, BeginPath] @ l @ [ClosePath] @
                  (if stroke_width sh > Num 0
                   then [StrokeStyle (CssText (stroke_color sh)), LineWidth (stroke_width sh), Stroke]
                   else []) @ [Fill]))))"

definition draw_at :: "nat \<Rightarrow> pjs \<Rightarrow> pjs res" where
  "draw_at i s = andThen (draw_particle s (parr s ! i)) (\<lambda>l. Inr (emit l s))"

definition canvasPaint :: "pjs \<Rightarrow> pjs" where
  "canvasPaint s = emit [FillRect (Num 0) (Num 0) (canvas_w (canv s)) (canvas_h (canv s))] s"

definition canvasClear :: "pjs \<Rightarrow> pjs" where
  "canvasClear s = emit [ClearRect (Num 0) (Num 0) (canvas_w (canv s)) (canvas_h (canv s))] s"

definition particlesDraw :: "pjs \<Rightarrow> pjs res" where
  "particlesDraw s =
     andThen (particlesUpdate
                (emit [ClearRect (Num 0) (Num 0) (canvas_w (canv s)) (canvas_h (canv s))] s))
       (\<lambda>s. for_each draw_at [0..<length (parr s)] s)"

subsection \<open>Creating and removing particles\<close>

definition push_one :: "(jsnum \<times> jsnum) option \<Rightarrow> pjs \<Rightarrow> pjs res" where
  "push_one position s =
     andThen (new_particle position s) (\<lambda>(p, s). Inr (s\<lparr>parr := parr s @ [p]\<rparr>))"

definition particlesCreate :: "pjs \<Rightarrow> pjs res" where
  "particlesCreate s =
     (case loop_count (number_value (numberc (cfg s))) of
        None \<Rightarrow> Inl Hangs
      | Some n \<Rightarrow> for_each (\<lambda>_. push_one None) [0..<n] s)"

definition particlesEmpty :: "pjs \<Rightarrow> pjs" where
  "particlesEmpty s = s\<lparr>parr := []\<rparr>"

definition redraw_if_still :: "pjs \<Rightarrow> pjs res" where
  "redraw_if_still s = (if \<not> move_enable (movec (cfg s)) then particlesDraw s else Inr s)"

text \<open>
  One iteration of \<open>pushParticles\<close>.  The position is evaluated before the constructor runs: the
  mouse position, or a random point.
\<close>

definition push_position :: "mouse option \<Rightarrow> canvas \<Rightarrow> rng \<Rightarrow> (jsnum \<times> jsnum) \<times> rng" where
  "push_position pos c g =
     (case pos of
        Some m \<Rightarrow> ((to_number (pos_x m), to_number (pos_y m)), g)
      | None \<Rightarrow> init_position c None g)"

definition push_iteration :: "jsnum \<Rightarrow> mouse option \<Rightarrow> nat \<Rightarrow> pjs \<Rightarrow> pjs res" where
  "push_iteration nb pos i s =
     (let (xy, g) = push_position pos (canv s) (rng s) in
      andThen (push_one (Some xy) (s\<lparr>rng := g\<rparr>))
        (\<lambda>s. if js_eq (Num (real i)) (nb - Num 1)
             then andThen (redraw_if_still s) (\<lambda>s. Inr (s\<lparr>tmp := (tmp s)\<lparr>pushing := False\<rparr>\<rparr>))
             else Inr s))"

definition pushParticles :: "jsnum \<Rightarrow> mouse option \<Rightarrow> pjs \<Rightarrow> pjs res" where
  "pushParticles nb pos s =
     (let s = s\<lparr>tmp := (tmp s)\<lparr>pushing := True\<rparr>\<rparr> in
      case loop_count nb of
        None \<Rightarrow> Inl Hangs
      | Some n \<Rightarrow> for_each (push_iteration nb pos) [0..<n] s)"

text \<open>\<open>array.splice(0, nb)\<close>: the count is truncated to an integer; \<open>NaN\<close> and negatives give 0.\<close>

definition splice_count :: "jsnum \<Rightarrow> nat \<Rightarrow> nat" where
  "splice_count nb len =
     (case nb of Num r \<Rightarrow> min len (nat \<lfloor>r\<rfloor>) | Infinity \<Rightarrow> len | _ \<Rightarrow> 0)"

definition removeParticles :: "jsnum \<Rightarrow> pjs \<Rightarrow> pjs res" where
  "removeParticles nb s =
     redraw_if_still (s\<lparr>parr := drop (splice_count nb (length (parr s))) (parr s)\<rparr>)"

subsection \<open>densityAutoParticles\<close>

definition density_target :: "pjs \<Rightarrow> jsnum" where
  "density_target s =
     (let area = el_width (canv s) * el_height (canv s) / Num 1000;
          area = (if retina (tmp s) then area / (pxratio (canv s) * Num 2) else area)
      in area * number_value (numberc (cfg s)) / density_value_area (numberc (cfg s)))"

definition densityAutoParticles :: "pjs \<Rightarrow> pjs res" where
  "densityAutoParticles s =
     (if density_enable (numberc (cfg s)) then
        (let nb_particles = density_target s;
             missing_particles = Num (real (length (parr s))) - nb_particles
         in if missing_particles < Num 0 then pushParticles (Math_abs missing_particles) None s
            else removeParticles missing_particles s)
      else Inr s)"

end
