(* ===== verification/Particles_Vendors.thy ===== *)
theory Particles_Vendors
  imports Particles_Frame
begin

section \<open>particles.js: set-up, animation loop and events\<close>

text \<open>
  The remaining functions of \<open>pJS.fn\<close> and \<open>pJS.fn.vendors\<close>: scaling for retina displays, the
  canvas size, the animation loop, image loading, the event listeners, and the global functions
  that create and destroy instances.  What the browser calls back is an event of the step relation
  at the end of the theory.
\<close>

subsection \<open>Canvas size and pixel ratio\<close>

definition make_tmp_obj :: "config \<Rightarrow> tmp_obj" where
  "make_tmp_obj c =
     \<lparr>obj_size_value = size_value (sizec c), obj_size_anim_speed = size_anim_speed (sizec c),
      obj_move_speed = move_speed (movec c), obj_line_distance = line_distance (linec c),
      obj_line_width = line_width (linec c), obj_grab_distance = grab_distance (interc c),
      obj_bubble_distance = bubble_distance (interc c), obj_bubble_size = bubble_size (interc c),
      obj_repulse_distance = repulse_distance (interc c)\<rparr>"

definition scale_cfg :: "jsnum \<Rightarrow> tmp_obj \<Rightarrow> config \<Rightarrow> config" where
  "scale_cfg ratio o1 c =
     c\<lparr>sizec := (sizec c)\<lparr>size_value := obj_size_value o1 * ratio,
                         size_anim_speed := obj_size_anim_speed o1 * ratio\<rparr>,
       movec := (movec c)\<lparr>move_speed := obj_move_speed o1 * ratio\<rparr>,
       linec := (linec c)\<lparr>line_distance := obj_line_distance o1 * ratio,
                         line_width := obj_line_width o1 * ratio\<rparr>,
       interc := (interc c)\<lparr>grab_distance := obj_grab_distance o1 * ratio,
                           bubble_distance := obj_bubble_distance o1 * ratio,
                           bubble_size := obj_bubble_size o1 * ratio,
                           repulse_distance := obj_repulse_distance o1 * ratio\<rparr>\<rparr>"

definition retinaInit :: "pjs \<Rightarrow> pjs" where
  "retinaInit s =
     (let dpr = devicePixelRatio (environ s);
          on = retina_detect (cfg s) \<and> dpr > Num 1;
          ratio = (if on then dpr else Num 1)
      in s\<lparr>canv := (canv s)\<lparr>pxratio := ratio, canvas_w := offsetWidth (environ s) * ratio,
                           canvas_h := offsetHeight (environ s) * ratio\<rparr>,
           tmp := (tmp s)\<lparr>retina := on\<rparr>,
           cfg := scale_cfg ratio (tobj (tmp s)) (cfg s)\<rparr>)"

text \<open>
  Assigning to \<open>width\<close> or \<open>height\<close> of the canvas element converts to an unsigned integer
  (the conversion of the DOM for the attribute type \<open>unsigned long\<close>, here for values in its range).
\<close>

definition to_ulong :: "jsnum \<Rightarrow> jsnum" where
  "to_ulong x = (case x of Num r \<Rightarrow> Num (of_int \<lfloor>r\<rfloor>) | _ \<Rightarrow> Num 0)"

definition set_el_size :: "pjs \<Rightarrow> pjs" where
  "set_el_size s =
     s\<lparr>canv := (canv s)\<lparr>el_width := to_ulong (canvas_w (canv s)),
                       el_height := to_ulong (canvas_h (canv s))\<rparr>\<rparr>"

definition canvasSize :: "pjs \<Rightarrow> pjs" where
  "canvasSize s =
     (let s = set_el_size s in
      if ev_resize (interc (cfg s)) then s\<lparr>resize_listeners := resize_listeners s + 1\<rparr> else s)"

text \<open>The \<open>resize\<close> listener registered by \<open>canvasSize\<close>.\<close>

definition resize_canvas :: "pjs \<Rightarrow> pjs" where
  "resize_canvas s =
     (let w = offsetWidth (environ s); h = offsetHeight (environ s)
      in set_el_size (s\<lparr>canv := (canv s)
           \<lparr>canvas_w := (if retina (tmp s) then w * pxratio (canv s) else w),
            canvas_h := (if retina (tmp s) then h * pxratio (canv s) else h)\<rparr>\<rparr>))"

definition resize_handler :: "pjs \<Rightarrow> pjs res" where
  "resize_handler s =
     (let s = resize_canvas s in
      andThen (if \<not> move_enable (movec (cfg s))
               then andThen (particlesCreate (particlesEmpty s))
                      (\<lambda>s. andThen (particlesDraw s) densityAutoParticles)
               else Inr s)
        densityAutoParticles)"

subsection \<open>The animation loop\<close>

definition requestDraw :: "pjs \<Rightarrow> pjs" where
  \<comment> \<open>\<open>pJS.fn.drawAnimFrame = requestAnimFrame(pJS.fn.vendors.draw)\<close>\<close>
  "requestDraw s =
     s\<lparr>frames := frames s @ [next_frame s], drawAnimFrame := Some (next_frame s),
       next_frame := next_frame s + 1\<rparr>"

definition cancelDraw :: "pjs \<Rightarrow> pjs" where
  \<comment> \<open>\<open>cancelRequestAnimFrame(pJS.fn.drawAnimFrame)\<close>\<close>
  "cancelDraw s =
     (case drawAnimFrame s of None \<Rightarrow> s | Some i \<Rightarrow> s\<lparr>frames := removeAll i (frames s)\<rparr>)"

definition draw_and_schedule :: "pjs \<Rightarrow> pjs res" where
  "draw_and_schedule s =
     andThen (particlesDraw s)
       (\<lambda>s. Inr (if \<not> move_enable (movec (cfg s)) then cancelDraw s else requestDraw s))"

definition wait_for_image :: "pjs \<Rightarrow> pjs" where
  "wait_for_image s = (if \<not> img_error (tmp s) then requestDraw s else s)"

text \<open>\<open>shape.type == 'image'\<close>: loose equality converts an array by joining it with commas.\<close>

definition shape_is_image :: "str_or_arr \<Rightarrow> bool" where
  "shape_is_image t =
     (case t of JStrV x \<Rightarrow> x = ''image'' | JArrV xs \<Rightarrow> str_join '','' xs = ''image'')"

definition vendors_draw :: "pjs \<Rightarrow> pjs res" where
  "vendors_draw s =
     (if shape_is_image (shape_type (shapec (cfg s))) then
        (if img_type (tmp s) = Some ''svg'' then
           (if count_svg (tmp s) \<ge> number_value (numberc (cfg s))
            then draw_and_schedule s else Inr (wait_for_image s))
         else
           (if img_loaded_obj (tmp s) then draw_and_schedule s else Inr (wait_for_image s)))
      else draw_and_schedule s)"

definition vendors_init :: "pjs \<Rightarrow> pjs res" where
  "vendors_init s =
     andThen (particlesCreate (canvasPaint (canvasSize (retinaInit s))))
       (\<lambda>s. andThen (densityAutoParticles s)
         (\<lambda>s. Inr (s\<lparr>cfg := (cfg s)\<lparr>linec := (linec (cfg s))
                \<lparr>color_rgb_line := hexToRgb (line_color (linec (cfg s)))\<rparr>\<rparr>\<rparr>)))"

text \<open>The name \<open>check\<close> passed to \<open>requestAnimFrame\<close> is declared nowhere.\<close>

definition checkBeforeDraw :: "pjs \<Rightarrow> pjs res" where
  "checkBeforeDraw s =
     (if shape_is_image (shape_type (shapec (cfg s))) then
        (if img_type (tmp s) = Some ''svg'' \<and> source_svg (tmp s) = None
         then Inl ReferenceError
         else if \<not> img_error (tmp s) then andThen (vendors_init s) vendors_draw
         else Inr s)
      else andThen (vendors_init s) vendors_draw)"

definition loadImg :: "pjs \<Rightarrow> pjs" where
  "loadImg s =
     (let s = s\<lparr>tmp := (tmp s)\<lparr>img_error := False\<rparr>\<rparr> in
      if image_src (shapec (cfg s)) \<noteq> [] then s\<lparr>img_requests := img_requests s + 1\<rparr>
      else s\<lparr>tmp := (tmp s)\<lparr>img_error := True\<rparr>\<rparr>)"

definition xhr_done :: "nat \<Rightarrow> string \<Rightarrow> pjs \<Rightarrow> pjs res" where
  "xhr_done code response s =
     (if code = 200
      then checkBeforeDraw (s\<lparr>tmp := (tmp s)\<lparr>source_svg := Some response\<rparr>\<rparr>)
      else Inr (s\<lparr>tmp := (tmp s)\<lparr>img_error := True\<rparr>\<rparr>))"

definition img_done :: "pjs \<Rightarrow> pjs res" where
  "img_done s = checkBeforeDraw (s\<lparr>tmp := (tmp s)\<lparr>img_loaded_obj := True\<rparr>\<rparr>)"

definition vendors_start :: "pjs \<Rightarrow> pjs res" where
  "vendors_start s =
     (if isInArray ''image'' (shape_type (shapec (cfg s))) then
        (let src = image_src (shapec (cfg s));
             s = s\<lparr>tmp := (tmp s)\<lparr>img_type := Some (substr_from src (int (length src) - 3))\<rparr>\<rparr>
         in Inr (loadImg s))
      else checkBeforeDraw s)"

text \<open>
  \<open>particlesRefresh\<close>.  The first of its two cancellations names \<open>pJS.fn.checkAnimFrame\<close>, which
  nothing sets, so it has no effect.
\<close>

definition particlesRefresh :: "pjs \<Rightarrow> pjs res" where
  "particlesRefresh s =
     (let s = cancelDraw s;
          s = s\<lparr>tmp := (tmp s)\<lparr>source_svg := None, img_loaded_obj := False, count_svg := Num 0\<rparr>\<rparr>
      in vendors_start (canvasClear (particlesEmpty s)))"

subsection \<open>Event listeners\<close>

text \<open>\<open>e.offsetX || e.clientX\<close>\<close>

definition num_or :: "jsnum \<Rightarrow> jsnum \<Rightarrow> jsnum" where
  "num_or a b = (if num_truthy a then a else b)"

record mouse_event =
  clientX :: jsnum
  clientY :: jsnum
  offsetX :: jsnum
  offsetY :: jsnum

definition on_mousemove :: "mouse_event \<Rightarrow> pjs \<Rightarrow> pjs" where
  "on_mousemove e s =
     (let (x, y) = (if detect_on (interc (cfg s)) = ''window'' then (clientX e, clientY e)
                    else (num_or (offsetX e) (clientX e), num_or (offsetY e) (clientY e)));
          (x, y) = (if retina (tmp s) then (x * pxratio (canv s), y * pxratio (canv s)) else (x, y))
      in s\<lparr>mouse := (mouse s)\<lparr>pos_x := MNum x, pos_y := MNum y\<rparr>, status := MouseMove\<rparr>)"

definition on_mouseleave :: "pjs \<Rightarrow> pjs" where
  "on_mouseleave s = s\<lparr>mouse := (mouse s)\<lparr>pos_x := MNull, pos_y := MNull\<rparr>, status := MouseLeave\<rparr>"

text \<open>The \<open>switch\<close> on the mode compares strictly, so an array of modes matches no case.\<close>

definition on_click :: "pjs \<Rightarrow> pjs res" where
  "on_click s =
     (let m = mouse s;
          m = m\<lparr>click_pos_x := pos_x m, click_pos_y := pos_y m, click_time := now s\<rparr>;
          s = s\<lparr>mouse := m\<rparr>; i = interc (cfg s); nb = push_nb i
      in if onclick_enable i then
           (case onclick_mode i of
              JArrV _ \<Rightarrow> Inr s
            | JStrV mode \<Rightarrow>
                (if mode = ''push'' then
                   (if move_enable (movec (cfg s)) then pushParticles nb (Some m) s
                    else if js_eq nb (Num 1) then pushParticles nb (Some m) s
                    else if nb > Num 1 then pushParticles nb None s
                    else Inr s)
                 else if mode = ''remove'' then removeParticles (remove_nb i) s
                 else if mode = ''bubble'' then Inr (s\<lparr>tmp := (tmp s)\<lparr>bubble_clicking := True\<rparr>\<rparr>)
                 else if mode = ''repulse'' then
                   Inr (s\<lparr>tmp := (tmp s)\<lparr>repulse_clicking := Some True, repulse_count := Num 0,
                                       repulse_finish := False\<rparr>,
                         repulse_timers := repulse_timers s + 1\<rparr>)
                 else Inr s))
         else Inr s)"

definition repulse_timeout :: "pjs \<Rightarrow> pjs" where
  "repulse_timeout s =
     s\<lparr>tmp := (tmp s)\<lparr>repulse_clicking := Some False\<rparr>, repulse_timers := repulse_timers s - 1\<rparr>"

datatype event =
    EvMouseMove mouse_event
  | EvMouseLeave
  | EvClick
  | EvResize
  | EvFrame
  | EvRepulseTimeout
  | EvImgLoad
  | EvXhr nat string
  | EvSvgLoad nat
  | EvRefresh
  | EvClock jsnum
  | EvLayout jsnum jsnum

text \<open>
  One event.  The mouse listeners exist when \<open>eventsListeners\<close> has registered them; a callback
  that is not pending does nothing.
\<close>

fun pjs_event :: "event \<Rightarrow> pjs \<Rightarrow> pjs res" where
  "pjs_event (EvMouseMove e) s =
     Inr (if onhover_enable (interc (cfg s)) \<or> onclick_enable (interc (cfg s))
          then on_mousemove e s else s)"
| "pjs_event EvMouseLeave s =
     Inr (if onhover_enable (interc (cfg s)) \<or> onclick_enable (interc (cfg s))
          then on_mouseleave s else s)"
| "pjs_event EvClick s = (if onclick_enable (interc (cfg s)) then on_click s else Inr s)"
| "pjs_event EvResize s = for_each (\<lambda>_. resize_handler) [0..<resize_listeners s] s"
| "pjs_event EvFrame s =
     (case frames s of [] \<Rightarrow> Inr s | i # is \<Rightarrow> vendors_draw (s\<lparr>frames := is\<rparr>))"
| "pjs_event EvRepulseTimeout s = Inr (if repulse_timers s > 0 then repulse_timeout s else s)"
| "pjs_event EvImgLoad s =
     (if img_requests s > 0 \<and> img_type (tmp s) \<noteq> Some ''svg''
      then img_done (s\<lparr>img_requests := img_requests s - 1\<rparr>) else Inr s)"
| "pjs_event (EvXhr code response) s =
     (if img_requests s > 0 \<and> img_type (tmp s) = Some ''svg''
      then xhr_done code response (s\<lparr>img_requests := img_requests s - 1\<rparr>) else Inr s)"
| "pjs_event (EvSvgLoad i) s = Inr (if i \<in> set (svg_requests s) then svg_loaded i s else s)"
| "pjs_event EvRefresh s = particlesRefresh s"
| "pjs_event (EvClock t) s = Inr (s\<lparr>now := t\<rparr>)"
| "pjs_event (EvLayout w h) s = Inr (s\<lparr>environ := (environ s)\<lparr>offsetWidth := w, offsetHeight := h\<rparr>\<rparr>)"

subsection \<open>Creating an instance\<close>

definition initial_pjs :: "config \<Rightarrow> env \<Rightarrow> rng \<Rightarrow> pjs" where
  \<comment> \<open>the object built by the constructor, before \<open>start\<close>\<close>
  "initial_pjs c e g =
     \<lparr>cfg = c,
      canv = \<lparr>canvas_w = offsetWidth e, canvas_h = offsetHeight e, pxratio = NaN,
              el_width = Num 300, el_height = Num 150\<rparr>,
      environ = e, parr = [],
      mouse = \<lparr>pos_x = MUndef, pos_y = MUndef, click_pos_x = MUndef, click_pos_y = MUndef,
               click_time = NaN\<rparr>,
      status = StatusUndef,
      tmp = \<lparr>tobj = make_tmp_obj c, retina = False, pushing = False, bubble_clicking = False,
             bubble_duration_end = False, repulse_clicking = None, repulse_count = NaN,
             repulse_finish = False, img_type = None, source_svg = None, img_loaded_obj = False,
             count_svg = NaN, img_error = False\<rparr>,
      rng = g, next_pid = 0, now = Num 0, ops = [], frames = [], next_frame = 1,
      drawAnimFrame = None, resize_listeners = 0, img_requests = 0, svg_requests = [],
      repulse_timers = 0\<rparr>"

definition new_pJS :: "config \<Rightarrow> env \<Rightarrow> rng \<Rightarrow> pjs res" where
  "new_pJS c e g = vendors_start (initial_pjs c e g)"

text \<open>The reachable states of an instance.\<close>

inductive pjs_reachable :: "config \<Rightarrow> env \<Rightarrow> rng \<Rightarrow> pjs \<Rightarrow> bool" for c e g where
  created: "new_pJS c e g = Inr s \<Longrightarrow> pjs_reachable c e g s"
| event: "pjs_reachable c e g s \<Longrightarrow> pjs_event ev s = Inr t \<Longrightarrow> pjs_reachable c e g t"

inductive_cases pjs_reachableE: "pjs_reachable c e g s"

subsection \<open>The instances of a page\<close>

text \<open>
  \<open>window.pJSDom\<close> is the array of instances, and \<open>null\<close> (\<open>None\<close>) once one has been destroyed.
  \<open>destroypJS\<close> cancels the frame of its own instance.
\<close>

definition particlesJS :: "config \<Rightarrow> env \<Rightarrow> rng \<Rightarrow> pjs list option \<Rightarrow> pjs list option res" where
  "particlesJS c e g pJSDom =
     (case pJSDom of
        None \<Rightarrow> Inl TypeError
      | Some l \<Rightarrow> andThen (new_pJS c e g) (\<lambda>s. Inr (Some (l @ [s]))))"

definition destroypJS :: "pjs \<Rightarrow> pjs \<times> pjs list option" where
  "destroypJS s = (cancelDraw s, None)"

end
