(* ===== verification/Particles_Frames.thy ===== *)
theory Particles_Frames
  imports Particles_Vendors
begin

section \<open>particles.js: what a frame leaves unchanged\<close>

text \<open>
  The update and drawing of a frame, and the operations that change the number of particles, work
  on the particles, the supply of random numbers, the drawing commands and \<open>pJS.tmp\<close>.
  \<open>static\<close> collects the rest of the state.
\<close>

definition static where
  "static s =
     (cfg s, canv s, environ s, mouse s, status s, now s, frames s, next_frame s, drawAnimFrame s,
      resize_listeners s, img_requests s, repulse_timers s)"

lemma staticD:
  assumes "static t = static s"
  shows "cfg t = cfg s" "canv t = canv s" "environ t = environ s" "mouse t = mouse s"
    "status t = status s" "now t = now s" "frames t = frames s" "next_frame t = next_frame s"
    "drawAnimFrame t = drawAnimFrame s" "resize_listeners t = resize_listeners s"
    "img_requests t = img_requests s" "repulse_timers t = repulse_timers s"
  using assms by (simp_all add: static_def)

lemma static_update [simp]:
  "static (s\<lparr>parr := a\<rparr>) = static s" "static (s\<lparr>rng := g\<rparr>) = static s"
  "static (s\<lparr>tmp := t\<rparr>) = static s" "static (s\<lparr>next_pid := n\<rparr>) = static s"
  "static (s\<lparr>svg_requests := l\<rparr>) = static s" "static (emit ol s) = static s"
  by (simp_all add: static_def emit_def)

lemma emit_simps [simp]:
  "parr (emit l s) = parr s" "cfg (emit l s) = cfg s" "canv (emit l s) = canv s"
  "tmp (emit l s) = tmp s" "rng (emit l s) = rng s" "status (emit l s) = status s"
  "mouse (emit l s) = mouse s" "frames (emit l s) = frames s" "environ (emit l s) = environ s"
  by (simp_all add: emit_def)

subsection \<open>The mouse effects\<close>

lemma bubble_click_frame:
  "bubble_click s p = (t, q) \<Longrightarrow> static t = static s \<and> parr t = parr s \<and> rng t = rng s"
  by (auto simp: bubble_click_def Let_def split: if_splits)

lemma bubbleParticle_frame:
  "bubbleParticle s p = (t, q) \<Longrightarrow> static t = static s \<and> parr t = parr s \<and> rng t = rng s"
  by (auto simp: bubbleParticle_def Let_def dest: bubble_click_frame split: if_splits)

lemma repulse_click_frame:
  "repulse_click s p = (t, q) \<Longrightarrow> static t = static s \<and> parr t = parr s \<and> rng t = rng s"
  by (auto simp: repulse_click_def Let_def split: if_splits)

lemma repulseParticle_frame:
  "repulseParticle s p = (t, q) \<Longrightarrow> static t = static s \<and> parr t = parr s \<and> rng t = rng s"
  by (auto simp: repulseParticle_def Let_def dest: repulse_click_frame split: if_splits)

lemma mouse_effects_frame:
  assumes "mouse_effects s p = Inr (t, q)"
  shows "static t = static s \<and> parr t = parr s \<and> rng t = rng s"
  using assms
  by (auto simp: mouse_effects_def Let_def andThen_Inr_iff split: if_splits prod.splits
      dest!: bubbleParticle_frame repulseParticle_frame)

subsection \<open>The loops of a frame\<close>

lemma interact_at_frame:
  assumes "interact_at i j s = Inr t"
  shows "static t = static s \<and> length (parr t) = length (parr s)"
  using assms by (auto simp: interact_at_def andThen_Inr_iff static_def emit_def)

lemma interact_loop_frame:
  assumes "for_each (interact_at i) js s = Inr t"
  shows "static t = static s \<and> length (parr t) = length (parr s)"
  using assms
  by (rule for_each_invariant [where P = "\<lambda>t. static t = static s \<and> length (parr t) = length (parr s)"])
    (auto dest: interact_at_frame)

lemma update_at_steps:
  assumes "update_at i s = Inr t"
  obtains p g u q where "advance (cfg s) (canv s) (parr s ! i) (rng s) = (p, g)"
    and "mouse_effects (s\<lparr>rng := g\<rparr>) p = Inr (u, q)"
    and "cfg u = cfg s" "parr u = parr s" "static u = static s"
    and "(if line_enable (linec (cfg s)) \<or> attract_enable (movec (cfg s))
          then for_each (interact_at i) [i + 1..<length (parr s)] (u\<lparr>parr := (parr s)[i := q]\<rparr>)
          else Inr (u\<lparr>parr := (parr s)[i := q]\<rparr>)) = Inr t"
proof -
  obtain p g where adv: "advance (cfg s) (canv s) (parr s ! i) (rng s) = (p, g)"
    by fastforce
  from assms adv obtain u q where m: "mouse_effects (s\<lparr>rng := g\<rparr>) p = Inr (u, q)"
    and rest: "(let v = u\<lparr>parr := (parr u)[i := q]\<rparr> in
        if line_enable (linec (cfg v)) \<or> attract_enable (movec (cfg v))
        then for_each (interact_at i) [i + 1..<length (parr v)] v else Inr v) = Inr t"
    unfolding update_at_def by (auto simp: Let_def andThen_Inr_iff)
  from mouse_effects_frame [OF m] have u: "static u = static s" "parr u = parr s"
    by simp_all
  with that [OF adv m staticD(1) [OF u(1)] u(2,1)] rest show thesis
    by (simp add: Let_def staticD(1) [OF u(1)] cong: if_cong)
qed

lemma update_at_frame:
  assumes "update_at i s = Inr t"
  shows "static t = static s \<and> length (parr t) = length (parr s)"
  using assms
proof (cases rule: update_at_steps)
  case (1 p g u q)
  then show ?thesis by (auto split: if_splits dest!: interact_loop_frame)
qed

lemma particlesUpdate_frame:
  assumes "particlesUpdate s = Inr t"
  shows "static t = static s \<and> length (parr t) = length (parr s)"
  using assms unfolding particlesUpdate_def
  by (rule for_each_invariant [where P = "\<lambda>t. static t = static s \<and> length (parr t) = length (parr s)"])
    (auto dest: update_at_frame)

text \<open>Drawing reads the state and only adds drawing commands.\<close>

lemma draw_loop_frame:
  assumes "for_each draw_at is s = Inr t"
  shows "static t = static s \<and> parr t = parr s \<and> tmp t = tmp s"
  using assms
  by (rule for_each_invariant [where P = "\<lambda>t. static t = static s \<and> parr t = parr s \<and> tmp t = tmp s"])
    (auto simp: draw_at_def andThen_Inr_iff)

lemma particlesDraw_updates:
  assumes "particlesDraw s = Inr t"
  obtains l u where "particlesUpdate (emit l s) = Inr u"
    and "static t = static u" "parr t = parr u" "tmp t = tmp u"
  using assms unfolding particlesDraw_def by (auto elim!: andThen_InrE dest!: draw_loop_frame)

lemma particlesDraw_frame:
  assumes "particlesDraw s = Inr t"
  shows "static t = static s \<and> length (parr t) = length (parr s)"
  using assms by (auto elim!: particlesDraw_updates dest!: particlesUpdate_frame)

subsection \<open>Creating and removing particles\<close>

lemma createSvgImg_frame:
  "createSvgImg p s = Inr t \<Longrightarrow> static t = static s \<and> parr t = parr s \<and> tmp t = tmp s"
  by (auto simp: createSvgImg_def andThen_Inr_iff split: option.splits)

lemma attach_image_frame:
  "attach_image p s = Inr (q, t) \<Longrightarrow> static t = static s \<and> parr t = parr s \<and> tmp t = tmp s"
  by (auto simp: attach_image_def Let_def andThen_Inr_iff split: if_splits dest!: createSvgImg_frame)

lemma new_particle_frame:
  assumes "new_particle pos s = Inr (p, t)"
  shows "static t = static s \<and> parr t = parr s \<and> tmp t = tmp s"
  using assms
  by (auto elim!: new_particle_stages dest!: attach_image_frame)

lemma push_one_frame:
  assumes "push_one pos s = Inr t"
  shows "static t = static s \<and> tmp t = tmp s \<and> length (parr t) = length (parr s) + 1"
  using assms by (auto simp: push_one_def andThen_Inr_iff dest!: new_particle_frame)

lemma redraw_if_still_frame:
  assumes "redraw_if_still s = Inr t"
  shows "static t = static s \<and> length (parr t) = length (parr s)"
  using assms by (auto simp: redraw_if_still_def split: if_splits dest!: particlesDraw_frame)

lemma push_iteration_steps:
  assumes "push_iteration nb pos i s = Inr t"
  obtains xy g u where "push_position pos (canv s) (rng s) = (xy, g)"
    and "push_one (Some xy) (s\<lparr>rng := g\<rparr>) = Inr u"
    and "\<not> js_eq (Num (real i)) (nb - Num 1) \<Longrightarrow> t = u"
    and "js_eq (Num (real i)) (nb - Num 1) \<Longrightarrow>
      \<exists>v. redraw_if_still u = Inr v \<and> t = v\<lparr>tmp := (tmp v)\<lparr>pushing := False\<rparr>\<rparr>"
  using assms unfolding push_iteration_def
  by (auto simp: Let_def elim!: andThen_InrE split: prod.splits if_splits)

lemma push_iteration_frame:
  assumes "push_iteration nb pos i s = Inr t"
  shows "static t = static s \<and> length (parr t) = length (parr s) + 1"
  using assms
proof (cases rule: push_iteration_steps)
  case (1 xy g u)
  from push_one_frame [OF 1(2)] have u: "static u = static s" "length (parr u) = length (parr s) + 1"
    by simp_all
  show ?thesis
  proof (cases "js_eq (Num (real i)) (nb - Num 1)")
    case True
    from 1(4) [OF this] obtain v where v: "redraw_if_still u = Inr v"
      "t = v\<lparr>tmp := (tmp v)\<lparr>pushing := False\<rparr>\<rparr>" by blast
    from redraw_if_still_frame [OF v(1)] u show ?thesis by (simp add: v(2))
  next
    case False
    with 1(3) u show ?thesis by simp
  qed
qed

lemma particlesCreate_frame:
  assumes "particlesCreate s = Inr t"
  shows "static t = static s \<and> tmp t = tmp s"
proof -
  from assms obtain n where "for_each (\<lambda>_. push_one None) [0..<n] s = Inr t"
    by (auto simp: particlesCreate_def split: option.splits)
  then show ?thesis
    by (rule for_each_invariant [where P = "\<lambda>t. static t = static s \<and> tmp t = tmp s"])
      (auto dest: push_one_frame)
qed

lemma pushParticles_loop:
  assumes "pushParticles nb pos s = Inr t"
  obtains n where "loop_count nb = Some n"
    and "for_each (push_iteration nb pos) [0..<n] (s\<lparr>tmp := (tmp s)\<lparr>pushing := True\<rparr>\<rparr>) = Inr t"
  using assms by (auto simp: pushParticles_def Let_def split: option.splits)

lemma pushParticles_frame:
  assumes "pushParticles nb pos s = Inr t"
  shows "static t = static s"
proof -
  from assms obtain n where
    "for_each (push_iteration nb pos) [0..<n] (s\<lparr>tmp := (tmp s)\<lparr>pushing := True\<rparr>\<rparr>) = Inr t"
    by (rule pushParticles_loop)
  then show ?thesis
    by (rule for_each_invariant [where P = "\<lambda>t. static t = static s"])
      (auto dest: push_iteration_frame)
qed

lemma removeParticles_frame:
  assumes "removeParticles nb s = Inr t"
  shows "static t = static s"
  using assms by (auto simp: removeParticles_def dest!: redraw_if_still_frame)

lemma densityAutoParticles_frame:
  assumes "densityAutoParticles s = Inr t"
  shows "static t = static s"
  using assms
  by (auto simp: densityAutoParticles_def Let_def split: if_splits
      dest: pushParticles_frame removeParticles_frame)

lemmas frame_lemmas = particlesUpdate_frame particlesDraw_frame push_one_frame
  redraw_if_still_frame particlesCreate_frame pushParticles_frame removeParticles_frame
  densityAutoParticles_frame

end
