(* ===== verification/Particles_Laws.thy ===== *)
theory Particles_Laws
  imports Particles_Frames
begin

section \<open>particles.js: laws of particles\<close>

text \<open>
  A law is a property of a particle under given options that no step of a frame breaks; the locale
  \<open>frame_law\<close> proves that a frame keeps it for all particles.  If the constructor establishes it too, it
  holds of every particle in every reachable state: the locale \<open>particle_law\<close> proves this once, for all
  events, and each law of the development is an interpretation.  The options may only be rescaled
  (\<open>retinaInit\<close>) or have the line colour filled in, so a law may depend on the options for opacity,
  colour and shape and on the modes of the mouse.
\<close>

definition mouse_modes where
  "mouse_modes i = (onhover_enable i, onhover_mode i, onclick_enable i, onclick_mode i)"

definition same_look :: "config \<Rightarrow> config \<Rightarrow> bool" where
  "same_look c c' \<longleftrightarrow>
     opacityc c = opacityc c' \<and> colorc c = colorc c' \<and> shapec c = shapec c' \<and> numberc c = numberc c' \<and>
     mouse_modes (interc c) = mouse_modes (interc c')"

lemma same_look_refl [simp]: "same_look c c"
  by (simp add: same_look_def)

lemma same_look_trans: "same_look a b \<Longrightarrow> same_look b c \<Longrightarrow> same_look a c"
  by (simp add: same_look_def)

lemma retinaInit_look [simp]: "same_look (cfg s) (cfg (retinaInit s))"
  by (simp add: retinaInit_def Let_def scale_cfg_def same_look_def mouse_modes_def)

lemma canvasSize_cfg [simp]: "cfg (canvasSize s) = cfg s" "parr (canvasSize s) = parr s"
  by (simp_all add: canvasSize_def set_el_size_def Let_def)

lemma canvasPaint_cfg [simp]: "cfg (canvasPaint s) = cfg s" "parr (canvasPaint s) = parr s"
  by (simp_all add: canvasPaint_def)

lemma canvasClear_cfg [simp]: "cfg (canvasClear s) = cfg s" "parr (canvasClear s) = parr s"
  by (simp_all add: canvasClear_def)

lemma retinaInit_parr [simp]: "parr (retinaInit s) = parr s"
  by (simp add: retinaInit_def Let_def)

lemma requestDraw_simps [simp]: "cfg (requestDraw s) = cfg s" "parr (requestDraw s) = parr s"
  by (simp_all add: requestDraw_def)

lemma cancelDraw_simps [simp]: "cfg (cancelDraw s) = cfg s" "parr (cancelDraw s) = parr s"
  by (simp_all add: cancelDraw_def split: option.splits)

lemma wait_for_image_simps [simp]: "cfg (wait_for_image s) = cfg s" "parr (wait_for_image s) = parr s"
  by (simp_all add: wait_for_image_def)

locale frame_law =
  fixes law :: "config \<Rightarrow> particle \<Rightarrow> bool"
  assumes law_cfg: "same_look c c' \<Longrightarrow> law c p \<Longrightarrow> law c' p"
    and law_advance: "law c p \<Longrightarrow> advance c cv p g = (q, g') \<Longrightarrow> law c q"
    and law_mouse: "law (cfg s) p \<Longrightarrow> mouse_effects s p = Inr (t, q) \<Longrightarrow> law (cfg s) q"
    and law_pair: "law c p \<Longrightarrow> law c p2 \<Longrightarrow> interact_pair c p p2 = Inr (l, q, q2) \<Longrightarrow>
      law c q \<and> law c q2"
    and law_image: "law c p \<Longrightarrow> law c (set_img_loaded i p)"
begin

definition holds :: "pjs \<Rightarrow> bool" where
  "holds s \<longleftrightarrow> list_all (law (cfg s)) (parr s)"

lemma holds_static: "static t = static s \<Longrightarrow> parr t = parr s \<Longrightarrow> holds s \<Longrightarrow> holds t"
  unfolding holds_def by (drule staticD(1)) simp

lemma holds_look: "same_look (cfg s) (cfg t) \<Longrightarrow> parr t = parr s \<Longrightarrow> holds s \<Longrightarrow> holds t"
  by (auto simp: holds_def list_all_iff intro: law_cfg)

lemma interact_at_holds:
  assumes "interact_at i j s = Inr t" and "holds s" and "i < length (parr s)" "j < length (parr s)"
  shows "holds t"
proof -
  from assms(1) obtain l p q where
    r: "interact_pair (cfg s) (parr s ! i) (parr s ! j) = Inr (l, p, q)"
    and t: "t = (emit l s)\<lparr>parr := (parr s)[i := p, j := q]\<rparr>"
    by (auto simp: interact_at_def elim!: andThen_InrE)
  have "law (cfg s) p \<and> law (cfg s) q"
    using law_pair [OF _ _ r] assms(2-4) by (auto simp: holds_def dest: list_all_nthD)
  with assms(2) show ?thesis
    by (simp add: t holds_def list_all_update)
qed

lemma interact_loop_holds:
  assumes "for_each (interact_at i) [a..<n] s = Inr t" and "holds s" and "n = length (parr s)" "i < n"
  shows "holds t"
proof -
  have "holds t \<and> length (parr t) = n"
    using assms(1)
    by (rule for_each_invariant [where P = "\<lambda>t. holds t \<and> length (parr t) = n"])
      (use assms(2-4) in \<open>auto dest: interact_at_frame intro: interact_at_holds\<close>)
  then show ?thesis ..
qed

lemma update_at_holds:
  assumes "update_at i s = Inr t" and h: "holds s" and i: "i < length (parr s)"
  shows "holds t"
  using assms(1)
proof (cases rule: update_at_steps)
  case (1 p g u q)
  have "law (cfg s) p"
    using law_advance [OF _ 1(1)] h i by (auto simp: holds_def dest: list_all_nthD)
  then have "law (cfg s) q" using law_mouse [OF _ 1(2)] by simp
  then have v: "holds (u\<lparr>parr := (parr s)[i := q]\<rparr>)"
    using h by (simp add: holds_def 1(3) list_all_update)
  from 1(6) v i show ?thesis
    by (auto split: if_splits elim!: interact_loop_holds)
qed

lemma particlesUpdate_holds:
  assumes "particlesUpdate s = Inr t" and "holds s"
  shows "holds t"
proof -
  have "holds t \<and> length (parr t) = length (parr s)"
    using assms(1) unfolding particlesUpdate_def
    by (rule for_each_invariant [where P = "\<lambda>t. holds t \<and> length (parr t) = length (parr s)"])
      (use assms(2) in \<open>auto dest: update_at_frame intro: update_at_holds\<close>)
  then show ?thesis ..
qed

lemma particlesDraw_holds:
  assumes "particlesDraw s = Inr t" and "holds s"
  shows "holds t"
  using assms(1)
proof (cases rule: particlesDraw_updates)
  case (1 l u)
  have "holds (emit l s)" using assms(2) by (simp add: holds_def)
  then have "holds u" using particlesUpdate_holds 1(1) by blast
  with 1 show ?thesis by (auto intro: holds_static)
qed

end

text \<open>A law that new particles obey holds in every reachable state.\<close>

locale particle_law = frame_law +
  assumes law_new: "new_particle pos s = Inr (p, t) \<Longrightarrow> law (cfg s) p"
begin

lemma redraw_if_still_holds: "redraw_if_still s = Inr t \<Longrightarrow> holds s \<Longrightarrow> holds t"
  by (auto simp: redraw_if_still_def split: if_splits intro: particlesDraw_holds)

lemma push_one_holds:
  assumes "push_one pos s = Inr t" and "holds s"
  shows "holds t"
proof -
  from assms(1) obtain p u where u: "new_particle pos s = Inr (p, u)" and t: "t = u\<lparr>parr := parr u @ [p]\<rparr>"
    by (auto simp: push_one_def elim!: andThen_InrE)
  from new_particle_frame [OF u] have "static u = static s" "parr u = parr s" by simp_all
  then have "holds u" using assms(2) by (rule holds_static)
  with law_new [OF u] staticD(1) [OF \<open>static u = static s\<close>] show ?thesis
    by (simp add: t holds_def)
qed

lemma particlesCreate_holds:
  assumes "particlesCreate s = Inr t" and "holds s"
  shows "holds t"
proof -
  from assms(1) obtain n where "for_each (\<lambda>_. push_one None) [0..<n] s = Inr t"
    by (auto simp: particlesCreate_def split: option.splits)
  then show ?thesis
    by (rule for_each_invariant [where P = holds]) (use assms(2) push_one_holds in auto)
qed

lemma push_iteration_holds:
  assumes "push_iteration nb pos i s = Inr t" and "holds s"
  shows "holds t"
  using assms(1)
proof (cases rule: push_iteration_steps)
  case (1 xy g u)
  have "holds (s\<lparr>rng := g\<rparr>)" using assms(2) by (simp add: holds_def)
  then have u: "holds u" using push_one_holds 1(2) by blast
  show ?thesis
  proof (cases "js_eq (Num (real i)) (nb - Num 1)")
    case True
    from 1(4) [OF this] obtain v where v: "redraw_if_still u = Inr v"
      "t = v\<lparr>tmp := (tmp v)\<lparr>pushing := False\<rparr>\<rparr>" by blast
    from redraw_if_still_holds [OF v(1) u] show ?thesis by (simp add: v(2) holds_def)
  next
    case False
    with 1(3) u show ?thesis by simp
  qed
qed

lemma pushParticles_holds:
  assumes "pushParticles nb pos s = Inr t" and "holds s"
  shows "holds t"
proof -
  from assms(1) obtain n where
    "for_each (push_iteration nb pos) [0..<n] (s\<lparr>tmp := (tmp s)\<lparr>pushing := True\<rparr>\<rparr>) = Inr t"
    by (rule pushParticles_loop)
  then show ?thesis
    by (rule for_each_invariant [where P = holds])
      (use assms(2) push_iteration_holds in \<open>auto simp: holds_def\<close>)
qed

lemma removeParticles_holds:
  assumes "removeParticles nb s = Inr t" and "holds s"
  shows "holds t"
proof -
  let ?u = "s\<lparr>parr := drop (splice_count nb (length (parr s))) (parr s)\<rparr>"
  have "holds ?u" using assms(2) by (auto simp: holds_def list_all_iff dest: in_set_dropD)
  moreover have "redraw_if_still ?u = Inr t" using assms(1) by (simp add: removeParticles_def)
  ultimately show ?thesis by (blast intro: redraw_if_still_holds)
qed

lemma densityAutoParticles_holds: "densityAutoParticles s = Inr t \<Longrightarrow> holds s \<Longrightarrow> holds t"
  by (auto simp: densityAutoParticles_def Let_def split: if_splits
      intro: pushParticles_holds removeParticles_holds)

lemma holds_loop [simp]:
  "holds (requestDraw s) = holds s" "holds (cancelDraw s) = holds s"
  "holds (wait_for_image s) = holds s" "holds (particlesEmpty s)" "holds (resize_canvas s) = holds s"
  "holds (canvasClear s) = holds s" "holds (s\<lparr>mouse := m\<rparr>) = holds s"
  "holds (s\<lparr>tmp := tm\<rparr>) = holds s" "holds (s\<lparr>frames := fs\<rparr>) = holds s"
  "holds (s\<lparr>img_requests := n\<rparr>) = holds s" "holds (s\<lparr>repulse_timers := n\<rparr>) = holds s"
  by (simp_all add: holds_def particlesEmpty_def resize_canvas_def set_el_size_def Let_def)

lemma resize_handler_holds: "resize_handler s = Inr t \<Longrightarrow> holds s \<Longrightarrow> holds t"
  unfolding resize_handler_def Let_def
  by (auto split: if_splits elim!: andThen_InrE
      dest!: particlesCreate_holds particlesDraw_holds densityAutoParticles_holds)

lemma draw_and_schedule_holds: "draw_and_schedule s = Inr t \<Longrightarrow> holds s \<Longrightarrow> holds t"
  by (auto simp: draw_and_schedule_def elim!: andThen_InrE split: if_splits
      dest!: particlesDraw_holds)

lemma vendors_draw_holds: "vendors_draw s = Inr t \<Longrightarrow> holds s \<Longrightarrow> holds t"
  by (auto simp: vendors_draw_def split: if_splits intro: draw_and_schedule_holds)

lemma vendors_init_holds:
  assumes "vendors_init s = Inr t" and "holds s"
  shows "holds t"
proof -
  let ?s = "canvasPaint (canvasSize (retinaInit s))"
  have "holds ?s" using assms(2) by (rule holds_look [rotated 2]) simp_all
  moreover from assms(1) obtain u v where "particlesCreate ?s = Inr u" "densityAutoParticles u = Inr v"
    and t: "t = v\<lparr>cfg := (cfg v)\<lparr>linec := (linec (cfg v))
              \<lparr>color_rgb_line := hexToRgb (line_color (linec (cfg v)))\<rparr>\<rparr>\<rparr>"
    unfolding vendors_init_def by (auto elim!: andThen_InrE)
  ultimately have "holds v" by (blast intro: particlesCreate_holds densityAutoParticles_holds)
  then show ?thesis by (rule holds_look [rotated 2]) (simp_all add: t same_look_def)
qed

lemma checkBeforeDraw_holds: "checkBeforeDraw s = Inr t \<Longrightarrow> holds s \<Longrightarrow> holds t"
  by (auto simp: checkBeforeDraw_def split: if_splits elim!: andThen_InrE
      dest: vendors_init_holds vendors_draw_holds)

lemma loadImg_holds [simp]: "holds (loadImg s) = holds s"
  by (simp add: loadImg_def Let_def)

lemma vendors_start_holds: "vendors_start s = Inr t \<Longrightarrow> holds s \<Longrightarrow> holds t"
  by (auto simp: vendors_start_def Let_def split: if_splits intro: checkBeforeDraw_holds)

lemma particlesRefresh_holds: "particlesRefresh s = Inr t \<Longrightarrow> holds t"
  unfolding particlesRefresh_def Let_def by (erule vendors_start_holds) simp

lemma on_click_holds: "on_click s = Inr t \<Longrightarrow> holds s \<Longrightarrow> holds t"
  unfolding on_click_def Let_def
  by (auto split: if_splits str_or_arr.splits intro: pushParticles_holds removeParticles_holds)

lemma event_holds:
  assumes "pjs_event ev s = Inr t" and "holds s"
  shows "holds t"
proof (cases ev)
  case EvResize
  with assms(1) have "for_each (\<lambda>_. resize_handler) [0..<resize_listeners s] s = Inr t" by simp
  then show ?thesis
    by (rule for_each_invariant [where P = holds]) (use assms(2) resize_handler_holds in auto)
next
  case EvFrame
  with assms show ?thesis by (auto split: list.splits elim!: vendors_draw_holds)
next
  case EvImgLoad
  with assms show ?thesis
    by (auto simp: img_done_def split: if_splits elim!: checkBeforeDraw_holds)
next
  case (EvXhr n r)
  with assms show ?thesis
    by (auto simp: xhr_done_def split: if_splits elim!: checkBeforeDraw_holds)
next
  case (EvSvgLoad i)
  with assms show ?thesis
    by (auto simp: svg_loaded_def holds_def list_all_iff intro!: law_image split: if_splits)
next
  case EvRefresh
  with assms show ?thesis by (auto intro: particlesRefresh_holds)
next
  case EvClick
  with assms show ?thesis by (auto split: if_splits intro: on_click_holds)
qed (use assms in \<open>auto simp: holds_def on_mousemove_def on_mouseleave_def repulse_timeout_def Let_def
       split: prod.splits\<close>)

theorem reachable_holds: "pjs_reachable c e g s \<Longrightarrow> holds s"
proof (induction rule: pjs_reachable.induct)
  case (created s)
  then show ?case unfolding new_pJS_def
    by (rule vendors_start_holds) (simp add: holds_def initial_pjs_def)
next
  case (event s ev t)
  then show ?case by (blast intro: event_holds)
qed

lemma reachable_law: "pjs_reachable c e g s \<Longrightarrow> p \<in> set (parr s) \<Longrightarrow> law (cfg s) p"
  using reachable_holds by (simp add: holds_def list_all_iff)

end

subsection \<open>The opacity law\<close>

text \<open>
  With a value \<open>V\<close> and an animation speed \<open>k\<close>, both non-negative, the opacity stays between 0 and
  \<open>V + 2 vo\<close>, where \<open>vo \<le> k / 100\<close> is the particle's own speed.  The bound depends on the
  direction of the animation: a growing opacity is at most \<open>V + vo\<close>.
\<close>

definition opacity_options :: "config \<Rightarrow> bool" where
  "opacity_options c \<longleftrightarrow>
     is_Num (opacity_value (opacityc c)) \<and> 0 \<le> num_val (opacity_value (opacityc c)) \<and>
     is_Num (opacity_anim_speed (opacityc c)) \<and> 0 \<le> num_val (opacity_anim_speed (opacityc c))"

definition opacity_bound :: "config \<Rightarrow> particle \<Rightarrow> bool" where
  "opacity_bound c p \<longleftrightarrow>
     (let V = num_val (opacity_value (opacityc c)); k = num_val (opacity_anim_speed (opacityc c));
          a = num_val (opacity p); w = num_val (vo p) in
      is_Num (opacity p) \<and> 0 \<le> a \<and>
      (if opacity_anim_enable (opacityc c)
       then is_Num (vo p) \<and> 0 \<le> w \<and> w \<le> k / 100 \<and>
            a \<le> V + (if opacity_status p then w else 2 * w)
       else a \<le> V))"

definition opacity_law :: "config \<Rightarrow> particle \<Rightarrow> bool" where
  "opacity_law c p \<longleftrightarrow> (opacity_options c \<longrightarrow> opacity_bound c p)"

text \<open>The law reads only these fields of a particle.\<close>

definition opacity_part where
  "opacity_part p = (opacity p, vo p, opacity_status p)"

lemma opacity_bound_part: "opacity_part q = opacity_part p \<Longrightarrow> opacity_bound c q = opacity_bound c p"
  by (simp add: opacity_bound_def opacity_part_def)

lemma frac_scale:
  "0 \<le> w \<Longrightarrow> 0 \<le> frac u * w" "0 \<le> w \<Longrightarrow> frac u * w \<le> w"
  "0 \<le> w \<Longrightarrow> 0 \<le> w * frac u" "0 \<le> w \<Longrightarrow> w * frac u \<le> w"
  by (simp_all add: mult_left_le_one_le mult_right_le_one_le frac_lt_1 less_imp_le)

lemma init_opacity_range:
  assumes "opacity_value c = Num V" "0 \<le> V" "opacity_anim_speed c = Num k" "0 \<le> k"
    and "init_opacity c g = ((a, w), g')"
  shows "is_Num a \<and> 0 \<le> num_val a \<and> num_val a \<le> V \<and>
    (opacity_anim_enable c \<longrightarrow> is_Num w \<and> 0 \<le> num_val w \<and> num_val w \<le> k / 100)"
  using assms(5) frac_scale [OF assms(2)] frac_scale [OF assms(4)]
  by (auto simp: assms(1-4) init_opacity_def random_if_def Math_random_def Let_def
      split: if_splits)

lemma opacity_bound_init:
  assumes "opacity_options c" and "init_opacity (opacityc c) g = ((a, w), g')"
    and "opacity_part p = (a, w, False)"
  shows "opacity_bound c p"
proof -
  from assms(1) obtain V k where V: "opacity_value (opacityc c) = Num V" "0 \<le> V"
    and k: "opacity_anim_speed (opacityc c) = Num k" "0 \<le> k"
    by (auto simp: opacity_options_def elim!: is_NumE)
  from init_opacity_range [OF V k assms(2)] assms(3) V k show ?thesis
    by (auto simp: opacity_bound_def opacity_part_def Let_def)
qed

lemma opacity_bound_update:
  assumes "opacity_options c" and "opacity_bound c p"
  shows "opacity_bound c (update_opacity (opacityc c) p)"
proof -
  from assms(1) obtain V k where V: "opacity_value (opacityc c) = Num V" "0 \<le> V"
    and k: "opacity_anim_speed (opacityc c) = Num k" "0 \<le> k"
    by (auto simp: opacity_options_def elim!: is_NumE)
  show ?thesis
  proof (cases "opacity_anim_enable (opacityc c)")
    case True
    with assms(2) obtain a w where "opacity p = Num a" "vo p = Num w"
      by (auto simp: opacity_bound_def Let_def elim!: is_NumE)
    with True assms(2) V k show ?thesis
      by (auto simp: opacity_bound_def update_opacity_def Let_def)
  next
    case False
    with assms(2) show ?thesis by (simp add: opacity_bound_def update_opacity_def)
  qed
qed

subsection \<open>The part of a frame that a law can see\<close>

lemma move_particle_keeps [simp]:
  "opacity_part (move_particle m p) = opacity_part p" "pcol (move_particle m p) = pcol p"
  "pshape (move_particle m p) = pshape p" "pimg (move_particle m p) = pimg p"
  by (simp_all add: move_particle_def opacity_part_def Let_def)

lemma update_size_keeps [simp]:
  "opacity_part (update_size m p) = opacity_part p" "pcol (update_size m p) = pcol p"
  "pshape (update_size m p) = pshape p" "pimg (update_size m p) = pimg p"
  by (simp_all add: update_size_def opacity_part_def Let_def)

lemma update_opacity_keeps [simp]:
  "pcol (update_opacity m p) = pcol p" "px (update_opacity m p) = px p"
  "py (update_opacity m p) = py p" "radius (update_opacity m p) = radius p"
  "pshape (update_opacity m p) = pshape p" "pimg (update_opacity m p) = pimg p"
  by (simp_all add: update_opacity_def Let_def)

lemma wrap_position_keeps:
  "wrap_position m c p g = (q, g') \<Longrightarrow> opacity_part q = opacity_part p \<and> pcol q = pcol p \<and>
     pshape q = pshape p \<and> pimg q = pimg p \<and> radius q = radius p \<and> vx q = vx p \<and> vy q = vy p"
  by (auto simp: wrap_position_def opacity_part_def Let_def split: prod.splits if_splits)

lemma bounce_walls_keeps [simp]:
  "opacity_part (bounce_walls m c p) = opacity_part p" "pcol (bounce_walls m c p) = pcol p"
  "pshape (bounce_walls m c p) = pshape p" "pimg (bounce_walls m c p) = pimg p"
  "px (bounce_walls m c p) = px p" "py (bounce_walls m c p) = py p"
  "radius (bounce_walls m c p) = radius p"
  by (simp_all add: bounce_walls_def opacity_part_def)

lemma advance_keeps:
  assumes "advance c cv p g = (q, g')"
  shows "opacity_part q = opacity_part (update_opacity (opacityc c) p)" "pcol q = pcol p"
    "pshape q = pshape p" "pimg q = pimg p"
proof -
  from assms obtain r where
    r: "wrap_position (movec c) cv
          (update_size (sizec c) (update_opacity (opacityc c) (move_particle (movec c) p))) g = (r, g')"
    and q: "q = bounce_walls (movec c) cv r"
    by (auto simp: advance_def Let_def split: prod.splits)
  have "opacity_part (update_opacity (opacityc c) (move_particle (movec c) p)) =
      opacity_part (update_opacity (opacityc c) p)"
    by (simp add: opacity_part_def update_opacity_def move_particle_def Let_def)
  with wrap_position_keeps [OF r] q
  show "opacity_part q = opacity_part (update_opacity (opacityc c) p)" "pcol q = pcol p"
    "pshape q = pshape p" "pimg q = pimg p" by simp_all
qed

text \<open>The bubble effect changes nothing of a particle but its two bubble attributes.\<close>

definition body :: "particle \<Rightarrow> particle" where
  "body p = p\<lparr>radius_bubble := None, opacity_bubble := None\<rparr>"

lemma body_update [simp]:
  "body (p\<lparr>radius_bubble := x\<rparr>) = body p" "body (p\<lparr>opacity_bubble := x\<rparr>) = body p"
  by (simp_all add: body_def)

lemma body_keeps:
  assumes "body q = body p"
  shows "opacity_part q = opacity_part p \<and> pcol q = pcol p \<and> pshape q = pshape p \<and>
    pimg q = pimg p \<and> px q = px p \<and> py q = py p \<and> vx q = vx p \<and> vy q = vy p \<and>
    radius q = radius p \<and> vs q = vs p"
  using assms by (cases p; cases q) (simp add: body_def opacity_part_def)

lemma bubble_init_body [simp]: "body (bubble_init p) = body p"
  by (simp add: bubble_init_def)

lemma bubble_hover_size_body [simp]: "body (bubble_hover_size a b r p) = body p"
  by (simp add: bubble_hover_size_def Let_def)

lemma bubble_hover_opacity_body [simp]: "body (bubble_hover_opacity a b r p) = body p"
  by (simp add: bubble_hover_opacity_def Let_def)

lemma bubble_hover_body [simp]: "body (bubble_hover s p) = body p"
  by (simp add: bubble_hover_def Let_def)

lemma bubble_click_body: "bubble_click s p = (t, q) \<Longrightarrow> body q = body p"
  by (auto simp: bubble_click_def Let_def split: if_splits)

lemma bubble_keeps: "bubbleParticle s p = (t, q) \<Longrightarrow> body q = body p"
  by (auto simp: bubbleParticle_def Let_def dest: bubble_click_body split: if_splits)

lemma repulse_keeps:
  "repulseParticle s p = (t, q) \<Longrightarrow> opacity_part q = opacity_part p \<and> pcol q = pcol p \<and>
     pshape q = pshape p \<and> pimg q = pimg p \<and> radius q = radius p"
  by (auto simp: repulseParticle_def repulse_click_def repulse_hover_def repulse_process_def
      opacity_part_def Let_def split: if_splits)

lemma mouse_effects_steps:
  assumes "mouse_effects s p = Inr (t, q)"
  obtains u r where "body r = body p"
    and "(u, r) = (t, q) \<or> repulseParticle u r = (t, q)"
    and "\<not> isInArray ''repulse'' (onhover_mode (interc (cfg s))) \<Longrightarrow>
         \<not> isInArray ''repulse'' (onclick_mode (interc (cfg s))) \<Longrightarrow> q = r"
  using assms
  by (auto simp: mouse_effects_def Let_def andThen_Inr_iff split: if_splits prod.splits
      dest!: bubble_keeps)

lemma mouse_effects_keeps:
  assumes "mouse_effects s p = Inr (t, q)"
  shows "opacity_part q = opacity_part p \<and> pcol q = pcol p \<and> pshape q = pshape p \<and>
     pimg q = pimg p \<and> radius q = radius p"
  using assms
proof (cases rule: mouse_effects_steps)
  case (1 u r)
  from 1(2) repulse_keeps [of u r t q] body_keeps [OF 1(1)] show ?thesis by auto
qed

lemma interact_pair_keeps:
  assumes "interact_pair c p p2 = Inr (l, q, q2)"
  shows "opacity_part q = opacity_part p \<and> pcol q = pcol p \<and> pshape q = pshape p \<and>
      pimg q = pimg p \<and> px q = px p \<and> py q = py p \<and> radius q = radius p"
    and "opacity_part q2 = opacity_part p2 \<and> pcol q2 = pcol p2 \<and> pshape q2 = pshape p2 \<and>
      pimg q2 = pimg p2 \<and> px q2 = px p2 \<and> py q2 = py p2 \<and> radius q2 = radius p2"
  using assms
  by (auto simp: interact_pair_def attractParticles_def bounceParticles_def opacity_part_def
      Let_def andThen_Inr_iff split: if_splits)

lemma set_img_loaded_keeps [simp]:
  "opacity_part (set_img_loaded i p) = opacity_part p" "pcol (set_img_loaded i p) = pcol p"
  "pshape (set_img_loaded i p) = pshape p"
  "pimg (set_img_loaded i p) = None \<longleftrightarrow> pimg p = None"
  by (simp_all add: set_img_loaded_def opacity_part_def)

lemma attach_image_keeps:
  assumes "attach_image p s = Inr (q, t)"
  shows "opacity_part q = opacity_part p \<and> pcol q = pcol p \<and> pshape q = pshape p \<and>
    (pshape p = Some ''image'' \<longrightarrow> pimg q \<noteq> None)"
  using assms
  by (auto simp: attach_image_def opacity_part_def Let_def andThen_Inr_iff split: if_splits)

lemma dress_particle_keeps:
  assumes "dress_particle c col p g = (q, g')"
  obtains a w h where "init_opacity (opacityc c) g = ((a, w), h)" "opacity q = a" "vo q = w"
    and "pcol q = col" "opacity_status q = opacity_status p"
  using assms by (auto simp: dress_particle_def Let_def split: prod.splits)

lemma overlap_loop_keeps:
  assumes "overlap_loop rec c pos ps p g = Inr (q, g')" and "Q p"
    and "\<And>p x y. Q p \<Longrightarrow> Q (p\<lparr>px := x, py := y\<rparr>)"
    and "\<And>p g q g'. rec p g = Inr (q, g') \<Longrightarrow> Q p \<Longrightarrow> Q q"
  shows "Q q"
  using assms(1,2)
proof (induction ps arbitrary: p g)
  case Nil
  then show ?case by simp
next
  case (Cons p2 ps)
  show ?case
  proof (cases "overlaps p p2")
    case True
    with Cons.prems(1) obtain x y h r h' where "rec (p\<lparr>px := x, py := y\<rparr>) h = Inr (r, h')"
      and rest: "overlap_loop rec c pos ps r h' = Inr (q, g')"
      by (auto simp: Let_def elim!: andThen_InrE split: prod.splits)
    then have "Q r" using assms(3,4) Cons.prems(2) by blast
    with rest show ?thesis by (rule Cons.IH)
  next
    case False
    with Cons show ?thesis by simp
  qed
qed

lemma checkOverlap_keeps:
  assumes "checkOverlap d c arr pos p g = Inr (q, g')" and "Q p"
    and "\<And>p x y. Q p \<Longrightarrow> Q (p\<lparr>px := x, py := y\<rparr>)"
  shows "Q q"
  using assms(1,2)
proof (induction d arbitrary: pos p g q g')
  case 0
  then show ?case by simp
next
  case (Suc d)
  from Suc.prems(1) have "overlap_loop (checkOverlap d c arr None) c pos arr p g = Inr (q, g')"
    by simp
  then show ?case
    using Suc.prems(2) assms(3) Suc.IH by (rule overlap_loop_keeps)
qed

lemma checkOverlap_fresh:
  assumes "checkOverlap d c arr pos p g = Inr (q, g')"
    and "\<not> opacity_status p" "pimg p = None"
  shows "\<not> opacity_status q \<and> pimg q = None"
  by (rule checkOverlap_keeps [OF assms(1)]) (use assms(2,3) in simp_all)

lemma place_particle_keeps:
  assumes "place_particle pos s = Inr (p, g)"
  shows "\<not> opacity_status p \<and> pimg p = None"
  using assms
  by (cases "bounce (movec (cfg s))")
    (auto simp: place_particle_def Let_def split: prod.splits dest!: checkOverlap_fresh)

lemma opacity_law_part:
  assumes "opacity_law c p" and "opacity_part q = opacity_part p"
  shows "opacity_law c q"
  using assms(1) opacity_bound_part [OF assms(2)] by (simp add: opacity_law_def)

interpretation opacity_laws: particle_law opacity_law
proof
  show "opacity_law c' p" if "same_look c c'" "opacity_law c p" for c c' p
    using that by (simp add: same_look_def opacity_law_def opacity_bound_def opacity_options_def)
next
  fix pos s p t
  assume "new_particle pos s = Inr (p, t)"
  then show "opacity_law (cfg s) p"
  proof (cases rule: new_particle_stages)
    case (1 p0 g0 col g1 p1 g2)
    from 1(3) obtain a w h where "init_opacity (opacityc (cfg s)) g1 = ((a, w), h)"
      and "opacity_part p1 = (a, w, False)"
      by (rule dress_particle_keeps)
        (use place_particle_keeps [OF 1(1)] in \<open>simp add: opacity_part_def\<close>)
    with attach_image_keeps [OF 1(4)] show ?thesis
      by (auto simp: opacity_law_def intro: opacity_bound_init)
  qed
next
  fix c p cv g q g'
  assume *: "opacity_law c p" "advance c cv p g = (q, g')"
  from *(1) have "opacity_law c (update_opacity (opacityc c) p)"
    using opacity_bound_update by (auto simp: opacity_law_def)
  then show "opacity_law c q" using advance_keeps(1) [OF *(2)] by (rule opacity_law_part)
next
  show "opacity_law (cfg s) q" if "opacity_law (cfg s) p" "mouse_effects s p = Inr (t, q)" for s p t q
    using that(1) mouse_effects_keeps [OF that(2)] by (blast intro: opacity_law_part)
next
  show "opacity_law c q \<and> opacity_law c q2"
    if "opacity_law c p" "opacity_law c p2" "interact_pair c p p2 = Inr (l, q, q2)" for c p p2 l q q2
    using that(1,2) interact_pair_keeps [OF that(3)] by (blast intro: opacity_law_part)
next
  show "opacity_law c (set_img_loaded i p)" if "opacity_law c p" for c p i
    using that by (rule opacity_law_part) simp
qed

subsection \<open>The colour law\<close>

text \<open>
  When every hex string of the options is one, each particle has a colour, and a particle of shape
  \<open>image\<close> has an image record: its drawing does not throw.
\<close>

fun valid_color :: "color_value \<Rightarrow> bool" where
  "valid_color (ColorArray cs) = list_all (\<lambda>c. hexToRgb c \<noteq> None) cs"
| "valid_color (ColorObject k h) = (k \<noteq> None \<or> h \<noteq> None)"
| "valid_color (ColorString v) = (v = ''random'' \<or> hexToRgb v \<noteq> None)"

definition colored :: "particle \<Rightarrow> bool" where
  "colored p \<longleftrightarrow> color_rgb (pcol p) \<noteq> None \<or> color_hsl (pcol p) \<noteq> None"

definition color_law :: "config \<Rightarrow> particle \<Rightarrow> bool" where
  "color_law c p \<longleftrightarrow>
     (valid_color (colorc c) \<longrightarrow> colored p) \<and> (pshape p = Some ''image'' \<longrightarrow> pimg p \<noteq> None)"

lemma random_index_less: "random_index n g = (Some k, g') \<Longrightarrow> k < n"
  by (auto simp: random_index_def Let_def split: prod.splits jsnum.splits if_splits)

lemma init_color_colored:
  assumes "init_color c g = Inr (col, g')" and "valid_color c"
  shows "color_rgb col \<noteq> None \<or> color_hsl col \<noteq> None"
proof (cases c)
  case (ColorArray cs)
  with assms obtain k h where "random_index (length cs) g = (Some k, h)"
    and "col = \<lparr>color_rgb = hexToRgb (cs ! k), color_hsl = None\<rparr>"
    by (auto simp: init_color_def Let_def split: prod.splits option.splits)
  with ColorArray assms(2) random_index_less show ?thesis by (fastforce simp: list_all_length)
qed (use assms in \<open>auto simp: init_color_def Let_def split: if_splits prod.splits\<close>)

interpretation color_laws: particle_law color_law
proof
  show "color_law c' p" if "same_look c c'" "color_law c p" for c c' p
    using that by (simp add: same_look_def color_law_def)
next
  fix pos s p t
  assume "new_particle pos s = Inr (p, t)"
  then show "color_law (cfg s) p"
  proof (cases rule: new_particle_stages)
    case (1 p0 g0 col g1 p1 g2)
    from 1(3) have "pcol p1 = col" by (rule dress_particle_keeps)
    with attach_image_keeps [OF 1(4)] init_color_colored [OF 1(2)] show ?thesis
      by (auto simp: color_law_def colored_def)
  qed
next
  show "color_law c q" if "color_law c p" "advance c cv p g = (q, g')" for c p cv g q g'
    using that advance_keeps(2-4) [OF that(2)] by (simp add: color_law_def colored_def)
next
  show "color_law (cfg s) q" if "color_law (cfg s) p" "mouse_effects s p = Inr (t, q)" for s p t q
    using that mouse_effects_keeps [OF that(2)] by (simp add: color_law_def colored_def)
next
  show "color_law c q \<and> color_law c q2"
    if "color_law c p" "color_law c p2" "interact_pair c p p2 = Inr (l, q, q2)" for c p p2 l q q2
    using that interact_pair_keeps [OF that(3)] by (simp add: color_law_def colored_def)
next
  show "color_law c (set_img_loaded i p)" if "color_law c p" for c p i
    using that set_img_loaded_keeps(4) [of i p] by (simp add: color_law_def colored_def)
qed

subsection \<open>The size law\<close>

text \<open>
  A particle is drawn with \<open>radius_bubble\<close>, if it has one, and otherwise with \<open>radius\<close>.  No step of a frame makes
  these negative, unless the mode \<open>bubble\<close> of clicks is on.
\<close>

definition click_bubble :: "inter_cfg \<Rightarrow> bool" where
  "click_bubble i \<longleftrightarrow> onclick_enable i \<and> isInArray ''bubble'' (onclick_mode i) \<and>
     \<not> (onhover_enable i \<and> isInArray ''bubble'' (onhover_mode i))"

definition not_negative :: "particle \<Rightarrow> bool" where
  "not_negative p \<longleftrightarrow> \<not> radius p < Num 0 \<and> (\<forall>b. radius_bubble p = Some b \<longrightarrow> \<not> b < Num 0)"

definition size_law :: "config \<Rightarrow> particle \<Rightarrow> bool" where
  "size_law c p \<longleftrightarrow> (\<not> click_bubble (interc c) \<longrightarrow> not_negative p)"

lemma update_size_negative:
  "\<not> radius p < Num 0 \<Longrightarrow> \<not> radius (update_size c p) < Num 0"
  by (simp add: update_size_def Let_def)

lemma advance_size:
  assumes "advance c cv p g = (q, g')" "not_negative p"
  shows "not_negative q"
proof -
  let ?r = "update_size (sizec c) (update_opacity (opacityc c) (move_particle (movec c) p))"
  obtain r h where r: "wrap_position (movec c) cv ?r g = (r, h)" and q: "q = bounce_walls (movec c) cv r"
    using assms(1) by (auto simp: advance_def Let_def split: prod.splits)
  have "radius (move_particle (movec c) p) = radius p \<and> radius_bubble (move_particle (movec c) p) = radius_bubble p"
    by (simp add: move_particle_def Let_def)
  then have "radius (update_opacity (opacityc c) (move_particle (movec c) p)) = radius p \<and>
      radius_bubble (update_opacity (opacityc c) (move_particle (movec c) p)) = radius_bubble p"
    by (simp add: update_opacity_def Let_def)
  moreover have "radius_bubble (update_size (sizec c) u) = radius_bubble u" for u by (simp add: update_size_def Let_def)
  ultimately have "not_negative ?r" using assms(2) update_size_negative by (simp add: not_negative_def)
  moreover have "radius r = radius ?r \<and> radius_bubble r = radius_bubble ?r"
    using r by (auto simp: wrap_position_def Let_def split: prod.splits if_splits)
  moreover have "radius q = radius r \<and> radius_bubble q = radius_bubble r" by (simp add: q bounce_walls_def Let_def)
  ultimately show ?thesis by (simp add: not_negative_def)
qed

lemma bubble_hover_negative:
  assumes "not_negative p"
  shows "not_negative (bubble_hover s p)"
proof -
  have i: "not_negative (bubble_init u)" if "not_negative u" for u using that by (simp add: not_negative_def bubble_init_def)
  have o: "not_negative (bubble_hover_opacity a b r u)" if "not_negative u" for a b r u
    using that by (simp add: not_negative_def bubble_hover_opacity_def Let_def)
  have "\<not> x < Num 0" if "Num 0 \<le> x \<or> Num 0 < x" for x
    using that by (cases x) (auto simp: less_eq_jsnum_def less_jsnum_def num_less_def)
  then have "not_negative (bubble_hover_size a b r u)" if "not_negative u" for a b r u
    using that by (auto simp: not_negative_def bubble_hover_size_def Let_def)
  then show ?thesis using assms i o by (simp add: bubble_hover_def Let_def)
qed

lemma mouse_effects_size:
  assumes "mouse_effects s p = Inr (t, q)" "\<not> click_bubble (interc (cfg s))" "not_negative p"
  shows "not_negative q"
proof -
  have b: "not_negative r" if "bubbleParticle u p = (v, r)" "cfg u = cfg s" for u v r
    using assms(2,3) that bubble_hover_negative by (auto simp: bubbleParticle_def click_bubble_def Let_def split: if_splits)
  have r: "not_negative y" if "repulseParticle u x = (v, y)" "not_negative x" for u x v y
    using that by (auto simp: not_negative_def repulseParticle_def repulse_click_def repulse_hover_def repulse_process_def
        Let_def split: prod.splits if_splits)
  let ?B = "\<lambda>l. if isInArray ''bubble'' (onhover_mode (interc (cfg s))) \<or> isInArray ''bubble'' (onclick_mode (interc (cfg s)))
      then bubbleParticle (emit l s) p else (emit l s, p)"
  obtain l where l: "(case ?B l of (v, x) \<Rightarrow> case (if isInArray ''repulse'' (onhover_mode (interc (cfg s))) \<or>
        isInArray ''repulse'' (onclick_mode (interc (cfg s))) then repulseParticle v x else (v, x)) of (v, x) \<Rightarrow> Inr (v, x)) =
      (Inr (t, q) :: (pjs \<times> particle) res)"
    using assms(1) unfolding mouse_effects_def Let_def andThen_Inr_iff by blast
  obtain v x where g: "?B l = (v, x)" by fastforce
  have q: "(v, x) = (t, q) \<or> repulseParticle v x = (t, q)" using l unfolding g by (auto split: if_splits prod.splits)
  have "not_negative x" using g b [of "emit l s" v x] assms(3) by (auto split: if_splits)
  then show ?thesis using q r by auto
qed

interpretation size_laws: frame_law size_law
proof
  show "size_law c' p" if "same_look c c'" "size_law c p" for c c' p
    using that by (simp add: same_look_def size_law_def mouse_modes_def click_bubble_def)
next
  show "size_law c q" if "size_law c p" "advance c cv p g = (q, g')" for c p cv g q g'
    using that advance_size by (auto simp: size_law_def)
next
  show "size_law (cfg s) q" if "size_law (cfg s) p" "mouse_effects s p = Inr (t, q)" for s p t q
    using that mouse_effects_size by (auto simp: size_law_def)
next
  show "size_law c q \<and> size_law c q2"
    if "size_law c p" "size_law c p2" "interact_pair c p p2 = Inr (l, q, q2)" for c p p2 l q q2
    using that by (auto simp: size_law_def not_negative_def interact_pair_def attractParticles_def bounceParticles_def
        Let_def andThen_Inr_iff split: if_splits)
next
  show "size_law c (set_img_loaded i p)" if "size_law c p" for c p i
    using that by (simp add: size_law_def not_negative_def set_img_loaded_def)
qed

text \<open>New particles are not negative, if the size is not.\<close>

lemma place_particle_size:
  assumes "place_particle pos s = Inr (p, g)" "\<not> size_value (sizec (cfg s)) < Num 0"
  shows "not_negative p"
proof -
  obtain u h where u: "random_if (size_random (sizec (cfg s))) (rng s) = (u, h)" by fastforce
  then obtain a where a: "u = Num a" "0 \<le> a" using random_if_range by blast
  have r: "\<not> u * size_value (sizec (cfg s)) < Num 0"
    using assms(2) a by (cases "size_value (sizec (cfg s))")
      (auto simp: times_jsnum_def less_jsnum_def num_less_def inf_of_def mult_nonneg_nonneg not_less sgn_if)
  have "fst (fst (init_size (sizec (cfg s)) (rng s))) = u * size_value (sizec (cfg s))"
    by (simp add: init_size_def u Let_def split: prod.split)
  then obtain v g1 where 1: "init_size (sizec (cfg s)) (rng s) = ((u * size_value (sizec (cfg s)), v), g1)"
    by (metis prod.collapse)
  obtain x y g2 where 2: "init_position (canv s) pos g1 = ((x, y), g2)" by (metis prod.exhaust)
  define p0 where "p0 = \<lparr>pid = next_pid s, px = into_canvas (canvas_w (canv s)) (u * size_value (sizec (cfg s))) x,
      py = into_canvas (canvas_h (canv s)) (u * size_value (sizec (cfg s))) y, vx = NaN, vy = NaN, vx_i = NaN, vy_i = NaN,
      radius = u * size_value (sizec (cfg s)), size_status = False, vs = v, opacity = NaN, opacity_status = False,
      vo = NaN, pcol = \<lparr>color_rgb = None, color_hsl = None\<rparr>, pshape = None,
      radius_bubble = None, opacity_bubble = None, pimg = None\<rparr>"
  have e: "place_particle pos s = (if bounce (movec (cfg s))
      then checkOverlap (max_depth (environ s)) (canv s) (parr s) pos p0 g2 else Inr (p0, g2))"
    unfolding place_particle_def 1 2 Let_def split_conv p0_def by (rule refl)
  have n: "not_negative p0" using r by (simp add: not_negative_def p0_def)
  show ?thesis
  proof (cases "bounce (movec (cfg s))")
    case True
    then have "checkOverlap (max_depth (environ s)) (canv s) (parr s) pos p0 g2 = Inr (p, g)" using assms(1) e by simp
    then show ?thesis by (rule checkOverlap_keeps) (use n in \<open>simp_all add: not_negative_def\<close>)
  next
    case False
    then show ?thesis using assms(1) e n by simp
  qed
qed

lemma new_particle_size:
  assumes "new_particle pos s = Inr (p, t)" "\<not> size_value (sizec (cfg s)) < Num 0"
  shows "not_negative p"
  using assms(1)
proof (cases rule: new_particle_stages)
  case (1 p0 g col g1 p1 g2)
  have "radius p1 = radius p0 \<and> radius_bubble p1 = radius_bubble p0"
    using 1(3) by (auto simp: dress_particle_def Let_def split: prod.splits)
  moreover have "radius p = radius p1 \<and> radius_bubble p = radius_bubble p1"
    using 1(4) by (auto simp: attach_image_def Let_def andThen_Inr_iff split: if_splits)
  ultimately show ?thesis using place_particle_size [OF 1(1) assms(2)] by (simp add: not_negative_def)
qed

end
