(* ===== verification/JsValue.thy ===== *)
theory JsValue
  imports JsPrelude "HOL-Library.AList" "HOL-Library.Monad_Syntax"
begin

section \<open>Values\<close>

text \<open>
  The values that the scripts read from configuration objects and JSON texts.  An object is its
  list of own enumerable properties in insertion order, each name once; assigning a property is
  \<open>AList.update\<close>, which keeps the place of an existing name and appends a new one.  Names that
  objects inherit (\<open>toString\<close>, \<open>__proto__\<close>, ...) are not in the model.
\<close>

datatype jsval =
    JUndef
  | JNull
  | JBool bool
  | JNum jsnum
  | JStr string
  | JArr "jsval list"
  | JObj "(string \<times> jsval) list"

type_synonym props = "(string \<times> jsval) list"

fun truthy :: "jsval \<Rightarrow> bool" where
  "truthy JUndef = False"
| "truthy JNull = False"
| "truthy (JBool b) = b"
| "truthy (JNum n) = num_truthy n"
| "truthy (JStr s) = (s \<noteq> [])"
| "truthy (JArr xs) = True"
| "truthy (JObj ps) = True"

definition own :: "props \<Rightarrow> string \<Rightarrow> jsval" where
  "own ps k = (case map_of ps k of None \<Rightarrow> JUndef | Some v \<Rightarrow> v)"

text \<open>Reading a property: \<open>undefined\<close> and \<open>null\<close> throw (\<open>None\<close>), other primitives have none of ours.\<close>

fun get :: "jsval \<Rightarrow> string \<Rightarrow> jsval option" where
  "get JUndef k = None"
| "get JNull k = None"
| "get (JObj ps) k = Some (own ps k)"
| "get v k = Some JUndef"

fun get_path :: "jsval \<Rightarrow> string list \<Rightarrow> jsval option" where
  "get_path v [] = Some v"
| "get_path v (k # ks) = Option.bind (get v k) (\<lambda>w. get_path w ks)"

lemma own_update: "own (AList.update k v ps) k' = (if k' = k then v else own ps k')"
  by (simp add: own_def update_conv')

lemma get_path_append:
  "get_path v (ks @ ls) = Option.bind (get_path v ks) (\<lambda>w. get_path w ls)"
  by (induction ks arbitrary: v) (auto split: bind_splits)

subsection \<open>Names used once at every level\<close>

fun wf_jsval :: "jsval \<Rightarrow> bool" where
  "wf_jsval (JArr xs) = list_all wf_jsval xs"
| "wf_jsval (JObj ps) = (distinct (map fst ps) \<and> list_all (\<lambda>kv. wf_jsval (snd kv)) ps)"
| "wf_jsval v = True"

lemma wf_jsval_own: "wf_jsval (JObj ps) \<Longrightarrow> wf_jsval (own ps k)"
  by (auto simp: own_def list_all_iff dest!: map_of_SomeD split: option.splits)

lemma wf_update:
  assumes "wf_jsval (JObj ps)" and "wf_jsval v"
  shows "wf_jsval (JObj (AList.update k v ps))"
proof -
  have "list_all (\<lambda>kv. wf_jsval (snd kv)) (AList.update k v ps)"
    using assms by (induction ps) (auto split: if_splits)
  with assms(1) show ?thesis by (simp add: distinct_update)
qed

end
