(* ===== verification/Particles_Config.thy ===== *)
theory Particles_Config
  imports JsValue Particles_Vendors
begin

section \<open>particles.js: default options and the options of a page\<close>

subsection \<open>Object.deepExtend\<close>

text \<open>
  \<open>Object.deepExtend(destination, source)\<close>.  A value of the source is merged when its
  \<open>constructor\<close> is \<open>Object\<close>: it is an object without a property of that name.  It is merged into
  the value of the destination if that is truthy: the properties set on a string or number are
  lost, and those set on an array are not among its elements.
\<close>

fun deepExtend :: "props \<Rightarrow> props \<Rightarrow> props" where
  "deepExtend destination [] = destination"
| "deepExtend destination ((k, JObj ps) # rest) =
     (let old = own destination k;
          new = (if map_of ps ''constructor'' = None then
                   (case old of
                      JObj qs \<Rightarrow> JObj (deepExtend qs ps)
                    | _ \<Rightarrow> if truthy old then old else JObj (deepExtend [] ps))
                 else JObj ps)
      in deepExtend (AList.update k new destination) rest)"
| "deepExtend destination ((k, v) # rest) = deepExtend (AList.update k v destination) rest"

text \<open>The value that one property of the source leaves in the destination.\<close>

definition merged :: "jsval \<Rightarrow> jsval \<Rightarrow> jsval" where
  "merged old v =
     (case v of
        JObj ps \<Rightarrow>
          if map_of ps ''constructor'' = None then
            (case old of
               JObj qs \<Rightarrow> JObj (deepExtend qs ps)
             | _ \<Rightarrow> if truthy old then old else JObj (deepExtend [] ps))
          else v
      | _ \<Rightarrow> v)"

lemma deepExtend_Cons [simp]:
  "deepExtend d ((k, v) # rest) = deepExtend (AList.update k (merged (own d k) v) d) rest"
  by (cases v) (simp_all add: merged_def Let_def)

declare deepExtend.simps(2-) [simp del]

lemma map_of_deepExtend:
  "distinct (map fst src) \<Longrightarrow>
   map_of (deepExtend d src) k =
     (case map_of src k of None \<Rightarrow> map_of d k | Some v \<Rightarrow> Some (merged (own d k) v))"
proof (induction src arbitrary: d)
  case Nil
  then show ?case by simp
next
  case (Cons kv src)
  then show ?case
    by (cases kv)
      (auto simp: own_update update_conv' split: option.splits dest!: map_of_SomeD intro: rev_image_eqI)
qed

lemma own_deepExtend:
  "distinct (map fst src) \<Longrightarrow>
   own (deepExtend d src) k = (case map_of src k of None \<Rightarrow> own d k | Some v \<Rightarrow> merged (own d k) v)"
  by (simp add: own_def map_of_deepExtend split: option.splits)

text \<open>
  \<open>plain\<close>: a value that is merged rather than assigned.  \<open>sets\<close>: the source assigns \<open>v\<close> at a path.
  \<open>opens\<close>: no truthy value of the destination that is not an object lies on the path.
\<close>

fun plain :: "jsval \<Rightarrow> bool" where
  "plain (JObj ps) = (map_of ps ''constructor'' = None)"
| "plain v = False"

fun sets :: "props \<Rightarrow> string list \<Rightarrow> jsval \<Rightarrow> bool" where
  "sets ps [] v = False"
| "sets ps [k] v = (map_of ps k = Some v \<and> \<not> plain v)"
| "sets ps (k # ks) v =
     (case map_of ps k of Some (JObj qs) \<Rightarrow> plain (JObj qs) \<and> sets qs ks v | _ \<Rightarrow> False)"

fun opens :: "jsval \<Rightarrow> string list \<Rightarrow> bool" where
  "opens v [] = True"
| "opens (JObj qs) (k # ks) = opens (own qs k) ks"
| "opens v (k # ks) = (\<not> truthy v)"

lemma merged_leaf [simp]: "\<not> plain v \<Longrightarrow> merged old v = v"
  by (cases v) (auto simp: merged_def)

text \<open>\<open>silent\<close>: the source says nothing about a path.\<close>

fun silent :: "props \<Rightarrow> string list \<Rightarrow> bool" where
  "silent ps [] = False"
| "silent ps (k # ks) =
     (case map_of ps k of
        None \<Rightarrow> True
      | Some (JObj qs) \<Rightarrow> plain (JObj qs) \<and> silent qs ks
      | _ \<Rightarrow> False)"

theorem deepExtend_keeps:
  assumes "silent src ks" and "wf_jsval (JObj src)" and "get_path (JObj d) ks = Some w"
  shows "get_path (JObj (deepExtend d src)) ks = Some w"
  using assms
proof (induction src ks arbitrary: d rule: silent.induct)
  case (2 ps k ks)
  show ?case
  proof (cases "map_of ps k")
    case None
    with 2(3,4) show ?thesis by (simp add: own_deepExtend)
  next
    case (Some v)
    with 2(2) obtain qs where v: "v = JObj qs" "plain (JObj qs)" "silent qs ks"
      by (auto split: jsval.splits)
    then obtain k' ls where ks: "ks = k' # ls" by (cases ks) auto
    have "wf_jsval (own ps k)" using 2(3) by (rule wf_jsval_own)
    then have wf: "wf_jsval (JObj qs)" using v Some by (simp add: own_def)
    have IH: "get_path (JObj (deepExtend e qs)) ks = Some w" if "get_path (JObj e) ks = Some w" for e
      using 2(1) [OF Some v(1) v(3) wf that] .
    have m: "own (deepExtend d ps) k = merged (own d k) (JObj qs)"
      using 2(3) Some v(1) by (simp add: own_deepExtend)
    have "get_path (own d k) ks = Some w" using 2(4) by simp
    then have "get_path (merged (own d k) (JObj qs)) ks = Some w"
      using IH v(2) by (cases "own d k") (auto simp: merged_def ks own_def intro!: IH split: bind_splits)
    then show ?thesis by (simp add: m)
  qed
qed simp

subsection \<open>Extending twice\<close>

lemma update_same: "map_of ps k = Some v \<Longrightarrow> AList.update k v ps = ps"
  by (induction ps) auto

lemma deepExtend_fixed:
  assumes "\<forall>(k, v) \<in> set src. map_of e k = Some (merged (own e k) v)"
  shows "deepExtend e src = e"
  using assms by (induction src) (auto simp: update_same)

lemma size_member: "(k, v) \<in> set ps \<Longrightarrow> size v < size (JObj ps)"
  by (induction ps) auto

theorem deepExtend_idem:
  assumes "wf_jsval (JObj src)"
  shows "deepExtend (deepExtend d src) src = deepExtend d src"
  using assms
proof (induction "size (JObj src)" arbitrary: src d rule: less_induct)
  case less
  have "map_of (deepExtend d src) k = Some (merged (own (deepExtend d src) k) v)"
    if kv: "(k, v) \<in> set src" for k v
  proof -
    have k: "map_of src k = Some v" using kv less.prems by simp
    then have m: "map_of (deepExtend d src) k = Some (merged (own d k) v)"
      using less.prems by (simp add: map_of_deepExtend del: map_of_eq_Some_iff)
    have "merged (merged (own d k) v) v = merged (own d k) v"
    proof (cases "plain v")
      case True
      then obtain ps where v: "v = JObj ps" by (cases v) auto
      have "wf_jsval (own src k)" using less.prems by (rule wf_jsval_own)
      then have wf: "wf_jsval (JObj ps)" using k v by (simp add: own_def del: map_of_eq_Some_iff)
      have IH: "deepExtend (deepExtend e ps) ps = deepExtend e ps" for e
        using less.hyps [OF _ wf] size_member [OF kv] v by simp
      show ?thesis using True by (cases "own d k") (auto simp: merged_def v IH)
    qed simp
    with m show ?thesis by (simp add: own_def)
  qed
  then show ?case by (intro deepExtend_fixed) auto
qed


subsection \<open>The option objects\<close>

text \<open>
  The default options of the constructor (the attributes of \<open>this.pJS\<close> that are options), and
  those that the page of the file server passes (\<open>app.js\<close>).
\<close>

definition default_options :: props where
  "default_options =
      [(''particles'', JObj
         [(''number'', JObj
            [(''value'', JNum (Num 400)),
             (''density'', JObj [(''enable'', JBool True), (''value_area'', JNum (Num 800))])]),
          (''color'', JObj [(''value'', JStr ''#fff'')]),
          (''shape'', JObj
            [(''type'', JStr ''circle''),
             (''stroke'', JObj [(''width'', JNum (Num 0)), (''color'', JStr ''#ff0000'')]),
             (''polygon'', JObj [(''nb_sides'', JNum (Num 5))]),
             (''image'', JObj
               [(''src'', JStr ''''),
                (''width'', JNum (Num 100)),
                (''height'', JNum (Num 100))])]),
          (''opacity'', JObj
            [(''value'', JNum (Num 1)),
             (''random'', JBool False),
             (''anim'', JObj
               [(''enable'', JBool False),
                (''speed'', JNum (Num 2)),
                (''opacity_min'', JNum (Num 0)),
                (''sync'', JBool False)])]),
          (''size'', JObj
            [(''value'', JNum (Num 20)),
             (''random'', JBool False),
             (''anim'', JObj
               [(''enable'', JBool False),
                (''speed'', JNum (Num 20)),
                (''size_min'', JNum (Num 0)),
                (''sync'', JBool False)])]),
          (''line_linked'', JObj
            [(''enable'', JBool True),
             (''distance'', JNum (Num 100)),
             (''color'', JStr ''#fff''),
             (''opacity'', JNum (Num 1)),
             (''width'', JNum (Num 1))]),
          (''move'', JObj
            [(''enable'', JBool True),
             (''speed'', JNum (Num 2)),
             (''direction'', JStr ''none''),
             (''random'', JBool False),
             (''straight'', JBool False),
             (''out_mode'', JStr ''out''),
             (''bounce'', JBool False),
             (''attract'', JObj
               [(''enable'', JBool False),
                (''rotateX'', JNum (Num 3000)),
                (''rotateY'', JNum (Num 3000))])]),
          (''array'', JArr [])]),
       (''interactivity'', JObj
         [(''detect_on'', JStr ''canvas''),
          (''events'', JObj
            [(''onhover'', JObj [(''enable'', JBool True), (''mode'', JStr ''grab'')]),
             (''onclick'', JObj [(''enable'', JBool True), (''mode'', JStr ''push'')]),
             (''resize'', JBool True)]),
          (''modes'', JObj
            [(''grab'', JObj
               [(''distance'', JNum (Num 100)),
                (''line_linked'', JObj [(''opacity'', JNum (Num 1))])]),
             (''bubble'', JObj
               [(''distance'', JNum (Num 200)),
                (''size'', JNum (Num 80)),
                (''duration'', JNum (Num 0.4))]),
             (''repulse'', JObj [(''distance'', JNum (Num 200)), (''duration'', JNum (Num 0.4))]),
             (''push'', JObj [(''particles_nb'', JNum (Num 4))]),
             (''remove'', JObj [(''particles_nb'', JNum (Num 2))])]),
          (''mouse'', JObj [])]),
       (''retina_detect'', JBool False)]"

definition app_options :: props where
  "app_options =
      [(''particles'', JObj
         [(''number'', JObj
            [(''value'', JNum (Num 60)),
             (''density'', JObj [(''enable'', JBool True), (''value_area'', JNum (Num 1000))])]),
          (''color'', JObj [(''value'', JStr ''#ffffff'')]),
          (''shape'', JObj
            [(''type'', JStr ''circle''),
             (''stroke'', JObj [(''width'', JNum (Num 0)), (''color'', JStr ''#000000'')]),
             (''polygon'', JObj [(''nb_sides'', JNum (Num 5))]),
             (''image'', JObj
               [(''src'', JStr ''img/github.svg''),
                (''width'', JNum (Num 100)),
                (''height'', JNum (Num 100))])]),
          (''opacity'', JObj
            [(''value'', JNum (Num 0.5)),
             (''random'', JBool False),
             (''anim'', JObj
               [(''enable'', JBool False),
                (''speed'', JNum (Num 1)),
                (''opacity_min'', JNum (Num 0.1)),
                (''sync'', JBool False)])]),
          (''size'', JObj
            [(''value'', JNum (Num 5)),
             (''random'', JBool True),
             (''anim'', JObj
               [(''enable'', JBool False),
                (''speed'', JNum (Num 30)),
                (''size_min'', JNum (Num 0.1)),
                (''sync'', JBool False)])]),
          (''line_linked'', JObj
            [(''enable'', JBool True),
             (''distance'', JNum (Num 200)),
             (''color'', JStr ''#ffffff''),
             (''opacity'', JNum (Num 0.4)),
             (''width'', JNum (Num 1))]),
          (''move'', JObj
            [(''enable'', JBool True),
             (''speed'', JNum (Num 6)),
             (''direction'', JStr ''none''),
             (''random'', JBool False),
             (''straight'', JBool False),
             (''out_mode'', JStr ''out''),
             (''attract'', JObj
               [(''enable'', JBool False),
                (''rotateX'', JNum (Num 600)),
                (''rotateY'', JNum (Num 1200))])])]),
       (''interactivity'', JObj
         [(''detect_on'', JStr ''canvas''),
          (''events'', JObj
            [(''onhover'', JObj [(''enable'', JBool True), (''mode'', JStr ''repulse'')]),
             (''onclick'', JObj [(''enable'', JBool True), (''mode'', JStr ''push'')]),
             (''resize'', JBool True)]),
          (''modes'', JObj
            [(''grab'', JObj
               [(''distance'', JNum (Num 400)),
                (''line_linked'', JObj [(''opacity'', JNum (Num 1))])]),
             (''bubble'', JObj
               [(''distance'', JNum (Num 400)),
                (''size'', JNum (Num 40)),
                (''duration'', JNum (Num 2)),
                (''opacity'', JNum (Num 8)),
                (''speed'', JNum (Num 3))]),
             (''repulse'', JObj [(''distance'', JNum (Num 200))]),
             (''push'', JObj [(''particles_nb'', JNum (Num 4))]),
             (''remove'', JObj [(''particles_nb'', JNum (Num 2))])])]),
       (''retina_detect'', JBool True),
       (''config_demo'', JObj
         [(''hide_card'', JBool False),
          (''background_color'', JStr ''#b61924''),
          (''background_image'', JStr ''''),
          (''background_position'', JStr ''50% 50%''),
          (''background_repeat'', JStr ''no-repeat''),
          (''background_size'', JStr ''cover'')])]"


subsection \<open>Reading the options\<close>

text \<open>
  The records of the model hold the option values at the types the code uses them with: a number
  (\<open>undefined\<close> counts as \<open>NaN\<close>), a condition, a string, a mode or shape given as a string or an
  array of strings, a colour.  Options of other types are outside the model (\<open>None\<close>).
\<close>

fun as_num :: "jsval \<Rightarrow> jsnum option" where
  "as_num (JNum n) = Some n"
| "as_num JUndef = Some NaN"
| "as_num v = None"

fun as_str :: "jsval \<Rightarrow> string option" where
  "as_str (JStr s) = Some s"
| "as_str v = None"

fun as_strs :: "jsval list \<Rightarrow> string list option" where
  "as_strs [] = Some []"
| "as_strs (v # us) = do { x \<leftarrow> as_str v; xs \<leftarrow> as_strs us; Some (x # xs) }"

fun as_str_or_arr :: "jsval \<Rightarrow> str_or_arr option" where
  "as_str_or_arr (JStr s) = Some (JStrV s)"
| "as_str_or_arr (JArr us) = map_option JArrV (as_strs us)"
| "as_str_or_arr v = None"

definition as_rgb :: "props \<Rightarrow> rgb option option" where
  \<comment> \<open>\<open>r\<close>, \<open>g\<close> and \<open>b\<close> all present\<close>
  "as_rgb ps =
     (if own ps ''r'' \<noteq> JUndef \<and> own ps ''g'' \<noteq> JUndef \<and> own ps ''b'' \<noteq> JUndef
      then do { r \<leftarrow> as_num (own ps ''r''); g \<leftarrow> as_num (own ps ''g''); b \<leftarrow> as_num (own ps ''b'');
                Some (Some \<lparr>rgb_r = r, rgb_g = g, rgb_b = b\<rparr>) }
      else Some None)"

definition as_hsl :: "props \<Rightarrow> hsl option option" where
  "as_hsl ps =
     (if own ps ''h'' \<noteq> JUndef \<and> own ps ''s'' \<noteq> JUndef \<and> own ps ''l'' \<noteq> JUndef
      then do { h \<leftarrow> as_num (own ps ''h''); s \<leftarrow> as_num (own ps ''s''); l \<leftarrow> as_num (own ps ''l'');
                Some (Some \<lparr>hsl_h = h, hsl_s = s, hsl_l = l\<rparr>) }
      else Some None)"

fun as_color :: "jsval \<Rightarrow> color_value option" where
  "as_color (JStr s) = Some (ColorString s)"
| "as_color (JArr us) = map_option ColorArray (as_strs us)"
| "as_color (JObj ps) = do { k \<leftarrow> as_rgb ps; h \<leftarrow> as_hsl ps; Some (ColorObject k h) }"
| "as_color v = None"

definition num_at where "num_at v path = Option.bind (get_path v path) as_num"
definition bool_at where "bool_at v path = map_option truthy (get_path v path)"
definition str_at where "str_at v path = Option.bind (get_path v path) as_str"
definition mode_at where "mode_at v path = Option.bind (get_path v path) as_str_or_arr"

definition read_number :: "jsval \<Rightarrow> number_cfg option" where
  "read_number v = do {
     a \<leftarrow> num_at v [''value'']; b \<leftarrow> bool_at v [''density'', ''enable''];
     c \<leftarrow> num_at v [''density'', ''value_area''];
     Some \<lparr>number_value = a, density_enable = b, density_value_area = c\<rparr> }"

definition read_shape :: "jsval \<Rightarrow> shape_cfg option" where
  "read_shape v = do {
     a \<leftarrow> mode_at v [''type'']; b \<leftarrow> num_at v [''stroke'', ''width''];
     c \<leftarrow> str_at v [''stroke'', ''color'']; d \<leftarrow> num_at v [''polygon'', ''nb_sides''];
     e \<leftarrow> str_at v [''image'', ''src'']; f \<leftarrow> num_at v [''image'', ''width''];
     g \<leftarrow> num_at v [''image'', ''height''];
     Some \<lparr>shape_type = a, stroke_width = b, stroke_color = c, nb_sides = d, image_src = e,
           image_width = f, image_height = g\<rparr> }"

definition read_opacity :: "jsval \<Rightarrow> opacity_cfg option" where
  "read_opacity v = do {
     a \<leftarrow> num_at v [''value'']; b \<leftarrow> bool_at v [''random''];
     c \<leftarrow> bool_at v [''anim'', ''enable'']; d \<leftarrow> num_at v [''anim'', ''speed''];
     e \<leftarrow> num_at v [''anim'', ''opacity_min'']; f \<leftarrow> bool_at v [''anim'', ''sync''];
     Some \<lparr>opacity_value = a, opacity_random = b, opacity_anim_enable = c, opacity_anim_speed = d,
           opacity_min = e, opacity_anim_sync = f\<rparr> }"

definition read_size :: "jsval \<Rightarrow> size_cfg option" where
  "read_size v = do {
     a \<leftarrow> num_at v [''value'']; b \<leftarrow> bool_at v [''random''];
     c \<leftarrow> bool_at v [''anim'', ''enable'']; d \<leftarrow> num_at v [''anim'', ''speed''];
     e \<leftarrow> num_at v [''anim'', ''size_min'']; f \<leftarrow> bool_at v [''anim'', ''sync''];
     Some \<lparr>size_value = a, size_random = b, size_anim_enable = c, size_anim_speed = d,
           size_min = e, size_anim_sync = f\<rparr> }"

definition read_line :: "jsval \<Rightarrow> line_cfg option" where
  "read_line v = do {
     a \<leftarrow> bool_at v [''enable'']; b \<leftarrow> num_at v [''distance'']; c \<leftarrow> str_at v [''color''];
     d \<leftarrow> num_at v [''opacity'']; e \<leftarrow> num_at v [''width''];
     Some \<lparr>line_enable = a, line_distance = b, line_color = c, line_opacity = d, line_width = e,
           color_rgb_line = None\<rparr> }"

definition read_move :: "jsval \<Rightarrow> move_cfg option" where
  "read_move v = do {
     a \<leftarrow> bool_at v [''enable'']; b \<leftarrow> num_at v [''speed'']; c \<leftarrow> str_at v [''direction''];
     d \<leftarrow> bool_at v [''random'']; e \<leftarrow> bool_at v [''straight'']; f \<leftarrow> str_at v [''out_mode''];
     g \<leftarrow> bool_at v [''bounce'']; h \<leftarrow> bool_at v [''attract'', ''enable''];
     i \<leftarrow> num_at v [''attract'', ''rotateX'']; j \<leftarrow> num_at v [''attract'', ''rotateY''];
     Some \<lparr>move_enable = a, move_speed = b, direction = c, move_random = d, straight = e,
           out_mode = f, bounce = g, attract_enable = h, rotateX = i, rotateY = j\<rparr> }"

definition read_inter :: "jsval \<Rightarrow> inter_cfg option" where
  "read_inter v = do {
     a \<leftarrow> str_at v [''detect_on''];
     b \<leftarrow> bool_at v [''events'', ''onhover'', ''enable''];
     c \<leftarrow> mode_at v [''events'', ''onhover'', ''mode''];
     d \<leftarrow> bool_at v [''events'', ''onclick'', ''enable''];
     e \<leftarrow> mode_at v [''events'', ''onclick'', ''mode''];
     f \<leftarrow> bool_at v [''events'', ''resize''];
     g \<leftarrow> num_at v [''modes'', ''grab'', ''distance''];
     h \<leftarrow> num_at v [''modes'', ''grab'', ''line_linked'', ''opacity''];
     i \<leftarrow> num_at v [''modes'', ''bubble'', ''distance''];
     j \<leftarrow> num_at v [''modes'', ''bubble'', ''size''];
     k \<leftarrow> num_at v [''modes'', ''bubble'', ''duration''];
     l \<leftarrow> num_at v [''modes'', ''bubble'', ''opacity''];
     m \<leftarrow> num_at v [''modes'', ''repulse'', ''distance''];
     n \<leftarrow> num_at v [''modes'', ''repulse'', ''duration''];
     p \<leftarrow> num_at v [''modes'', ''push'', ''particles_nb''];
     q \<leftarrow> num_at v [''modes'', ''remove'', ''particles_nb''];
     Some \<lparr>detect_on = a, onhover_enable = b, onhover_mode = c, onclick_enable = d,
           onclick_mode = e, ev_resize = f, grab_distance = g, grab_opacity = h,
           bubble_distance = i, bubble_size = j, bubble_duration = k, bubble_opacity = l,
           repulse_distance = m, repulse_duration = n, push_nb = p, remove_nb = q\<rparr> }"

definition read_config :: "jsval \<Rightarrow> config option" where
  "read_config v = do {
     a \<leftarrow> Option.bind (get_path v [''particles'', ''number'']) read_number;
     b \<leftarrow> Option.bind (get_path v [''particles'', ''color'', ''value'']) as_color;
     c \<leftarrow> Option.bind (get_path v [''particles'', ''shape'']) read_shape;
     d \<leftarrow> Option.bind (get_path v [''particles'', ''opacity'']) read_opacity;
     e \<leftarrow> Option.bind (get_path v [''particles'', ''size'']) read_size;
     f \<leftarrow> Option.bind (get_path v [''particles'', ''line_linked'']) read_line;
     g \<leftarrow> Option.bind (get_path v [''particles'', ''move'']) read_move;
     h \<leftarrow> Option.bind (get_path v [''interactivity'']) read_inter;
     i \<leftarrow> bool_at v [''retina_detect''];
     Some \<lparr>numberc = a, colorc = b, shapec = c, opacityc = d, sizec = e, linec = f, movec = g,
           interc = h, retina_detect = i\<rparr> }"

text \<open>The options of an instance: the defaults, extended by the parameters if there are any.\<close>

definition configure :: "props option \<Rightarrow> config option" where
  "configure params =
     (case params of
        None \<Rightarrow> read_config (JObj default_options)
      | Some ps \<Rightarrow> read_config (JObj (deepExtend default_options ps)))"

text \<open>The options of the page of the file server.\<close>

definition app_config :: config where
  "app_config =
  \<lparr>numberc = \<lparr>number_value = Num 60, density_enable = True, density_value_area = Num 1000\<rparr>,
   colorc = ColorString ''#ffffff'',
   shapec = \<lparr>shape_type = JStrV ''circle'', stroke_width = Num 0, stroke_color = ''#000000'',
     nb_sides = Num 5, image_src = ''img/github.svg'', image_width = Num 100, image_height = Num 100\<rparr>,
   opacityc = \<lparr>opacity_value = Num 0.5, opacity_random = False, opacity_anim_enable = False,
     opacity_anim_speed = Num 1, opacity_min = Num 0.1, opacity_anim_sync = False\<rparr>,
   sizec = \<lparr>size_value = Num 5, size_random = True, size_anim_enable = False,
     size_anim_speed = Num 30, size_min = Num 0.1, size_anim_sync = False\<rparr>,
   linec = \<lparr>line_enable = True, line_distance = Num 200, line_color = ''#ffffff'',
     line_opacity = Num 0.4, line_width = Num 1, color_rgb_line = None\<rparr>,
   movec = \<lparr>move_enable = True, move_speed = Num 6, direction = ''none'', move_random = False,
     straight = False, out_mode = ''out'', bounce = False, attract_enable = False,
     rotateX = Num 600, rotateY = Num 1200\<rparr>,
   interc = \<lparr>detect_on = ''canvas'', onhover_enable = True, onhover_mode = JStrV ''repulse'',
     onclick_enable = True, onclick_mode = JStrV ''push'', ev_resize = True,
     grab_distance = Num 400, grab_opacity = Num 1, bubble_distance = Num 400, bubble_size = Num 40,
     bubble_duration = Num 2, bubble_opacity = Num 8, repulse_distance = Num 200,
     repulse_duration = Num 0.4, push_nb = Num 4, remove_nb = Num 2\<rparr>,
   retina_detect = True\<rparr>"

subsection \<open>Properties\<close>

text \<open>
  Options given by the page win: where they assign a value at a path, the extended options
  have that value, however deep, unless the default has something other than an object on the way.
\<close>

theorem option_set:
  assumes "sets src ks v" and "wf_jsval (JObj src)" and "opens (JObj d) ks"
  shows "get_path (JObj (deepExtend d src)) ks = Some v"
  using assms
proof (induction src ks v arbitrary: d rule: sets.induct)
  case (2 ps k v)
  then show ?case by (simp add: own_deepExtend del: map_of_eq_Some_iff)
next
  case (3 ps k k' ks v)
  then obtain qs where qs: "map_of ps k = Some (JObj qs)" "plain (JObj qs)" "sets qs (k' # ks) v"
    by (auto split: option.splits jsval.splits)
  have "wf_jsval (own ps k)" using 3(3) by (rule wf_jsval_own)
  then have wf: "wf_jsval (JObj qs)" using qs by (simp add: own_def)
  have m: "own (deepExtend d ps) k = merged (own d k) (JObj qs)"
    using 3(3) qs by (simp add: own_deepExtend)
  from 3(4) have "opens (own d k) (k' # ks)" by simp
  then consider ds where "own d k = JObj ds" "opens (JObj ds) (k' # ks)" | "\<not> truthy (own d k)"
    by (cases "own d k") auto
  then have "\<exists>ds. opens (JObj ds) (k' # ks) \<and> merged (own d k) (JObj qs) = JObj (deepExtend ds qs)"
  proof cases
    case 1
    with qs show ?thesis by (auto simp: merged_def)
  next
    case 2
    have "opens (JObj []) (k' # ks)" by (cases ks) (simp_all add: own_def)
    moreover have "merged (own d k) (JObj qs) = JObj (deepExtend [] qs)"
      using 2 qs by (cases "own d k") (auto simp: merged_def)
    ultimately show ?thesis by blast
  qed
  then obtain ds where "opens (JObj ds) (k' # ks)" "merged (own d k) (JObj qs) = JObj (deepExtend ds qs)"
    by blast
  with 3(1) [OF qs(1)] qs wf m show ?case by simp
qed simp

lemma app_options_wf: "wf_jsval (JObj app_options)"
  by code_simp

theorem option_set_witness:
  "get_path (JObj (deepExtend default_options app_options)) [''particles'', ''number'', ''density'', ''value_area''] =
     Some (JNum (Num 1000))"
  by (rule option_set [OF _ app_options_wf]) code_simp+

text \<open>
  Options the page does not mention keep their defaults, and extending twice with the same
  options is extending once.
\<close>

theorem option_kept:
  assumes "silent src ks" and "wf_jsval (JObj src)" and "get_path (JObj d) ks = Some w"
  shows "get_path (JObj (deepExtend d src)) ks = Some w \<and>
    deepExtend (deepExtend d src) src = deepExtend d src"
  using deepExtend_keeps [OF assms] deepExtend_idem [OF assms(2)] by simp

theorem option_kept_witness:
  "get_path (JObj (deepExtend default_options app_options)) [''particles'', ''move'', ''bounce''] =
     Some (JBool False) \<and>
   deepExtend (deepExtend default_options app_options) app_options = deepExtend default_options app_options"
  by (rule option_kept [OF _ app_options_wf]) code_simp+

text \<open>The options of the file server's page are what \<open>app_config\<close> says.\<close>

theorem page_options: "configure (Some app_options) = Some app_config"
  by code_simp

end
