(* ===== verification/Particles_Demo.thy ===== *)
theory Particles_Demo
  imports Particles_Config
begin

section \<open>particles.js: small instances\<close>

text \<open>
  An instance of one particle on a canvas of 100 by 50, with the options of the file server's page
  except for the number of particles and the mode of the mouse.  The witnesses of the properties
  evaluate it; \<open>pjs_exec\<close> are the definitions that such an evaluation unfolds.
\<close>

definition demo_config :: config where
  "demo_config = app_config
     \<lparr>numberc := (numberc app_config)\<lparr>number_value := Num 1\<rparr>,
      interc := (interc app_config)\<lparr>onhover_mode := JStrV ''grab''\<rparr>\<rparr>"

definition demo_env :: env where
  "demo_env = \<lparr>offsetWidth = Num 100, offsetHeight = Num 50, devicePixelRatio = Num 1, max_depth = 100\<rparr>"

definition demo_rng :: rng where
  "demo_rng = (\<lambda>_. 1 / 2)"

definition demo_particle :: "real \<Rightarrow> real \<Rightarrow> particle" where
  "demo_particle x y =
     \<lparr>pid = 0, px = Num x, py = Num y, vx = Num 1, vy = Num 0, vx_i = Num 1, vy_i = Num 0,
      radius = Num 2, size_status = False, vs = NaN, opacity = Num (1 / 2), opacity_status = False,
      vo = NaN, pcol = \<lparr>color_rgb = Some \<lparr>rgb_r = Num 255, rgb_g = Num 255, rgb_b = Num 255\<rparr>,
      color_hsl = None\<rparr>, pshape = Some ''circle'', radius_bubble = None, opacity_bubble = None,
      pimg = None\<rparr>"

definition demo_pjs :: "particle list \<Rightarrow> pjs" where
  "demo_pjs ps = (initial_pjs demo_config demo_env demo_rng)\<lparr>parr := ps\<rparr>"

lemma frac_half [simp]: "frac (1 / 2 :: real) = 1 / 2"
  by (simp add: frac_eq)

lemmas demo_defs = demo_config_def app_config_def demo_env_def demo_rng_def demo_particle_def
  demo_pjs_def initial_pjs_def make_tmp_obj_def

lemmas pjs_exec = new_pJS_def scale_cfg_def retinaInit_def to_ulong_def
  set_el_size_def canvasSize_def requestDraw_def cancelDraw_def draw_and_schedule_def vendors_draw_def
  vendors_init_def checkBeforeDraw_def vendors_start_def canvasPaint_def emit_def particlesCreate_def
  push_one_def new_particle_def place_particle_def dress_particle_def attach_image_def
  init_size_def init_position_def into_canvas_def init_opacity_def init_velocity_def velbase_def
  init_shape_def init_color_def particlesDraw_def particlesUpdate_def update_at_def advance_def
  move_particle_def update_opacity_def update_size_def wrap_position_def bounce_walls_def
  mouse_effects_def repulseParticle_def grabParticle_def draw_at_def draw_particle_def
  particle_css_def draw_shape_def ctx_arc_def
  random_if_def Math_random_def shape_is_image_def densityAutoParticles_def density_target_def
  removeParticles_def splice_count_def redraw_if_still_def isInArray_def
  str_indexOf_def str_index_from.simps hexToRgb_def strip_hash_def expand_shorthand_def is_hex_def
  Let_def

lemma demo_created: "\<exists>s. new_pJS demo_config demo_env demo_rng = Inr s \<and> length (parr s) = 1"
  by (simp add: pjs_exec demo_defs)

lemma demo_reachable:
  obtains s p where "pjs_reachable demo_config demo_env demo_rng s" "p \<in> set (parr s)"
proof -
  from demo_created obtain s where s: "new_pJS demo_config demo_env demo_rng = Inr s" "length (parr s) = 1"
    by blast
  then have "hd (parr s) \<in> set (parr s)" by (cases "parr s") auto
  with s(1) show thesis by (blast intro: that pjs_reachable.created)
qed

lemma demo_shape: "\<not> isInArray ''image'' (shape_type (shapec demo_config))"
  by (simp add: demo_defs isInArray_def str_indexOf_def str_index_from.simps)

lemma hex_known:
  "hexToRgb ''#ffffff'' \<noteq> None" "hexToRgb ''#000000'' \<noteq> None"
  by (simp_all add: hexToRgb_def strip_hash_def expand_shorthand_def is_hex_def)

end
