(* ===== verification/Particles_Loop.thy ===== *)
theory Particles_Loop
  imports Particles_Laws Particles_Demo
begin

section \<open>particles.js: the animation loop\<close>

text \<open>
  What the loop keeps: the options that no operation changes, the number of pending animation
  frames, and the conditions under which a frame does not throw.
\<close>

subsection \<open>Options no event changes\<close>

definition same_setup :: "config \<Rightarrow> config \<Rightarrow> bool" where
  "same_setup c c' \<longleftrightarrow>
     same_look c c' \<and> move_enable (movec c) = move_enable (movec c') \<and>
     line_color (linec c) = line_color (linec c')"

text \<open>
  The state of an instance whose particles are not images: at most one frame is pending, its
  identifier is the one that \<open>drawAnimFrame\<close> remembers, and the line colour has been computed.
\<close>

definition running :: "config \<Rightarrow> pjs \<Rightarrow> bool" where
  "running c s \<longleftrightarrow>
     same_setup c (cfg s) \<and>
     (if move_enable (movec c) then \<exists>i. frames s = [i] \<and> drawAnimFrame s = Some i
      else frames s = []) \<and>
     color_rgb_line (linec (cfg s)) = hexToRgb (line_color (linec c)) \<and> img_requests s = 0"

lemma running_part:
  assumes "cfg t = cfg s" "frames t = frames s" "drawAnimFrame t = drawAnimFrame s"
    and "img_requests t = img_requests s" "running c s"
  shows "running c t"
  using assms by (simp add: running_def)

lemma running_static:
  assumes "static t = static s" "running c s"
  shows "running c t"
  using running_part staticD [OF assms(1)] assms(2) by blast

lemma str_join_comma: "\<not> CHR '','' \<in> set v \<Longrightarrow> str_join '','' xs = v \<Longrightarrow> v \<noteq> [] \<Longrightarrow> xs = [v]"
  by (cases "('','', xs)" rule: str_join.cases) auto

lemma shape_is_imageD: "shape_is_image t \<Longrightarrow> isInArray ''image'' t"
proof (cases t)
  case (JStrV x)
  moreover assume "shape_is_image t"
  ultimately have "t = JStrV ''image''" by (simp add: shape_is_image_def)
  then show ?thesis by (auto simp: isInArray_string intro: exI [of _ "[]"])
next
  case (JArrV xs)
  moreover assume "shape_is_image t"
  ultimately have "str_join '','' xs = ''image''" by (simp add: shape_is_image_def)
  then have "xs = [''image'']" by (rule str_join_comma [rotated]) auto
  with JArrV show ?thesis by simp
qed

lemma vendors_draw_shape:
  assumes "\<not> isInArray ''image'' (shape_type (shapec (cfg s)))"
  shows "vendors_draw s = draw_and_schedule s"
proof -
  have "\<not> shape_is_image (shape_type (shapec (cfg s)))" using assms shape_is_imageD by blast
  then show ?thesis by (simp add: vendors_draw_def)
qed

lemma draw_and_schedule_running:
  assumes "draw_and_schedule s = Inr t"
    and "same_setup c (cfg s)" "frames s = []" "img_requests s = 0"
    and "color_rgb_line (linec (cfg s)) = hexToRgb (line_color (linec c))"
  shows "running c t"
proof -
  from assms(1) obtain u where u: "particlesDraw s = Inr u"
    and t: "t = (if \<not> move_enable (movec (cfg u)) then cancelDraw u else requestDraw u)"
    by (auto simp: draw_and_schedule_def elim!: andThen_InrE)
  from particlesDraw_frame [OF u] have "cfg u = cfg s" "frames u = frames s" "img_requests u = img_requests s"
    by (auto dest: staticD)
  then show ?thesis
    using assms(2-5) by (auto simp: t running_def same_setup_def requestDraw_def cancelDraw_def
      split: option.splits)
qed

lemma init_canvas_frames [simp]:
  "frames (canvasSize s) = frames s" "img_requests (canvasSize s) = img_requests s"
  "frames (canvasPaint s) = frames s" "img_requests (canvasPaint s) = img_requests s"
  "frames (retinaInit s) = frames s" "img_requests (retinaInit s) = img_requests s"
  "img_requests (emit l s) = img_requests s" "img_requests (cancelDraw s) = img_requests s"
  by (simp_all add: canvasPaint_def canvasSize_def set_el_size_def retinaInit_def emit_def Let_def
      cancelDraw_def split: option.splits)

lemma vendors_init_setup:
  assumes "vendors_init s = Inr t"
  shows "same_setup (cfg s) (cfg t) \<and> frames t = frames s \<and> img_requests t = img_requests s \<and>
    color_rgb_line (linec (cfg t)) = hexToRgb (line_color (linec (cfg s)))"
proof -
  let ?s = "canvasPaint (canvasSize (retinaInit s))"
  from assms obtain u v where "particlesCreate ?s = Inr u" "densityAutoParticles u = Inr v"
    and t: "t = v\<lparr>cfg := (cfg v)\<lparr>linec := (linec (cfg v))
              \<lparr>color_rgb_line := hexToRgb (line_color (linec (cfg v)))\<rparr>\<rparr>\<rparr>"
    unfolding vendors_init_def by (auto elim!: andThen_InrE)
  then have "static v = static ?s"
    by (metis particlesCreate_frame densityAutoParticles_frame)
  from staticD [OF this] have "cfg v = cfg (retinaInit s)" "frames v = frames s" "img_requests v = img_requests s"
    by simp_all
  then show ?thesis
    by (simp add: t same_setup_def retinaInit_def scale_cfg_def same_look_def mouse_modes_def Let_def)
qed

lemma same_setup_trans: "same_setup a b \<Longrightarrow> same_setup b c \<Longrightarrow> same_setup a c"
  by (auto simp: same_setup_def intro: same_look_trans)

lemma vendors_start_running:
  assumes "vendors_start s = Inr t" and "same_setup c (cfg s)" and "frames s = []" "img_requests s = 0"
    and "\<not> isInArray ''image'' (shape_type (shapec c))"
  shows "running c t"
proof -
  have sh: "shapec (cfg s) = shapec c" using assms(2) by (simp add: same_setup_def same_look_def)
  with assms(1,5) have "\<not> shape_is_image (shape_type (shapec (cfg s)))" "checkBeforeDraw s = Inr t"
    using shape_is_imageD by (auto simp: vendors_start_def)
  then obtain u where u: "vendors_init s = Inr u" and t: "vendors_draw u = Inr t"
    by (auto simp: checkBeforeDraw_def elim!: andThen_InrE)
  note i = vendors_init_setup [OF u]
  have c: "same_setup c (cfg u)" using assms(2) i by (blast intro: same_setup_trans)
  then have "shapec (cfg u) = shapec c" by (simp add: same_setup_def same_look_def)
  with t assms(5) have "draw_and_schedule u = Inr t" by (simp add: vendors_draw_shape)
  then show ?thesis
    using c i assms(2-4) by (auto intro!: draw_and_schedule_running simp: same_setup_def)
qed

lemma resize_handler_running:
  assumes "resize_handler s = Inr t" and "running c s"
  shows "running c t"
proof -
  let ?r = "resize_canvas s"
  have r: "running c ?r"
    using assms(2) by (rule running_part [rotated 4])
      (simp_all add: resize_canvas_def set_el_size_def Let_def)
  from assms(1) obtain u where u: "densityAutoParticles u = Inr t"
    and "u = ?r \<or> (\<exists>v w. particlesCreate (particlesEmpty ?r) = Inr v \<and> particlesDraw v = Inr w \<and>
      densityAutoParticles w = Inr u)"
    by (auto simp: resize_handler_def Let_def split: if_splits elim!: andThen_InrE)
  then have "static u = static ?r"
    by (auto dest!: particlesCreate_frame particlesDraw_frame densityAutoParticles_frame
        simp: particlesEmpty_def)
  with densityAutoParticles_frame [OF u] r show ?thesis by (auto intro: running_static)
qed

lemma on_click_running:
  assumes "on_click s = Inr t" and "running c s"
  shows "running c t"
proof -
  let ?u = "s\<lparr>mouse := (mouse s)\<lparr>click_pos_x := pos_x (mouse s), click_pos_y := pos_y (mouse s),
              click_time := now s\<rparr>\<rparr>"
  have r: "running c ?u" using assms(2) by (rule running_part [rotated 4]) simp_all
  have "static t = static ?u \<or> running c t"
    using assms r unfolding on_click_def Let_def
    by (auto split: if_splits str_or_arr.splits simp: running_def
        dest!: pushParticles_frame removeParticles_frame)
  with r show ?thesis by (auto intro: running_static)
qed

lemma event_running:
  assumes "pjs_event ev s = Inr t" and r: "running c s"
    and ni: "\<not> isInArray ''image'' (shape_type (shapec c))"
  shows "running c t"
proof (cases ev)
  case EvResize
  with assms(1) have "for_each (\<lambda>_. resize_handler) [0..<resize_listeners s] s = Inr t" by simp
  then show ?thesis
    by (rule for_each_invariant [where P = "running c"]) (use r in \<open>auto intro: resize_handler_running\<close>)
next
  case EvFrame
  have sh: "shapec (cfg s) = shapec c" using r by (simp add: running_def same_setup_def same_look_def)
  show ?thesis
  proof (cases "frames s")
    case Nil
    with assms(1) r EvFrame show ?thesis by simp
  next
    case (Cons i js)
    with r have "js = []" by (auto simp: running_def split: if_splits)
    with Cons assms(1) EvFrame sh ni have "draw_and_schedule (s\<lparr>frames := []\<rparr>) = Inr t"
      by (simp add: vendors_draw_shape)
    then show ?thesis
      by (rule draw_and_schedule_running)
        (use r in \<open>auto simp: running_def split: if_splits\<close>)
  qed
next
  case EvRefresh
  have f: "frames (cancelDraw s) = []"
    using r by (auto simp: running_def cancelDraw_def split: if_splits option.splits)
  from EvRefresh assms(1) have "vendors_start (canvasClear (particlesEmpty ((cancelDraw s)\<lparr>tmp :=
      (tmp (cancelDraw s))\<lparr>source_svg := None, img_loaded_obj := False, count_svg := Num 0\<rparr>\<rparr>))) = Inr t"
    by (simp add: particlesRefresh_def Let_def)
  then show ?thesis
    by (rule vendors_start_running)
      (use r f ni in \<open>auto simp: running_def canvasClear_def particlesEmpty_def\<close>)
next
  case EvClick
  with assms(1) r show ?thesis by (auto split: if_splits intro: on_click_running)
next
  case EvImgLoad
  with assms(1) r have "t = s" by (simp add: running_def)
  with r show ?thesis by simp
next
  case (EvXhr n q)
  with assms(1) r have "t = s" by (simp add: running_def)
  with r show ?thesis by simp
qed (rule running_part [OF _ _ _ _ r]; use assms(1) in \<open>auto simp: on_mousemove_def
       on_mouseleave_def repulse_timeout_def svg_loaded_def Let_def split: prod.splits\<close>)+

lemma reachable_running:
  assumes "pjs_reachable c e g s" and "\<not> isInArray ''image'' (shape_type (shapec c))"
  shows "running c s"
  using assms(1)
proof (induction rule: pjs_reachable.induct)
  case (created s)
  then show ?case unfolding new_pJS_def
    by (rule vendors_start_running)
      (use assms(2) in \<open>simp_all add: initial_pjs_def same_setup_def\<close>)
next
  case (event s ev t)
  with assms(2) show ?case by (blast intro: event_running)
qed

subsection \<open>A frame that does not throw\<close>

text \<open>
  The drawing of a particle throws only when it has no colour, an image shape and no image, or a negative
  radius.
\<close>

lemma particle_css_total: "colored p \<Longrightarrow> \<exists>k. particle_css (pcol p) a = Inr k"
  by (auto simp: colored_def particle_css_def split: option.splits)

lemma stroke_line_total: "color_rgb_line c \<noteq> None \<Longrightarrow> \<exists>l. stroke_line c a x y x' y' = Inr l"
  by (auto simp: stroke_line_def)

lemma drawShape_total: "num \<noteq> Infinity \<Longrightarrow> drawShape x y l num (Num 1) \<noteq> Inl e \<and> drawShape x y l num (Num 2) \<noteq> Inl e"
  by (cases num) (auto simp: drawShape_def Let_def loop_count_def times_jsnum_def)

lemma draw_shape_total:
  assumes "nb_sides (shapec (cfg s)) \<noteq> Infinity"
    and "pshape p = Some ''image'' \<Longrightarrow> pimg p \<noteq> None" and "\<not> r < Num 0"
  shows "\<exists>l. draw_shape s p r = Inr l"
proof (cases "draw_shape s p r")
  case (Inl e)
  with assms show ?thesis
    by (auto simp: draw_shape_def ctx_arc_def Let_def drawShape_total split: option.splits if_splits)
qed simp

lemma draw_particle_total:
  assumes "nb_sides (shapec (cfg s)) \<noteq> Infinity" and "colored p"
    and "pshape p = Some ''image'' \<Longrightarrow> pimg p \<noteq> None" and "not_negative p"
  shows "\<exists>l. draw_particle s p = Inr l"
  unfolding draw_particle_def Let_def
  by (intro andThen_total particle_css_total draw_shape_total) (use assms in \<open>simp_all add: not_negative_def split: option.split\<close>)

lemma interact_pair_total:
  assumes "color_rgb_line (linec c) \<noteq> None"
  shows "\<exists>r. interact_pair c p q = Inr r"
  unfolding interact_pair_def
  by (rule andThen_total)
    (use stroke_line_total [OF assms] in \<open>auto simp: linkParticles_def Let_def split: prod.splits\<close>)

lemma grabParticle_total:
  assumes "color_rgb_line (linec (cfg s)) \<noteq> None"
  shows "\<exists>r. grabParticle s p = Inr r"
  using stroke_line_total [OF assms] by (simp add: grabParticle_def Let_def)

lemma mouse_effects_total:
  assumes "color_rgb_line (linec (cfg s)) \<noteq> None"
  shows "\<exists>r. mouse_effects s p = Inr r"
  unfolding mouse_effects_def Let_def
proof (rule andThen_total)
  show "\<exists>l. (if isInArray ''grab'' (onhover_mode (interc (cfg s))) then grabParticle s p else Inr []) = Inr l"
    using grabParticle_total [OF assms] by simp
qed (simp add: split_def)

text \<open>
  The states in which a frame does not throw: the line colour is known, the number of sides is
  finite, the colour law holds, and no particle has a negative radius nor will have one.
\<close>

definition drawable :: "pjs \<Rightarrow> bool" where
  "drawable s \<longleftrightarrow>
     color_rgb_line (linec (cfg s)) \<noteq> None \<and> nb_sides (shapec (cfg s)) \<noteq> Infinity \<and>
     valid_color (colorc (cfg s)) \<and> color_laws.holds s \<and>
     \<not> click_bubble (interc (cfg s)) \<and> size_laws.holds s"

lemma drawable_static: "static t = static s \<Longrightarrow> parr t = parr s \<Longrightarrow> drawable s \<Longrightarrow> drawable t"
  by (frule staticD(1)) (simp add: drawable_def color_laws.holds_def size_laws.holds_def)

definition line_known :: "pjs \<Rightarrow> bool" where
  "line_known s \<longleftrightarrow> color_rgb_line (linec (cfg s)) \<noteq> None"

lemma line_known_static: "static t = static s \<Longrightarrow> line_known s \<Longrightarrow> line_known t"
  by (frule staticD(1)) (simp add: line_known_def)

lemma interact_loop_total:
  assumes "line_known s"
  shows "\<exists>t. for_each (interact_at i) js s = Inr t"
proof -
  have "\<exists>t. for_each (interact_at i) js s = Inr t \<and> line_known t"
  proof (rule for_each_total [where P = line_known, OF assms])
    fix j u
    assume u: "line_known u"
    have "\<exists>t. interact_at i j u = Inr t" unfolding interact_at_def
      by (rule andThen_total [OF interact_pair_total])
        (use u in \<open>simp_all add: line_known_def split: prod.splits\<close>)
    with u show "\<exists>t. interact_at i j u = Inr t \<and> line_known t"
      by (auto dest: interact_at_frame intro: line_known_static)
  qed
  then show ?thesis by blast
qed

lemma update_at_total:
  assumes "line_known s"
  shows "\<exists>t. update_at i s = Inr t"
proof -
  obtain p g where a: "advance (cfg s) (canv s) (parr s ! i) (rng s) = (p, g)" by force
  have l: "line_known (s\<lparr>rng := g\<rparr>)" using assms by (simp add: line_known_def)
  then obtain u q where m: "mouse_effects (s\<lparr>rng := g\<rparr>) p = Inr (u, q)"
    using mouse_effects_total unfolding line_known_def by (metis surj_pair)
  have "line_known (u\<lparr>parr := a\<rparr>)" for a
    using mouse_effects_frame [OF m] assms by (auto intro: line_known_static)
  from interact_loop_total [OF this] show ?thesis
    by (auto simp: update_at_def a m Let_def)
qed

lemma particlesUpdate_total:
  assumes "line_known s"
  shows "\<exists>t. particlesUpdate s = Inr t"
proof -
  have "\<exists>t. for_each update_at [0..<length (parr s)] s = Inr t \<and> line_known t"
  proof (rule for_each_total [where P = line_known, OF assms])
    fix i u
    assume "line_known u"
    with update_at_total [OF this, of i] show "\<exists>t. update_at i u = Inr t \<and> line_known t"
      by (auto dest: update_at_frame intro: line_known_static)
  qed
  then show ?thesis by (auto simp: particlesUpdate_def)
qed

lemma draw_loop_total:
  assumes "drawable s"
  shows "\<exists>t. for_each draw_at [0..<length (parr s)] s = Inr t"
proof -
  have "\<exists>t. for_each draw_at [0..<length (parr s)] s = Inr t \<and> drawable t \<and> parr t = parr s"
  proof (rule for_each_total)
    show "drawable s \<and> parr s = parr s" using assms by simp
  next
    fix i u
    assume i: "i \<in> set [0..<length (parr s)]" and u: "drawable u \<and> parr u = parr s"
    then have "parr u ! i \<in> set (parr u)" by simp
    with u have "color_law (cfg u) (parr u ! i)" "not_negative (parr u ! i)"
      by (simp_all add: drawable_def color_laws.holds_def size_laws.holds_def size_law_def list_all_iff)
    with u have "\<exists>l. draw_particle u (parr u ! i) = Inr l"
      by (intro draw_particle_total) (auto simp: drawable_def color_law_def)
    moreover have "drawable (emit l u)" for l using u by (auto intro: drawable_static)
    ultimately show "\<exists>t. draw_at i u = Inr t \<and> drawable t \<and> parr t = parr s"
      using u by (auto simp: draw_at_def)
  qed
  then show ?thesis by blast
qed

lemma particlesDraw_total:
  assumes "drawable s"
  shows "\<exists>t. particlesDraw s = Inr t"
  unfolding particlesDraw_def
proof (rule andThen_total)
  let ?s = "emit [ClearRect (Num 0) (Num 0) (canvas_w (canv s)) (canvas_h (canv s))] s"
  have d: "drawable ?s" using assms by (auto intro: drawable_static)
  show "\<exists>u. particlesUpdate ?s = Inr u"
    by (rule particlesUpdate_total) (use d in \<open>simp add: drawable_def line_known_def\<close>)
  fix u
  assume u: "particlesUpdate ?s = Inr u"
  have "color_laws.holds u" "size_laws.holds u"
    using color_laws.particlesUpdate_holds [OF u] size_laws.particlesUpdate_holds [OF u] d by (simp_all add: drawable_def)
  moreover have "cfg u = cfg ?s" using particlesUpdate_frame [OF u] staticD(1) by blast
  ultimately have "drawable u" using d by (simp add: drawable_def)
  then show "\<exists>t. for_each draw_at [0..<length (parr u)] u = Inr t" by (rule draw_loop_total)
qed

lemma demo_not_negative:
  "\<exists>s. new_pJS demo_config demo_env demo_rng = Inr s \<and> parr s \<noteq> [] \<and> list_all not_negative (parr s)"
  by (simp add: pjs_exec demo_defs not_negative_def)

lemma reachable_drawable:
  assumes "pjs_reachable c e g s" and "\<not> isInArray ''image'' (shape_type (shapec c))"
    and "hexToRgb (line_color (linec c)) \<noteq> None" "nb_sides (shapec c) \<noteq> Infinity"
    and "valid_color (colorc c)" "\<not> click_bubble (interc c)" "list_all not_negative (parr s)"
  shows "drawable s"
proof -
  have "mouse_modes (interc (cfg s)) = mouse_modes (interc c)"
    using reachable_running [OF assms(1,2)] by (simp add: running_def same_setup_def same_look_def)
  then have "\<not> click_bubble (interc (cfg s))" using assms(6) by (simp add: mouse_modes_def click_bubble_def)
  moreover have "size_laws.holds s" using assms(7) by (simp add: size_laws.holds_def size_law_def list_all_iff)
  ultimately show ?thesis
    using reachable_running [OF assms(1,2)] color_laws.reachable_holds [OF assms(1)] assms(3-5)
    by (simp add: drawable_def running_def same_setup_def same_look_def)
qed

subsection \<open>Properties\<close>

text \<open>
  C1.  An animation frame does not throw: in every state that any sequence of events reaches from the
  creation of an instance, if no particle has a negative radius (new ones have none unless the size is
  negative, \<open>new_particle_size\<close>), the pending frame runs to its end, and again no particle has a negative
  radius: when the colours of the options are colours, the shapes are not images, the number of polygon
  sides is not infinite, and a click does not make bubbles.
\<close>

theorem frame_never_throws:
  assumes "pjs_reachable c e g s" and "\<not> isInArray ''image'' (shape_type (shapec c))"
    and "valid_color (colorc c)" "hexToRgb (line_color (linec c)) \<noteq> None"
    and "nb_sides (shapec c) \<noteq> Infinity"
    and "\<not> click_bubble (interc c)" "list_all not_negative (parr s)"
  shows "\<exists>t. pjs_event EvFrame s = Inr t \<and> list_all not_negative (parr t)"
proof (cases "frames s")
  case Nil
  then show ?thesis using assms(7) by simp
next
  case (Cons i js)
  let ?s = "s\<lparr>frames := js\<rparr>"
  have d: "drawable ?s" using reachable_drawable [OF assms(1,2,4,5,3,6,7)]
    by (simp add: drawable_def color_laws.holds_def size_laws.holds_def)
  have "\<not> isInArray ''image'' (shape_type (shapec (cfg ?s)))"
    using reachable_running [OF assms(1,2)] assms(2)
    by (simp add: running_def same_setup_def same_look_def)
  then have v: "vendors_draw ?s = draw_and_schedule ?s" by (rule vendors_draw_shape)
  obtain u where u: "particlesDraw ?s = Inr u" using particlesDraw_total [OF d] by blast
  have "size_laws.holds u" using size_laws.particlesDraw_holds [OF u] d by (simp add: drawable_def)
  moreover have "cfg u = cfg ?s" using particlesDraw_frame [OF u] staticD(1) by blast
  ultimately have "list_all not_negative (parr u)" using d
    by (simp add: drawable_def size_laws.holds_def size_law_def list_all_iff)
  then show ?thesis using Cons v u by (simp add: draw_and_schedule_def)
qed

theorem frame_never_throws_witness:
  "\<exists>s t. new_pJS demo_config demo_env demo_rng = Inr s \<and> parr s \<noteq> [] \<and> pjs_event EvFrame s = Inr t"
proof -
  obtain s where s: "new_pJS demo_config demo_env demo_rng = Inr s" "parr s \<noteq> []" "list_all not_negative (parr s)"
    using demo_not_negative by blast
  have "\<exists>t. pjs_event EvFrame s = Inr t \<and> list_all not_negative (parr t)"
    using pjs_reachable.created [OF s(1)] demo_shape
    by (rule frame_never_throws) (simp_all add: demo_defs hex_known click_bubble_def isInArray_def str_indexOf_def str_index_from.simps s(3) [unfolded demo_defs])
  with s show ?thesis by blast
qed

text \<open>
  The opacity of a particle stays in range.  With a value \<open>V\<close> and an animation speed \<open>k\<close>, both
  non-negative, every particle of every reachable state has an opacity between 0 and \<open>V\<close>, or
  \<open>V + k / 50\<close> with the animation: whatever random numbers are drawn and whatever the user does.
\<close>

theorem opacity_in_range:
  assumes "pjs_reachable c e g s" and "p \<in> set (parr s)"
    and "\<not> isInArray ''image'' (shape_type (shapec c))"
    and "opacity_value (opacityc c) = Num V" "0 \<le> V"
    and "opacity_anim_speed (opacityc c) = Num k" "0 \<le> k"
  shows "\<exists>a. opacity p = Num a \<and> 0 \<le> a \<and>
    a \<le> V + (if opacity_anim_enable (opacityc c) then k / 50 else 0)"
proof -
  have "opacityc (cfg s) = opacityc c"
    using reachable_running [OF assms(1,3)] by (simp add: running_def same_setup_def same_look_def)
  moreover have "opacity_law (cfg s) p" using opacity_laws.reachable_law assms(1,2) .
  ultimately have b: "opacity_bound (cfg s) p" and o: "opacityc (cfg s) = opacityc c"
    using assms(4-7) by (simp_all add: opacity_law_def opacity_options_def)
  then obtain a where a: "opacity p = Num a" by (auto simp: opacity_bound_def Let_def elim!: is_NumE)
  from b have "0 \<le> a \<and> a \<le> V + (if opacity_anim_enable (opacityc c) then k / 50 else 0)"
    by (auto simp: opacity_bound_def Let_def a o assms(4,6) split: if_splits)
  with a show ?thesis by blast
qed

theorem opacity_in_range_witness:
  "\<exists>s p a. pjs_reachable demo_config demo_env demo_rng s \<and> p \<in> set (parr s) \<and>
     opacity p = Num a \<and> 0 \<le> a \<and> a \<le> 1 / 2"
proof -
  obtain s p where s: "pjs_reachable demo_config demo_env demo_rng s" "p \<in> set (parr s)"
    by (rule demo_reachable)
  have "\<exists>a. opacity p = Num a \<and> 0 \<le> a \<and>
      a \<le> 1 / 2 + (if opacity_anim_enable (opacityc demo_config) then 1 / 50 else 0)"
    using s demo_shape by (rule opacity_in_range) (simp_all add: demo_defs)
  with s show ?thesis by (auto simp: demo_defs)
qed

text \<open>
  C5.  The animation loop is single.  For particles that are not images, and after any sequence of events,
  refreshes and clicks included, of which none ends in an exception, exactly one animation frame is
  pending when the motion is enabled, and none when it is not.  (Images wait for their source before
  the first frame.)
\<close>

theorem single_frame:
  assumes "pjs_reachable c e g s" and "\<not> isInArray ''image'' (shape_type (shapec c))"
  shows "length (frames s) = (if move_enable (movec c) then 1 else 0)"
  using reachable_running [OF assms] by (auto simp: running_def split: if_splits)

theorem single_frame_witness:
  "\<exists>s. pjs_reachable demo_config demo_env demo_rng s \<and> length (frames s) = 1"
proof -
  obtain s p where s: "pjs_reachable demo_config demo_env demo_rng s" by (rule demo_reachable)
  have "length (frames s) = (if move_enable (movec demo_config) then 1 else 0)"
    using s demo_shape by (rule single_frame)
  with s show ?thesis by (auto simp: demo_defs)
qed

text \<open>
  An instance whose motion is off, with linked particles and the density option, cannot be
  created: \<open>densityAutoParticles\<close> draws the particles before \<open>color_rgb_line\<close> is computed, and the
  first link throws.
\<close>

definition still_config :: config where
  "still_config = demo_config
     \<lparr>numberc := \<lparr>number_value = Num 2, density_enable = True, density_value_area = Num 5\<rparr>,
      movec := (movec demo_config)\<lparr>move_enable := False\<rparr>\<rparr>"

theorem still_instance_throws: "new_pJS still_config demo_env demo_rng = Inl TypeError"
  by (simp add: still_config_def pjs_exec demo_defs interact_at_def interact_pair_def
      linkParticles_def link_opacity_def stroke_line_def eval_nat_numeral)

text \<open>
  A click that makes bubbles, while the bubbles of the click before are shrinking and still smaller than
  half of the particle, gives a negative radius, which the canvas refuses to draw.
\<close>

definition bubble_config :: config where
  "bubble_config = demo_config\<lparr>interc := (interc demo_config)\<lparr>onhover_enable := False, onclick_mode := JStrV ''bubble'',
      bubble_size := Num 1, bubble_duration := Num 1\<rparr>\<rparr>"

definition clicked_again :: pjs where
  "clicked_again =
     (let s = initial_pjs bubble_config demo_env demo_rng;
          s = s\<lparr>parr := [(demo_particle 10 10)\<lparr>radius := Num 5, radius_bubble := Some (Num 1)\<rparr>], frames := [0],
                now := Num 1500, mouse := (mouse s)\<lparr>click_pos_x := MNum (Num 10), click_pos_y := MNum (Num 10), click_time := Num 1500\<rparr>\<rparr>
      in s\<lparr>tmp := (tmp s)\<lparr>bubble_clicking := True, bubble_duration_end := True\<rparr>\<rparr>)"

lemma small_bubble_throws: "pjs_event EvFrame clicked_again = Inl IndexSizeError"
  by (simp add: pjs_exec clicked_again_def bubble_config_def demo_defs bubbleParticle_def bubble_click_def bubble_process_def)

end
