(* ===== verification/Particles_Canvas.thy ===== *)
theory Particles_Canvas
  imports Particles_Laws Particles_Demo
begin

section \<open>particles.js: particles stay on the canvas\<close>

text \<open>
  A state is finite when all the numbers that move a particle are numbers.  An update keeps it
  finite and leaves every particle with its disc overlapping the canvas.
\<close>

definition finite_options :: "config \<Rightarrow> bool" where
  "finite_options c \<longleftrightarrow>
     is_Num (move_speed (movec c)) \<and> is_Num (size_value (sizec c)) \<and> is_Num (size_min (sizec c)) \<and>
     (attract_enable (movec c) \<longrightarrow>
        is_Num (rotateX (movec c)) \<and> num_val (rotateX (movec c)) \<noteq> 0 \<and>
        is_Num (rotateY (movec c)) \<and> num_val (rotateY (movec c)) \<noteq> 0)"

definition finite_particle :: "config \<Rightarrow> particle \<Rightarrow> bool" where
  "finite_particle c p \<longleftrightarrow>
     is_Num (px p) \<and> is_Num (py p) \<and> is_Num (vx p) \<and> is_Num (vy p) \<and> is_Num (radius p) \<and>
     0 \<le> num_val (radius p) \<and> (size_anim_enable (sizec c) \<longrightarrow> is_Num (vs p))"

definition canvas_size :: "canvas \<Rightarrow> real \<Rightarrow> real \<Rightarrow> bool" where
  "canvas_size cv w h \<longleftrightarrow> canvas_w cv = Num w \<and> canvas_h cv = Num h \<and> 0 \<le> w \<and> 0 \<le> h"

definition on_canvas :: "real \<Rightarrow> real \<Rightarrow> particle \<Rightarrow> bool" where
  "on_canvas w h p \<longleftrightarrow>
     (let x = num_val (px p); y = num_val (py p); r = num_val (radius p) in
      x - r \<le> w \<and> 0 \<le> x + r \<and> y - r \<le> h \<and> 0 \<le> y + r)"

lemma finite_move:
  assumes "finite_options c" and "finite_particle c p"
  shows "finite_particle c (move_particle (movec c) p)"
  using assms unfolding finite_particle_def finite_options_def
  by (auto simp: move_particle_def Let_def elim!: is_NumE)

lemma finite_opacity: "finite_particle c p \<Longrightarrow> finite_particle c (update_opacity m p)"
  unfolding finite_particle_def by (simp add: update_opacity_def Let_def)

lemma finite_size:
  assumes "finite_options c" and "finite_particle c p"
  shows "finite_particle c (update_size (sizec c) p)"
  using assms unfolding finite_particle_def finite_options_def
  by (cases "size_anim_enable (sizec c)") (auto simp: update_size_def Let_def elim!: is_NumE)

lemma wrap_on_canvas:
  assumes "finite_particle c p" and "canvas_size cv w h" and "wrap_position m cv p g = (q, g')"
  shows "finite_particle c q \<and> on_canvas w h q"
proof -
  from assms(1) obtain x y r where x: "px p = Num x" "py p = Num y" "radius p = Num r" "0 \<le> r"
    by (auto simp: finite_particle_def elim!: is_NumE)
  from assms(2) have w: "canvas_w cv = Num w" "canvas_h cv = Num h" "0 \<le> w" "0 \<le> h"
    by (simp_all add: canvas_size_def)
  note f = frac_scale [OF w(3), of "g 0"] frac_scale [OF w(4), of "g 0"]
    frac_scale [OF w(3), of "g (Suc 0)"] frac_scale [OF w(4), of "g (Suc 0)"]
  have "vs q = vs p"
    using assms(3) by (auto simp: wrap_position_def Let_def split: prod.splits if_splits)
  moreover have "is_Num (px q) \<and> is_Num (py q) \<and> on_canvas w h q"
    using assms(3) x w f
    by (auto simp: wrap_position_def Let_def Math_random_def on_canvas_def split: if_splits)
  ultimately show ?thesis
    using wrap_position_keeps [OF assms(3)] assms(1) by (simp add: finite_particle_def)
qed

lemma finite_walls:
  assumes "finite_particle c p" and "canvas_size cv w h"
  shows "finite_particle c (bounce_walls m cv p)"
  using assms unfolding finite_particle_def canvas_size_def
  by (auto simp: bounce_walls_def reflect_def elim!: is_NumE)

lemma advance_on_canvas:
  assumes "finite_options c" "finite_particle c p" "canvas_size cv w h"
    and "advance c cv p g = (q, g')"
  shows "finite_particle c q \<and> on_canvas w h q"
proof -
  let ?p = "update_size (sizec c) (update_opacity (opacityc c) (move_particle (movec c) p))"
  from assms(4) obtain r where r: "wrap_position (movec c) cv ?p g = (r, g')"
    and q: "q = bounce_walls (movec c) cv r"
    by (auto simp: advance_def Let_def split: prod.splits)
  have "finite_particle c ?p"
    by (intro finite_size finite_opacity finite_move assms(1,2))
  from wrap_on_canvas [OF this assms(3) r] show ?thesis
    using finite_walls [OF _ assms(3)] by (simp add: q on_canvas_def)
qed

text \<open>The interactions keep positions and radii; without \<open>repulse\<close> so does the mouse.\<close>

lemma interact_pair_vs:
  "interact_pair c p p2 = Inr (l, q, q2) \<Longrightarrow> vs q = vs p \<and> vs q2 = vs p2"
  by (auto simp: interact_pair_def attractParticles_def bounceParticles_def Let_def andThen_Inr_iff
      split: if_splits)

lemma attract_finite:
  assumes "finite_options c" "finite_particle c p" "finite_particle c p2" "attract_enable (movec c)"
  shows "finite_particle c (fst (attractParticles c p p2)) \<and>
    finite_particle c (snd (attractParticles c p p2))"
proof -
  from assms(1,4) obtain a b where "rotateX (movec c) = Num a" "rotateY (movec c) = Num b"
    "a \<noteq> 0" "b \<noteq> 0"
    by (auto simp: finite_options_def elim!: is_NumE)
  with assms(2,3) show ?thesis unfolding finite_particle_def
    by (auto simp: attractParticles_def Let_def elim!: is_NumE)
qed

lemma bounce_finite:
  assumes "finite_particle c p" "finite_particle c p2"
  shows "finite_particle c (fst (bounceParticles p p2)) \<and>
    finite_particle c (snd (bounceParticles p p2))"
  using assms unfolding finite_particle_def by (auto simp: bounceParticles_def Let_def elim!: is_NumE)

lemma interact_pair_finite:
  assumes "finite_options c" "finite_particle c p" "finite_particle c p2"
    and "interact_pair c p p2 = Inr (l, q, q2)"
  shows "finite_particle c q \<and> finite_particle c q2"
proof -
  obtain a b where a: "(if attract_enable (movec c) then attractParticles c p p2 else (p, p2)) = (a, b)"
    by force
  then have fin: "finite_particle c a" "finite_particle c b"
    using attract_finite [OF assms(1-3)] assms(2,3) by (auto split: if_splits)
  have "(if bounce (movec c) then bounceParticles a b else (a, b)) = (q, q2)"
    using assms(4) by (auto simp: interact_pair_def a Let_def andThen_Inr_iff split: prod.splits)
  then show ?thesis using bounce_finite [OF fin] fin by (auto split: if_splits)
qed

definition settled :: "real \<Rightarrow> real \<Rightarrow> nat \<Rightarrow> pjs \<Rightarrow> bool" where
  \<comment> \<open>every particle is finite, the first \<open>n\<close> are on the canvas\<close>
  "settled w h n s \<longleftrightarrow>
     finite_options (cfg s) \<and> canvas_size (canv s) w h \<and>
     list_all (finite_particle (cfg s)) (parr s) \<and> list_all (on_canvas w h) (take n (parr s))"

lemma settled_static: "static t = static s \<Longrightarrow> parr t = parr s \<Longrightarrow> settled w h n s \<Longrightarrow> settled w h n t"
  by (frule staticD(1), drule staticD(2)) (simp add: settled_def)

lemma settled_update:
  assumes "settled w h n s" and "finite_particle (cfg s) q"
    and "i < n \<Longrightarrow> on_canvas w h q"
  shows "settled w h n (s\<lparr>parr := (parr s)[i := q]\<rparr>)"
proof -
  have "list_all (on_canvas w h) (take n ((parr s)[i := q]))"
    using assms(1,3) by (cases "i < n")
      (simp_all add: settled_def take_update_swap list_update_beyond list_all_update)
  with assms(1,2) show ?thesis by (simp add: settled_def list_all_update)
qed

lemma on_canvas_keeps:
  "px q = px p \<Longrightarrow> py q = py p \<Longrightarrow> radius q = radius p \<Longrightarrow> on_canvas w h q = on_canvas w h p"
  by (simp add: on_canvas_def)

lemma interact_at_settled:
  assumes "interact_at i j s = Inr t" and s: "settled w h n s"
    and ij: "i < length (parr s)" "j < length (parr s)"
  shows "settled w h n t"
proof -
  from assms(1) obtain l p q where
    r: "interact_pair (cfg s) (parr s ! i) (parr s ! j) = Inr (l, p, q)"
    and t: "t = (emit l s)\<lparr>parr := (parr s)[i := p, j := q]\<rparr>"
    by (auto simp: interact_at_def elim!: andThen_InrE)
  have fin: "finite_particle (cfg s) p" "finite_particle (cfg s) q"
    using interact_pair_finite [OF _ _ _ r] s ij by (auto simp: settled_def list_all_length)
  have "on_canvas w h (parr s ! k)" if "k < n" "k < length (parr s)" for k
    using s that by (auto simp: settled_def list_all_length)
  then have "i < n \<Longrightarrow> on_canvas w h p" "j < n \<Longrightarrow> on_canvas w h q"
    using interact_pair_keeps [OF r] ij on_canvas_keeps by metis+
  note on = this
  let ?s = "s\<lparr>parr := (parr s)[i := p]\<rparr>"
  have "settled w h n ?s" using s fin(1) on(1) by (rule settled_update)
  then have "settled w h n (?s\<lparr>parr := (parr ?s)[j := q]\<rparr>)"
    by (rule settled_update) (use fin(2) on(2) in simp_all)
  then show ?thesis by (simp add: t settled_def)
qed

lemma interact_loop_settled:
  assumes "for_each (interact_at i) [a..<m] s = Inr t" and "settled w h n s"
    and "m = length (parr s)" "i < m"
  shows "settled w h n t"
proof -
  have "settled w h n t \<and> length (parr t) = m"
    using assms(1)
    by (rule for_each_invariant [where P = "\<lambda>t. settled w h n t \<and> length (parr t) = m"])
      (use assms(2-4) in \<open>auto dest: interact_at_frame intro: interact_at_settled\<close>)
  then show ?thesis ..
qed

definition no_repulse :: "config \<Rightarrow> bool" where
  "no_repulse c \<longleftrightarrow>
     \<not> isInArray ''repulse'' (onhover_mode (interc c)) \<and> \<not> isInArray ''repulse'' (onclick_mode (interc c))"

lemma update_at_settled:
  assumes "update_at i s = Inr t" and s: "settled w h i s" and i: "i < length (parr s)"
    and nr: "no_repulse (cfg s)"
  shows "settled w h (Suc i) t"
  using assms(1)
proof (cases rule: update_at_steps)
  case (1 p g u q)
  have p: "finite_particle (cfg s) p \<and> on_canvas w h p"
    by (rule advance_on_canvas [OF _ _ _ 1(1)]) (use s i in \<open>auto simp: settled_def list_all_length\<close>)
  have "body q = body p"
    using 1(2) by (cases rule: mouse_effects_steps) (use nr in \<open>auto simp: no_repulse_def\<close>)
  note b = body_keeps [OF this]
  have q: "finite_particle (cfg s) q" "on_canvas w h q"
    using p b on_canvas_keeps [of q p] by (simp_all add: finite_particle_def)
  have "settled w h i (s\<lparr>parr := (parr s)[i := q]\<rparr>)"
    using s q(1) by (rule settled_update) simp
  then have "settled w h i (u\<lparr>parr := (parr s)[i := q]\<rparr>)"
    by (rule settled_static [rotated 2]) (simp_all add: 1(5))
  then have "settled w h (Suc i) (u\<lparr>parr := (parr s)[i := q]\<rparr>)"
    using q i by (simp add: settled_def take_Suc_conv_app_nth)
  with 1(6) i show ?thesis
    by (auto split: if_splits elim!: interact_loop_settled)
qed

lemma particlesUpdate_settled:
  assumes "particlesUpdate s = Inr t" and "settled w h 0 s" and "no_repulse (cfg s)"
  shows "settled w h (length (parr t)) t"
proof -
  let ?P = "\<lambda>i t. settled w h i t \<and> static t = static s \<and> length (parr t) = length (parr s)"
  have "?P (length (parr s)) t"
    using assms(1) unfolding particlesUpdate_def
  proof (rule for_each_range [where P = ?P])
    fix i u v
    assume "i < length (parr s)" and u: "?P i u" and v: "update_at i u = Inr v"
    then have "settled w h (Suc i) v"
      using assms(3) staticD(1) [of u s] by (intro update_at_settled [OF v]) simp_all
    with u update_at_frame [OF v] show "?P (Suc i) v" by simp
  qed (use assms(2) in simp_all)
  then show ?thesis by simp
qed

subsection \<open>New particles\<close>

definition finite_sizes :: "config \<Rightarrow> bool" where
  "finite_sizes c \<longleftrightarrow> finite_options c \<and> 0 \<le> num_val (size_value (sizec c)) \<and> is_Num (size_anim_speed (sizec c))"

definition placed :: "config \<Rightarrow> particle \<Rightarrow> bool" where
  \<comment> \<open>finite but for the velocity, which is not set yet\<close>
  "placed c p \<longleftrightarrow> is_Num (px p) \<and> is_Num (py p) \<and> is_Num (radius p) \<and> 0 \<le> num_val (radius p) \<and>
     (size_anim_enable (sizec c) \<longrightarrow> is_Num (vs p))"

lemma random_position:
  assumes "init_position cv None g = ((x, y), g')" "canvas_size cv w h"
  shows "is_Num x \<and> is_Num y"
  using assms by (auto simp: init_position_def canvas_size_def Math_random_def Let_def)

lemma overlap_loop_placed:
  assumes "overlap_loop rec cv None ps p g = Inr (q, g')" "placed c p" "canvas_size cv w h"
    and "\<And>p g q g'. rec p g = Inr (q, g') \<Longrightarrow> placed c p \<Longrightarrow> placed c q"
  shows "placed c q"
  using assms(1,2)
proof (induction ps arbitrary: p g)
  case (Cons p2 ps)
  show ?case
  proof (cases "overlaps p p2")
    case True
    with Cons.prems(1) obtain x y h r h' where i: "init_position cv None g = ((x, y), h)"
      and r: "rec (p\<lparr>px := x, py := y\<rparr>) h = Inr (r, h')" and rest: "overlap_loop rec cv None ps r h' = Inr (q, g')"
      by (auto simp: Let_def elim!: andThen_InrE split: prod.splits)
    have "placed c (p\<lparr>px := x, py := y\<rparr>)" using Cons.prems(2) random_position [OF i assms(3)] by (simp add: placed_def)
    then show ?thesis using Cons.IH [OF rest] assms(4) [OF r] by blast
  next
    case False
    then show ?thesis using Cons by simp
  qed
qed simp

lemma checkOverlap_placed:
  "checkOverlap d cv arr None p g = Inr (q, g') \<Longrightarrow> placed c p \<Longrightarrow> canvas_size cv w h \<Longrightarrow> placed c q"
proof (induction d arbitrary: p g q g')
  case (Suc d)
  from Suc.prems(1) have "overlap_loop (checkOverlap d cv arr None) cv None arr p g = Inr (q, g')" by simp
  then show ?case using Suc.prems(2,3) Suc.IH by (rule overlap_loop_placed) (use Suc.prems(3) in auto)
qed simp

lemma init_size_finite:
  assumes "init_size (sizec c) g = ((r, v), g')" "finite_sizes c"
  shows "is_Num r \<and> 0 \<le> num_val r \<and> (size_anim_enable (sizec c) \<longrightarrow> is_Num v)"
proof -
  obtain u h where u: "random_if (size_random (sizec c)) g = (u, h)" by fastforce
  then obtain a where a: "u = Num a" "0 \<le> a" using random_if_range by blast
  obtain b where b: "size_value (sizec c) = Num b" "0 \<le> b"
    using assms(2) by (auto simp: finite_sizes_def finite_options_def elim!: is_NumE)
  obtain k where k: "size_anim_speed (sizec c) = Num k" using assms(2) by (auto simp: finite_sizes_def elim!: is_NumE)
  show ?thesis using assms(1) a b k by (auto simp: init_size_def u Let_def Math_random_def split: if_splits)
qed

lemma place_particle_placed:
  assumes "place_particle None s = Inr (p, g)" "finite_sizes (cfg s)" "canvas_size (canv s) w h"
  shows "placed (cfg s) p"
proof -
  obtain r v g1 where 1: "init_size (sizec (cfg s)) (rng s) = ((r, v), g1)" by (metis prod.exhaust)
  obtain x y g2 where 2: "init_position (canv s) None g1 = ((x, y), g2)" by (metis prod.exhaust)
  define p0 where "p0 = \<lparr>pid = next_pid s, px = into_canvas (canvas_w (canv s)) r x,
      py = into_canvas (canvas_h (canv s)) r y, vx = NaN, vy = NaN, vx_i = NaN, vy_i = NaN,
      radius = r, size_status = False, vs = v, opacity = NaN, opacity_status = False,
      vo = NaN, pcol = \<lparr>color_rgb = None, color_hsl = None\<rparr>, pshape = None,
      radius_bubble = None, opacity_bubble = None, pimg = None\<rparr>"
  have e: "place_particle None s = (if bounce (movec (cfg s))
      then checkOverlap (max_depth (environ s)) (canv s) (parr s) None p0 g2 else Inr (p0, g2))"
    unfolding place_particle_def 1 2 Let_def split_conv p0_def by (rule refl)
  note r = init_size_finite [OF 1 assms(2)] and xy = random_position [OF 2 assms(3)]
  have "is_Num (into_canvas len r z)" if "is_Num z" for len z using that r by (auto simp: into_canvas_def)
  then have "placed (cfg s) p0" using r xy by (simp add: placed_def p0_def)
  then show ?thesis using assms(1) checkOverlap_placed [OF _ _ assms(3)] unfolding e by (auto split: if_splits)
qed

lemma init_velocity_finite:
  assumes "init_velocity m g = ((a, b), g')"
  shows "is_Num a \<and> is_Num b"
proof -
  have "is_Num (fst (velbase (direction m))) \<and> is_Num (snd (velbase (direction m)))" by (simp add: velbase_def)
  then show ?thesis using assms
    by (auto simp: init_velocity_def Math_random_def Let_def split: prod.splits if_splits)
qed

lemma new_particle_finite:
  assumes "new_particle None s = Inr (p, t)" "finite_sizes (cfg s)" "canvas_size (canv s) w h"
  shows "finite_particle (cfg s) p"
  using assms(1)
proof (cases rule: new_particle_stages)
  case (1 p0 g col g1 p1 g2)
  have p: "placed (cfg s) p0" by (rule place_particle_placed [OF 1(1) assms(2,3)])
  obtain ax ay h h' where v: "init_velocity (movec (cfg s)) h = ((ax, ay), h')" and "vx p1 = ax" "vy p1 = ay"
    and "px p1 = px p0" "py p1 = py p0" "radius p1 = radius p0" "vs p1 = vs p0"
    using 1(3) by (auto simp: dress_particle_def Let_def split: prod.splits)
  moreover have "px p = px p1 \<and> py p = py p1 \<and> radius p = radius p1 \<and> vs p = vs p1 \<and> vx p = vx p1 \<and> vy p = vy p1"
    using 1(4) by (auto simp: attach_image_def Let_def andThen_Inr_iff split: if_splits)
  ultimately show ?thesis using p init_velocity_finite [OF v] by (simp add: placed_def finite_particle_def)
qed

lemma push_one_finite:
  assumes "push_one None s = Inr t" "finite_sizes (cfg s)" "canvas_size (canv s) w h" "list_all (finite_particle (cfg s)) (parr s)"
  shows "list_all (finite_particle (cfg t)) (parr t) \<and> cfg t = cfg s \<and> canv t = canv s"
proof -
  from assms(1) obtain p u where u: "new_particle None s = Inr (p, u)" and t: "t = u\<lparr>parr := parr u @ [p]\<rparr>"
    by (auto simp: push_one_def elim!: andThen_InrE)
  have "cfg u = cfg s" "canv u = canv s" "parr u = parr s" using new_particle_frame [OF u] staticD(1,2) by blast+
  then show ?thesis using new_particle_finite [OF u assms(2,3)] assms(4) by (simp add: t)
qed

lemma created_finite:
  assumes "particlesCreate s = Inr t" "finite_sizes (cfg s)" "canvas_size (canv s) w h" "list_all (finite_particle (cfg s)) (parr s)"
  shows "list_all (finite_particle (cfg t)) (parr t) \<and> cfg t = cfg s \<and> canv t = canv s"
proof -
  from assms(1) obtain n where "for_each (\<lambda>_. push_one None) [0..<n] s = Inr t"
    by (auto simp: particlesCreate_def split: option.splits)
  then show ?thesis
    by (rule for_each_invariant [where P = "\<lambda>t. list_all (finite_particle (cfg t)) (parr t) \<and> cfg t = cfg s \<and> canv t = canv s"])
      (use assms(2-4) push_one_finite [where w = w and h = h] in \<open>simp_all, metis\<close>)
qed

subsection \<open>Properties\<close>

primrec draws :: "nat \<Rightarrow> pjs \<Rightarrow> pjs res" where
  \<comment> \<open>the drawing of \<open>n\<close> frames\<close>
  "draws 0 s = Inr s"
| "draws (Suc n) s = andThen (draws n s) particlesDraw"

lemma draws_on_canvas:
  assumes "draws n s = Inr t" "finite_options (cfg s)" "no_repulse (cfg s)" "canvas_size (canv s) w h"
    and "list_all (finite_particle (cfg s)) (parr s)"
  shows "cfg t = cfg s \<and> canv t = canv s \<and> length (parr t) = length (parr s) \<and>
    list_all (\<lambda>p. finite_particle (cfg s) p \<and> (0 < n \<longrightarrow> on_canvas w h p)) (parr t)"
  using assms(1)
proof (induction n arbitrary: t)
  case 0
  then show ?case using assms(5) by simp
next
  case (Suc n)
  then obtain u where u: "draws n s = Inr u" "particlesDraw u = Inr t" by (auto simp: andThen_Inr_iff)
  note ih = Suc.IH [OF u(1)]
  from u(2) obtain l v where v: "particlesUpdate (emit l u) = Inr v" "static t = static v" "parr t = parr v"
    by (auto elim!: particlesDraw_updates)
  have "settled w h (length (parr v)) v"
    using v(1) by (rule particlesUpdate_settled) (use ih assms(2-4) in \<open>auto simp: settled_def list_all_iff\<close>)
  moreover have "cfg v = cfg u" "canv v = canv u" "length (parr v) = length (parr u)"
    using particlesUpdate_frame [OF v(1)] staticD(1,2) [of v "emit l u"] by simp_all
  moreover have "cfg t = cfg v" "canv t = canv v" using staticD(1,2) [OF v(2)] by simp_all
  ultimately show ?case using ih v(3) by (simp add: settled_def list_all_iff)
qed

text \<open>
  C3.  Particles stay on the canvas.  Without the repulse modes and with finite options, a size that
  is not negative and rotations of the attraction other than zero, the particles that \<open>particlesCreate\<close> makes
  are finite, every frame that is drawn afterwards keeps them finite, and at its end the disc of each
  particle touches the canvas: the wrap at the borders, the motion, the size animation and the
  interactions taken together.
\<close>

theorem update_on_canvas:
  assumes "particlesCreate (s\<lparr>parr := []\<rparr>) = Inr u" and "draws n u = Inr t"
    and "finite_sizes (cfg s)" and "no_repulse (cfg s)" and "canvas_size (canv s) w h"
  shows "length (parr t) = length (parr u) \<and>
    list_all (\<lambda>p. finite_particle (cfg t) p \<and> (0 < n \<longrightarrow> on_canvas w h p)) (parr t)"
proof -
  have u: "list_all (finite_particle (cfg u)) (parr u) \<and> cfg u = cfg s \<and> canv u = canv s"
  proof -
    have "list_all (finite_particle (cfg u)) (parr u) \<and> cfg u = cfg (s\<lparr>parr := []\<rparr>) \<and> canv u = canv (s\<lparr>parr := []\<rparr>)"
      by (rule created_finite [OF assms(1)]) (use assms(3,5) in simp_all)
    then show ?thesis by auto
  qed
  then have "finite_options (cfg u)" "no_repulse (cfg u)" "canvas_size (canv u) w h" "list_all (finite_particle (cfg u)) (parr u)"
    using assms(3-5) by (auto simp: finite_sizes_def)
  then show ?thesis using draws_on_canvas [OF assms(2), of w h] by simp
qed

theorem update_on_canvas_witness:
  "\<exists>u t. particlesCreate (demo_pjs []) = Inr u \<and> draws 1 u = Inr t \<and> length (parr t) = 1 \<and>
     list_all (\<lambda>p. finite_particle (cfg t) p \<and> on_canvas 100 50 p) (parr t)"
proof -
  have "\<exists>u t. particlesCreate (demo_pjs []) = Inr u \<and> draws 1 u = Inr t \<and> length (parr u) = 1"
    by (simp add: pjs_exec demo_defs)
  then obtain u t where t: "particlesCreate (demo_pjs []) = Inr u" "draws 1 u = Inr t" "length (parr u) = 1" by blast
  have t0: "particlesCreate ((demo_pjs [])\<lparr>parr := []\<rparr>) = Inr u" using t(1) by (simp add: demo_pjs_def)
  have "length (parr t) = length (parr u) \<and>
      list_all (\<lambda>p. finite_particle (cfg t) p \<and> (0 < (1::nat) \<longrightarrow> on_canvas 100 50 p)) (parr t)"
    by (rule update_on_canvas [OF _ t(2)], rule t0)
      (simp_all add: finite_sizes_def finite_options_def no_repulse_def canvas_size_def demo_defs
        isInArray_def str_indexOf_def str_index_from.simps)
  with t show ?thesis by auto
qed

end
