(* ===== verification/Particles_Number.thy ===== *)
theory Particles_Number
  imports Particles_Frames Particles_Demo
begin

section \<open>particles.js: the number of particles\<close>

text \<open>
  How many particles \<open>particlesCreate\<close>, \<open>pushParticles\<close>, \<open>removeParticles\<close> and the density option leave
  in the array, and what becomes of the flag \<open>pushing\<close>.
\<close>

lemma particlesCreate_length:
  assumes "particlesCreate s = Inr t" and "loop_count (number_value (numberc (cfg s))) = Some n"
  shows "length (parr t) = length (parr s) + n"
proof -
  have "for_each (\<lambda>_. push_one None) [0..<n] s = Inr t"
    using assms by (simp add: particlesCreate_def)
  then show ?thesis
    by (rule for_each_range [where P = "\<lambda>i t. length (parr t) = length (parr s) + i"])
      (auto dest: push_one_frame)
qed

lemma pushParticles_length:
  assumes "pushParticles (Num r) pos s = Inr t"
  shows "length (parr t) = length (parr s) + nat \<lceil>r\<rceil>"
proof -
  from assms obtain n where "loop_count (Num r) = Some n"
    "for_each (push_iteration (Num r) pos) [0..<n] (s\<lparr>tmp := (tmp s)\<lparr>pushing := True\<rparr>\<rparr>) = Inr t"
    by (rule pushParticles_loop)
  then have "for_each (push_iteration (Num r) pos) [0..<nat \<lceil>r\<rceil>]
      (s\<lparr>tmp := (tmp s)\<lparr>pushing := True\<rparr>\<rparr>) = Inr t" by simp
  then show ?thesis
    by (rule for_each_range [where P = "\<lambda>i t. length (parr t) = length (parr s) + i"])
      (auto dest: push_iteration_frame)
qed

lemma removeParticles_length:
  assumes "removeParticles nb s = Inr t"
  shows "length (parr t) = length (parr s) - splice_count nb (length (parr s))"
  using assms by (auto simp: removeParticles_def dest: redraw_if_still_frame)

lemma push_iteration_pushing:
  assumes "push_iteration (Num r) pos i s = Inr t"
  shows "pushing (tmp t) \<longleftrightarrow> pushing (tmp s) \<and> real i \<noteq> r - 1"
  using assms
proof (cases rule: push_iteration_steps)
  case (1 xy g u)
  have "tmp u = tmp s" using push_one_frame [OF 1(2)] by simp
  with 1(3,4) show ?thesis by (cases "real i = r - 1") (auto simp: js_eq_def)
qed

lemma pushParticles_pushing:
  assumes "pushParticles (Num r) pos s = Inr t"
  shows "pushing (tmp t) \<longleftrightarrow> \<not> (1 \<le> r \<and> r \<in> \<int>)"
proof -
  from assms have "for_each (push_iteration (Num r) pos) [0..<nat \<lceil>r\<rceil>]
      (s\<lparr>tmp := (tmp s)\<lparr>pushing := True\<rparr>\<rparr>) = Inr t"
    by (auto elim!: pushParticles_loop)
  then have "pushing (tmp t) \<longleftrightarrow> (\<forall>k < nat \<lceil>r\<rceil>. real k \<noteq> r - 1)"
    by (rule for_each_range [where P = "\<lambda>i t. pushing (tmp t) \<longleftrightarrow> (\<forall>k < i. real k \<noteq> r - 1)"])
      (auto dest!: push_iteration_pushing simp: less_Suc_eq)
  also have "\<dots> \<longleftrightarrow> \<not> (1 \<le> r \<and> r \<in> \<int>)"
  proof -
    have "(\<exists>k < nat \<lceil>r\<rceil>. real k = r - 1) \<longleftrightarrow> 1 \<le> r \<and> r \<in> \<int>"
    proof
      assume "\<exists>k < nat \<lceil>r\<rceil>. real k = r - 1"
      then obtain k where "real k = r - 1" by blast
      then have "r = real k + 1" by simp
      then show "1 \<le> r \<and> r \<in> \<int>" by simp
    next
      assume *: "1 \<le> r \<and> r \<in> \<int>"
      then obtain z where z: "r = of_int z" by (auto elim: Ints_cases)
      with * have "1 \<le> z" by simp
      then show "\<exists>k < nat \<lceil>r\<rceil>. real k = r - 1"
        by (intro exI [of _ "nat (z - 1)"]) (simp add: z)
    qed
    then show ?thesis by blast
  qed
  finally show ?thesis .
qed

subsection \<open>Properties\<close>

text \<open>
  C4.  The density option fixes the number of particles: afterwards the array has exactly the
  rounded-up target, whether particles were missing or too many.
\<close>

theorem density_exact:
  assumes "densityAutoParticles s = Inr t" and "density_enable (numberc (cfg s))"
    and "density_target s = Num v"
  shows "length (parr t) = nat \<lceil>v\<rceil>"
proof (cases "real (length (parr s)) < v")
  case True
  with assms have "pushParticles (Num (v - real (length (parr s)))) None s = Inr t"
    by (simp add: densityAutoParticles_def Let_def)
  from pushParticles_length [OF this] True show ?thesis by linarith
next
  case False
  with assms have "removeParticles (Num (real (length (parr s)) - v)) s = Inr t"
    by (simp add: densityAutoParticles_def Let_def)
  from removeParticles_length [OF this] False show ?thesis
    by (simp add: splice_count_def) linarith
qed

theorem density_exact_witness:
  "\<exists>t. densityAutoParticles (demo_pjs [demo_particle 10 10, demo_particle 20 20]) = Inr t \<and>
     length (parr t) = 1"
proof -
  let ?s = "demo_pjs [demo_particle 10 10, demo_particle 20 20]"
  have "\<exists>t. densityAutoParticles ?s = Inr t" by (simp add: pjs_exec demo_defs)
  then obtain t where t: "densityAutoParticles ?s = Inr t" by blast
  have "length (parr t) = nat \<lceil>(9 / 200) :: real\<rceil>"
    using t by (rule density_exact) (simp_all add: density_target_def demo_defs Let_def)
  then show ?thesis using t by simp
qed

text \<open>
  The flag \<open>pushing\<close> tells whether \<open>pushParticles\<close> is at work.  It is cleared, and the canvas
  of a still instance redrawn, only when the number of particles pushed is a positive integer: for
  any other number, such as those that \<open>densityAutoParticles\<close> computes, the flag stays set, though
  the particles (the number rounded up) are there.
\<close>

theorem pushing_flag:
  assumes "pushParticles (Num r) pos s = Inr t"
  shows "(pushing (tmp t) \<longleftrightarrow> \<not> (1 \<le> r \<and> r \<in> \<int>)) \<and>
    length (parr t) = length (parr s) + nat \<lceil>r\<rceil>"
  using pushParticles_pushing [OF assms] pushParticles_length [OF assms] by simp

lemma half_not_Ints: "(1 / 2 :: real) \<notin> \<int>"
  using frac_half by (simp flip: frac_eq_0_iff)

theorem pushing_flag_witness:
  "\<exists>t. pushParticles (Num (1 / 2)) None (demo_pjs []) = Inr t \<and> pushing (tmp t) \<and> length (parr t) = 1"
proof -
  have c: "\<lceil>1 / 2 :: real\<rceil> = 1" by linarith
  have "\<exists>t. pushParticles (Num (1 / 2)) None (demo_pjs []) = Inr t"
    by (simp add: c js_eq_def pushParticles_def push_iteration_def push_position_def pjs_exec demo_defs)
  then obtain t where t: "pushParticles (Num (1 / 2)) None (demo_pjs []) = Inr t" by blast
  from pushing_flag [OF t] half_not_Ints have "pushing (tmp t) \<and> length (parr t) = 1"
    by (simp add: c demo_pjs_def)
  with t show ?thesis by blast
qed

end
