(* ===== verification/Particles_Forces.thy ===== *)
theory Particles_Forces
  imports Particles_Frames Particles_Demo
begin

section \<open>particles.js: geometry of the interactions\<close>

text \<open>
  What the interactions compute on finite coordinates: the opacity of a link, the change of the
  velocities by attraction, the way a particle is pushed by the mouse.
\<close>

subsection \<open>Links\<close>

lemma link_opacity_Num:
  assumes "a \<noteq> 0" "D \<noteq> 0"
  shows "link_opacity (Num a) (Num d) (Num D) = Num (a * (1 - d / D))"
  using assms by (simp add: link_opacity_def field_simps)

definition distance_of :: "particle \<Rightarrow> particle \<Rightarrow> real" where
  "distance_of p q =
     sqrt ((num_val (px p) - num_val (px q)) ^ 2 + (num_val (py p) - num_val (py q)) ^ 2)"

definition placed :: "particle \<Rightarrow> bool" where
  "placed p \<longleftrightarrow> is_Num (px p) \<and> is_Num (py p)"

lemma dist_placed:
  assumes "placed p" "placed q"
  shows "dist_xy (px p - px q) (py p - py q) = Num (distance_of p q)"
  using assms by (auto simp: placed_def distance_of_def power2_eq_square elim!: is_NumE)

subsection \<open>Attraction\<close>

definition moving :: "particle \<Rightarrow> bool" where
  "moving p \<longleftrightarrow> is_Num (vx p) \<and> is_Num (vy p)"

subsection \<open>Repulsion under the mouse\<close>

text \<open>
  The particle moves away from the mouse along the line through both, by a distance between 0 and
  50 that is 0 from the radius \<open>D\<close> of the effect on.
\<close>

definition repulse_shift :: "real \<Rightarrow> real \<Rightarrow> real" where
  "repulse_shift D d = min (max (100 * (1 - (d / D) ^ 2)) 0) 50"

lemma repulse_factor:
  assumes "D > 0"
  shows "clamp ((Num 1 / Num D) * (Num (- 1) * Math_pow (Num d / Num D) 2 + Num 1) * Num D * Num 100)
    (Num 0) (Num 50) = Num (repulse_shift D d)"
proof -
  have "1 / D * (- 1 * (d / D) ^ 2 + 1) * D * 100 = 100 * (1 - (d / D) ^ 2)"
    using assms by simp
  then show ?thesis using assms by (simp add: repulse_shift_def)
qed

lemma away_distance:
  fixes x y d f :: real
  assumes "d = sqrt (x ^ 2 + y ^ 2)" "d > 0" "f \<ge> 0"
  shows "sqrt ((x + x / d * f) ^ 2 + (y + y / d * f) ^ 2) = d + f"
proof -
  have d2: "d ^ 2 = x ^ 2 + y ^ 2" using assms(1) by simp
  have "x + x / d * f = x * (1 + f / d)" "y + y / d * f = y * (1 + f / d)"
    by (simp_all add: distrib_left)
  then have "(x + x / d * f) ^ 2 + (y + y / d * f) ^ 2 = (x ^ 2 + y ^ 2) * (1 + f / d) ^ 2"
    by (simp add: power_mult_distrib distrib_right)
  also have "\<dots> = (d * (1 + f / d)) ^ 2" by (simp add: d2 power_mult_distrib)
  also have "\<dots> = (d + f) ^ 2" using assms(2) by (simp add: distrib_left)
  finally show ?thesis using assms(2,3) by simp
qed

definition mouse_distance :: "real \<Rightarrow> real \<Rightarrow> particle \<Rightarrow> real" where
  "mouse_distance mx my p = sqrt ((num_val (px p) - mx) ^ 2 + (num_val (py p) - my) ^ 2)"

subsection \<open>Properties\<close>

text \<open>
  Two particles are linked exactly when they are closer than the distance \<open>D\<close>, with a line
  between their centres whose opacity falls linearly from \<open>a\<close> at distance 0 to 0 at distance \<open>D\<close>.
\<close>

theorem link_line:
  assumes "placed p" "placed q" and "line_distance c = Num D" "0 < D"
    and "line_opacity c = Num a" "0 < a" and "color_rgb_line c = Some k"
  shows "linkParticles c p q =
    Inr (if distance_of p q < D
         then [StrokeStyle (Rgba (rgb_r k) (rgb_g k) (rgb_b k) (Num (a * (1 - distance_of p q / D)))),
               LineWidth (line_width c), BeginPath, MoveTo (px p) (py p), LineTo (px q) (py q),
               Stroke, ClosePath]
         else [])"
proof -
  have "0 < a * (1 - d / D) \<longleftrightarrow> d < D" for d
    using assms(4,6) by (simp add: zero_less_mult_iff field_simps)
  then show ?thesis
    using assms link_opacity_Num [of a D "distance_of p q"]
    by (auto simp: linkParticles_def dist_placed stroke_line_def Let_def)
qed

theorem link_line_witness:
  "\<exists>l. linkParticles ((linec demo_config)\<lparr>color_rgb_line := Some \<lparr>rgb_r = Num 1, rgb_g = Num 2, rgb_b = Num 3\<rparr>\<rparr>)
     (demo_particle 0 0) (demo_particle 3 4) = Inr (StrokeStyle (Rgba (Num 1) (Num 2) (Num 3) (Num (39 / 100))) # l)"
proof -
  show ?thesis
    by (subst link_line [where D = 200 and a = "2 / 5" and
        k = "\<lparr>rgb_r = Num 1, rgb_g = Num 2, rgb_b = Num 3\<rparr>"])
      (simp_all add: distance_of_def placed_def demo_defs)
qed

text \<open>
  Attraction conserves momentum: the velocities of the two particles change by opposite
  amounts, towards one another and in proportion to their offset, within the distance \<open>D\<close>; beyond
  it nothing changes.
\<close>

theorem attract_momentum:
  assumes "placed p" "placed q" "moving p" "moving q"
    and "line_distance (linec c) = Num D"
    and "rotateX (movec c) = Num a" "a > 0" and "rotateY (movec c) = Num b" "b > 0"
    and "attractParticles c p q = (p', q')"
  shows "num_val (vx p') + num_val (vx q') = num_val (vx p) + num_val (vx q) \<and>
    num_val (vy p') + num_val (vy q') = num_val (vy p) + num_val (vy q) \<and>
    (distance_of p q \<le> D \<longrightarrow>
       num_val (vx p') - num_val (vx p) = (num_val (px q) - num_val (px p)) / (a * 1000) \<and>
       num_val (vy p') - num_val (vy p) = (num_val (py q) - num_val (py p)) / (b * 1000)) \<and>
    (D < distance_of p q \<longrightarrow> p' = p \<and> q' = q)"
  using assms dist_placed [OF assms(1,2)]
  unfolding placed_def moving_def
  by (auto simp: attractParticles_def Let_def field_simps elim!: is_NumE split: if_splits)

theorem attract_momentum_witness:
  "\<exists>p q. attractParticles demo_config (demo_particle 0 0) (demo_particle 3 4) = (p, q) \<and>
     num_val (vx p) - 1 = 3 / 600000 \<and> num_val (vx p) + num_val (vx q) = 2"
proof -
  obtain p q where pq: "attractParticles demo_config (demo_particle 0 0) (demo_particle 3 4) = (p, q)"
    by (metis surj_pair)
  from attract_momentum [OF _ _ _ _ _ _ _ _ _ pq, of 200 600 1200]
  have "num_val (vx p) - 1 = 3 / 600000 \<and> num_val (vx p) + num_val (vx q) = 2"
    by (simp add: distance_of_def placed_def moving_def demo_defs)
  with pq show ?thesis by blast
qed

text \<open>
  Under the mouse, the repulse effect moves a particle straight away from the pointer: its
  distance grows by \<open>100 (1 - (d / D)\<^sup>2)\<close>, kept between 0 and 50, where \<open>d > 0\<close> was the distance.
\<close>

theorem repulse_moves_away:
  assumes "placed p" and m: "pos_x (mouse s) = MNum (Num mx)" "pos_y (mouse s) = MNum (Num my)"
    and D: "repulse_distance (interc (cfg s)) = Num D" "0 < D"
    and "out_mode (movec (cfg s)) \<noteq> ''bounce''" and "0 < mouse_distance mx my p"
  shows "placed (repulse_hover s p) \<and>
    mouse_distance mx my (repulse_hover s p) =
      mouse_distance mx my p + repulse_shift D (mouse_distance mx my p)"
proof -
  from assms(1) obtain x y where xy: "px p = Num x" "py p = Num y"
    by (auto simp: placed_def elim!: is_NumE)
  let ?d = "mouse_distance mx my p"
  have d: "?d = sqrt ((x - mx) ^ 2 + (y - my) ^ 2)" by (simp add: mouse_distance_def xy)
  have dist: "dist_xy (Num (x - mx)) (Num (y - my)) = Num ?d"
    by (simp add: d power2_eq_square)
  let ?f = "repulse_shift D ?d"
  have r: "repulse_hover s p = p\<lparr>px := Num (x + (x - mx) / ?d * ?f), py := Num (y + (y - my) / ?d * ?f)\<rparr>"
    using assms(6,7) repulse_factor [OF D(2), of ?d]
    unfolding repulse_hover_def Let_def
    by (simp add: xy m D(1) dist del: dist_xy_Num)
  have "?f \<ge> 0" by (simp add: repulse_shift_def)
  then have "sqrt ((x - mx + (x - mx) / ?d * ?f) ^ 2 + (y - my + (y - my) / ?d * ?f) ^ 2) = ?d + ?f"
    using d assms(7) by (intro away_distance) simp_all
  then show ?thesis by (simp add: r placed_def mouse_distance_def algebra_simps)
qed

theorem repulse_moves_away_witness:
  "mouse_distance 0 0 (repulse_hover ((demo_pjs [])\<lparr>mouse := \<lparr>pos_x = MNum (Num 0), pos_y = MNum (Num 0),
     click_pos_x = MUndef, click_pos_y = MUndef, click_time = NaN\<rparr>\<rparr>) (demo_particle 3 4)) = 55"
  (is "mouse_distance 0 0 (repulse_hover ?s ?p) = 55")
proof -
  have d: "mouse_distance 0 0 ?p = 5" by (simp add: mouse_distance_def demo_particle_def)
  have "placed (repulse_hover ?s ?p) \<and>
      mouse_distance 0 0 (repulse_hover ?s ?p) = mouse_distance 0 0 ?p + repulse_shift 200 (mouse_distance 0 0 ?p)"
    by (rule repulse_moves_away) (simp_all add: mouse_distance_def placed_def demo_defs)
  then show ?thesis by (simp add: d repulse_shift_def power2_eq_square)
qed

end
