(* ===== verification/Particles_Overlap.thy ===== *)
theory Particles_Overlap
  imports Particles_Laws Particles_Demo
begin

section \<open>particles.js: placing particles without overlap\<close>

text \<open>
  With the option \<open>bounce\<close> a new particle is moved to a random place until it overlaps no other:
  what \<open>checkOverlap\<close> returns is free, and a free draw ends the search.
\<close>

definition clear_of :: "particle list \<Rightarrow> particle \<Rightarrow> bool" where
  "clear_of arr p \<longleftrightarrow> (\<forall>p2 \<in> set arr. \<not> overlaps p p2)"

lemma overlap_loop_clear:
  assumes "overlap_loop rec c pos ps p g = Inr (q, g')"
    and "\<And>p g q g'. rec p g = Inr (q, g') \<Longrightarrow> clear_of arr q"
    and "set arr \<subseteq> set ds \<union> set ps" "set ps \<subseteq> set arr" "clear_of ds p"
  shows "clear_of arr q"
  using assms(1,3-5)
proof (induction ps arbitrary: p g ds)
  case Nil
  then show ?case by (auto simp: clear_of_def)
next
  case (Cons p2 ps)
  show ?case
  proof (cases "overlaps p p2")
    case True
    with Cons.prems(1) obtain x y h r h' where "rec (p\<lparr>px := x, py := y\<rparr>) h = Inr (r, h')"
      and rest: "overlap_loop rec c pos ps r h' = Inr (q, g')"
      by (auto simp: Let_def elim!: andThen_InrE split: prod.splits)
    then have "clear_of arr r" using assms(2) by blast
    then show ?thesis using Cons.IH [OF rest, of arr] Cons.prems(3) by simp
  next
    case False
    with Cons.prems(1) have "overlap_loop rec c pos ps p g = Inr (q, g')" by simp
    moreover have "clear_of (p2 # ds) p" using False Cons.prems(4) by (simp add: clear_of_def)
    ultimately show ?thesis using Cons.IH [of p g "p2 # ds"] Cons.prems(2,3) by auto
  qed
qed

lemma checkOverlap_clear:
  "checkOverlap d c arr pos p g = Inr (q, g') \<Longrightarrow> clear_of arr q"
proof (induction d arbitrary: pos p g q g')
  case (Suc d)
  then have "overlap_loop (checkOverlap d c arr None) c pos arr p g = Inr (q, g')" by simp
  then show ?case
    by (rule overlap_loop_clear [where ds = "[]"]) (use Suc.IH in \<open>auto simp: clear_of_def\<close>)
qed simp

lemma checkOverlap_radius:
  assumes "checkOverlap d c arr pos p g = Inr (q, g')"
  shows "radius q = radius p"
  by (rule checkOverlap_keeps [OF assms, where Q = "\<lambda>q. radius q = radius p"]) simp_all

lemma overlap_loop_free:
  "clear_of ps p \<Longrightarrow> overlap_loop rec c pos ps p g = Inr (p, g)"
  by (induction ps) (auto simp: clear_of_def)

text \<open>A position tried by the recursion: the \<open>k\<close>-th pair of random numbers of the supply.\<close>

definition try_position :: "canvas \<Rightarrow> rng \<Rightarrow> nat \<Rightarrow> particle \<Rightarrow> particle" where
  "try_position c g k p =
     (let ((x, y), _) = init_position c None (\<lambda>n. g (2 * k + n)) in p\<lparr>px := x, py := y\<rparr>)"

lemma init_position_supply: "snd (init_position c None g) = (\<lambda>n. g (n + 2))"
  by (simp add: init_position_def Math_random_def)

lemma try_position_0: "init_position c None g = ((x, y), h) \<Longrightarrow> try_position c g 0 p = p\<lparr>px := x, py := y\<rparr>"
  by (simp add: try_position_def)

lemma try_position_Suc: "init_position c None g = (xy, h) \<Longrightarrow>
    try_position c g (Suc k) p = try_position c h k (p\<lparr>px := x, py := y\<rparr>)"
  using init_position_supply [of c g] by (auto simp: try_position_def split: prod.splits)

lemma overlap_loop_first:
  assumes "\<not> clear_of ps p" and "init_position c pos g = ((x, y), h)"
    and "rec (p\<lparr>px := x, py := y\<rparr>) h = Inr (r, h')" and "clear_of ps r"
  shows "overlap_loop rec c pos ps p g = Inr (r, h')"
  using assms(1,4)
proof (induction ps)
  case (Cons p2 ps)
  then show ?case using assms(2,3) by (auto simp: clear_of_def overlap_loop_free)
qed (simp add: clear_of_def)

lemma checkOverlap_returns:
  assumes "k < d" and "clear_of arr (try_position c g k p)"
  shows "\<exists>q g'. checkOverlap (Suc d) c arr None p g = Inr (q, g')"
  using assms
proof (induction d arbitrary: k p g)
  case (Suc d)
  show ?case
  proof (cases "clear_of arr p")
    case True
    then show ?thesis by (simp add: overlap_loop_free)
  next
    case False
    obtain x y h where i: "init_position c None g = ((x, y), h)" by (metis surj_pair)
    let ?p = "p\<lparr>px := x, py := y\<rparr>"
    have "\<exists>r h'. checkOverlap (Suc d) c arr None ?p h = Inr (r, h')"
    proof (cases k)
      case 0
      with Suc.prems(2) have "clear_of arr ?p" by (simp add: try_position_0 [OF i])
      then show ?thesis by (simp add: overlap_loop_free)
    next
      case (Suc k')
      with Suc.prems have "k' < d" "clear_of arr (try_position c h k' ?p)"
        by (simp_all add: try_position_Suc [OF i, where x = x and y = y])
      then show ?thesis by (rule Suc.IH)
    qed
    then obtain r h' where r: "checkOverlap (Suc d) c arr None ?p h = Inr (r, h')" by blast
    have "overlap_loop (checkOverlap (Suc d) c arr None) c None arr p g = Inr (r, h')"
      using False i r checkOverlap_clear [OF r] by (rule overlap_loop_first)
    then show ?thesis by simp
  qed
qed simp

subsection \<open>The array of an instance\<close>

definition disjoint_discs :: "particle list \<Rightarrow> bool" where
  "disjoint_discs arr \<longleftrightarrow> (\<forall>j < length arr. clear_of (take j arr) (arr ! j))"

lemma disjoint_discs_snoc: "disjoint_discs (arr @ [p]) \<longleftrightarrow> disjoint_discs arr \<and> clear_of arr p"
  by (auto simp: disjoint_discs_def nth_append less_Suc_eq)

lemma overlaps_part:
  assumes "px q = px p" "py q = py p" "radius q = radius p"
  shows "overlaps q r = overlaps p r"
  using assms by (simp add: overlaps_def)

lemma dress_particle_place:
  "dress_particle c col p g = (q, g') \<Longrightarrow> px q = px p \<and> py q = py p \<and> radius q = radius p"
  by (auto simp: dress_particle_def Let_def split: prod.splits)

lemma attach_image_place:
  "attach_image p s = Inr (q, t) \<Longrightarrow> px q = px p \<and> py q = py p \<and> radius q = radius p"
  by (auto simp: attach_image_def Let_def andThen_Inr_iff split: if_splits)

lemma place_particle_clear:
  assumes "place_particle pos s = Inr (p, g)" and "bounce (movec (cfg s))"
  shows "clear_of (parr s) p"
  using assms by (auto simp: place_particle_def Let_def split: prod.splits dest!: checkOverlap_clear)

lemma new_particle_clear:
  assumes "new_particle pos s = Inr (q, t)" and "bounce (movec (cfg s))"
  shows "clear_of (parr s) q"
  using assms(1)
proof (cases rule: new_particle_stages)
  case (1 p g col g' p' g'')
  have "px q = px p \<and> py q = py p \<and> radius q = radius p"
    using dress_particle_place [OF 1(3)] attach_image_place [OF 1(4)] by simp
  then have "overlaps q r = overlaps p r" for r using overlaps_part by blast
  with place_particle_clear [OF 1(1) assms(2)] show ?thesis by (simp add: clear_of_def)
qed

lemma push_one_disjoint:
  assumes "push_one pos s = Inr t" and "bounce (movec (cfg s))" and "disjoint_discs (parr s)"
  shows "disjoint_discs (parr t)"
proof -
  from assms(1) obtain p u where u: "new_particle pos s = Inr (p, u)" and t: "t = u\<lparr>parr := parr u @ [p]\<rparr>"
    by (auto simp: push_one_def elim!: andThen_InrE)
  from new_particle_frame [OF u] new_particle_clear [OF u assms(2)] assms(3) show ?thesis
    by (simp add: t disjoint_discs_snoc)
qed

subsection \<open>Properties\<close>

text \<open>
  C6.  With \<open>bounce\<close>, the particles that \<open>particlesCreate\<close> makes do not overlap one another, nor
  those there were: when it returns, the discs of the array are disjoint.
\<close>

theorem created_disjoint:
  assumes "particlesCreate s = Inr t" and "bounce (movec (cfg s))" and "disjoint_discs (parr s)"
  shows "disjoint_discs (parr t)"
proof -
  from assms(1) obtain n where "for_each (\<lambda>_. push_one None) [0..<n] s = Inr t"
    by (auto simp: particlesCreate_def split: option.splits)
  then have "disjoint_discs (parr t) \<and> bounce (movec (cfg t))"
    by (rule for_each_invariant [where P = "\<lambda>t. disjoint_discs (parr t) \<and> bounce (movec (cfg t))"])
      (use assms(2,3) push_one_disjoint in \<open>auto dest!: push_one_frame staticD(1)\<close>)
  then show ?thesis ..
qed

definition bounce_pjs :: pjs where
  "bounce_pjs = (demo_pjs [demo_particle 10 10])\<lparr>cfg := demo_config\<lparr>movec :=
     (movec demo_config)\<lparr>bounce := True\<rparr>\<rparr>\<rparr>"

theorem created_disjoint_witness:
  "\<exists>t. particlesCreate bounce_pjs = Inr t \<and> length (parr t) = 2 \<and> disjoint_discs (parr t)"
proof -
  have far: "29 / 4 < sqrt (1825 :: real)" by (rule real_less_rsqrt) (simp add: power2_eq_square)
  have "\<exists>t. particlesCreate bounce_pjs = Inr t \<and> length (parr t) = 2"
    using far by (simp add: bounce_pjs_def pjs_exec demo_defs overlaps_def eval_nat_numeral)
  then obtain t where t: "particlesCreate bounce_pjs = Inr t" "length (parr t) = 2" by blast
  have "disjoint_discs (parr t)"
    using t(1) by (rule created_disjoint)
      (simp_all add: bounce_pjs_def demo_pjs_def disjoint_discs_def clear_of_def)
  with t show ?thesis by blast
qed

lemma checkOverlap_given:
  assumes "k < d" and "clear_of arr (try_position c g k p)"
  shows "\<exists>q g'. checkOverlap (Suc (Suc d)) c arr (Some (x, y)) p g = Inr (q, g')"
proof (cases "clear_of arr p")
  case True
  then show ?thesis by (simp add: overlap_loop_free)
next
  case False
  let ?p = "p\<lparr>px := x, py := y\<rparr>"
  have i: "init_position c (Some (x, y)) g = ((x, y), g)" by (simp add: init_position_def)
  have "try_position c g k ?p = try_position c g k p" by (simp add: try_position_def split: prod.split)
  then obtain r h where r: "checkOverlap (Suc d) c arr None ?p g = Inr (r, h)"
    using checkOverlap_returns [OF assms(1), of arr c g ?p] assms(2) by auto
  have "overlap_loop (checkOverlap (Suc d) c arr None) c (Some (x, y)) arr p g = Inr (r, h)"
    using False i r checkOverlap_clear [OF r] by (rule overlap_loop_first)
  then show ?thesis by simp
qed

text \<open>
  C7.  The search for a free place ends when the random numbers allow it: if one of the first
  \<open>d\<close> places drawn is free, \<open>checkOverlap\<close> returns, and the place it returns is free.  A call stack of
  \<open>d + 1\<close> is enough if no position is given, and one of \<open>d + 2\<close> if one is, as \<open>pushParticles\<close> does: the
  first place tried then is the given one and not drawn.
\<close>

theorem overlap_search_returns:
  assumes "k < d" and "clear_of arr (try_position c g k p)"
  shows "\<exists>q g'. checkOverlap (if pos = None then d + 1 else d + 2) c arr pos p g = Inr (q, g') \<and> clear_of arr q \<and>
    radius q = radius p"
proof -
  have "\<exists>q g'. checkOverlap (if pos = None then d + 1 else d + 2) c arr pos p g = Inr (q, g')"
  proof (cases pos)
    case None
    then show ?thesis using checkOverlap_returns [OF assms] by (simp del: checkOverlap.simps)
  next
    case (Some xy)
    then show ?thesis using checkOverlap_given [OF assms, of "fst xy" "snd xy"] by (simp del: checkOverlap.simps)
  qed
  then show ?thesis using checkOverlap_clear checkOverlap_radius by blast
qed

theorem overlap_search_returns_witness:
  "\<exists>q g'. checkOverlap 2 (canv (demo_pjs [])) [demo_particle 10 10] None (demo_particle 11 10) demo_rng =
     Inr (q, g') \<and> clear_of [demo_particle 10 10] q \<and> radius q = Num 2"
proof -
  have far: "4 < sqrt (1825 :: real)" by (rule real_less_rsqrt) (simp add: power2_eq_square)
  have "clear_of [demo_particle 10 10] (try_position (canv (demo_pjs [])) demo_rng 0 (demo_particle 11 10))"
    using far by (simp add: clear_of_def overlaps_def try_position_def pjs_exec demo_defs)
  from overlap_search_returns [OF zero_less_one this, of None] show ?thesis
    by (simp add: demo_particle_def numeral_2_eq_2 del: checkOverlap.simps)
qed

end
