(* ===== verification/Particles_Colour.thy ===== *)
theory Particles_Colour
  imports Particles_State
begin

section \<open>particles.js: colours in hexadecimal\<close>

text \<open>The function \<open>hexToRgb\<close> reads back what is written in hexadecimal digits.\<close>

text \<open>
  C15.  Every 24-bit colour, written in six hexadecimal digits with or without the hash, is read
  back, and three digits mean the six with each digit doubled.
\<close>

definition hex_char :: "nat \<Rightarrow> char" where
  "hex_char n = ''0123456789abcdef'' ! n"

definition hex_byte :: "nat \<Rightarrow> string" where
  "hex_byte n = [hex_char (n div 16), hex_char (n mod 16)]"

lemma hex_char_ok: "n < 16 \<Longrightarrow> is_hex (hex_char n) \<and> hex_digit (hex_char n) = n \<and> hex_char n \<noteq> CHR ''#''"
proof -
  have "\<forall>n \<in> set [0..<16]. is_hex (hex_char n) \<and> hex_digit (hex_char n) = n \<and> hex_char n \<noteq> CHR ''#''"
    by code_simp
  then show "n < 16 \<Longrightarrow> ?thesis" by simp
qed

theorem hex_roundtrip:
  assumes "r < 256" "g < 256" "b < 256"
  shows "hexToRgb (CHR ''#'' # hex_byte r @ hex_byte g @ hex_byte b) =
      Some \<lparr>rgb_r = Num (real r), rgb_g = Num (real g), rgb_b = Num (real b)\<rparr> \<and>
    hexToRgb (hex_byte r @ hex_byte g @ hex_byte b) =
      Some \<lparr>rgb_r = Num (real r), rgb_g = Num (real g), rgb_b = Num (real b)\<rparr> \<and>
    hexToRgb [CHR ''#'', hex_char (r div 16), hex_char (g div 16), hex_char (b div 16)] =
      hexToRgb (concat (map (\<lambda>n. [hex_char (n div 16), hex_char (n div 16)]) [r, g, b]))"
proof -
  have d: "is_hex (hex_char (n div 16)) \<and> hex_digit (hex_char (n div 16)) = n div 16 \<and>
      hex_char (n div 16) \<noteq> CHR ''#''" if "n < 256" for n
    using that by (intro hex_char_ok) auto
  have m: "is_hex (hex_char (n mod 16)) \<and> hex_digit (hex_char (n mod 16)) = n mod 16" for n
    using hex_char_ok [of "n mod 16"] by simp
  show ?thesis
    using d [OF assms(1)] d [OF assms(2)] d [OF assms(3)] m
    by (simp add: hex_byte_def hexToRgb_def strip_hash_def expand_shorthand_def parseInt16_def
        del: hex_digit.simps)
qed

theorem hex_roundtrip_witness:
  "hexToRgb ''#b61924'' = Some \<lparr>rgb_r = Num 182, rgb_g = Num 25, rgb_b = Num 36\<rparr>"
proof -
  have "hex_byte 182 = ''b6''" "hex_byte 25 = ''19''" "hex_byte 36 = ''24''" by code_simp+
  with hex_roundtrip [of 182 25 36] show ?thesis by simp
qed

end
