(* ===== verification/Particles_Types.thy ===== *)
theory Particles_Types
  imports Particles_Config
begin

section \<open>particles.js: the types of options\<close>

text \<open>
  The types at which the code uses its options, and what follows for a page: options that have these
  types where they are given, merged into the defaults, give a complete configuration.
\<close>

subsection \<open>Types\<close>

datatype ty = TAny | TNum | TStr | TMode | TColor | TObj "(string \<times> ty) list"

definition color_keys :: "string list" where
  "color_keys = [''r'', ''g'', ''b'', ''h'', ''s'', ''l'']"

definition num_like :: "jsval \<Rightarrow> bool" where
  "num_like v \<longleftrightarrow> as_num v \<noteq> None"

fun is_strs :: "jsval \<Rightarrow> bool" where
  "is_strs (JStr s) = True"
| "is_strs (JArr us) = (as_strs us \<noteq> None)"
| "is_strs v = False"

definition is_color :: "jsval \<Rightarrow> bool" where
  "is_color v \<longleftrightarrow> is_strs v \<or> (case v of JObj ps \<Rightarrow> list_all (\<lambda>k. num_like (own ps k)) color_keys | _ \<Rightarrow> False)"

text \<open>A value at a type; with \<open>part\<close> an object may lack properties.\<close>

fun has_ty :: "bool \<Rightarrow> ty \<Rightarrow> jsval \<Rightarrow> bool" where
  "has_ty part TAny v = True"
| "has_ty part TNum v = num_like v"
| "has_ty part TStr v = (as_str v \<noteq> None)"
| "has_ty part TMode v = is_strs v"
| "has_ty part TColor v = is_color v"
| "has_ty part (TObj fs) v =
     (case v of
        JObj ps \<Rightarrow>
          (part \<longrightarrow> map_of ps ''constructor'' = None) \<and>
          list_all (\<lambda>(k, t). part \<and> map_of ps k = None \<or> has_ty part t (own ps k)) fs
      | _ \<Rightarrow> False)"

definition number_ty :: ty where
  "number_ty = TObj [(''value'', TNum), (''density'', TObj [(''enable'', TAny), (''value_area'', TNum)])]"

definition shape_ty :: ty where
  "shape_ty = TObj
     [(''type'', TMode), (''stroke'', TObj [(''width'', TNum), (''color'', TStr)]), (''polygon'', TObj [(''nb_sides'', TNum)]),
      (''image'', TObj [(''src'', TStr), (''width'', TNum), (''height'', TNum)])]"

definition opacity_ty :: ty where
  "opacity_ty = TObj
     [(''value'', TNum), (''random'', TAny),
      (''anim'', TObj [(''enable'', TAny), (''speed'', TNum), (''opacity_min'', TNum), (''sync'', TAny)])]"

definition size_ty :: ty where
  "size_ty = TObj
     [(''value'', TNum), (''random'', TAny),
      (''anim'', TObj [(''enable'', TAny), (''speed'', TNum), (''size_min'', TNum), (''sync'', TAny)])]"

definition line_ty :: ty where
  "line_ty = TObj
     [(''enable'', TAny), (''distance'', TNum), (''color'', TStr), (''opacity'', TNum), (''width'', TNum)]"

definition move_ty :: ty where
  "move_ty = TObj
     [(''enable'', TAny), (''speed'', TNum), (''direction'', TStr), (''random'', TAny), (''straight'', TAny),
      (''out_mode'', TStr), (''bounce'', TAny),
      (''attract'', TObj [(''enable'', TAny), (''rotateX'', TNum), (''rotateY'', TNum)])]"

definition inter_ty :: ty where
  "inter_ty = TObj
     [(''detect_on'', TStr),
      (''events'', TObj [(''onhover'', TObj [(''enable'', TAny), (''mode'', TMode)]),
         (''onclick'', TObj [(''enable'', TAny), (''mode'', TMode)]), (''resize'', TAny)]),
      (''modes'', TObj [(''grab'', TObj [(''distance'', TNum), (''line_linked'', TObj [(''opacity'', TNum)])]),
         (''bubble'', TObj [(''distance'', TNum), (''size'', TNum), (''duration'', TNum), (''opacity'', TNum)]),
         (''repulse'', TObj [(''distance'', TNum), (''duration'', TNum)]),
         (''push'', TObj [(''particles_nb'', TNum)]), (''remove'', TObj [(''particles_nb'', TNum)])])]"

definition options_ty :: ty where
  "options_ty = TObj
     [(''particles'', TObj
        [(''number'', number_ty), (''color'', TObj [(''value'', TColor)]), (''shape'', shape_ty), (''opacity'', opacity_ty),
         (''size'', size_ty), (''line_linked'', line_ty), (''move'', move_ty)]),
      (''interactivity'', inter_ty), (''retina_detect'', TAny)]"

subsection \<open>Merging keeps the types\<close>

lemma num_like_merged: "num_like v \<Longrightarrow> merged old v = v"
  by (cases v) (auto simp: num_like_def merged_def)

lemma is_strs_merged: "is_strs v \<Longrightarrow> merged old v = v"
  by (cases v) (auto simp: merged_def)

lemma nums_merged:
  assumes "distinct (map fst ps)" "list_all (\<lambda>k. num_like (own qs k)) ks" "list_all (\<lambda>k. num_like (own ps k)) ks"
  shows "list_all (\<lambda>k. num_like (own (deepExtend qs ps) k)) ks"
proof -
  have "num_like (own (deepExtend qs ps) k)" if "num_like (own qs k)" "num_like (own ps k)" for k
  proof (cases "map_of ps k")
    case (Some v)
    then have "own ps k = v" by (simp add: own_def)
    then show ?thesis using Some that(2) assms(1) num_like_merged [of v] by (simp add: own_deepExtend)
  qed (use that(1) assms(1) in \<open>simp add: own_deepExtend\<close>)
  then show ?thesis using assms(2,3) by (auto simp: list_all_iff)
qed

lemma is_color_merged:
  assumes "is_color old" "is_color v" "wf_jsval v"
  shows "is_color (merged old v)"
proof (cases "is_strs v")
  case True
  then show ?thesis using assms(2) is_strs_merged by simp
next
  case False
  then obtain ps where v: "v = JObj ps" "list_all (\<lambda>k. num_like (own ps k)) color_keys"
    using assms(2) by (cases v) (auto simp: is_color_def)
  have d: "distinct (map fst ps)" using assms(3) v by simp
  have "is_color (JObj (deepExtend qs ps))" if "list_all (\<lambda>k. num_like (own qs k)) color_keys" for qs
    using nums_merged [OF d that v(2)] by (simp add: is_color_def)
  moreover have "list_all (\<lambda>k. num_like (own [] k)) color_keys" by (simp add: own_def num_like_def list_all_iff)
  moreover have "\<exists>qs. old = JObj qs \<and> list_all (\<lambda>k. num_like (own qs k)) color_keys" if "\<not> is_strs old"
    using assms(1) that by (cases old) (auto simp: is_color_def)
  ultimately show ?thesis using assms(1,2) v by (cases old) (auto simp: merged_def)
qed

lemma merged_ty:
  assumes "has_ty False t old" "has_ty True t v" "wf_jsval v"
  shows "has_ty False t (merged old v)"
  using assms
proof (induction t arbitrary: old v)
  case (TObj fs)
  obtain qs where q: "old = JObj qs" "list_all (\<lambda>(k, t). has_ty False t (own qs k)) fs"
    using TObj.prems(1) by (cases old) auto
  obtain ps where p: "v = JObj ps" "map_of ps ''constructor'' = None"
      "list_all (\<lambda>(k, t). map_of ps k = None \<or> has_ty True t (own ps k)) fs"
    using TObj.prems(2) by (cases v) auto
  have d: "distinct (map fst ps)" using TObj.prems(3) p(1) by simp
  have "has_ty False t (own (deepExtend qs ps) k)" if kt: "(k, t) \<in> set fs" for k t
  proof (cases "map_of ps k")
    case None
    then show ?thesis using kt q(2) d by (auto simp: own_deepExtend list_all_iff)
  next
    case (Some w)
    then have w: "own ps k = w" "has_ty True t w" using kt p(3) by (auto simp: own_def list_all_iff)
    have "wf_jsval w" using wf_jsval_own [of ps k] TObj.prems(3) p(1) w(1) by simp
    moreover have "has_ty False t (own qs k)" using kt q(2) by (auto simp: list_all_iff)
    ultimately have "has_ty False t (merged (own qs k) w)" using TObj.IH [OF kt] w(2) by simp
    then show ?thesis using Some d by (simp add: own_deepExtend)
  qed
  then show ?case using p q by (auto simp: merged_def list_all_iff)
next
  case TStr
  then show ?case by (cases v) (auto simp: merged_def)
qed (simp_all add: num_like_merged is_strs_merged is_color_merged)

subsection \<open>Typed options can be read\<close>

fun ty_at :: "ty \<Rightarrow> string list \<Rightarrow> ty option" where
  "ty_at t [] = Some t"
| "ty_at (TObj fs) (k # ks) = (case map_of fs k of None \<Rightarrow> None | Some t \<Rightarrow> ty_at t ks)"
| "ty_at t (k # ks) = None"

lemma typed_path:
  assumes "has_ty False t v" "ty_at t ks = Some u"
  shows "\<exists>w. get_path v ks = Some w \<and> has_ty False u w"
  using assms
proof (induction t ks arbitrary: v rule: ty_at.induct)
  case (2 fs k ks)
  then obtain t where t: "map_of fs k = Some t" "ty_at t ks = Some u" by (auto split: option.splits)
  obtain ps where v: "v = JObj ps" "list_all (\<lambda>(k, t). has_ty False t (own ps k)) fs"
    using 2(2) by (cases v) auto
  then have "has_ty False t (own ps k)" using map_of_SomeD [OF t(1)] by (auto simp: list_all_iff)
  then show ?case using 2(1) [OF t(1) _ t(2)] v(1) by simp
qed auto

lemma typed_reads:
  assumes "has_ty False t v"
  shows "ty_at t ks = Some TNum \<Longrightarrow> \<exists>n. num_at v ks = Some n"
    and "ty_at t ks = Some TAny \<Longrightarrow> \<exists>b. bool_at v ks = Some b"
    and "ty_at t ks = Some TStr \<Longrightarrow> \<exists>s. str_at v ks = Some s"
    and "ty_at t ks = Some TMode \<Longrightarrow> \<exists>m. mode_at v ks = Some m"
proof -
  have modes: "is_strs w \<Longrightarrow> \<exists>m. as_str_or_arr w = Some m" for w by (cases w) auto
  show "ty_at t ks = Some TNum \<Longrightarrow> \<exists>n. num_at v ks = Some n"
    using typed_path [OF assms, of ks TNum] by (auto simp: num_at_def num_like_def)
  show "ty_at t ks = Some TAny \<Longrightarrow> \<exists>b. bool_at v ks = Some b"
    using typed_path [OF assms, of ks TAny] by (auto simp: bool_at_def)
  show "ty_at t ks = Some TStr \<Longrightarrow> \<exists>s. str_at v ks = Some s"
    using typed_path [OF assms, of ks TStr] by (auto simp: str_at_def)
  show "ty_at t ks = Some TMode \<Longrightarrow> \<exists>m. mode_at v ks = Some m"
    using typed_path [OF assms, of ks TMode] modes by (fastforce simp: mode_at_def)
qed

lemma typed_color:
  assumes "is_color v"
  shows "\<exists>c. as_color v = Some c"
proof (cases "is_strs v")
  case True
  then show ?thesis by (cases v) auto
next
  case False
  then obtain ps where v: "v = JObj ps" "list_all (\<lambda>k. num_like (own ps k)) color_keys"
    using assms by (cases v) (auto simp: is_color_def)
  then have "\<exists>k. as_rgb ps = Some k" "\<exists>h. as_hsl ps = Some h"
    by (auto simp: as_rgb_def as_hsl_def color_keys_def num_like_def)
  then show ?thesis using v(1) by auto
qed

lemma bind_Some_conv: "Option.bind m f \<noteq> None \<longleftrightarrow> (\<exists>x. m = Some x \<and> f x \<noteq> None)"
  by (cases m) auto

lemma read_number_typed:
  assumes "has_ty False number_ty v"
  shows "read_number v \<noteq> None"
  unfolding read_number_def bind_Some_conv
  by (simp add: typed_reads [OF assms] number_ty_def)

lemma read_shape_typed:
  assumes "has_ty False shape_ty v"
  shows "read_shape v \<noteq> None"
  unfolding read_shape_def bind_Some_conv
  by (simp add: typed_reads [OF assms] shape_ty_def)

lemma read_opacity_typed:
  assumes "has_ty False opacity_ty v"
  shows "read_opacity v \<noteq> None"
  unfolding read_opacity_def bind_Some_conv
  by (simp add: typed_reads [OF assms] opacity_ty_def)

lemma read_size_typed:
  assumes "has_ty False size_ty v"
  shows "read_size v \<noteq> None"
  unfolding read_size_def bind_Some_conv
  by (simp add: typed_reads [OF assms] size_ty_def)

lemma read_line_typed:
  assumes "has_ty False line_ty v"
  shows "read_line v \<noteq> None"
  unfolding read_line_def bind_Some_conv
  by (simp add: typed_reads [OF assms] line_ty_def)

lemma read_move_typed:
  assumes "has_ty False move_ty v"
  shows "read_move v \<noteq> None"
  unfolding read_move_def bind_Some_conv
  by (simp add: typed_reads [OF assms] move_ty_def)

lemma read_inter_typed:
  assumes "has_ty False inter_ty v"
  shows "read_inter v \<noteq> None"
  unfolding read_inter_def bind_Some_conv
  by (simp add: typed_reads [OF assms] inter_ty_def)

lemma typed_section:
  assumes "has_ty False t v" and "ty_at t ks = Some u" and "\<And>w. has_ty False u w \<Longrightarrow> f w \<noteq> None"
  shows "\<exists>a. Option.bind (get_path v ks) f = Some a"
proof -
  obtain w where w: "get_path v ks = Some w" "has_ty False u w" using typed_path [OF assms(1,2)] by blast
  then show ?thesis using assms(3) [of w] by simp
qed

lemma config_typed:
  assumes ty: "has_ty False options_ty v"
  shows "read_config v \<noteq> None"
proof -
  have at: "ty_at options_ty [''particles'', ''number''] = Some number_ty" "ty_at options_ty [''particles'', ''color'', ''value''] = Some TColor"
    "ty_at options_ty [''particles'', ''shape''] = Some shape_ty" "ty_at options_ty [''particles'', ''opacity''] = Some opacity_ty"
    "ty_at options_ty [''particles'', ''size''] = Some size_ty" "ty_at options_ty [''particles'', ''line_linked''] = Some line_ty"
    "ty_at options_ty [''particles'', ''move''] = Some move_ty" "ty_at options_ty [''interactivity''] = Some inter_ty"
    by (simp_all add: options_ty_def)
  have color: "has_ty False TColor w \<Longrightarrow> as_color w \<noteq> None" for w using typed_color by auto
  obtain a0 where a0: "Option.bind (get_path v [''particles'', ''number'']) read_number = Some a0"
    using typed_section [of options_ty v "[''particles'', ''number'']" number_ty read_number, OF ty at(1) read_number_typed] by blast
  obtain a1 where a1: "Option.bind (get_path v [''particles'', ''color'', ''value'']) as_color = Some a1"
    using typed_section [of options_ty v "[''particles'', ''color'', ''value'']" TColor as_color, OF ty at(2) color] by blast
  obtain a2 where a2: "Option.bind (get_path v [''particles'', ''shape'']) read_shape = Some a2"
    using typed_section [of options_ty v "[''particles'', ''shape'']" shape_ty read_shape, OF ty at(3) read_shape_typed] by blast
  obtain a3 where a3: "Option.bind (get_path v [''particles'', ''opacity'']) read_opacity = Some a3"
    using typed_section [of options_ty v "[''particles'', ''opacity'']" opacity_ty read_opacity, OF ty at(4) read_opacity_typed] by blast
  obtain a4 where a4: "Option.bind (get_path v [''particles'', ''size'']) read_size = Some a4"
    using typed_section [of options_ty v "[''particles'', ''size'']" size_ty read_size, OF ty at(5) read_size_typed] by blast
  obtain a5 where a5: "Option.bind (get_path v [''particles'', ''line_linked'']) read_line = Some a5"
    using typed_section [of options_ty v "[''particles'', ''line_linked'']" line_ty read_line, OF ty at(6) read_line_typed] by blast
  obtain a6 where a6: "Option.bind (get_path v [''particles'', ''move'']) read_move = Some a6"
    using typed_section [of options_ty v "[''particles'', ''move'']" move_ty read_move, OF ty at(7) read_move_typed] by blast
  obtain a7 where a7: "Option.bind (get_path v [''interactivity'']) read_inter = Some a7"
    using typed_section [of options_ty v "[''interactivity'']" inter_ty read_inter, OF ty at(8) read_inter_typed] by blast
  obtain b where b: "bool_at v [''retina_detect''] = Some b"
    using typed_reads(2) [OF ty, of "[''retina_detect'']"] by (auto simp: options_ty_def)
  show ?thesis unfolding read_config_def a0 a1 a2 a3 a4 a5 a6 a7 b by simp
qed

subsection \<open>Properties\<close>

lemma defaults_typed: "has_ty False options_ty (JObj default_options)"
  by code_simp

text \<open>
  C25.  Options that have the types of the code wherever they are given make a complete configuration,
  whatever else they hold.
\<close>

theorem options_typed:
  assumes "has_ty True options_ty (JObj params)" and "wf_jsval (JObj params)"
  shows "has_ty False options_ty (JObj (deepExtend default_options params)) \<and> configure (Some params) \<noteq> None"
proof -
  have "map_of params ''constructor'' = None" using assms(1) by (simp add: options_ty_def)
  then have "merged (JObj default_options) (JObj params) = JObj (deepExtend default_options params)" by (simp add: merged_def)
  then have "has_ty False options_ty (JObj (deepExtend default_options params))"
    using merged_ty [OF defaults_typed assms] by simp
  then show ?thesis using config_typed by (simp add: configure_def)
qed

theorem options_typed_witness:
  "configure (Some [(''particles'', JObj [(''color'', JObj [(''value'', JArr [JStr ''#fff'', JStr ''#000''])]),
     (''number'', JObj [(''value'', JNum (Num 3)), (''note'', JStr ''few'')])])]) \<noteq> None"
proof -
  let ?p = "[(''particles'', JObj [(''color'', JObj [(''value'', JArr [JStr ''#fff'', JStr ''#000''])]),
     (''number'', JObj [(''value'', JNum (Num 3)), (''note'', JStr ''few'')])])]"
  have "has_ty True options_ty (JObj ?p)" "wf_jsval (JObj ?p)" by code_simp+
  from options_typed [OF this] show ?thesis by simp
qed

end
