(* ===== verification/JsText.thy ===== *)
theory JsText
  imports JsPrelude
begin

section \<open>Texts\<close>

text \<open>
  A string of the scripts that work on texts is a list of 16-bit code units.  \<open>replace_all\<close> is the
  global replacement of a regular expression that is a literal text.
\<close>

type_synonym units = "16 word list"

definition units_of :: "string \<Rightarrow> units" where
  "units_of s = map (\<lambda>c. of_nat (of_char c)) s"

definition uni :: "nat list \<Rightarrow> units" where
  "uni ns = map of_nat ns"

definition white :: "16 word \<Rightarrow> bool" where
  \<comment> \<open>\<open>\s\<close>\<close>
  "white c \<longleftrightarrow> (let n = unat c in
     9 \<le> n \<and> n \<le> 13 \<or> 8192 \<le> n \<and> n \<le> 8202 \<or>
     n \<in> set [32, 160, 5760, 8232, 8233, 8239, 8287, 12288, 65279])"

lemma units_of_small: "x \<in> set (units_of s) \<Longrightarrow> unat x < 256"
proof -
  assume "x \<in> set (units_of s)"
  then obtain c where x: "x = of_nat (of_char c)" by (auto simp: units_of_def)
  have "unat x \<le> of_char c" by (simp add: x unsigned_of_nat take_bit_nat_less_eq_self)
  then show "unat x < 256" using nat_of_char_less_256 by (rule le_less_trans)
qed

lemma uni_member:
  assumes "list_all (\<lambda>n. n < 65536) ns" and "n < 65536"
  shows "of_nat n \<in> set (uni ns) \<longleftrightarrow> n \<in> set ns"
proof -
  have "(of_nat m :: 16 word) = of_nat n \<longleftrightarrow> m = n" if "m < 65536" for m
    using that assms(2) by (simp add: word_of_nat_eq_iff take_bit_nat_eq_self)
  with assms(1) show ?thesis by (auto simp: uni_def list_all_iff image_iff) metis
qed

text \<open>\<open>replace(/(^\s*)|(\s*$)/g, "")\<close>\<close>

definition trim_text :: "units \<Rightarrow> units" where
  "trim_text s = rev (dropWhile white (rev (dropWhile white s)))"

lemma trim_text_Nil: "trim_text s = [] \<longleftrightarrow> (\<forall>c \<in> set s. white c)"
proof -
  have "trim_text s = [] \<longleftrightarrow> (\<forall>c \<in> set (dropWhile white s). white c)"
    by (simp add: trim_text_def dropWhile_eq_Nil_conv)
  also have "\<dots> \<longleftrightarrow> (\<forall>c \<in> set s. white c)"
    by (induction s) auto
  finally show ?thesis .
qed

subsection \<open>Replacing a literal text\<close>

function replace_all :: "'a list \<Rightarrow> 'a list \<Rightarrow> 'a list \<Rightarrow> 'a list" where
  "replace_all pat r [] = []"
| "replace_all pat r (c # s) =
     (if pat \<noteq> [] \<and> take (length pat) (c # s) = pat
      then r @ replace_all pat r (drop (length pat) (c # s))
      else c # replace_all pat r s)"
  by pat_completeness auto
termination by (relation "measure (\<lambda>(_, _, s). length s)") auto

definition occurs :: "'a list \<Rightarrow> 'a list \<Rightarrow> bool" where
  "occurs p s \<longleftrightarrow> (\<exists>us ws. s = us @ p @ ws)"

lemma occurs_Cons: "occurs p (c # s) \<longleftrightarrow> take (length p) (c # s) = p \<or> occurs p s"
proof
  assume "occurs p (c # s)"
  then obtain us ws where "c # s = us @ p @ ws" by (auto simp: occurs_def)
  then show "take (length p) (c # s) = p \<or> occurs p s"
    by (cases us) (auto simp: occurs_def)
next
  assume "take (length p) (c # s) = p \<or> occurs p s"
  then show "occurs p (c # s)"
  proof
    assume "take (length p) (c # s) = p"
    then have "c # s = [] @ p @ drop (length p) (c # s)" by (metis append_take_drop_id append_Nil)
    then show ?thesis unfolding occurs_def by blast
  next
    assume "occurs p s"
    then show ?thesis unfolding occurs_def by (metis append_Cons)
  qed
qed

lemma occurs_code [code]: "occurs p [] \<longleftrightarrow> p = []" "occurs p (c # s) \<longleftrightarrow> take (length p) (c # s) = p \<or> occurs p s"
  by (simp add: occurs_def) (rule occurs_Cons)

lemma occurs_append: "occurs p s \<Longrightarrow> occurs p (r @ s)"
  by (auto simp: occurs_def) (metis append_assoc)

lemma occurs_drop: "occurs p (drop n s) \<Longrightarrow> occurs p s"
  using occurs_append [of p "drop n s" "take n s"] by simp

lemma replace_all_absent: "\<not> occurs pat s \<Longrightarrow> replace_all pat r s = s"
  by (induction pat r s rule: replace_all.induct) (auto simp: occurs_Cons)

text \<open>A prefix without the first character of the replacement is one of the original.\<close>

lemma replace_all_prefix:
  assumes "r \<noteq> []" "hd r \<notin> set p" "take (length p) (replace_all pat r s) = p"
  shows "take (length p) s = p"
  using assms
proof (induction pat r s arbitrary: p rule: replace_all.induct)
  case (2 pat r c s)
  show ?case
  proof (cases p)
    case (Cons d q)
    show ?thesis
    proof (cases "pat \<noteq> [] \<and> take (length pat) (c # s) = pat")
      case True
      with 2(5) Cons have "hd (r @ replace_all pat r (drop (length pat) (c # s))) = d"
        by (auto dest: arg_cong [of _ _ hd] simp: hd_append 2(3))
      with 2(3,4) Cons show ?thesis by simp
    next
      case False
      then have "replace_all pat r (c # s) = c # replace_all pat r s" by auto
      with 2(5) Cons have "d = c" "take (length q) (replace_all pat r s) = q" by auto
      with 2(2) [OF False 2(3)] 2(4) Cons show ?thesis by simp
    qed
  qed simp
qed simp

lemma replace_all_occurs:
  assumes "r \<noteq> []" "hd r \<notin> set p" "p \<noteq> []" "hd p \<notin> set r" "occurs p (replace_all pat r s)"
  shows "occurs p s \<and> p \<noteq> pat"
  using assms
proof (induction pat r s rule: replace_all.induct)
  case (1 pat r)
  then show ?case by (auto simp: occurs_def)
next
  case (2 pat r c s)
  show ?case
  proof (cases "pat \<noteq> [] \<and> take (length pat) (c # s) = pat")
    case True
    let ?rest = "drop (length pat) (c # s)"
    obtain d q where p: "p = d # q" using 2(5) by (cases p) auto
    have skip: "occurs p (r' @ t) \<Longrightarrow> set r' \<subseteq> set r \<Longrightarrow> occurs p t" for r' t
      using 2(6) by (induction r') (auto simp: p occurs_Cons)
    have "occurs p (r @ replace_all pat r ?rest)" using 2(7) True by simp
    then have "occurs p (replace_all pat r ?rest)" by (rule skip) simp
    with 2(1) [OF True 2(3-6)] show ?thesis using occurs_drop by blast
  next
    case False
    then have eq: "replace_all pat r (c # s) = c # replace_all pat r s" by auto
    with 2(7) have "take (length p) (replace_all pat r (c # s)) = p \<or> occurs p (replace_all pat r s)"
      by (simp add: occurs_Cons)
    then show ?thesis
    proof
      assume "take (length p) (replace_all pat r (c # s)) = p"
      then have t: "take (length p) (c # s) = p" using 2(3,4) replace_all_prefix by blast
      then have "occurs p (c # s)" by (simp add: occurs_Cons)
      moreover have "p \<noteq> pat" using False t 2(5) by auto
      ultimately show ?thesis ..
    next
      assume "occurs p (replace_all pat r s)"
      with 2(2) [OF False 2(3-6)] show ?thesis by (auto simp: occurs_Cons)
    qed
  qed
qed

end
