(* ===== verification/Base64.thy ===== *)
theory Base64
  imports JsText
begin

unbundle bit_operations_syntax

section \<open>exturl.js: Base64 and UTF-8\<close>

text \<open>
  The object \<open>Base64\<close> with which the blog's pages decode the address of an external link.  A string
  is a list of 16-bit code units.  A bitwise operator converts its operands to 32-bit integers
  (\<open>NaN\<close>, the code of a missing character, to 0); \<open>String.fromCharCode\<close> takes the low 16 bits.
\<close>

type_synonym int32 = "32 word"

definition keyStr :: units where
  "keyStr = units_of ''ABCDEFGHIJKLMNOPQRSTUVWXYZabcdefghijklmnopqrstuvwxyz0123456789+/=''"

definition charCodeAt :: "units \<Rightarrow> nat \<Rightarrow> int32 option" where
  \<comment> \<open>\<open>None\<close> is \<open>NaN\<close>\<close>
  "charCodeAt s n = (if n < length s then Some (ucast (s ! n)) else None)"

definition toInt32 :: "int32 option \<Rightarrow> int32" where
  "toInt32 v = (case v of None \<Rightarrow> 0 | Some n \<Rightarrow> n)"

definition fromCharCode :: "int32 \<Rightarrow> units" where
  "fromCharCode n = [ucast n]"

definition charAt :: "units \<Rightarrow> int32 \<Rightarrow> units" where
  "charAt s n = (if 0 \<le> sint n \<and> sint n < int (length s) then [s ! nat (sint n)] else [])"

definition shr :: "int32 \<Rightarrow> nat \<Rightarrow> int32" where
  "shr n k = signed_drop_bit k n"

definition shl :: "int32 \<Rightarrow> nat \<Rightarrow> int32" where
  "shl n k = push_bit k n"

subsection \<open>UTF-8\<close>

text \<open>
  \<open>e.replace(/rn/g, "n")\<close>: the regular expression has lost the backslashes of \<open>\r\n\<close>, so it removes
  each letter r that stands before an n.
\<close>

fun replace_rn :: "units \<Rightarrow> units" where
  "replace_rn (a # b # s) =
     (if a = 114 \<and> b = 110 then b # replace_rn s else a # replace_rn (b # s))"
| "replace_rn s = s"

definition utf8_encode_char :: "16 word \<Rightarrow> units" where
  "utf8_encode_char c =
     (let r = ucast c :: int32 in
      if r < 128 then fromCharCode r
      else if r > 127 \<and> r < 2048 then fromCharCode (shr r 6 OR 192) @ fromCharCode (r AND 63 OR 128)
      else fromCharCode (shr r 12 OR 224) @ fromCharCode (shr r 6 AND 63 OR 128) @
           fromCharCode (r AND 63 OR 128))"

definition utf8_encode :: "units \<Rightarrow> units" where
  "utf8_encode e = concat (map utf8_encode_char (replace_rn e))"

function utf8_decode :: "units \<Rightarrow> units" where
  "utf8_decode e =
     (if e = [] then []
      else
        (let r = toInt32 (charCodeAt e 0); c2 = toInt32 (charCodeAt e 1); c3 = toInt32 (charCodeAt e 2) in
         if r < 128 then fromCharCode r @ utf8_decode (drop 1 e)
         else if r > 191 \<and> r < 224
         then fromCharCode (shl (r AND 31) 6 OR c2 AND 63) @ utf8_decode (drop 2 e)
         else fromCharCode (shl (r AND 15) 12 OR shl (c2 AND 63) 6 OR c3 AND 63) @
              utf8_decode (drop 3 e)))"
  by pat_completeness auto
termination by (relation "measure length") auto

declare utf8_decode.simps [simp del]

subsection \<open>Base64\<close>

function encode_loop :: "units \<Rightarrow> units" where
  "encode_loop e =
     (if e = [] then []
      else
        (let n = charCodeAt e 0; r = charCodeAt e 1; i = charCodeAt e 2;
             s = shr (toInt32 n) 2;
             o' = shl (toInt32 n AND 3) 4 OR shr (toInt32 r) 4;
             u = shl (toInt32 r AND 15) 2 OR shr (toInt32 i) 6;
             a = toInt32 i AND 63;
             (u, a) = (if r = None then (64, 64) else if i = None then (u, 64) else (u, a))
         in charAt keyStr s @ charAt keyStr o' @ charAt keyStr u @ charAt keyStr a @
            encode_loop (drop 3 e)))"
  by pat_completeness auto
termination by (relation "measure length") auto

declare encode_loop.simps [simp del]

definition encode :: "units \<Rightarrow> units" where
  "encode e = encode_loop (utf8_encode e)"

text \<open>\<open>indexOf(charAt(f++))\<close>: past the end the argument is the empty string, whose index is 0.\<close>

fun index_of :: "'a list \<Rightarrow> 'a \<Rightarrow> int" where
  "index_of [] x = - 1"
| "index_of (y # ys) x = (if x = y then 0 else let k = index_of ys x in if k < 0 then k else k + 1)"

definition key_at :: "units \<Rightarrow> nat \<Rightarrow> int32" where
  "key_at e f = (if f < length e then word_of_int (index_of keyStr (e ! f)) else 0)"

function decode_loop :: "units \<Rightarrow> units" where
  "decode_loop e =
     (if e = [] then []
      else
        (let s = key_at e 0; o' = key_at e 1; u = key_at e 2; a = key_at e 3;
             n = shl s 2 OR shr o' 4;
             r = shl (o' AND 15) 4 OR shr u 2;
             i = shl (u AND 3) 6 OR a
         in fromCharCode n @ (if u \<noteq> 64 then fromCharCode r else []) @
            (if a \<noteq> 64 then fromCharCode i else []) @ decode_loop (drop 4 e)))"
  by pat_completeness auto
termination by (relation "measure length") auto

declare decode_loop.simps [simp del]

definition decode :: "units \<Rightarrow> units" where
  "decode e = utf8_decode (decode_loop (filter (\<lambda>c. c \<in> set keyStr) e))"


subsection \<open>Bits\<close>

text \<open>Facts about small numbers, checked for each of them.\<close>

lemma all_small:
  assumes "\<forall>k \<in> set [0..<n]. P (of_nat k)" and "x < (of_nat n :: 'a::len word)"
  shows "P x"
proof -
  have "unat x < unat (of_nat n :: 'a word)" using assms(2) by (simp add: word_less_nat_alt)
  also have "\<dots> \<le> n" by (simp add: unsigned_of_nat take_bit_nat_less_eq_self)
  finally have "unat x < n" .
  with assms(1) have "P (of_nat (unat x))" by (metis atLeastLessThan_iff set_upt zero_le)
  then show ?thesis by simp
qed

lemma lead2: "y < 32 \<Longrightarrow> \<not> (y OR 192 :: int32) < 128 \<and> 191 < (y OR 192) \<and> (y OR 192) < 224 \<and> (y OR 192) AND 31 = y"
  by (rule all_small [where n = 32]) (code_simp, simp)

lemma lead3: "y < 16 \<Longrightarrow> \<not> (y OR 224 :: int32) < 128 \<and> \<not> (y OR 224) < 224 \<and> (y OR 224) AND 15 = y \<and> (y OR 224) < 256"
  by (rule all_small [where n = 16]) (code_simp, simp)

lemma cont: "y < 64 \<Longrightarrow> (y OR 128 :: int32) AND 63 = y \<and> (y OR 128) < 256"
  by (rule all_small [where n = 64]) (code_simp, simp)

lemma small_bits:
  assumes "bit (x :: 'a::len word) n" and "unat x < 2 ^ k"
  shows "n < k"
proof (rule ccontr)
  assume "\<not> n < k"
  then have "(2 :: nat) ^ k \<le> 2 ^ n" by (intro power_increasing) simp_all
  with assms(2) have "unat x div 2 ^ n = 0" by (intro div_less) linarith
  moreover have "bit (unat x) n" using assms(1) bit_imp_le_length [OF assms(1)]
    by (simp add: bit_unsigned_iff)
  ultimately show False by (simp add: bit_iff_odd)
qed

lemma unit_bits: "bit (ucast (c :: 16 word) :: int32) n \<Longrightarrow> n < 16"
  using bit_imp_le_length [of c n] by (simp add: bit_simps)

lemma shr_bits: "\<not> bit x 31 \<Longrightarrow> bit (shr x k) n \<longleftrightarrow> bit x (k + n)"
  by (auto simp: shr_def bit_simps dest: bit_imp_le_length)

lemma shl_bits: "bit (shl x k) n \<longleftrightarrow> n < 32 \<and> k \<le> n \<and> bit x (n - k)"
  by (auto simp: shl_def bit_simps)

lemma masks:
  "(63 :: int32) = mask 6" "(31 :: int32) = mask 5" "(15 :: int32) = mask 4" "(3 :: int32) = mask 2"
  by code_simp+

lemma mask_bits:
  "bit (63 :: int32) n \<longleftrightarrow> n < 6" "bit (31 :: int32) n \<longleftrightarrow> n < 5" "bit (15 :: int32) n \<longleftrightarrow> n < 4"
  "bit (3 :: int32) n \<longleftrightarrow> n < 2"
  by (auto simp: masks bit_mask_iff simp del: mask_numeral)

lemmas bits = shr_bits shl_bits mask_bits bit_or_iff bit_and_iff

lemma utf8_two:
  assumes "unat (r :: int32) < 2048"
  shows "shl (shr r 6) 6 OR r AND 63 = r"
proof -
  have "unat r < 2 ^ 11" using assms by simp
  from small_bits [OF _ this] have "\<not> bit r 31" by fastforce
  then show ?thesis by (intro bit_word_eqI) (auto simp: bits simp del: bit_numeral_word_iff)
qed

lemma utf8_three:
  fixes c :: "16 word"
  defines "r \<equiv> ucast c :: int32"
  shows "shl (shr r 12) 12 OR shl (shr r 6 AND 63) 6 OR r AND 63 = r"
proof -
  have b: "bit r n \<Longrightarrow> n < 16" for n unfolding r_def by (rule unit_bits)
  then have "\<not> bit r 31" by fastforce
  then have "bit (shl (shr r 12) 12 OR shl (shr r 6 AND 63) 6 OR r AND 63) n \<longleftrightarrow> bit r n" for n
    by (cases "n < 12") (auto simp: bits simp del: bit_numeral_word_iff dest: b)
  then show ?thesis by (intro bit_word_eqI)
qed


subsection \<open>UTF-8 round trip\<close>

lemma units_small: "unat (ucast (c :: 16 word) :: int32) < 65536"
  using unsigned_less [of c, where ?'a = nat] by (simp add: unsigned_ucast_eq take_bit_nat_eq_self)

lemma code_again: "(x :: int32) < 256 \<Longrightarrow> ucast (ucast x :: 16 word) = x"
  by (rule all_small [where n = 256]) (code_simp, simp)

lemma charCodeAt_simps [simp]:
  "charCodeAt (a # s) 0 = Some (ucast a)" "charCodeAt (a # s) (Suc n) = charCodeAt s n"
  "charCodeAt (a # s) 1 = charCodeAt s 0" "charCodeAt (a # s) 2 = charCodeAt s 1"
  "charCodeAt [] n = None"
  by (simp_all add: charCodeAt_def)

lemma bits_small:
  assumes "\<And>n. bit (x :: int32) n \<Longrightarrow> n < k"
  shows "unat x < 2 ^ k"
proof -
  have "take_bit k x = x"
    by (rule bit_word_eqI) (use assms in \<open>auto simp: bit_take_bit_iff\<close>)
  then have "unat x = take_bit k (unat x)" by (metis unsigned_take_bit_eq)
  then show ?thesis by (metis take_bit_nat_less_exp)
qed

lemma and_small: "x AND 63 < (64 :: int32)" "x AND 15 < (16 :: int32)" "x AND 3 < (4 :: int32)"
proof -
  have "unat (x AND 63) < 2 ^ 6"
    by (rule bits_small) (simp add: bits del: bit_numeral_word_iff)
  moreover have "unat (x AND 15) < 2 ^ 4"
    by (rule bits_small) (simp add: bits del: bit_numeral_word_iff)
  moreover have "unat (x AND 3) < 2 ^ 2"
    by (rule bits_small) (simp add: bits del: bit_numeral_word_iff)
  ultimately show "x AND 63 < 64" "x AND 15 < 16" "x AND 3 < 4" by (simp_all add: word_less_nat_alt)
qed

lemma shr_small:
  assumes "unat r < 2 ^ (j + k)" and "j + k \<le> 31"
  shows "unat (shr r k) < 2 ^ j"
proof -
  have b: "bit r n \<Longrightarrow> n < j + k" for n using small_bits assms(1) by blast
  then have "\<not> bit r 31" using assms(2) by fastforce
  then show ?thesis by (intro bits_small) (auto simp: shr_bits dest: b)
qed

lemma utf8_decode_char: "utf8_decode (utf8_encode_char c @ rest) = c # utf8_decode rest"
proof -
  define r :: int32 where "r = ucast c"
  have c: "ucast r = c" unfolding r_def by (rule bit_word_eqI) (simp add: bit_simps)
  have r16: "unat r < 2 ^ 16" using units_small [of c] by (simp add: r_def)
  note step = utf8_encode_char_def fromCharCode_def toInt32_def Let_def code_again c
  show ?thesis
  proof (cases "r < 128")
    case True
    then show ?thesis
      by (subst utf8_decode.simps) (simp add: step flip: r_def)
  next
    case F1: False
    then have "127 < r" by (simp add: word_less_nat_alt not_less)
    show ?thesis
    proof (cases "r < 2048")
      case True
      then have u: "unat r < 2048" by (simp add: word_less_nat_alt)
      then have "unat (shr r 6) < 2 ^ 5" by (intro shr_small) simp_all
      then have "shr r 6 < 32" by (simp add: word_less_nat_alt)
      from lead2 [OF this] cont [OF and_small(1), of r] have
        l: "\<not> shr r 6 OR 192 < 128" "191 < shr r 6 OR 192" "shr r 6 OR 192 < 224" "(shr r 6 OR 192) AND 31 = shr r 6"
        "(r AND 63 OR 128) AND 63 = r AND 63" "r AND 63 OR 128 < 256" "shr r 6 OR 192 < 256"
        by (auto intro: less_trans)
      show ?thesis using F1 True \<open>127 < r\<close> l utf8_two [OF u]
        by (subst utf8_decode.simps) (simp add: step flip: r_def)
    next
      case False
      from r16 have "unat (shr r 12) < 2 ^ 4" by (intro shr_small) simp_all
      then have "shr r 12 < 16" by (simp add: word_less_nat_alt)
      from lead3 [OF this] cont [OF and_small(1), of r] cont [OF and_small(1), of "shr r 6"] have
        l: "\<not> shr r 12 OR 224 < 128" "\<not> shr r 12 OR 224 < 224" "(shr r 12 OR 224) AND 15 = shr r 12" "shr r 12 OR 224 < 256"
        "(r AND 63 OR 128) AND 63 = r AND 63" "r AND 63 OR 128 < 256"
        "(shr r 6 AND 63 OR 128) AND 63 = shr r 6 AND 63" "shr r 6 AND 63 OR 128 < 256"
        by auto
      show ?thesis using F1 False l utf8_three [of c, folded r_def]
        by (subst utf8_decode.simps) (simp add: step flip: r_def)
    qed
  qed
qed

lemma utf8_roundtrip: "utf8_decode (utf8_encode s) = replace_rn s"
proof -
  have "utf8_decode (concat (map utf8_encode_char s)) = s" for s
    by (induction s) (simp_all add: utf8_decode_char utf8_decode.simps [of "[]"])
  then show ?thesis by (simp add: utf8_encode_def)
qed


subsection \<open>Base64 round trip\<close>

definition byte :: "int32 \<Rightarrow> bool" where
  "byte b \<longleftrightarrow> b < 256"

lemma byte_bits: "byte b \<Longrightarrow> 8 \<le> n \<Longrightarrow> \<not> bit b n"
  using small_bits [of b n 8] by (auto simp: byte_def word_less_nat_alt)

lemma byte_0 [simp]: "byte 0"
  by (simp add: byte_def)

lemma join_1:
  assumes "byte b1" "byte b2"
  shows "shl (shr b1 2) 2 OR shr (shl (b1 AND 3) 4 OR shr b2 4) 4 = b1"
proof -
  note f = byte_bits [OF assms(1)] byte_bits [OF assms(2)]
  have "bit (shl (shr b1 2) 2 OR shr (shl (b1 AND 3) 4 OR shr b2 4) 4) n \<longleftrightarrow> bit b1 n" for n
  proof (cases "n < 2")
    case False
    then obtain m where "n = m + 2" by (metis add.commute le_Suc_ex not_less)
    then show ?thesis
      by (auto simp: bits f simp del: bit_numeral_word_iff dest: bit_imp_le_length)
  qed (auto simp: bits f simp del: bit_numeral_word_iff)
  then show ?thesis by (intro bit_word_eqI)
qed

lemma join_2:
  assumes "byte b1" "byte b2" "byte b3"
  shows "shl ((shl (b1 AND 3) 4 OR shr b2 4) AND 15) 4 OR shr (shl (b2 AND 15) 2 OR shr b3 6) 2 = b2"
proof -
  note f = byte_bits [OF assms(1)] byte_bits [OF assms(2)] byte_bits [OF assms(3)]
  have "bit (shl ((shl (b1 AND 3) 4 OR shr b2 4) AND 15) 4 OR shr (shl (b2 AND 15) 2 OR shr b3 6) 2) n
      \<longleftrightarrow> bit b2 n" for n
    by (cases "n < 4"; cases "n < 8") (auto simp: bits f simp del: bit_numeral_word_iff)
  then show ?thesis by (intro bit_word_eqI)
qed

lemma join_3:
  assumes "byte b2" "byte b3"
  shows "shl ((shl (b2 AND 15) 2 OR shr b3 6) AND 3) 6 OR b3 AND 63 = b3"
proof -
  note f = byte_bits [OF assms(1)] byte_bits [OF assms(2)]
  have "bit (shl ((shl (b2 AND 15) 2 OR shr b3 6) AND 3) 6 OR b3 AND 63) n \<longleftrightarrow> bit b3 n" for n
    by (cases "n < 6"; cases "n < 8") (auto simp: bits f simp del: bit_numeral_word_iff)
  then show ?thesis by (intro bit_word_eqI)
qed

text \<open>The characters of the alphabet.\<close>

definition alph :: "int32 \<Rightarrow> 16 word" where
  "alph v = keyStr ! unat v"

lemma keyStr_letters: "distinct keyStr" "length keyStr = 65"
  by code_simp+

lemma index_of_nth: "distinct xs \<Longrightarrow> k < length xs \<Longrightarrow> index_of xs (xs ! k) = int k"
  by (induction xs arbitrary: k) (auto simp: nth_Cons' Let_def)

lemma alph_key:
  assumes "v < (65 :: int32)"
  shows "charAt keyStr v = [alph v] \<and> word_of_int (index_of keyStr (alph v)) = v \<and> alph v \<in> set keyStr"
proof -
  have u: "unat v < length keyStr" using assms by (simp add: word_less_nat_alt keyStr_letters)
  have "uint v < 65" using assms by (simp add: word_less_def)
  then have "sint v = uint v"
    by (simp add: sint_uint signed_take_bit_int_eq_self_iff order_trans [OF _ uint_ge_0])
  then have "charAt keyStr v = [alph v]"
    using u by (simp add: charAt_def alph_def nat_less_iff keyStr_letters(2) \<open>uint v < 65\<close> flip: unat_eq_nat_uint)
  moreover have "index_of keyStr (alph v) = int (unat v)"
    unfolding alph_def using keyStr_letters(1) u by (rule index_of_nth)
  ultimately show ?thesis using u by (simp add: alph_def)
qed

lemma key_at_simps [simp]:
  "key_at (c # e) 0 = word_of_int (index_of keyStr c)" "key_at (c # e) (Suc n) = key_at e n"
  "key_at (c # e) 1 = key_at e 0" "key_at (c # e) 2 = key_at e 1" "key_at (c # e) 3 = key_at e 2"
  by (simp_all add: key_at_def numeral_3_eq_3 numeral_2_eq_2)

lemma decode_loop_four:
  assumes "s < 65" "o' < 65" "u < 65" "a < 65"
  shows "decode_loop (alph s # alph o' # alph u # alph a # e) =
    ucast (shl s 2 OR shr o' 4) # (if u \<noteq> 64 then [ucast (shl (o' AND 15) 4 OR shr u 2)] else []) @
    (if a \<noteq> 64 then [ucast (shl (u AND 3) 6 OR a)] else []) @ decode_loop e"
  by (subst decode_loop.simps) (simp add: alph_key assms fromCharCode_def Let_def)

definition bytes :: "units \<Rightarrow> bool" where
  "bytes e \<longleftrightarrow> list_all (\<lambda>c. byte (ucast c)) e"

lemma sixbits:
  assumes "byte b" "byte b'"
  shows "shr b 2 < 64" "shl (b AND 3) 4 OR shr b' 4 < 64" "shl (b AND 15) 2 OR shr b' 6 < 64"
proof -
  note f = byte_bits [OF assms(1)] byte_bits [OF assms(2)]
  have "\<not> bit (shr b 2) n" "\<not> bit (shl (b AND 3) 4 OR shr b' 4) n"
    "\<not> bit (shl (b AND 15) 2 OR shr b' 6) n" if "6 \<le> n" for n
    using that by (auto simp: bits f simp del: bit_numeral_word_iff)
  then have "unat (shr b 2) < 2 ^ 6" "unat (shl (b AND 3) 4 OR shr b' 4) < 2 ^ 6"
    "unat (shl (b AND 15) 2 OR shr b' 6) < 2 ^ 6"
    by (meson bits_small not_le)+
  then show "shr b 2 < 64" "shl (b AND 3) 4 OR shr b' 4 < 64" "shl (b AND 15) 2 OR shr b' 6 < 64"
    by (simp_all add: word_less_nat_alt)
qed

lemma bytes_Cons: "bytes (c # e) \<longleftrightarrow> byte (ucast c) \<and> bytes e"
  by (simp add: bytes_def)

lemma ucast_again: "ucast (ucast c :: int32) = (c :: 16 word)"
  by (rule bit_word_eqI) (simp add: bit_simps)

lemma less_64: "(x :: int32) < 64 \<Longrightarrow> x < 65 \<and> x \<noteq> 64"
  by (auto simp: word_less_nat_alt)

lemma encode_decode_loop: "bytes e \<Longrightarrow> decode_loop (encode_loop e) = e \<and> set (encode_loop e) \<subseteq> set keyStr"
proof (induction e rule: encode_loop.induct)
  case (1 e)
  consider "e = []" | b1 where "e = [b1]" | b1 b2 where "e = [b1, b2]"
    | b1 b2 b3 e' where "e = b1 # b2 # b3 # e'"
    by (cases e rule: remdups_adj.cases) (auto, metis list.exhaust)
  then show ?case
  proof cases
    case 1
    then show ?thesis by (simp add: encode_loop.simps [of "[]"] decode_loop.simps [of "[]"])
  next
    case 2
    have b: "byte (ucast b1)" using 1 2 by (simp add: bytes_Cons)
    let ?s = "shr (ucast b1) 2" and ?o = "shl (ucast b1 AND 3) 4 OR shr 0 4 :: int32"
    note k = sixbits(1,2) [OF b byte_0, THEN less_64]
    have enc: "encode_loop e = [alph ?s, alph ?o, alph 64, alph 64]"
      using k by (subst encode_loop.simps)
        (simp add: 2 toInt32_def alph_key encode_loop.simps [of "[]"] Let_def)
    show ?thesis unfolding enc using k
      by (simp add: decode_loop_four join_1 b ucast_again alph_key 2 decode_loop.simps [of "[]"])
  next
    case 3
    have b: "byte (ucast b1)" "byte (ucast b2)" using 1 3 by (simp_all add: bytes_Cons)
    let ?s = "shr (ucast b1) 2" and ?o = "shl (ucast b1 AND 3) 4 OR shr (ucast b2) 4"
      and ?u = "shl (ucast b2 AND 15) 2 OR shr 0 6 :: int32"
    note k = sixbits(1,2) [OF b, THEN less_64] sixbits(3) [OF b(2) byte_0, THEN less_64]
    have enc: "encode_loop e = [alph ?s, alph ?o, alph ?u, alph 64]"
      using k by (subst encode_loop.simps)
        (simp add: 3 toInt32_def alph_key encode_loop.simps [of "[]"] Let_def)
    show ?thesis unfolding enc using k
      by (simp add: decode_loop_four join_1 join_2 b ucast_again alph_key 3 decode_loop.simps [of "[]"])
  next
    case 4
    have b: "byte (ucast b1)" "byte (ucast b2)" "byte (ucast b3)" "bytes e'"
      using 1 4 by (simp_all add: bytes_Cons)
    let ?s = "shr (ucast b1) 2" and ?o = "shl (ucast b1 AND 3) 4 OR shr (ucast b2) 4"
      and ?u = "shl (ucast b2 AND 15) 2 OR shr (ucast b3) 6" and ?a = "ucast b3 AND 63 :: int32"
    have l: "?s < 64" "?o < 64" "?u < 64" "?a < 64"
      using sixbits [OF b(1,2)] sixbits [OF b(2,3)] and_small(1) by blast+
    note k = l [THEN less_64]
    have enc: "encode_loop e = alph ?s # alph ?o # alph ?u # alph ?a # encode_loop e'"
      using k by (subst encode_loop.simps) (simp add: 4 toInt32_def alph_key Let_def)
    have IH: "decode_loop (encode_loop e') = e' \<and> set (encode_loop e') \<subseteq> set keyStr"
      using "1.IH" b(4) 4 by (simp add: toInt32_def Let_def)
    show ?thesis unfolding enc using k IH
      by (simp add: decode_loop_four join_1 join_2 join_3 b ucast_again alph_key 4)
  qed
qed

lemma utf8_bytes: "bytes (utf8_encode_char c)"
proof -
  define r :: int32 where "r = ucast c"
  have r16: "unat r < 2 ^ 16" using units_small [of c] by (simp add: r_def)
  have cont256: "x AND 63 OR 128 < 256" for x :: int32 using cont [OF and_small(1), of x] by simp
  have l: "ucast (ucast x :: 16 word) < (256 :: int32)" if "x < 256" for x :: int32
    using that by (simp add: code_again)
  have "r < 128 \<Longrightarrow> r < 256" by (simp add: word_less_nat_alt)
  moreover have "shr r 6 OR 192 < 256" if "r < 2048"
  proof -
    have "unat (shr r 6) < 2 ^ 5" using that by (intro shr_small) (simp_all add: word_less_nat_alt)
    then have "shr r 6 OR 192 < 224" by (intro lead2 [THEN conjunct2, THEN conjunct2, THEN conjunct1])
      (simp add: word_less_nat_alt)
    then show ?thesis by (rule less_trans) simp
  qed
  moreover have "shr r 12 OR 224 < 256"
  proof -
    have "unat (shr r 12) < 2 ^ 4" using r16 by (intro shr_small) simp_all
    then show ?thesis using lead3 [of "shr r 12"] by (simp add: word_less_nat_alt)
  qed
  ultimately show ?thesis
    using cont256 l by (simp add: utf8_encode_char_def bytes_def byte_def fromCharCode_def flip: r_def)
qed

text \<open>
  C17.  What \<open>encode\<close> writes, \<open>decode\<close> reads back, for every string of 16-bit units, except that the
  letter r is lost wherever it stands before an n.
\<close>

theorem base64_roundtrip: "decode (encode s) = replace_rn s"
proof -
  have "bytes (utf8_encode s)"
    using utf8_bytes by (auto simp: utf8_encode_def bytes_def list_all_iff)
  from encode_decode_loop [OF this] have "decode_loop (encode_loop (utf8_encode s)) = utf8_encode s"
    "filter (\<lambda>c. c \<in> set keyStr) (encode_loop (utf8_encode s)) = encode_loop (utf8_encode s)"
    by (auto simp: filter_id_conv)
  then show ?thesis by (simp add: decode_def encode_def utf8_roundtrip)
qed

end
