(* ===== verification/Json_Viewer.thy ===== *)
theory Json_Viewer
  imports JsValue
begin

section \<open>jquery.json-viewer.js\<close>

text \<open>
  \<open>json2html\<close> turns a JSON value into HTML text.  The conversion of a number to a string is a
  parameter.  The theorems say that the text is well nested whatever the strings hold, because their
  markup characters are escaped, and that escaping loses nothing.
\<close>

subsection \<open>Strings\<close>

definition replace_char :: "char \<Rightarrow> string \<Rightarrow> string \<Rightarrow> string" where
  "replace_char c r s = concat (map (\<lambda>x. if x = c then r else [x]) s)"

definition escape_tags :: "string \<Rightarrow> string" where
  "escape_tags s =
     replace_char CHR ''>'' ''&gt;'' (replace_char CHR ''<'' ''&lt;'' (replace_char CHR ''&'' ''&amp;'' s))"

definition is_space :: "char \<Rightarrow> bool" where
  \<comment> \<open>\<open>\s\<close>: tab to carriage return, space, no-break space\<close>
  "is_space c \<longleftrightarrow> (let n = (of_char c :: nat) in 9 \<le> n \<and> n \<le> 13 \<or> n = 32 \<or> n = 160)"

text \<open>
  The regular expression asks for a scheme, \<open>://\<close> and a character that is not white space: the
  groups after it are optional, and the one for a user before it matches no white space.
\<close>

definition isUrl :: "string \<Rightarrow> bool" where
  "isUrl s \<longleftrightarrow>
     list_ex (\<lambda>p. take (length p) s = p \<and>
                  (case drop (length p) s of [] \<Rightarrow> False | c # _ \<Rightarrow> \<not> is_space c))
       [''ftp://'', ''http://'', ''https://'']"

definition isCollapsable :: "jsval \<Rightarrow> bool" where
  "isCollapsable v \<longleftrightarrow> (case v of JArr xs \<Rightarrow> xs \<noteq> [] | JObj ps \<Rightarrow> ps \<noteq> [] | _ \<Rightarrow> False)"

subsection \<open>json2html\<close>

definition string_html :: "string \<Rightarrow> string" where
  "string_html s =
     (let json = escape_tags s in
      if isUrl json
      then ''<a href=\"'' @ json @ ''\" class=\"json-string\">'' @ json @ ''</a>''
      else ''<span class=\"json-string\">\"'' @ json @ ''\"</span>'')"

definition literal_html :: "string \<Rightarrow> string" where
  "literal_html s = ''<span class=\"json-literal\">'' @ s @ ''</span>''"

definition key_html :: "bool \<Rightarrow> string \<Rightarrow> string" where
  "key_html withQuotes key =
     (if withQuotes then ''<span class=\"json-string\">\"'' @ key @ ''\"</span>'' else key)"

fun json2html :: "(jsnum \<Rightarrow> string) \<Rightarrow> bool \<Rightarrow> jsval \<Rightarrow> string"
  and array_items :: "(jsnum \<Rightarrow> string) \<Rightarrow> bool \<Rightarrow> jsval list \<Rightarrow> string"
  and dict_items :: "(jsnum \<Rightarrow> string) \<Rightarrow> bool \<Rightarrow> props \<Rightarrow> string" where
  "json2html num_str q (JStr s) = string_html s"
| "json2html num_str q (JNum n) = literal_html (num_str n)"
| "json2html num_str q (JBool b) = literal_html (if b then ''true'' else ''false'')"
| "json2html num_str q JNull = literal_html ''null''"
| "json2html num_str q JUndef = []"
| "json2html num_str q (JArr xs) =
     (if xs = [] then ''[]''
      else ''[<ol class=\"json-array\">'' @ array_items num_str q xs @ ''</ol>]'')"
| "json2html num_str q (JObj ps) =
     (if ps = [] then ''{}''
      else ''{<ul class=\"json-dict\">'' @ dict_items num_str q ps @ ''</ul>}'')"
| "array_items num_str q [] = []"
| "array_items num_str q (v # us) =
     ''<li>'' @ (if isCollapsable v then ''<a href class=\"json-toggle\"></a>'' else []) @
     json2html num_str q v @ (if us \<noteq> [] then '','' else []) @ ''</li>'' @ array_items num_str q us"
| "dict_items num_str q [] = []"
| "dict_items num_str q ((key, v) # us) =
     ''<li>'' @
     (if isCollapsable v then ''<a href class=\"json-toggle\">'' @ key_html q key @ ''</a>''
      else key_html q key) @
     '': '' @ json2html num_str q v @ (if us \<noteq> [] then '','' else []) @ ''</li>'' @ dict_items num_str q us"

definition jsonViewer :: "(jsnum \<Rightarrow> string) \<Rightarrow> bool \<Rightarrow> jsval \<Rightarrow> string" where
  "jsonViewer num_str q json =
     (let html = json2html num_str q json in
      if isCollapsable json then ''<a href class=\"json-toggle\"></a>'' @ html else html)"

subsection \<open>The tags of a text\<close>

text \<open>
  A reader of HTML, character by character, as the standard describes it: where it is inside a tag decides
  whether a quotation mark opens the value of an attribute, ends it or is a part of a name, and a tag ends
  at a closing bracket that is not in quotation marks.  The reader keeps the elements that are open; it fails at
  an end tag that is not that of the last of them, at a bracket that opens no tag and at the end of the text
  inside a tag.
\<close>

datatype reading = Tag_name | Before_name | Attr_name | After_name | Before_value | Quoted char | Unquoted | After_value

definition html_space :: "char \<Rightarrow> bool" where
  "html_space c \<longleftrightarrow> (of_char c :: nat) \<in> {9, 10, 12, 13, 32}"

fun next_reading :: "reading \<Rightarrow> char \<Rightarrow> reading" where
  "next_reading Tag_name c = (if html_space c \<or> c = CHR ''/'' then Before_name else Tag_name)"
| "next_reading Before_name c = (if html_space c \<or> c = CHR ''/'' then Before_name else Attr_name)"
| "next_reading Attr_name c =
     (if html_space c then After_name else if c = CHR ''/'' then Before_name
      else if c = CHR ''='' then Before_value else Attr_name)"
| "next_reading After_name c =
     (if html_space c then After_name else if c = CHR ''/'' then Before_name
      else if c = CHR ''='' then Before_value else Attr_name)"
| "next_reading Before_value c =
     (if html_space c then Before_value else if c = CHR 34 \<or> c = CHR 39 then Quoted c else Unquoted)"
| "next_reading (Quoted q) c = (if c = q then After_value else Quoted q)"
| "next_reading Unquoted c = (if html_space c then Before_name else Unquoted)"
| "next_reading After_value c = (if html_space c \<or> c = CHR ''/'' then Before_name else Attr_name)"

datatype mode = Markup_text | Less | Less_slash | Tag bool string reading
  \<comment> \<open>between the tags, after a bracket, after a bracket and a slash, in an end tag or a start tag with this name so far\<close>

definition html_letter :: "char \<Rightarrow> bool" where
  "html_letter c \<longleftrightarrow> (let n = (of_char c :: nat) in 97 \<le> n \<and> n \<le> 122 \<or> 65 \<le> n \<and> n \<le> 90)"

fun in_quotes :: "reading \<Rightarrow> bool" where
  "in_quotes (Quoted q) = True"
| "in_quotes r = False"

fun nested_from :: "mode \<Rightarrow> string list \<Rightarrow> string \<Rightarrow> bool" where
  "nested_from m st [] = (m = Markup_text \<and> st = [])"
| "nested_from Markup_text st (c # s) = nested_from (if c = CHR ''<'' then Less else Markup_text) st s"
| "nested_from Less st (c # s) =
     (if html_letter c then nested_from (Tag False [c] Tag_name) st s else c = CHR ''/'' \<and> nested_from Less_slash st s)"
| "nested_from Less_slash st (c # s) = (html_letter c \<and> nested_from (Tag True [c] Tag_name) st s)"
| "nested_from (Tag e n r) st (c # s) =
     (if c = CHR ''>'' \<and> \<not> in_quotes r then
        (if e then st \<noteq> [] \<and> hd st = n \<and> nested_from Markup_text (tl st) s else nested_from Markup_text (n # st) s)
      else nested_from (Tag e (if next_reading r c = Tag_name then n @ [c] else n) (next_reading r c)) st s)"

definition well_nested :: "string \<Rightarrow> bool" where
  "well_nested s = nested_from Markup_text [] s"

text \<open>\<open>neat\<close>: a text that adds nothing to the nesting, wherever it stands.\<close>

definition neat :: "string \<Rightarrow> bool" where
  "neat s \<longleftrightarrow> (\<forall>st rest. nested_from Markup_text st (s @ rest) = nested_from Markup_text st rest)"

definition opens :: "string \<Rightarrow> string \<Rightarrow> bool" where
  "opens t n \<longleftrightarrow> (\<forall>st rest. nested_from Markup_text st (t @ rest) = nested_from Markup_text (n # st) rest)"

definition closes :: "string \<Rightarrow> string \<Rightarrow> bool" where
  "closes t n \<longleftrightarrow> (\<forall>st rest. nested_from Markup_text (n # st) (t @ rest) = nested_from Markup_text st rest)"

definition no_angle :: "string \<Rightarrow> bool" where
  "no_angle s \<longleftrightarrow> CHR ''<'' \<notin> set s \<and> CHR ''>'' \<notin> set s"

lemma neat_append: "neat a \<Longrightarrow> neat b \<Longrightarrow> neat (a @ b)"
  by (simp add: neat_def)

lemma neat_Nil [simp]: "neat []"
  by (simp add: neat_def)

lemma nested_plain: "CHR ''<'' \<notin> set s \<Longrightarrow> nested_from Markup_text st (s @ r) = nested_from Markup_text st r"
  by (induction s) auto

lemma neat_plain: "no_angle s \<Longrightarrow> neat s"
  by (simp add: neat_def no_angle_def nested_plain)

lemma neat_element: "opens t n \<Longrightarrow> neat s \<Longrightarrow> closes e n \<Longrightarrow> neat (t @ s @ e)"
  by (simp add: neat_def opens_def closes_def)

lemma nested_quoted:
  "q \<notin> set s \<Longrightarrow> nested_from (Tag e n (Quoted q)) st (s @ r) = nested_from (Tag e n (Quoted q)) st r"
  by (induction s) auto

lemmas read_defs = opens_def closes_def html_letter_def html_space_def

lemma opens_tags:
  "opens ''<li>'' ''li''" "opens ''<span class=\"json-literal\">'' ''span''" "opens ''<span class=\"json-string\">'' ''span''"
  "opens ''<ol class=\"json-array\">'' ''ol''" "opens ''<ul class=\"json-dict\">'' ''ul''" "opens ''<a href class=\"json-toggle\">'' ''a''"
  by (simp_all add: read_defs)

lemma opens_link: "CHR 34 \<notin> set s \<Longrightarrow> opens (''<a href=\"'' @ s @ ''\" class=\"json-string\">'') ''a''"
  by (simp add: read_defs nested_quoted)

lemma closes_tags:
  "closes ''</li>'' ''li''" "closes ''</span>'' ''span''" "closes ''</ol>'' ''ol''" "closes ''</ul>'' ''ul''" "closes ''</a>'' ''a''"
  by (simp_all add: read_defs)

subsection \<open>Escaping\<close>

lemma escape_tags_Cons:
  "escape_tags (c # s) =
     (if c = CHR ''&'' then ''&amp;'' else if c = CHR ''<'' then ''&lt;''
      else if c = CHR ''>'' then ''&gt;'' else [c]) @ escape_tags s"
  by (simp add: escape_tags_def replace_char_def)

lemma escape_tags_Nil [simp]: "escape_tags [] = []"
  by (simp add: escape_tags_def replace_char_def)

lemma escape_no_angle: "no_angle (escape_tags s)"
  by (induction s) (auto simp: no_angle_def escape_tags_Cons)

text \<open>What a browser shows for the entities that the escape writes.\<close>

function unescape :: "string \<Rightarrow> string" where
  "unescape [] = []"
| "unescape (c # s) =
     (if c = CHR ''&'' \<and> take 4 s = ''amp;'' then CHR ''&'' # unescape (drop 4 s)
      else if c = CHR ''&'' \<and> take 3 s = ''lt;'' then CHR ''<'' # unescape (drop 3 s)
      else if c = CHR ''&'' \<and> take 3 s = ''gt;'' then CHR ''>'' # unescape (drop 3 s)
      else c # unescape s)"
  by pat_completeness auto
termination by (relation "measure length") auto

lemma unescape_escape: "unescape (escape_tags s) = s"
  by (induction s) (simp_all add: escape_tags_Cons)

subsection \<open>Nesting\<close>

lemma no_angle_append [simp]: "no_angle (a @ b) \<longleftrightarrow> no_angle a \<and> no_angle b"
  by (auto simp: no_angle_def)

lemma no_angle_Cons [simp]:
  "no_angle (c # s) \<longleftrightarrow> c \<noteq> CHR ''<'' \<and> c \<noteq> CHR ''>'' \<and> no_angle s" "no_angle []"
  by (auto simp: no_angle_def)

lemma neat_literal: "no_angle s \<Longrightarrow> neat (literal_html s)"
  using neat_element [OF opens_tags(2) neat_plain closes_tags(2)] by (simp add: literal_html_def)

lemma neat_quoted: "no_angle s \<Longrightarrow> neat (''<span class=\"json-string\">\"'' @ s @ ''\"</span>'')"
  using neat_element [OF opens_tags(3) neat_plain [of "''\"'' @ s @ ''\"''"] closes_tags(2)] by simp

lemma escape_quote: "CHR 34 \<in> set (escape_tags s) \<longleftrightarrow> CHR 34 \<in> set s"
  by (induction s) (auto simp: escape_tags_Cons)

definition link_plain :: "string \<Rightarrow> bool" where
  \<comment> \<open>a text that is made a link has no quotation mark\<close>
  "link_plain s \<longleftrightarrow> \<not> (isUrl (escape_tags s) \<and> CHR 34 \<in> set s)"

lemma neat_link:
  assumes "CHR 34 \<notin> set s"
  shows "neat (''<a href=\"'' @ escape_tags s @ ''\" class=\"json-string\">'' @ escape_tags s @ ''</a>'')"
proof -
  have "CHR 34 \<notin> set (escape_tags s)" using assms by (simp add: escape_quote)
  from neat_element [OF opens_link [OF this] neat_plain [OF escape_no_angle [of s]] closes_tags(5)]
  show ?thesis by simp
qed

lemma neat_string: "link_plain s \<Longrightarrow> neat (string_html s)"
  using neat_link [of s] neat_quoted [OF escape_no_angle [of s]]
  by (simp add: string_html_def Let_def link_plain_def)

lemma neat_key: "no_angle key \<Longrightarrow> neat (key_html q key)"
  using neat_quoted neat_plain by (simp add: key_html_def)

lemma neat_toggle: "neat k \<Longrightarrow> neat (''<a href class=\"json-toggle\">'' @ k @ ''</a>'')"
  by (rule neat_element [OF opens_tags(6) _ closes_tags(5)])

lemma neat_li: "neat s \<Longrightarrow> neat (''<li>'' @ s @ ''</li>'')"
  by (rule neat_element [OF opens_tags(1) _ closes_tags(1)])

lemma neat_ol: "neat s \<Longrightarrow> neat (''[<ol class=\"json-array\">'' @ s @ ''</ol>]'')"
  using neat_append [OF neat_append [OF neat_plain neat_element [OF opens_tags(4) _ closes_tags(3)]] neat_plain, of "''[''" s "'']''"]
  by simp

lemma neat_ul: "neat s \<Longrightarrow> neat (''{<ul class=\"json-dict\">'' @ s @ ''</ul>}'')"
  using neat_append [OF neat_append [OF neat_plain neat_element [OF opens_tags(5) _ closes_tags(4)]] neat_plain, of "''{''" s "''}''"]
  by simp

fun harmless :: "jsval \<Rightarrow> bool" where
  \<comment> \<open>no bracket in the name of a property, no quotation mark in a text that is a link\<close>
  "harmless (JArr xs) = list_all harmless xs"
| "harmless (JObj ps) = list_all (\<lambda>kv. no_angle (fst kv) \<and> harmless (snd kv)) ps"
| "harmless (JStr s) = link_plain s"
| "harmless v = True"

lemma neat_html:
  assumes "\<And>n. no_angle (num_str n)"
  shows "harmless v \<Longrightarrow> neat (json2html num_str q v)"
    and "list_all harmless us \<Longrightarrow> neat (array_items num_str q us)"
    and "list_all (\<lambda>kv. no_angle (fst kv) \<and> harmless (snd kv)) ps \<Longrightarrow> neat (dict_items num_str q ps)"
  using assms
proof (induction num_str q v and num_str q us and num_str q ps
    rule: json2html_array_items_dict_items.induct)
  case (9 num_str q v us)
  have t: "neat (if isCollapsable v then ''<a href class=\"json-toggle\"></a>'' else [])"
    using neat_toggle [OF neat_Nil] by simp
  have c: "neat (if us \<noteq> [] then '','' else [])" by (simp add: neat_plain)
  have "neat (json2html num_str q v)" "neat (array_items num_str q us)" using 9 by simp_all
  from neat_append [OF neat_li [OF neat_append [OF t neat_append [OF this(1) c]]] this(2)]
  show ?case by simp
next
  case (11 num_str q key v us)
  then have k: "neat (key_html q key)" by (intro neat_key) simp
  have t: "neat (if isCollapsable v then ''<a href class=\"json-toggle\">'' @ key_html q key @ ''</a>''
      else key_html q key)"
    using neat_toggle [OF k] k by simp
  have c: "neat (if us \<noteq> [] then '','' else [])" by (simp add: neat_plain)
  have s: "neat '': ''" by (simp add: neat_plain)
  have "neat (json2html num_str q v)" "neat (dict_items num_str q us)" using 11 by simp_all
  from neat_append [OF neat_li [OF neat_append [OF t neat_append [OF s neat_append [OF this(1) c]]]] this(2)]
  show ?case by simp
next
  case (6 num_str q xs)
  then show ?case using neat_ol [of "array_items num_str q xs"] by (auto simp: neat_plain)
next
  case (7 num_str q ps)
  then show ?case using neat_ul [of "dict_items num_str q ps"] by (auto simp: neat_plain)
qed (simp_all add: neat_string neat_literal neat_plain)

subsection \<open>Properties\<close>

text \<open>
  C18.  The HTML of a value is well nested for a reader that keeps to the standard: every tag it opens it closes,
  in order.  The strings of the value may hold any characters, brackets and ampersands too, since these are
  escaped, except for quotation marks in a string that is made a link; the names of properties are not
  escaped, so they must be free of angle brackets.
\<close>

theorem viewer_well_nested:
  assumes "\<And>n. no_angle (num_str n)" and "harmless v"
  shows "well_nested (jsonViewer num_str q v)"
proof -
  have "neat (json2html num_str q v)" using assms by (intro neat_html(1))
  then have "neat (jsonViewer num_str q v)"
    using neat_append [OF neat_toggle [OF neat_Nil]] by (simp add: jsonViewer_def Let_def)
  then have "nested_from Markup_text [] (jsonViewer num_str q v @ []) = nested_from Markup_text [] []"
    unfolding neat_def by blast
  then show ?thesis by (simp add: well_nested_def)
qed

theorem viewer_well_nested_witness:
  "well_nested (jsonViewer (\<lambda>_. ''7'') True
     (JObj [(''a'', JArr [JStr ''<b>\"&'', JNum (Num 7)]), (''url'', JStr ''http://x<'')])) \<and>
   \<not> well_nested (jsonViewer (\<lambda>_. ''7'') False (JObj [(''<b>'', JNull)]))"
proof
  show "well_nested (jsonViewer (\<lambda>_. ''7'') True
     (JObj [(''a'', JArr [JStr ''<b>\"&'', JNum (Num 7)]), (''url'', JStr ''http://x<'')]))"
    by (rule viewer_well_nested) (simp_all add: link_plain_def escape_tags_Cons isUrl_def)
  show "\<not> well_nested (jsonViewer (\<lambda>_. ''7'') False (JObj [(''<b>'', JNull)]))"
    by code_simp
qed

text \<open>
  The quotation marks of a link are not escaped: one ends the address, so that what follows it is read as
  further attributes.  Here the last of them takes in the rest of the text, the end of the anchor too.
\<close>

lemma link_not_closed: "\<not> well_nested (jsonViewer num_str q (JStr (''http://a\" b='' @ [CHR 39])))"
  by (simp add: jsonViewer_def isCollapsable_def string_html_def escape_tags_Cons isUrl_def is_space_def well_nested_def read_defs)

text \<open>
  Escaping loses nothing: the entities of an escaped string stand for the string, and it has
  no angle bracket of its own.
\<close>

theorem escape_roundtrip: "unescape (escape_tags s) = s \<and> no_angle (escape_tags s)"
  using unescape_escape escape_no_angle by blast

end
