(* ===== verification/Fancybox_Gallery.thy ===== *)
theory Fancybox_Gallery
  imports JsPrelude
begin

section \<open>jquery.fancybox.js: the slides of a gallery\<close>

text \<open>
  An instance of the image viewer: the items of the group, the slides that exist in the DOM, and the
  methods that create, load, reveal, complete and leave them.  A slide is known by its position, an
  integer that runs over the items again and again if the gallery loops.  What the browser does later
  comes as an event: the end of a request or of an animation, in any order.  Texts, callbacks of the
  page and the look of the slides are left out, except for the class of the current slide.
\<close>

subsection \<open>The state\<close>

datatype item_type = Image | Iframe | Html | Inline | Ajax | Unknown

text \<open>
  \<open>found\<close>: the source of an inline item exists; \<open>cached\<close>: the browser has the image;
  \<open>thumb_first\<close>: the thumbnail is shown while the image loads; \<open>iframe_preload\<close>: the frame is shown when it is loaded.
\<close>

record fitem =
  item_type :: item_type
  found :: bool
  cached :: bool
  thumb_first :: bool
  iframe_preload :: bool
  loop :: bool
  animationEffect :: "string option"
  animationDuration :: int
  transitionEffect :: "string option"
  transitionDuration :: int

text \<open>
  \<open>pending\<close>: a request of the slide will call back, which is that of the thumbnail while \<open>ghostPending\<close>;
  \<open>ghost\<close>: the thumbnail is shown; \<open>resets\<close>: the slide has a handler of \<open>onReset\<close> that empties it.
\<close>

record fslide =
  item :: fitem
  slide_index :: int
  slide_pos :: int
  isLoading :: bool
  isLoaded :: bool
  isComplete :: bool
  isMoved :: bool
  hasError :: bool
  pending :: bool
  ghost :: bool
  ghostPending :: bool
  resets :: bool
  currentClass :: bool
  forcedDuration :: "int option"

record gallery =
  group :: "fitem list"
  opts_loop :: bool
  slides :: "int \<Rightarrow> fslide option"
  current :: "int option"
  currIndex :: int
  currPos :: int
  prevIndex :: "int option"
  prevPos :: "int option"
  firstRun :: "bool option"
  isSliding :: bool
  isAnimating :: bool
  isClosing :: bool

definition groupLen :: "gallery \<Rightarrow> int" where
  "groupLen g = int (length (group g))"

definition new_gallery :: "fitem list \<Rightarrow> bool \<Rightarrow> int \<Rightarrow> gallery" where
  "new_gallery is l index =
     \<lparr>group = is, opts_loop = l, slides = (\<lambda>_. None), current = None, currIndex = index, currPos = 0,
      prevIndex = None, prevPos = None, firstRun = None, isSliding = False, isAnimating = False, isClosing = False\<rparr>"

definition upd_slide :: "int \<Rightarrow> (fslide \<Rightarrow> fslide) \<Rightarrow> gallery \<Rightarrow> gallery" where
  "upd_slide p f g = g\<lparr>slides := (slides g)(p := map_option f (slides g p))\<rparr>"

subsection \<open>Creating and completing slides\<close>

definition js_rem :: "int \<Rightarrow> int \<Rightarrow> int" where
  \<comment> \<open>the operator \<open>%\<close>: the sign is that of the first operand\<close>
  "js_rem a n = (if a < 0 then - ((- a) mod n) else a mod n)"

definition item_index :: "int \<Rightarrow> gallery \<Rightarrow> int" where
  "item_index p g =
     (let index = js_rem p (groupLen g) in if index < 0 then groupLen g + index else index)"

definition new_slide :: "fitem \<Rightarrow> int \<Rightarrow> int \<Rightarrow> fslide" where
  "new_slide i index p =
     \<lparr>item = i, slide_index = index, slide_pos = p, isLoading = False, isLoaded = False, isComplete = False,
      isMoved = False, hasError = False, pending = False, ghost = False, ghostPending = False, resets = False,
      currentClass = False, forcedDuration = None\<rparr>"

definition createSlide :: "int \<Rightarrow> gallery \<Rightarrow> gallery" where
  "createSlide p g =
     (let index = item_index p g in
      if slides g p = None \<and> 0 \<le> index \<and> index < groupLen g
      then g\<lparr>slides := (slides g)(p \<mapsto> new_slide (group g ! nat index) index p)\<rparr>
      else g)"

definition onReset :: "fslide \<Rightarrow> fslide" where
  \<comment> \<open>the handlers that \<open>loadSlide\<close>, \<open>setContent\<close> and \<open>setIframe\<close> install, each for one time\<close>
  "onReset s =
     (let s = (if item_type (item s) = Ajax then s\<lparr>pending := False\<rparr> else s) in
      if \<not> resets s then s
      else if item_type (item s) = Iframe then s\<lparr>isLoaded := False, pending := False, resets := False\<rparr>
      else (if hasError s then s else s\<lparr>isLoaded := False\<rparr>)\<lparr>resets := False\<rparr>)"

definition complete :: "gallery \<Rightarrow> gallery" where
  "complete g =
     (case current g of
        None \<Rightarrow> g
      | Some c \<Rightarrow>
        (case slides g c of
           None \<Rightarrow> g
         | Some s \<Rightarrow>
           if isMoved s \<or> \<not> isLoaded s \<or> isComplete s then g
           else
             let g = upd_slide c (\<lambda>s. s\<lparr>isComplete := True\<rparr>) g;
                 g = g\<lparr>slides := (\<lambda>p. if p = c then slides g p else map_option onReset (slides g p))\<rparr>
             in g\<lparr>slides := (\<lambda>p. if currPos g - 1 \<le> p \<and> p \<le> currPos g + 1 then slides g p else None)\<rparr>))"

subsection \<open>Loading and revealing\<close>

definition animates :: "gallery \<Rightarrow> fslide \<Rightarrow> bool" where
  \<comment> \<open>\<open>revealContent\<close> starts an animation, whose end is an event\<close>
  "animates g s =
     (let effect = (if firstRun g = Some True then animationEffect (item s) else transitionEffect (item s));
          duration = (if firstRun g = Some True then animationDuration (item s) else transitionDuration (item s));
          duration = (case forcedDuration s of None \<Rightarrow> duration | Some d \<Rightarrow> d)
      in effect \<noteq> None \<and> effect \<noteq> Some [] \<and> \<not> (isMoved s \<or> slide_pos s \<noteq> currPos g \<or> duration = 0))"

definition revealContent :: "int \<Rightarrow> gallery \<Rightarrow> gallery" where
  "revealContent p g =
     (case slides g p of
        None \<Rightarrow> g
      | Some s \<Rightarrow> if animates g s then g else if slide_pos s = currPos g then complete g else g)"

definition afterLoad :: "int \<Rightarrow> gallery \<Rightarrow> gallery" where
  "afterLoad p g =
     (if isClosing g then g
      else revealContent p (upd_slide p (\<lambda>s. s\<lparr>isLoading := False, isLoaded := True\<rparr>) g))"

definition setContent :: "int \<Rightarrow> gallery \<Rightarrow> gallery" where
  "setContent p g =
     (if isClosing g then g else afterLoad p (upd_slide p (\<lambda>s. s\<lparr>resets := True\<rparr>) g))"

definition setError :: "int \<Rightarrow> gallery \<Rightarrow> gallery" where
  "setError p g = setContent p (upd_slide p (\<lambda>s. s\<lparr>hasError := True\<rparr>) g)"

definition imageLoaded :: "int \<Rightarrow> gallery \<Rightarrow> gallery" where
  \<comment> \<open>the handler of \<open>load\<close> of the full-size image\<close>
  "imageLoaded p g =
     (case slides g p of
        None \<Rightarrow> g
      | Some s \<Rightarrow> if isClosing g then g else if ghost s then g else afterLoad p g)"

definition setBigImage :: "int \<Rightarrow> gallery \<Rightarrow> gallery" where
  "setBigImage p g =
     (case slides g p of
        None \<Rightarrow> g
      | Some s \<Rightarrow> if cached (item s) then imageLoaded p g else upd_slide p (\<lambda>s. s\<lparr>pending := True\<rparr>) g)"

definition setImage :: "int \<Rightarrow> gallery \<Rightarrow> gallery" where
  "setImage p g =
     (case slides g p of
        None \<Rightarrow> g
      | Some s \<Rightarrow>
          if thumb_first (item s)
          then upd_slide p (\<lambda>s. s\<lparr>ghost := True, ghostPending := True, pending := True\<rparr>) g
          else setBigImage p g)"

definition setIframe :: "int \<Rightarrow> gallery \<Rightarrow> gallery" where
  "setIframe p g =
     (case slides g p of
        None \<Rightarrow> g
      | Some s \<Rightarrow>
          let g' = upd_slide p (\<lambda>s. s\<lparr>resets := True\<rparr>) g in
          if iframe_preload (item s) then upd_slide p (\<lambda>s. s\<lparr>pending := True\<rparr>) g' else afterLoad p g')"

definition loadSlide :: "int \<Rightarrow> gallery \<Rightarrow> gallery" where
  "loadSlide p g =
     (case slides g p of
        None \<Rightarrow> g
      | Some s \<Rightarrow>
          if isLoading s then g
          else if isLoaded s then g
          else
            let g = upd_slide p (\<lambda>s. onReset (s\<lparr>isLoading := True\<rparr>)) g in
            (case item_type (item s) of
               Image \<Rightarrow> setImage p g
             | Iframe \<Rightarrow> setIframe p g
             | Html \<Rightarrow> setContent p g
             | Inline \<Rightarrow> if found (item s) then setContent p g else setError p g
             | Ajax \<Rightarrow> upd_slide p (\<lambda>s. s\<lparr>pending := True\<rparr>) g
             | Unknown \<Rightarrow> setError p g))"

definition preload_at :: "int \<Rightarrow> gallery \<Rightarrow> gallery" where
  "preload_at p g =
     (case slides g p of
        None \<Rightarrow> g
      | Some s \<Rightarrow> if item_type (item s) = Image then loadSlide p g else g)"

definition preload :: "gallery \<Rightarrow> gallery" where
  "preload g =
     (if groupLen g < 2 then g
      else
        let prev = slides g (currPos g - 1); g = preload_at (currPos g + 1) g in
        case prev of
          None \<Rightarrow> g
        | Some s \<Rightarrow> if item_type (item s) = Image then loadSlide (currPos g - 1) g else g)"

subsection \<open>Going to a position\<close>

text \<open>\<open>dragged\<close>: the slide is off its place and not animated, which the code reads from the DOM.\<close>

definition loops :: "gallery \<Rightarrow> bool" where
  "loops g =
     (case current g of
        None \<Rightarrow> opts_loop g
      | Some c \<Rightarrow> (case slides g c of None \<Rightarrow> opts_loop g | Some s \<Rightarrow> loop (item s)))"

definition create_around :: "bool \<Rightarrow> int \<Rightarrow> gallery \<Rightarrow> gallery" where
  "create_around l p g =
     (let g = createSlide p g;
          index = item_index p g in
      if groupLen g > 1 then
        let g = (if l \<or> index > 0 then createSlide (p - 1) g else g)
        in (if l \<or> index < groupLen g - 1 then createSlide (p + 1) g else g)
      else g)"

definition leave_slide :: "int option \<Rightarrow> int \<Rightarrow> gallery \<Rightarrow> gallery" where
  \<comment> \<open>the previous slide\<close>
  "leave_slide previous p g =
     (case previous of
        None \<Rightarrow> g
      | Some q \<Rightarrow> if q = p then g else upd_slide q (\<lambda>s. s\<lparr>currentClass := False, isComplete := False\<rparr>) g)"

definition arrive :: "int \<Rightarrow> int option \<Rightarrow> bool \<Rightarrow> bool \<Rightarrow> gallery \<Rightarrow> gallery" where
  \<comment> \<open>the first half of \<open>jumpTo\<close>: the slides are there and the position is set, nothing is loaded\<close>
  "arrive p duration dragged l g =
     (let g = g\<lparr>firstRun := Some (firstRun g = None), prevIndex := Some (currIndex g), prevPos := Some (currPos g)\<rparr>;
          g = create_around l p g;
          g = g\<lparr>current := Some p, currIndex := item_index p g, currPos := p\<rparr>
      in upd_slide p (\<lambda>s. s\<lparr>isMoved := dragged, forcedDuration := duration, currentClass := True\<rparr>) g)"

definition jumpTo :: "int \<Rightarrow> int option \<Rightarrow> bool \<Rightarrow> gallery \<Rightarrow> gallery" where
  "jumpTo p duration dragged g =
     (if isSliding g \<or> isClosing g \<or> isAnimating g \<and> firstRun g = Some True then g
      else if \<not> loops g \<and> (p < 0 \<or> p \<ge> groupLen g) then g
      else
        let h = arrive p duration dragged (loops g) g in
        if firstRun g = None then preload (loadSlide p h)
        else leave_slide (current g) p (preload (case slides h p of
               Some s \<Rightarrow> if isLoaded s then revealContent p h else loadSlide p h | None \<Rightarrow> h)))"

definition next_slide :: "int option \<Rightarrow> bool \<Rightarrow> gallery \<Rightarrow> gallery" where
  "next_slide duration dragged g = jumpTo (currPos g + 1) duration dragged g"

definition previous_slide :: "int option \<Rightarrow> bool \<Rightarrow> gallery \<Rightarrow> gallery" where
  "previous_slide duration dragged g = jumpTo (currPos g - 1) duration dragged g"

subsection \<open>Closing\<close>

definition close_gallery :: "bool \<Rightarrow> gallery \<Rightarrow> gallery" where
  \<comment> \<open>\<open>prevented\<close>: the callback \<open>beforeClose\<close> returned \<open>false\<close>\<close>
  "close_gallery prevented g =
     (if isClosing g \<or> prevented then g
      else g\<lparr>isClosing := True, slides := (\<lambda>p. if Some p = current g then slides g p else map_option onReset (slides g p))\<rparr>)"

definition cleanUp :: "gallery \<Rightarrow> gallery" where
  "cleanUp g = g\<lparr>current := None\<rparr>"

subsection \<open>Events\<close>

datatype gevent =
    Jump int "int option" bool
  | Next "int option" bool
  | Previous "int option" bool
  | Loaded int
  | Failed int
  | AnimationEnd int bool
  | MoveEnd int
  | Sliding bool
  | Animating bool
  | Close bool
  | Closed

definition answered :: "int \<Rightarrow> gallery \<Rightarrow> gallery" where
  \<comment> \<open>a request of the slide has succeeded\<close>
  "answered p g =
     (case slides g p of
        None \<Rightarrow> g
      | Some s \<Rightarrow>
          if \<not> pending s then g
          else
            let g = upd_slide p (\<lambda>s. s\<lparr>pending := False, ghostPending := False\<rparr>) g in
            (if item_type (item s) = Ajax then setContent p g
             else if item_type (item s) = Image then
               (if ghostPending s then setBigImage p (afterLoad p g) else imageLoaded p g)
             else afterLoad p g))"

definition failed :: "int \<Rightarrow> gallery \<Rightarrow> gallery" where
  \<comment> \<open>a frame cannot tell an error from success\<close>
  "failed p g =
     (case slides g p of
        None \<Rightarrow> g
      | Some s \<Rightarrow>
          if \<not> pending s then g
          else
            let g = upd_slide p (\<lambda>s. s\<lparr>pending := False, ghostPending := False\<rparr>) g in
            (if item_type (item s) = Ajax then setError p g
             else if item_type (item s) = Image then
               (if ghostPending s then setBigImage p (upd_slide p (\<lambda>s. s\<lparr>ghost := False\<rparr>) g) else setError p g)
             else afterLoad p g))"

fun gallery_step :: "gevent \<Rightarrow> gallery \<Rightarrow> gallery" where
  "gallery_step (Jump p d m) g = jumpTo p d m g"
| "gallery_step (Next d m) g = next_slide d m g"
| "gallery_step (Previous d m) g = previous_slide d m g"
| "gallery_step (Loaded p) g = answered p g"
| "gallery_step (Failed p) g = failed p g"
| "gallery_step (AnimationEnd p zoomed) g = (if zoomed \<or> p = currPos g then complete g else g)"
| "gallery_step (MoveEnd p) g =
     (if p = currPos g then complete (upd_slide p (\<lambda>s. s\<lparr>isMoved := False\<rparr>) g) else g)"
| "gallery_step (Sliding b) g = g\<lparr>isSliding := b\<rparr>"
| "gallery_step (Animating b) g = g\<lparr>isAnimating := b\<rparr>"
| "gallery_step (Close prevented) g = close_gallery prevented g"
| "gallery_step Closed g = (if isClosing g then cleanUp g else g)"

definition gallery_run :: "fitem list \<Rightarrow> bool \<Rightarrow> int \<Rightarrow> gevent list \<Rightarrow> gallery" where
  "gallery_run is l index es = fold gallery_step es (jumpTo index None False (new_gallery is l index))"

subsection \<open>The invariant\<close>

definition no_loops :: "gallery \<Rightarrow> bool" where
  "no_loops g \<longleftrightarrow> \<not> opts_loop g \<and> list_all (\<lambda>i. \<not> loop i) (group g)"

text \<open>\<open>X\<close>: the positions whose slides may be complete and have the class of the current slide.\<close>

definition slide_ok :: "int set \<Rightarrow> gallery \<Rightarrow> int \<Rightarrow> fslide \<Rightarrow> bool" where
  "slide_ok X g p s \<longleftrightarrow>
     slide_pos s = p \<and> slide_index s = p mod groupLen g \<and> item s = group g ! nat (p mod groupLen g) \<and>
     (no_loops g \<longrightarrow> 0 \<le> p \<and> p < groupLen g) \<and>
     (isComplete s \<longrightarrow> p \<in> X \<and> (p = currPos g \<longrightarrow> isLoaded s)) \<and> (currentClass s \<longrightarrow> p \<in> X) \<and>
     \<not> (isLoading s \<and> isLoaded s)"

definition near :: "gallery \<Rightarrow> bool" where
  "near g \<longleftrightarrow> (\<forall>s. slides g (currPos g) = Some s \<and> isComplete s \<longrightarrow>
     dom (slides g) \<subseteq> {currPos g - 1 .. currPos g + 1})"

definition gallery_ok :: "int set \<Rightarrow> gallery \<Rightarrow> bool" where
  "gallery_ok X g \<longleftrightarrow> group g \<noteq> [] \<and> (\<forall>p s. slides g p = Some s \<longrightarrow> slide_ok X g p s) \<and>
     slides g (currPos g) \<noteq> None \<and> current g \<in> {None, Some (currPos g)} \<and>
     currIndex g = currPos g mod groupLen g \<and> near g"

lemma item_index_mod:
  assumes "group g \<noteq> []"
  shows "item_index p g = p mod groupLen g"
proof (cases "p < 0")
  case True
  have n: "groupLen g > 0" using assms by (simp add: groupLen_def)
  have ne: "groupLen g \<noteq> p mod groupLen g" using pos_mod_bound [OF n, of p] by linarith
  have r: "0 \<le> (- p) mod groupLen g" "(- p) mod groupLen g < groupLen g" using n by auto
  show ?thesis
  proof (cases "(- p) mod groupLen g = 0")
    case True
    then show ?thesis using \<open>p < 0\<close> n ne
      by (auto simp: item_index_def js_rem_def zmod_zminus1_eq_if split: if_splits)
  next
    case False
    have "p mod groupLen g = groupLen g - (- p) mod groupLen g"
      using zmod_zminus1_eq_if [of "- p" "groupLen g"] False by simp
    then show ?thesis using r False True by (simp add: item_index_def js_rem_def Let_def)
  qed
next
  case False
  have "0 \<le> p mod groupLen g" using assms by (simp add: groupLen_def)
  then show ?thesis using False by (simp add: item_index_def js_rem_def Let_def)
qed

lemma item_index_range: "group g \<noteq> [] \<Longrightarrow> 0 \<le> item_index p g \<and> item_index p g < groupLen g"
  by (simp add: item_index_mod) (simp add: groupLen_def)

text \<open>Most operations change slides only, and keep the slide of the current position.\<close>

definition keeps :: "int set \<Rightarrow> gallery \<Rightarrow> gallery \<Rightarrow> bool" where
  "keeps X g h \<longleftrightarrow> gallery_ok X h \<and> h = g\<lparr>slides := slides h\<rparr>"

lemma keeps_refl: "gallery_ok X g \<Longrightarrow> keeps X g g"
  by (simp add: keeps_def)

lemma keeps_trans: "keeps X g h \<Longrightarrow> keeps X h k \<Longrightarrow> keeps X g k"
  unfolding keeps_def by (metis gallery.surjective gallery.update_convs(3) gallery.select_convs(3))

lemma slide_ok_cong: "h = g\<lparr>slides := sl\<rparr> \<Longrightarrow> slide_ok X h = slide_ok X g"
  by (simp add: slide_ok_def fun_eq_iff no_loops_def groupLen_def)

lemma keeps_upd:
  assumes "gallery_ok X g"
    and "\<And>s. slides g p = Some s \<Longrightarrow> slide_ok X g p s \<Longrightarrow> slide_ok X g p (f s) \<and> (isComplete (f s) \<longrightarrow> isComplete s)"
  shows "keeps X g (upd_slide p f g)"
proof -
  have "slide_ok X (upd_slide p f g) = slide_ok X g" unfolding upd_slide_def by (rule slide_ok_cong) simp
  moreover have "dom (slides (upd_slide p f g)) = dom (slides g)" by (auto simp: upd_slide_def dom_def split: if_splits)
  ultimately show ?thesis
    using assms unfolding keeps_def gallery_ok_def near_def
    by (auto simp: upd_slide_def groupLen_def split: if_splits) 
qed

lemma onReset_fields [simp]:
  "slide_pos (onReset s) = slide_pos s" "slide_index (onReset s) = slide_index s" "item (onReset s) = item s"
  "isComplete (onReset s) = isComplete s" "currentClass (onReset s) = currentClass s"
  "isLoading (onReset s) = isLoading s" "isLoaded (onReset s) \<Longrightarrow> isLoaded s"
  by (auto simp: onReset_def Let_def split: if_splits)

lemma complete_slides:
  assumes "gallery_ok X g"
  shows "complete g = g \<or> (\<exists>s. current g = Some (currPos g) \<and> slides g (currPos g) = Some s \<and> isLoaded s \<and>
    complete g = g\<lparr>slides := (\<lambda>p. if currPos g - 1 \<le> p \<and> p \<le> currPos g + 1
      then if p = currPos g then Some (s\<lparr>isComplete := True\<rparr>) else map_option onReset (slides g p) else None)\<rparr>)"
proof (cases "complete g = g")
  case False
  then obtain s where "current g = Some (currPos g)" "slides g (currPos g) = Some s" "isLoaded s" "\<not> isMoved s" "\<not> isComplete s"
    using assms by (auto simp: complete_def gallery_ok_def split: option.splits if_splits)
  then show ?thesis by (simp add: complete_def Let_def upd_slide_def fun_eq_iff)
qed simp

lemma keeps_complete:
  assumes ok: "gallery_ok X g" and X: "currPos g \<in> X"
  shows "keeps X g (complete g)"
  using complete_slides [OF ok]
proof (elim disjE exE conjE)
  assume "complete g = g"
  then show ?thesis using ok by (simp add: keeps_refl)
next
  fix s
  let ?sl = "\<lambda>p. if currPos g - 1 \<le> p \<and> p \<le> currPos g + 1
      then if p = currPos g then Some (s\<lparr>isComplete := True\<rparr>) else map_option onReset (slides g p) else None"
  assume s: "slides g (currPos g) = Some s" "isLoaded s" and c: "complete g = g\<lparr>slides := ?sl\<rparr>"
  have cong: "slide_ok X (g\<lparr>slides := ?sl\<rparr>) = slide_ok X g" by (rule slide_ok_cong) simp
  have sok: "slide_ok X g p s" if "slides g p = Some s" for p s using ok that by (simp add: gallery_ok_def)
  have "slide_ok X g p t" if t: "?sl p = Some t" for p t
  proof (cases "p = currPos g")
    case True
    then show ?thesis using sok [OF s(1)] s(2) t X by (auto simp: slide_ok_def)
  next
    case False
    then obtain u where "slides g p = Some u" "t = onReset u" using t by (auto split: if_splits)
    then show ?thesis using sok [of p u] False by (auto simp: slide_ok_def dest: onReset_fields(7))
  qed
  moreover have "dom ?sl \<subseteq> {currPos g - 1 .. currPos g + 1}" by (auto split: if_splits)
  ultimately show ?thesis
    using ok unfolding c keeps_def gallery_ok_def cong near_def by (simp add: groupLen_def)
qed

lemma keeps_reveal:
  "gallery_ok X g \<Longrightarrow> currPos g \<in> X \<Longrightarrow> keeps X g (revealContent p g)"
  by (auto simp: revealContent_def keeps_refl keeps_complete split: option.splits)

lemma keeps_then:
  assumes "keeps X g h" and "gallery_ok X h \<Longrightarrow> currPos h = currPos g \<Longrightarrow> keeps X h (f h)"
  shows "keeps X g (f h)"
proof -
  have "currPos h = currPos (g\<lparr>slides := slides h\<rparr>)"
    using assms(1) unfolding keeps_def by (rule arg_cong [OF conjunct2])
  then have "currPos h = currPos g" by simp
  moreover have "gallery_ok X h" using assms(1) by (simp add: keeps_def)
  ultimately show ?thesis using assms keeps_trans by blast
qed

lemma keeps_afterLoad: "gallery_ok X g \<Longrightarrow> currPos g \<in> X \<Longrightarrow> keeps X g (afterLoad p g)"
  unfolding afterLoad_def
  by (auto intro!: keeps_refl keeps_then [OF keeps_upd] keeps_reveal simp: slide_ok_def)

lemma keeps_setContent: "gallery_ok X g \<Longrightarrow> currPos g \<in> X \<Longrightarrow> keeps X g (setContent p g)"
  unfolding setContent_def
  by (auto intro!: keeps_refl keeps_then [OF keeps_upd] keeps_afterLoad simp: slide_ok_def)

lemma keeps_setError: "gallery_ok X g \<Longrightarrow> currPos g \<in> X \<Longrightarrow> keeps X g (setError p g)"
  unfolding setError_def
  by (auto intro!: keeps_then [OF keeps_upd] keeps_setContent simp: slide_ok_def)

lemma keeps_imageLoaded: "gallery_ok X g \<Longrightarrow> currPos g \<in> X \<Longrightarrow> keeps X g (imageLoaded p g)"
  by (auto simp: imageLoaded_def keeps_refl keeps_afterLoad split: option.splits)

lemma keeps_setBigImage: "gallery_ok X g \<Longrightarrow> currPos g \<in> X \<Longrightarrow> keeps X g (setBigImage p g)"
  by (auto simp: setBigImage_def keeps_refl keeps_imageLoaded slide_ok_def intro!: keeps_upd split: option.splits)

lemma keeps_setImage: "gallery_ok X g \<Longrightarrow> currPos g \<in> X \<Longrightarrow> keeps X g (setImage p g)"
  by (auto simp: setImage_def keeps_refl keeps_setBigImage slide_ok_def intro!: keeps_upd split: option.splits)

lemma keeps_setIframe: "gallery_ok X g \<Longrightarrow> currPos g \<in> X \<Longrightarrow> keeps X g (setIframe p g)"
  unfolding setIframe_def Let_def
  by (auto intro!: keeps_refl keeps_then [OF keeps_upd] keeps_upd keeps_afterLoad simp: slide_ok_def split: option.splits)

lemma keeps_loadSlide:
  assumes ok: "gallery_ok X g" and X: "currPos g \<in> X"
  shows "keeps X g (loadSlide p g)"
proof (cases "slides g p")
  case (Some s)
  show ?thesis
  proof (cases "isLoading s \<or> isLoaded s")
    case False
    let ?g = "upd_slide p (\<lambda>s. onReset (s\<lparr>isLoading := True\<rparr>)) g"
    have "\<not> isComplete s \<or> p \<noteq> currPos g" using ok Some False by (auto simp: gallery_ok_def slide_ok_def)
    then have "keeps X g ?g"
      using ok Some False
      by (intro keeps_upd) (auto simp: slide_ok_def dest: onReset_fields(7))
    then have "keeps X g (case item_type (item s) of
               Image \<Rightarrow> setImage p ?g
             | Iframe \<Rightarrow> setIframe p ?g
             | Html \<Rightarrow> setContent p ?g
             | Inline \<Rightarrow> if found (item s) then setContent p ?g else setError p ?g
             | Ajax \<Rightarrow> upd_slide p (\<lambda>s. s\<lparr>pending := True\<rparr>) ?g
             | Unknown \<Rightarrow> setError p ?g)"
      using X
      by (cases "item_type (item s)")
        (auto intro!: keeps_then [of X g ?g] keeps_setImage keeps_setIframe keeps_setContent keeps_setError keeps_upd
          simp: slide_ok_def)
    then show ?thesis using Some False by (simp add: loadSlide_def Let_def)
  qed (use ok Some in \<open>auto simp: loadSlide_def keeps_refl\<close>)
qed (use ok in \<open>simp add: loadSlide_def keeps_refl\<close>)

lemma keeps_preload_at: "gallery_ok X g \<Longrightarrow> currPos g \<in> X \<Longrightarrow> keeps X g (preload_at p g)"
  by (auto simp: preload_at_def keeps_refl keeps_loadSlide split: option.splits)

lemma keeps_preload:
  assumes ok: "gallery_ok X g" and X: "currPos g \<in> X"
  shows "keeps X g (preload g)"
proof -
  let ?h = "preload_at (currPos g + 1) g"
  have h: "keeps X g ?h" using ok X by (rule keeps_preload_at)
  have "keeps X g (loadSlide (currPos ?h - 1) ?h)"
    by (rule keeps_then [OF h]) (use X in \<open>simp add: keeps_loadSlide\<close>)
  with h show ?thesis by (auto simp: preload_def Let_def keeps_refl ok split: option.split)
qed

subsection \<open>Going to a position keeps the invariant\<close>

lemma slides_createSlide:
  assumes "group g \<noteq> []"
  shows "createSlide p g = g\<lparr>slides := (slides g)(p \<mapsto>
    (case slides g p of Some s \<Rightarrow> s | None \<Rightarrow> new_slide (group g ! nat (p mod groupLen g)) (p mod groupLen g) p))\<rparr>"
proof (cases "slides g p")
  case None
  then show ?thesis
    using item_index_range [OF assms, of p] item_index_mod [OF assms, of p]
    by (simp add: createSlide_def Let_def)
next
  case (Some s)
  then have "(slides g)(p := Some s) = slides g" by auto
  with Some show ?thesis by (simp add: createSlide_def Let_def)
qed

text \<open>\<open>slides_fine\<close>: the invariant without its parts on the current slide.\<close>

definition slides_fine :: "int set \<Rightarrow> gallery \<Rightarrow> bool" where
  "slides_fine X g \<longleftrightarrow> group g \<noteq> [] \<and> (\<forall>p s. slides g p = Some s \<longrightarrow> slide_ok X g p s)"

lemma fine_createSlide:
  assumes fine: "slides_fine X g" and p: "no_loops g \<Longrightarrow> 0 \<le> p \<and> p < groupLen g"
  shows "slides_fine X (createSlide p g)"
proof -
  have ne: "group g \<noteq> []" using fine by (simp add: slides_fine_def)
  define s where "s = (case slides g p of Some s \<Rightarrow> s
    | None \<Rightarrow> new_slide (group g ! nat (p mod groupLen g)) (p mod groupLen g) p)"
  have c: "createSlide p g = g\<lparr>slides := (slides g)(p \<mapsto> s)\<rparr>"
    unfolding s_def by (rule slides_createSlide [OF ne])
  have cong: "slide_ok X (g\<lparr>slides := (slides g)(p \<mapsto> s)\<rparr>) = slide_ok X g" by (rule slide_ok_cong) simp
  have "slide_ok X g p s"
  proof (cases "slides g p")
    case None
    then show ?thesis using p by (simp add: s_def slide_ok_def new_slide_def)
  next
    case (Some t)
    then show ?thesis using fine by (simp add: s_def slides_fine_def)
  qed
  then show ?thesis using fine unfolding slides_fine_def c cong by auto
qed

definition extends_to :: "int set \<Rightarrow> gallery \<Rightarrow> gallery \<Rightarrow> bool" where
  "extends_to P g h \<longleftrightarrow>
     h = g\<lparr>slides := slides h\<rparr> \<and> slides g \<subseteq>\<^sub>m slides h \<and> dom (slides h) \<subseteq> dom (slides g) \<union> P"

lemma grow_refl: "extends_to P g g"
  by (simp add: extends_to_def)

lemma extends_create: "group g \<noteq> [] \<Longrightarrow> p \<in> P \<Longrightarrow> extends_to P g (createSlide p g) \<and> slides (createSlide p g) p \<noteq> None"
  using slides_createSlide [of g p]
  by (cases "slides g p") (auto simp: extends_to_def map_le_def dest: arg_cong [where f = slides])

lemma grow_trans:
  assumes "extends_to P g h" "extends_to P h k"
  shows "extends_to P g k"
proof -
  have "k = h\<lparr>slides := slides k\<rparr>" "h = g\<lparr>slides := slides h\<rparr>" using assms by (simp_all add: extends_to_def)
  then have "k = g\<lparr>slides := slides k\<rparr>" by (cases g; cases h; cases k) simp
  moreover have "slides g \<subseteq>\<^sub>m slides k" using assms unfolding extends_to_def by (blast intro: map_le_trans)
  moreover have "dom (slides k) \<subseteq> dom (slides g) \<union> P" using assms unfolding extends_to_def by blast
  ultimately show ?thesis unfolding extends_to_def by blast
qed

lemma extends_facts:
  assumes "extends_to P g h"
  shows "group h = group g \<and> opts_loop h = opts_loop g \<and> groupLen h = groupLen g \<and> no_loops h = no_loops g \<and>
    item_index p h = item_index p g"
proof -
  have h: "h = g\<lparr>slides := slides h\<rparr>" using assms by (simp add: extends_to_def)
  have "group h = group g" "opts_loop h = opts_loop g" by (subst h, simp)+
  then show ?thesis by (simp add: groupLen_def no_loops_def item_index_def Let_def)
qed

lemma create_around:
  assumes fine: "slides_fine X g" and l: "no_loops g \<Longrightarrow> \<not> l \<and> 0 \<le> p \<and> p < groupLen g"
  shows "slides_fine X (create_around l p g) \<and> extends_to {p - 1 .. p + 1} g (create_around l p g) \<and>
    slides (create_around l p g) p \<noteq> None"
proof -
  let ?P = "{p - 1 .. p + 1}"
  have ne: "group g \<noteq> []" using fine by (simp add: slides_fine_def)
  have step: "slides_fine X (createSlide q h) \<and> extends_to ?P g (createSlide q h) \<and> slides (createSlide q h) p \<noteq> None"
    if "slides_fine X h \<and> extends_to ?P g h \<and> (q = p \<or> slides h p \<noteq> None)" "q \<in> ?P"
      "no_loops g \<Longrightarrow> 0 \<le> q \<and> q < groupLen g" for q h
  proof -
    have gh: "group h \<noteq> []" "groupLen h = groupLen g" "no_loops h = no_loops g"
      using that(1) ne extends_facts [of ?P g h] by auto
    have c: "extends_to ?P h (createSlide q h)" "slides (createSlide q h) q \<noteq> None"
      using extends_create [OF gh(1) that(2)] by auto
    have "slides (createSlide q h) p \<noteq> None"
      using that(1) c by (auto simp: extends_to_def map_le_def dom_def)
    moreover have "slides_fine X (createSlide q h)"
      using that gh by (intro fine_createSlide) auto
    ultimately show ?thesis using grow_trans [OF _ c(1)] that(1) by blast
  qed
  let ?g = "createSlide p g"
  have one: "slides_fine X ?g \<and> extends_to ?P g ?g \<and> slides ?g p \<noteq> None"
    by (rule step) (use fine l in \<open>auto simp: grow_refl\<close>)
  then have len: "groupLen ?g = groupLen g" "item_index p ?g = item_index p g"
    using extends_facts [of ?P g ?g] by auto
  have i: "no_loops g \<Longrightarrow> item_index p g = p" using l item_index_mod [OF ne] by simp
  let ?h = "if l \<or> item_index p g > 0 then createSlide (p - 1) ?g else ?g"
  have two: "slides_fine X ?h \<and> extends_to ?P g ?h \<and> slides ?h p \<noteq> None"
    using one step [of ?g "p - 1"] l i by (cases "no_loops g") auto
  have "groupLen ?h = groupLen g" using two extends_facts [of ?P g ?h] by auto
  moreover have "slides_fine X (createSlide (p + 1) ?h) \<and> extends_to ?P g (createSlide (p + 1) ?h) \<and>
      slides (createSlide (p + 1) ?h) p \<noteq> None" if "l \<or> item_index p g < groupLen g - 1"
    using two step [of ?h "p + 1"] l i that by (cases "no_loops g") auto
  ultimately show ?thesis
    using one two len unfolding create_around_def Let_def by auto
qed

definition gallery_inv :: "gallery \<Rightarrow> bool" where
  "gallery_inv g \<longleftrightarrow> gallery_ok {currPos g} g \<and> firstRun g \<noteq> None \<and> (current g = None \<longrightarrow> isClosing g)"

lemma loops_no:
  assumes "slides_fine X g" "no_loops g"
  shows "\<not> loops g"
proof -
  have "\<not> loop (item s)" if s: "slides g c = Some s" for c s
  proof -
    have "slide_ok X g c s" "group g \<noteq> []" using assms(1) s unfolding slides_fine_def by blast+
    then have "item s = group g ! nat (c mod groupLen g)" by (simp add: slide_ok_def)
    moreover have "nat (c mod groupLen g) < length (group g)"
      using \<open>group g \<noteq> []\<close> by (simp add: groupLen_def nat_less_iff)
    ultimately show ?thesis using assms(2) by (auto simp: no_loops_def list_all_length)
  qed
  then show ?thesis using assms(2) by (auto simp: loops_def no_loops_def split: option.split)
qed

lemma arrive_ok:
  assumes fine: "slides_fine X g" and X: "X = {} \<and> slides g = (\<lambda>_. None) \<or> X = {currPos g} \<and> near g \<and> slides g (currPos g) \<noteq> None"
    and p: "loops g \<or> 0 \<le> p \<and> p < groupLen g"
  shows "gallery_ok (insert p X) (arrive p duration dragged (loops g) g) \<and>
    currPos (arrive p duration dragged (loops g) g) = p \<and> current (arrive p duration dragged (loops g) g) = Some p \<and>
    firstRun (arrive p duration dragged (loops g) g) = Some (firstRun g = None) \<and>
    isClosing (arrive p duration dragged (loops g) g) = isClosing g"
proof -
  define g1 where "g1 = g\<lparr>firstRun := Some (firstRun g = None), prevIndex := Some (currIndex g), prevPos := Some (currPos g)\<rparr>"
  define g2 where "g2 = create_around (loops g) p g1"
  define g3 where "g3 = g2\<lparr>current := Some p, currIndex := item_index p g2, currPos := p\<rparr>"
  have arrive: "arrive p duration dragged (loops g) g =
      upd_slide p (\<lambda>s. s\<lparr>isMoved := dragged, forcedDuration := duration, currentClass := True\<rparr>) g3"
    by (simp add: arrive_def g1_def g2_def g3_def Let_def)
  have nl: "no_loops g1 = no_loops g" "groupLen g1 = groupLen g" "slides g1 = slides g" "currPos g1 = currPos g"
    by (simp_all add: g1_def no_loops_def groupLen_def)
  have "slide_ok X g1 = slide_ok X g" by (simp add: fun_eq_iff slide_ok_def nl) (simp add: g1_def)
  then have fine1: "slides_fine X g1" using fine by (simp add: slides_fine_def nl) (simp add: g1_def)
  have two: "slides_fine X g2 \<and> extends_to {p - 1 .. p + 1} g1 g2 \<and> slides g2 p \<noteq> None"
    unfolding g2_def by (rule create_around [OF fine1]) (use p loops_no [OF fine] nl in auto)
  then have ext: "g2 = g1\<lparr>slides := slides g2\<rparr>" by (simp add: extends_to_def)
  have same: "currPos g2 = currPos g" "isClosing g2 = isClosing g" "firstRun g2 = Some (firstRun g = None)"
    by (subst ext, simp add: g1_def)+
  have ne: "group g2 \<noteq> []" "groupLen g2 = groupLen g" using two extends_facts nl by (auto simp: slides_fine_def)
  have X3: "slide_ok (insert p X) g3 q s" if "slides g3 q = Some s" for q s
  proof -
    have "slide_ok X g2 q s" using that two by (simp add: slides_fine_def g3_def)
    moreover have "q = p \<Longrightarrow> isComplete s \<Longrightarrow> isLoaded s"
      using X same(1) calculation by (auto simp: slide_ok_def)
    ultimately show ?thesis by (auto simp: slide_ok_def g3_def no_loops_def groupLen_def)
  qed
  have near3: "near g3"
    unfolding near_def
  proof (intro allI impI)
    fix s assume s: "slides g3 (currPos g3) = Some s \<and> isComplete s"
    then have "p \<in> X" using two by (auto simp: g3_def slides_fine_def slide_ok_def)
    with X have q: "near g" "p = currPos g" "slides g p \<noteq> None" by auto
    then obtain t where t: "slides g p = Some t" by auto
    moreover have "slides g1 \<subseteq>\<^sub>m slides g2" using two by (simp add: extends_to_def)
    ultimately have "slides g2 p = Some t" using nl(3) by (simp add: map_le_def dom_def)
    then have "t = s" using s by (simp add: g3_def)
    then have "dom (slides g) \<subseteq> {p - 1 .. p + 1}" using q t s by (auto simp: near_def)
    moreover have "dom (slides g2) \<subseteq> dom (slides g1) \<union> {p - 1 .. p + 1}" using two by (simp add: extends_to_def)
    ultimately have "dom (slides g2) \<subseteq> {p - 1 .. p + 1}" unfolding nl(3) by blast
    then show "dom (slides g3) \<subseteq> {currPos g3 - 1 .. currPos g3 + 1}" by (simp add: g3_def)
  qed
  have "gallery_ok (insert p X) g3"
    unfolding gallery_ok_def
    using X3 near3 ne two item_index_mod [OF ne(1), of p] by (auto simp: g3_def groupLen_def)
  then have "keeps (insert p X) g3 (arrive p duration dragged (loops g) g)"
    unfolding arrive by (rule keeps_upd) (simp add: slide_ok_def)
  then show ?thesis
    using same by (simp add: keeps_def) (simp add: arrive upd_slide_def g3_def)
qed

lemma keeps_fields:
  assumes "keeps X g h"
  shows "gallery_ok X h \<and> currPos h = currPos g \<and> current h = current g \<and> firstRun h = firstRun g \<and>
    isClosing h = isClosing g \<and> group h = group g \<and> currIndex h = currIndex g \<and> opts_loop h = opts_loop g"
proof -
  have h: "h = g\<lparr>slides := slides h\<rparr>" using assms by (simp add: keeps_def)
  have "currPos h = currPos g" "current h = current g" "firstRun h = firstRun g" "isClosing h = isClosing g"
    "group h = group g" "currIndex h = currIndex g" "opts_loop h = opts_loop g" by (subst h, simp)+
  then show ?thesis using assms by (simp add: keeps_def)
qed

lemma leave_ok:
  assumes ok: "gallery_ok {p, q} h" and p: "currPos h = p"
  shows "gallery_ok {p} (leave_slide (Some q) p h) \<and> (\<exists>sl. leave_slide (Some q) p h = h\<lparr>slides := sl\<rparr>)"
proof (cases "q = p")
  case True
  have "h = h\<lparr>slides := slides h\<rparr>" by (cases h) simp
  moreover have "leave_slide (Some q) p h = h" using True by (simp add: leave_slide_def)
  ultimately show ?thesis using ok True by (metis insert_absorb2)
next
  case False
  let ?h = "upd_slide q (\<lambda>s. s\<lparr>currentClass := False, isComplete := False\<rparr>) h"
  have cong: "slide_ok {p} ?h = slide_ok {p} h" by (rule slide_ok_cong) (simp add: upd_slide_def)
  have sok: "slide_ok {p, q} h r s" if "slides h r = Some s" for r s
    using ok that unfolding gallery_ok_def by blast
  have "slide_ok {p} h r s" if s: "slides ?h r = Some s" for r s
  proof (cases "r = q")
    case True
    then obtain t where "slides h q = Some t" "s = t\<lparr>currentClass := False, isComplete := False\<rparr>"
      using s by (auto simp: upd_slide_def)
    with sok [of q t] True show ?thesis by (simp add: slide_ok_def)
  next
    case False
    then have "slides h r = Some s" using s by (simp add: upd_slide_def)
    with sok [of r s] False show ?thesis by (auto simp: slide_ok_def)
  qed
  moreover have "slides ?h p = slides h p" "dom (slides ?h) = dom (slides h)"
    using False by (auto simp: upd_slide_def dom_def)
  ultimately have "gallery_ok {p} ?h"
    using ok p unfolding gallery_ok_def cong near_def by (simp add: upd_slide_def groupLen_def)
  then show ?thesis using False by (auto simp: leave_slide_def upd_slide_def)
qed

lemma jumpTo_inv:
  assumes inv: "gallery_inv g"
  shows "gallery_inv (jumpTo p duration dragged g)"
proof (cases "jumpTo p duration dragged g = g")
  case False
  let ?h = "arrive p duration dragged (loops g) g"
  let ?k = "case slides ?h p of Some s \<Rightarrow> if isLoaded s then revealContent p ?h else loadSlide p ?h | None \<Rightarrow> ?h"
  let ?q = "currPos g"
  have ok: "gallery_ok {?q} g" "firstRun g \<noteq> None" "current g = None \<longrightarrow> isClosing g" using inv by (auto simp: gallery_inv_def)
  from False have go: "\<not> isClosing g" "loops g \<or> 0 \<le> p \<and> p < groupLen g"
    "jumpTo p duration dragged g = leave_slide (current g) p (preload ?k)"
    using ok(2) by (auto simp: jumpTo_def Let_def split: if_splits)
  then have cur: "current g = Some ?q" using ok by (auto simp: gallery_ok_def)
  have h: "gallery_ok {p, ?q} ?h" "currPos ?h = p" "current ?h = Some p" "firstRun ?h = Some False" "isClosing ?h = isClosing g"
    using arrive_ok [of "{?q}" g p duration dragged] ok go(2) by (auto simp: gallery_ok_def slides_fine_def)
  have "keeps {p, ?q} ?h ?k"
    using h by (auto intro!: keeps_refl keeps_reveal keeps_loadSlide split: option.split)
  then have "keeps {p, ?q} ?h (preload ?k)"
    by (rule keeps_then) (use h in \<open>auto intro: keeps_preload\<close>)
  note k = keeps_fields [OF this]
  then obtain sl where "gallery_ok {p} (leave_slide (current g) p (preload ?k))"
      "leave_slide (current g) p (preload ?k) = preload ?k\<lparr>slides := sl\<rparr>"
    using leave_ok [of p ?q "preload ?k"] h cur by auto
  then show ?thesis using k h unfolding go(3) gallery_inv_def by simp
qed (use inv in simp)

subsection \<open>All events keep the invariant\<close>

lemma keeps_inv: "gallery_inv g \<Longrightarrow> keeps {currPos g} g h \<Longrightarrow> gallery_inv h"
  using keeps_fields [of "{currPos g}" g h] by (simp add: gallery_inv_def)

lemma keeps_answered:
  assumes ok: "gallery_ok X g" and X: "currPos g \<in> X"
  shows "keeps X g (answered p g)"
proof -
  let ?g = "upd_slide p (\<lambda>s. s\<lparr>pending := False, ghostPending := False\<rparr>) g"
  have k: "keeps X g ?g" by (rule keeps_upd [OF ok]) (simp add: slide_ok_def)
  have "keeps X g (setContent p ?g)" "keeps X g (afterLoad p ?g)" "keeps X g (imageLoaded p ?g)"
    by (rule keeps_then [OF k]; use X in \<open>simp add: keeps_setContent keeps_afterLoad keeps_imageLoaded\<close>)+
  moreover from this(2) have "keeps X g (setBigImage p (afterLoad p ?g))"
    by (rule keeps_then) (use X in \<open>simp add: keeps_setBigImage\<close>)
  ultimately show ?thesis using ok by (auto simp: answered_def Let_def keeps_refl split: option.split)
qed

lemma keeps_failed:
  assumes ok: "gallery_ok X g" and X: "currPos g \<in> X"
  shows "keeps X g (failed p g)"
proof -
  let ?g = "upd_slide p (\<lambda>s. s\<lparr>pending := False, ghostPending := False\<rparr>) g"
  have k: "keeps X g ?g" by (rule keeps_upd [OF ok]) (simp add: slide_ok_def)
  have "keeps X g (setError p ?g)" "keeps X g (afterLoad p ?g)"
    by (rule keeps_then [OF k]; use X in \<open>simp add: keeps_setError keeps_afterLoad\<close>)+
  moreover have "keeps X g (upd_slide p (\<lambda>s. s\<lparr>ghost := False\<rparr>) ?g)"
    by (rule keeps_then [OF k], rule keeps_upd) (simp_all add: slide_ok_def)
  moreover from this have "keeps X g (setBigImage p (upd_slide p (\<lambda>s. s\<lparr>ghost := False\<rparr>) ?g))"
    by (rule keeps_then) (use X in \<open>simp add: keeps_setBigImage\<close>)
  ultimately show ?thesis using ok by (auto simp: failed_def Let_def keeps_refl split: option.split)
qed

lemma close_inv:
  assumes inv: "gallery_inv g"
  shows "gallery_inv (close_gallery b g)"
proof (cases "isClosing g \<or> b")
  case False
  let ?h = "close_gallery b g"
  have cur: "current g = Some (currPos g)" using inv False by (auto simp: gallery_inv_def gallery_ok_def)
  have sl: "slides ?h = (\<lambda>p. if p = currPos g then slides g p else map_option onReset (slides g p))"
    using False cur by (simp add: close_gallery_def fun_eq_iff)
  have f: "group ?h = group g" "currPos ?h = currPos g" "current ?h = current g" "firstRun ?h = firstRun g"
      "currIndex ?h = currIndex g" "opts_loop ?h = opts_loop g" "isClosing ?h"
    using False by (simp_all add: close_gallery_def)
  have cong: "slide_ok {currPos g} ?h = slide_ok {currPos g} g"
    by (simp add: fun_eq_iff slide_ok_def no_loops_def groupLen_def f)
  have "slide_ok {currPos g} g p s" if s: "slides ?h p = Some s" for p s
  proof (cases "p = currPos g")
    case True
    then show ?thesis using inv s by (simp add: sl gallery_inv_def gallery_ok_def)
  next
    case False
    then obtain t where t: "slides g p = Some t" "s = onReset t" using s by (auto simp: sl)
    have "slide_ok {currPos g} g p t" using inv t(1) by (simp add: gallery_inv_def gallery_ok_def)
    then show ?thesis using t(2) False by (auto simp: slide_ok_def dest: onReset_fields(7))
  qed
  moreover have "dom (slides ?h) = dom (slides g)" by (auto simp: sl dom_def)
  ultimately show ?thesis
    using inv f unfolding gallery_inv_def gallery_ok_def f(2) cong near_def by (simp add: sl groupLen_def)
qed (use inv in \<open>auto simp: close_gallery_def\<close>)

lemma gallery_ok_cong:
  assumes "group h = group g" "slides h = slides g" "currPos h = currPos g" "currIndex h = currIndex g" "opts_loop h = opts_loop g"
    and "current h = current g \<or> current h = None"
  shows "gallery_ok X g \<Longrightarrow> gallery_ok X h"
proof -
  assume ok: "gallery_ok X g"
  have "slide_ok X h = slide_ok X g" by (simp add: fun_eq_iff slide_ok_def no_loops_def groupLen_def assms)
  moreover have "near h = near g" by (simp add: near_def assms)
  ultimately show ?thesis using ok assms by (auto simp: gallery_ok_def groupLen_def)
qed

lemma flags_inv: "gallery_inv g \<Longrightarrow> gallery_inv (g\<lparr>isSliding := b\<rparr>) \<and> gallery_inv (g\<lparr>isAnimating := b\<rparr>)"
  unfolding gallery_inv_def by (auto intro: gallery_ok_cong [of _ g])

lemma cleanUp_inv: "gallery_inv g \<Longrightarrow> isClosing g \<Longrightarrow> gallery_inv (cleanUp g)"
  unfolding gallery_inv_def cleanUp_def by (auto intro: gallery_ok_cong [of _ g])

lemma gallery_step_inv:
  assumes inv: "gallery_inv g"
  shows "gallery_inv (gallery_step e g)"
proof -
  have ok: "gallery_ok {currPos g} g" "currPos g \<in> {currPos g}" using inv by (simp_all add: gallery_inv_def)
  have "keeps {currPos g} g (upd_slide p (\<lambda>s. s\<lparr>isMoved := False\<rparr>) g)" for p
    by (rule keeps_upd [OF ok(1)]) (simp add: slide_ok_def)
  then have "keeps {currPos g} g (complete (upd_slide p (\<lambda>s. s\<lparr>isMoved := False\<rparr>) g))" for p
    by (rule keeps_then) (simp add: keeps_complete)
  then show ?thesis
    using inv jumpTo_inv close_inv cleanUp_inv flags_inv keeps_complete [OF ok] keeps_answered [OF ok] keeps_failed [OF ok]
    by (cases e) (auto simp: next_slide_def previous_slide_def intro: keeps_inv)
qed

lemma first_jump:
  assumes "is \<noteq> []" "0 \<le> index" "index < int (length is)"
  shows "gallery_inv (jumpTo index None False (new_gallery is l index))"
proof -
  let ?g = "new_gallery is l index"
  let ?h = "arrive index None False (loops ?g) ?g"
  have fine: "slides_fine {} ?g" using assms(1) by (simp add: slides_fine_def new_gallery_def)
  have h: "gallery_ok {index} ?h \<and> currPos ?h = index \<and> current ?h = Some index \<and> firstRun ?h = Some True"
    using arrive_ok [OF fine, of index None False] assms(2,3) by (simp add: new_gallery_def groupLen_def)
  have "keeps {index} ?h (loadSlide index ?h)" using h by (intro keeps_loadSlide) auto
  then have "keeps {index} ?h (preload (loadSlide index ?h))" by (rule keeps_then) (use h in \<open>simp add: keeps_preload\<close>)
  then have "gallery_inv (preload (loadSlide index ?h))"
    using h keeps_fields [of "{index}" ?h] by (auto simp: gallery_inv_def)
  moreover have "jumpTo index None False ?g = preload (loadSlide index ?h)"
    using assms(2,3) by (simp add: jumpTo_def new_gallery_def groupLen_def Let_def)
  ultimately show ?thesis by simp
qed

lemma gallery_run_inv:
  assumes "is \<noteq> []" "0 \<le> index" "index < int (length is)"
  shows "gallery_inv (gallery_run is l index es)"
proof -
  have "gallery_inv g \<Longrightarrow> gallery_inv (fold gallery_step es g)" for g
    by (induction es arbitrary: g) (auto simp: gallery_step_inv)
  then show ?thesis using first_jump [OF assms] by (simp add: gallery_run_def)
qed

end
