(* ===== verification/Fancybox_Slides.thy ===== *)
theory Fancybox_Slides
  imports Fancybox_Gallery
begin

section \<open>Properties of the gallery\<close>

text \<open>
  Which slides exist and which of them is shown, where the buttons of a gallery lead, and a slide that
  never loads: a request that is aborted when its slide is left is not made again.
\<close>

subsection \<open>The items of a gallery do not change\<close>

lemma upd_slide_group [simp]: "group (upd_slide p f g) = group g"
  by (simp add: upd_slide_def)

lemma show_group [simp]:
  "group (complete g) = group g" "group (revealContent p g) = group g" "group (afterLoad p g) = group g"
  "group (setContent p g) = group g" "group (setError p g) = group g" "group (imageLoaded p g) = group g"
  "group (setBigImage p g) = group g"
proof -
  show c: "group (complete g) = group g" for g by (auto simp: complete_def Let_def split: option.split)
  show r: "group (revealContent p g) = group g" for g by (auto simp: revealContent_def c split: option.split)
  show a: "group (afterLoad p g) = group g" for g by (simp add: afterLoad_def r)
  show "group (setContent p g) = group g" for g by (simp add: setContent_def a)
  then show "group (setError p g) = group g" by (simp add: setError_def)
  show i: "group (imageLoaded p g) = group g" by (auto simp: imageLoaded_def a split: option.split)
  show "group (setBigImage p g) = group g" by (auto simp: setBigImage_def i split: option.split)
qed

lemma load_group [simp]:
  "group (loadSlide p g) = group g" "group (preload g) = group g" "group (leave_slide q p g) = group g"
  "group (arrive p d m l g) = group g"
proof -
  show l: "group (loadSlide p g) = group g" for p g
    by (auto simp: loadSlide_def setImage_def setIframe_def Let_def split: option.split item_type.split)
  show "group (preload g) = group g"
    by (auto simp: preload_def preload_at_def Let_def l split: option.split)
  show "group (leave_slide q p g) = group g" by (simp add: leave_slide_def split: option.split)
  have "group (createSlide q h) = group h" for q h by (simp add: createSlide_def Let_def)
  then show "group (arrive p d m l g) = group g" by (simp add: arrive_def create_around_def Let_def)
qed

lemma step_group [simp]: "group (jumpTo p d m g) = group g" "group (gallery_step e g) = group g"
proof -
  show j: "group (jumpTo p d m g) = group g" for p d m
    by (auto simp: jumpTo_def Let_def split: option.split)
  have "group (answered p g) = group g" "group (failed p g) = group g" for p
    by (auto simp: answered_def failed_def Let_def split: option.split)
  then show "group (gallery_step e g) = group g"
    by (cases e) (auto simp: j next_slide_def previous_slide_def close_gallery_def cleanUp_def)
qed

lemma run_group [simp]: "group (gallery_run is l index es) = is"
proof -
  have "group (fold gallery_step es g) = group g" for g by (induction es arbitrary: g) auto
  then show ?thesis by (simp add: gallery_run_def) (simp add: new_gallery_def)
qed

definition plain_item :: "item_type \<Rightarrow> fitem" where
  "plain_item t = \<lparr>item_type = t, found = True, cached = True, thumb_first = False, iframe_preload = True, loop = False,
     animationEffect = None, animationDuration = 366, transitionEffect = None, transitionDuration = 366\<rparr>"

text \<open>
  C14.  After any events a slide of the gallery shows the item of its position, counted round the group;
  only the slide of the current position is complete or has the class of the current slide; it is
  loaded if it is complete, and then only its neighbours exist beside it; and without looping there are
  slides for positions of the group only.
\<close>

theorem gallery_slides:
  assumes "is \<noteq> []" and "0 \<le> index" and "index < int (length is)"
  shows "let n = int (length is); g = gallery_run is l index es in
    currIndex g = currPos g mod n \<and> slides g (currPos g) \<noteq> None \<and>
    (\<forall>p s. slides g p = Some s \<longrightarrow> slide_pos s = p \<and> slide_index s = p mod n \<and> item s = is ! nat (p mod n) \<and>
      (isComplete s \<or> currentClass s \<longrightarrow> p = currPos g) \<and>
      (isComplete s \<longrightarrow> isLoaded s \<and> dom (slides g) \<subseteq> {currPos g - 1 .. currPos g + 1}) \<and>
      (no_loops g \<longrightarrow> 0 \<le> p \<and> p < n))"
proof -
  define n where "n = int (length is)"
  define g where "g = gallery_run is l index es"
  have ok: "gallery_ok {currPos g} g" using gallery_run_inv [OF assms] by (simp add: g_def gallery_inv_def)
  have n: "groupLen g = n" "group g = is" by (simp_all add: groupLen_def g_def n_def)
  have "slide_pos s = p \<and> slide_index s = p mod n \<and> item s = is ! nat (p mod n) \<and>
      (isComplete s \<or> currentClass s \<longrightarrow> p = currPos g) \<and>
      (isComplete s \<longrightarrow> isLoaded s \<and> dom (slides g) \<subseteq> {currPos g - 1 .. currPos g + 1}) \<and>
      (no_loops g \<longrightarrow> 0 \<le> p \<and> p < n)" if s: "slides g p = Some s" for p s
  proof -
    have sok: "slide_ok {currPos g} g p s" and near: "near g" using ok s by (auto simp: gallery_ok_def)
    have "isComplete s \<Longrightarrow> dom (slides g) \<subseteq> {currPos g - 1 .. currPos g + 1}"
      using near sok s unfolding near_def by (simp add: slide_ok_def)
    with sok show ?thesis by (auto simp: slide_ok_def n)
  qed
  moreover have "currIndex g = currPos g mod n \<and> slides g (currPos g) \<noteq> None"
    using ok unfolding gallery_ok_def n by blast
  ultimately show ?thesis unfolding Let_def n_def [symmetric] g_def [symmetric] by blast
qed

definition looping :: "item_type \<Rightarrow> fitem" where
  "looping t = (plain_item t)\<lparr>loop := True\<rparr>"

theorem gallery_slides_witness:
  "let g = gallery_run [looping Image, looping Html, looping Ajax] True 0 [Previous None False, Loaded (-1)] in
    currIndex g = currPos g mod 3 \<and> currPos g = -1 \<and> map_option (\<lambda>s. (slide_index s, isComplete s)) (slides g (-1)) = Some (2, True)"
proof -
  let ?is = "[looping Image, looping Html, looping Ajax]"
  let ?g = "gallery_run ?is True 0 [Previous None False, Loaded (-1)]"
  have "currIndex ?g = currPos ?g mod int (length ?is)"
    using gallery_slides [of ?is 0 True "[Previous None False, Loaded (-1)]"] unfolding Let_def by simp
  moreover have "currPos ?g = -1 \<and> map_option (\<lambda>s. (slide_index s, isComplete s)) (slides ?g (-1)) = Some (2, True)"
    by code_simp
  ultimately show ?thesis unfolding Let_def by simp
qed

subsection \<open>The buttons\<close>

lemma jumpTo_accepted:
  assumes inv: "gallery_inv g" and "\<not> isSliding g" "\<not> isClosing g" "\<not> (isAnimating g \<and> firstRun g = Some True)"
    and "loops g \<or> 0 \<le> p \<and> p < groupLen g"
  shows "currPos (jumpTo p d m g) = p \<and> currIndex (jumpTo p d m g) = p mod groupLen g"
proof -
  let ?h = "arrive p d m (loops g) g"
  let ?k = "case slides ?h p of Some s \<Rightarrow> if isLoaded s then revealContent p ?h else loadSlide p ?h | None \<Rightarrow> ?h"
  have ok: "gallery_ok {currPos g} g" "firstRun g \<noteq> None" using inv by (auto simp: gallery_inv_def)
  then have j: "jumpTo p d m g = leave_slide (current g) p (preload ?k)"
    using assms(2-) by (auto simp: jumpTo_def Let_def)
  have h: "gallery_ok {p, currPos g} ?h" "currPos ?h = p"
    using arrive_ok [of "{currPos g}" g p d m] ok assms(5) by (auto simp: gallery_ok_def slides_fine_def)
  have "keeps {p, currPos g} ?h ?k"
    using h by (auto intro!: keeps_refl keeps_reveal keeps_loadSlide split: option.split)
  then have "keeps {p, currPos g} ?h (preload ?k)"
    by (rule keeps_then) (use h in \<open>auto intro: keeps_preload\<close>)
  then have "currPos (jumpTo p d m g) = p"
    using keeps_fields h(2) unfolding j leave_slide_def by (fastforce simp: upd_slide_def split: option.split)
  moreover have "gallery_ok {currPos (jumpTo p d m g)} (jumpTo p d m g)"
    using jumpTo_inv [OF inv] by (simp add: gallery_inv_def)
  ultimately show ?thesis by (simp add: gallery_ok_def groupLen_def)
qed

lemma jumpTo_goes:
  assumes "gallery_inv g" "\<not> isSliding g" "\<not> isClosing g" "\<not> isAnimating g" "loops g \<or> 0 \<le> p \<and> p < groupLen g"
  shows "currPos (jumpTo p d m g) = p \<and> currIndex (jumpTo p d m g) = p mod groupLen g"
  by (rule jumpTo_accepted) (use assms in auto)

text \<open>
  In a gallery that is neither dragged, animated nor closed, the next and the previous button go to
  the neighbouring item, round the group if it loops; at the ends of a group that does not, they do
  nothing.
\<close>

theorem gallery_buttons:
  assumes "gallery_inv g" and "\<not> isSliding g" and "\<not> isClosing g" and "\<not> isAnimating g"
  shows "(if loops g \<or> 0 \<le> currPos g + 1 \<and> currPos g + 1 < groupLen g
      then currIndex (next_slide d m g) = (currIndex g + 1) mod groupLen g else next_slide d m g = g) \<and>
    (if loops g \<or> 0 \<le> currPos g - 1 \<and> currPos g - 1 < groupLen g
      then currIndex (previous_slide d m g) = (currIndex g - 1) mod groupLen g else previous_slide d m g = g)"
proof -
  have i: "currIndex g = currPos g mod groupLen g" using assms(1) by (simp add: gallery_inv_def gallery_ok_def)
  have stays: "\<not> (loops g \<or> 0 \<le> p \<and> p < groupLen g) \<Longrightarrow> jumpTo p d m g = g" for p by (auto simp: jumpTo_def)
  show ?thesis
    unfolding next_slide_def previous_slide_def i mod_add_left_eq mod_diff_left_eq
    using jumpTo_goes [OF assms, of "currPos g + 1" d m] jumpTo_goes [OF assms, of "currPos g - 1" d m] stays
    by presburger
qed

theorem gallery_buttons_witness:
  "let g = gallery_run [looping Image, looping Html] True 0 [] in
    currIndex (next_slide None False g) = 1 \<and> currIndex (previous_slide None False g) = 1"
proof -
  let ?g = "gallery_run [looping Image, looping Html] True 0 []"
  have inv: "gallery_inv ?g" by (rule gallery_run_inv) simp_all
  have g: "\<not> isSliding ?g" "\<not> isClosing ?g" "\<not> isAnimating ?g" "loops ?g" "currIndex ?g = 0" "groupLen ?g = 2"
    by code_simp+
  show ?thesis
    using gallery_buttons [OF inv g(1-3), of None False] g(4-6) unfolding Let_def by simp
qed

subsection \<open>A slide that never loads\<close>

definition stuck :: "int \<Rightarrow> gallery \<Rightarrow> bool" where
  "stuck p g \<longleftrightarrow>
     (case slides g p of Some s \<Rightarrow> isLoading s \<and> \<not> isLoaded s \<and> \<not> pending s | None \<Rightarrow> False)"

definition lost :: "int \<Rightarrow> gallery \<Rightarrow> bool" where
  "lost p g \<longleftrightarrow> stuck p g \<or> slides g p = None"

lemma lost_cases: "lost p g \<longleftrightarrow> (\<forall>s. slides g p = Some s \<longrightarrow> isLoading s \<and> \<not> isLoaded s \<and> \<not> pending s)"
  by (auto simp: lost_def stuck_def split: option.split)

lemma lost_cong: "slides h = slides g \<Longrightarrow> lost p h = lost p g"
  by (simp only: lost_cases)

lemma lost_upd_other: "q \<noteq> p \<Longrightarrow> lost p (upd_slide q f g) = lost p g"
  by (simp add: lost_cases upd_slide_def)

lemma lost_upd:
  assumes "lost p g" and "\<And>s. isLoading (f s) = isLoading s \<and> isLoaded (f s) = isLoaded s \<and> (pending (f s) \<longrightarrow> pending s)"
  shows "lost p (upd_slide q f g)"
proof (cases "q = p")
  case True
  then have "slides (upd_slide q f g) p = map_option f (slides g p)" by (simp add: upd_slide_def)
  with assms show ?thesis unfolding lost_cases by (metis map_option_eq_Some)
qed (use assms(1) in \<open>simp add: lost_upd_other\<close>)

lemma onReset_keeps: "pending (onReset s) \<Longrightarrow> pending s"
  by (auto simp: onReset_def Let_def split: if_splits)

lemma onReset_pending: "\<not> pending s \<Longrightarrow> \<not> pending (onReset s)" "\<not> isLoaded s \<Longrightarrow> \<not> isLoaded (onReset s)"
  using onReset_keeps [of s] onReset_fields(7) [of s] by blast+

lemma lost_complete:
  assumes "lost p g"
  shows "lost p (complete g)"
proof (cases "complete g = g")
  case False
  then obtain c s where c: "current g = Some c" "slides g c = Some s" "isLoaded s" "\<not> isMoved s" "\<not> isComplete s"
    by (auto simp: complete_def split: option.splits if_splits)
  then have "p \<noteq> c" using assms by (auto simp: lost_cases)
  with c have "slides (complete g) p = None \<or> slides (complete g) p = map_option onReset (slides g p)"
    by (auto simp: complete_def Let_def upd_slide_def)
  then have "\<exists>u. slides g p = Some u \<and> t = onReset u" if "slides (complete g) p = Some t" for t
    using that by (cases "slides g p") auto
  with assms show ?thesis unfolding lost_cases by (metis onReset_fields(6) onReset_pending)
qed (use assms in simp)

lemma lost_reveal: "lost p g \<Longrightarrow> lost p (revealContent q g)"
  by (auto simp: revealContent_def lost_complete split: option.split)

lemma lost_afterLoad: "q \<noteq> p \<Longrightarrow> lost p g \<Longrightarrow> lost p (afterLoad q g)"
  by (simp add: afterLoad_def lost_reveal lost_upd_other)

lemma lost_setContent: "q \<noteq> p \<Longrightarrow> lost p g \<Longrightarrow> lost p (setContent q g)"
  by (simp add: setContent_def lost_afterLoad lost_upd_other)

lemma lost_setError: "q \<noteq> p \<Longrightarrow> lost p g \<Longrightarrow> lost p (setError q g)"
  by (simp add: setError_def lost_setContent lost_upd_other)

lemma lost_imageLoaded: "q \<noteq> p \<Longrightarrow> lost p g \<Longrightarrow> lost p (imageLoaded q g)"
  by (auto simp: imageLoaded_def lost_afterLoad split: option.split)

lemma lost_setBigImage: "q \<noteq> p \<Longrightarrow> lost p g \<Longrightarrow> lost p (setBigImage q g)"
  by (auto simp: setBigImage_def lost_imageLoaded lost_upd_other split: option.split)

lemma lost_loadSlide:
  assumes "lost p g"
  shows "lost p (loadSlide q g)"
proof (cases "q = p")
  case True
  then have "loadSlide q g = g"
    using assms by (cases "slides g p") (simp_all add: loadSlide_def lost_cases)
  then show ?thesis using assms by simp
next
  case False
  have "lost p (setImage q h)" "lost p (setIframe q h)" if "lost p h" for h
    using that False
    by (auto simp: setImage_def setIframe_def Let_def lost_setBigImage lost_afterLoad lost_upd_other split: option.split)
  with False assms show ?thesis
    by (simp add: loadSlide_def Let_def lost_setContent lost_setError lost_upd_other split: option.split item_type.split)
qed

lemma lost_preload: "lost p g \<Longrightarrow> lost p (preload g)"
  by (auto simp: preload_def preload_at_def Let_def lost_loadSlide split: option.split)

lemma lost_create: "stuck p g \<Longrightarrow> stuck p (createSlide q g)"
  by (auto simp: createSlide_def Let_def stuck_def)

lemma lost_arrive: "stuck p g \<Longrightarrow> lost p (arrive q d m l g)"
proof -
  assume "stuck p g"
  then have "stuck p (g\<lparr>firstRun := Some (firstRun g = None), prevIndex := Some (currIndex g), prevPos := Some (currPos g)\<rparr>)"
    by (simp add: stuck_def)
  then have "stuck p (create_around l q (g\<lparr>firstRun := Some (firstRun g = None), prevIndex := Some (currIndex g), prevPos := Some (currPos g)\<rparr>))"
    by (simp add: create_around_def Let_def lost_create)
  then show ?thesis unfolding arrive_def Let_def by (intro lost_upd) (auto simp: stuck_def lost_def)
qed

lemma lost_jumpTo:
  assumes "stuck p g"
  shows "lost p (jumpTo q d m g)"
proof -
  have a: "lost p (arrive q d m l g)" for l using assms by (rule lost_arrive)
  have l: "lost p (leave_slide c q h)" if "lost p h" for c h
    using that by (auto simp: leave_slide_def intro!: lost_upd split: option.split)
  have "lost p g" using assms by (simp add: lost_def)
  with a show ?thesis
    by (auto simp: jumpTo_def Let_def intro!: l lost_preload lost_loadSlide lost_reveal split: option.split)
qed

lemma lost_answer:
  assumes "stuck p g"
  shows "lost p (answered q g)" and "lost p (failed q g)"
proof -
  have l: "lost p g" using assms by (simp add: lost_def)
  show "lost p (answered q g)"
    using l assms by (cases "q = p") (auto simp: answered_def Let_def stuck_def lost_setContent lost_setBigImage
        lost_afterLoad lost_imageLoaded lost_upd_other split: option.split)
  show "lost p (failed q g)"
    using l assms by (cases "q = p") (auto simp: failed_def Let_def stuck_def lost_setError lost_setBigImage
        lost_afterLoad lost_upd_other split: option.split)
qed

lemma lost_close:
  assumes "lost p g"
  shows "lost p (close_gallery b g)"
proof -
  have "slides (close_gallery b g) p = slides g p \<or> slides (close_gallery b g) p = map_option onReset (slides g p)"
    by (simp add: close_gallery_def)
  with assms show ?thesis unfolding lost_cases by (metis map_option_eq_Some onReset_fields(6) onReset_pending)
qed

lemma lost_step:
  assumes "stuck p g"
  shows "lost p (gallery_step e g)"
proof -
  have l: "lost p g" using assms by (simp add: lost_def)
  have mv: "lost p (complete (upd_slide q (\<lambda>s. s\<lparr>isMoved := False\<rparr>) g))" for q
    using l by (intro lost_complete lost_upd) auto
  have fl: "lost p (g\<lparr>isSliding := b\<rparr>)" "lost p (g\<lparr>isAnimating := b\<rparr>)" "lost p (cleanUp g)" for b
    by (rule lost_cong [THEN iffD2, OF _ l], simp add: cleanUp_def)+
  show ?thesis
  proof (cases e)
    case (AnimationEnd q z)
    then show ?thesis using l lost_complete [OF l] by simp
  next
    case (MoveEnd q)
    then show ?thesis using l mv by simp
  next
    case (Sliding b)
    then show ?thesis using fl(1) by simp
  next
    case (Animating b)
    then show ?thesis using fl(2) by simp
  next
    case Closed
    then show ?thesis using l fl(3) by simp
  qed (simp_all only: gallery_step.simps next_slide_def previous_slide_def lost_jumpTo [OF assms] lost_answer [OF assms]
      lost_close [OF l])
qed

text \<open>
  A slide that is loading but whose request was aborted stays so whatever happens, until it is
  removed: coming back to it does not load it.  (The request of an \<open>ajax\<close> slide, and that of a frame that
  is preloaded, is aborted when the user goes on to another slide before the answer.)
\<close>

theorem aborted_stays:
  assumes "stuck p g"
  shows "stuck p (gallery_step e g) \<or> slides (gallery_step e g) p = None"
  using lost_step [OF assms, of e] by (simp add: lost_def)

theorem aborted_stays_witness:
  "stuck 0 (gallery_run [plain_item Ajax, plain_item Html] False 0 [Next None False]) \<and>
   stuck 0 (gallery_run [plain_item Ajax, plain_item Html] False 0 [Next None False, Previous None False])"
proof -
  let ?g = "gallery_run [plain_item Ajax, plain_item Html] False 0 [Next None False]"
  have s: "stuck 0 ?g"
    by code_simp
  have "slides (gallery_step (Previous None False) ?g) 0 \<noteq> None" by code_simp
  moreover have "gallery_run [plain_item Ajax, plain_item Html] False 0 [Next None False, Previous None False] =
      gallery_step (Previous None False) ?g" by (simp add: gallery_run_def)
  ultimately show ?thesis using aborted_stays [OF s, of "Previous None False"] s by metis
qed

end
