(* ===== verification/Fancybox_Geometry.thy ===== *)
theory Fancybox_Geometry
  imports JsPrelude
begin

section \<open>jquery.fancybox.js: the place of the content\<close>

text \<open>
  Where the content of a slide is and how large it is: fitted into the stage, at its actual size, pinched
  or panned.  The numbers are those of the language, so that a dimension that is 0 or missing behaves as in
  the code.  A transformation that the browser animates is given by its end.
\<close>

subsection \<open>Places\<close>

record place =
  pl_top :: jsnum
  pl_left :: jsnum
  pl_width :: jsnum
  pl_height :: jsnum

datatype margins = MNum jsnum | MList "jsnum list"

text \<open>
  The current slide: its kind and options, the sizes of the stage, of the slide and of the image, and the
  place of its content, \<open>None\<close> without content.
\<close>

record view =
  is_image :: bool
  loaded :: bool
  error :: bool
  click_zooms :: bool
  touch :: bool
  margin :: margins
  stage_w :: jsnum
  stage_h :: jsnum
  slide_w :: jsnum
  slide_h :: jsnum
  img_w :: jsnum
  img_h :: jsnum
  content :: "place option"
  animating :: bool
  closing :: bool

definition js_nth :: "jsnum list \<Rightarrow> nat \<Rightarrow> jsnum" where
  \<comment> \<open>\<open>undefined\<close> out of range\<close>
  "js_nth xs i = (if i < length xs then xs ! i else NaN)"

definition half :: "jsnum \<Rightarrow> jsnum" where
  "half x = x * Num (1 / 2)"

definition parse_number :: "jsnum \<Rightarrow> jsnum" where
  \<comment> \<open>\<open>parseInt\<close> of a number: the digits before the point of its text, which has an exponent if the number is very
    large or very small; then these are its first digit\<close>
  "parse_number x =
     (case x of
        Num a \<Rightarrow>
          if a = 0 \<or> 1 / 1000000 \<le> \<bar>a\<bar> \<and> \<bar>a\<bar> < 10 ^ 21 then Num (sgn a * of_int \<lfloor>\<bar>a\<bar>\<rfloor>)
          else Num (sgn a * of_int \<lfloor>\<bar>a\<bar> / 10 powr of_int \<lfloor>log 10 \<bar>a\<bar>\<rfloor>\<rfloor>)
      | _ \<Rightarrow> NaN)"

definition getFitPos :: "view \<Rightarrow> place option" where
  "getFitPos v =
     (if content v = None \<or> \<not> num_truthy (img_w v) \<and> \<not> num_truthy (img_h v) then None
      else
        let margin = (case margin v of MNum m \<Rightarrow> [m, m] | MList ms \<Rightarrow> ms);
            margin = (if length margin = 2 then [margin ! 0, margin ! 1, margin ! 0, margin ! 1] else margin);
            canvasWidth = parse_number (stage_w v) - (js_nth margin 1 + js_nth margin 3);
            canvasHeight = parse_number (stage_h v) - (js_nth margin 0 + js_nth margin 2);
            minRatio = Math_min (Math_min (Num 1) (canvasWidth / img_w v)) (canvasHeight / img_h v);
            width = Math_floor (minRatio * img_w v);
            height = Math_floor (minRatio * img_h v)
        in Some \<lparr>pl_top = Math_floor (half (canvasHeight - height)) + js_nth margin 0,
                 pl_left = Math_floor (half (canvasWidth - width)) + js_nth margin 3,
                 pl_width = width, pl_height = height\<rparr>)"

definition updateSlide :: "view \<Rightarrow> view" where
  \<comment> \<open>\<open>setTranslate\<close> does nothing with \<open>false\<close>\<close>
  "updateSlide v =
     (if content v \<noteq> None \<and> (num_truthy (img_w v) \<or> num_truthy (img_h v))
      then v\<lparr>animating := False, content := (case getFitPos v of None \<Rightarrow> content v | p \<Rightarrow> p)\<rparr> else v)"

subsection \<open>Zooming\<close>

definition isZoomable :: "view \<Rightarrow> bool" where
  "isZoomable v \<longleftrightarrow>
     \<not> closing v \<and> is_image v \<and> loaded v \<and> \<not> error v \<and> click_zooms v \<and>
     (case getFitPos v of None \<Rightarrow> False | Some f \<Rightarrow> pl_width f < img_w v \<or> pl_height f < img_h v)"

definition isScaledDown :: "view \<Rightarrow> bool" where
  "isScaledDown v = (case content v of None \<Rightarrow> False | Some p \<Rightarrow> pl_width p < img_w v \<or> pl_height p < img_h v)"

definition canPan :: "view \<Rightarrow> bool" where
  "canPan v =
     (case content v of
        None \<Rightarrow> False
      | Some p \<Rightarrow>
          (case getFitPos v of
             None \<Rightarrow> False
           | Some f \<Rightarrow> Num 1 < Math_abs (pl_width p - pl_width f) \<or> Num 1 < Math_abs (pl_height p - pl_height f)))"

datatype cursor_class = Zoomable | ZoomIn | Drag | ZoomOut

definition updateCursor :: "(jsnum \<times> jsnum) option \<Rightarrow> view \<Rightarrow> cursor_class list" where
  \<comment> \<open>the classes that the container gets\<close>
  "updateCursor following v =
     (if closing v then []
      else if isZoomable v then
        (let down = (case following of Some (w, h) \<Rightarrow> w < img_w v \<and> h < img_h v | None \<Rightarrow> isScaledDown v)
         in [Zoomable, if down then ZoomIn else if touch v then Drag else ZoomOut])
      else if touch v then [Drag] else [])"

definition clamp_to :: "jsnum \<Rightarrow> jsnum \<Rightarrow> jsnum \<Rightarrow> jsnum" where
  \<comment> \<open>the two tests that keep an edge of the image from coming into the canvas\<close>
  "clamp_to canvas len pos =
     (let pos = (if Num 0 < pos then Num 0 else pos) in if pos < canvas - len then canvas - len else pos)"

definition actual_offset :: "jsnum \<Rightarrow> jsnum \<Rightarrow> jsnum \<Rightarrow> jsnum \<Rightarrow> jsnum \<Rightarrow> jsnum" where
  \<comment> \<open>one direction of \<open>scaleToActual\<close>\<close>
  "actual_offset canvas new_size old_size old_pos x =
     (if canvas < new_size
      then clamp_to canvas new_size (old_pos * (new_size / old_size) - (x * (new_size / old_size) - x))
      else half canvas - half new_size)"

definition scaleToActual :: "jsnum option \<Rightarrow> jsnum option \<Rightarrow> view \<Rightarrow> view" where
  "scaleToActual x y v =
     (case content v of
        None \<Rightarrow> v
      | Some p \<Rightarrow>
          if \<not> (is_image v \<and> \<not> error v) \<or> animating v then v
          else
            let x = (case x of None \<Rightarrow> half (parse_number (slide_w v)) | Some a \<Rightarrow> a);
                y = (case y of None \<Rightarrow> half (parse_number (slide_h v)) | Some a \<Rightarrow> a)
            in v\<lparr>animating := True,
                 content := Some \<lparr>pl_top = actual_offset (parse_number (slide_h v)) (img_h v) (pl_height p) (pl_top p) y,
                                  pl_left = actual_offset (parse_number (slide_w v)) (img_w v) (pl_width p) (pl_left p) x,
                                  pl_width = Math_round (pl_width p * (img_w v / pl_width p)),
                                  pl_height = Math_round (pl_height p * (img_h v / pl_height p))\<rparr>\<rparr>)"

definition scaleToFit :: "view \<Rightarrow> view" where
  "scaleToFit v =
     (case content v of
        None \<Rightarrow> v
      | Some p \<Rightarrow>
          if \<not> (is_image v \<and> \<not> error v) \<or> animating v then v
          else
            (case getFitPos v of
               None \<Rightarrow> v\<lparr>animating := True\<rparr>
             | Some f \<Rightarrow> v\<lparr>animating := True, content := Some (f\<lparr>pl_width := Math_round (pl_width p * (pl_width f / pl_width p)),
                                                                pl_height := Math_round (pl_height p * (pl_height f / pl_height p))\<rparr>)\<rparr>))"

subsection \<open>Panning and pinching\<close>

fun pow_08 :: "jsnum \<Rightarrow> jsnum" where
  \<comment> \<open>\<open>Math.pow(x, 0.8)\<close>\<close>
  "pow_08 (Num a) = (if a < 0 then NaN else Num (a powr 0.8))"
| "pow_08 Infinity = Infinity"
| "pow_08 NegInfinity = Infinity"
| "pow_08 NaN = NaN"

definition or_zero :: "jsnum \<Rightarrow> jsnum" where
  "or_zero x = (if num_truthy x then x else Num 0)"

definition sticky :: "jsnum \<Rightarrow> jsnum \<Rightarrow> jsnum \<Rightarrow> jsnum \<Rightarrow> jsnum \<Rightarrow> jsnum" where
  \<comment> \<open>one direction of \<open>limitMovement\<close>\<close>
  "sticky canvas len start distance offset =
     (let lo = Math_max (Num 0) (half canvas - half len);
          hi = Math_min (canvas - len) (half canvas - half len) in
      if canvas < len then
        let offset = (if Num 0 < distance \<and> lo < offset then or_zero (lo - Num 1 + pow_08 (- lo + start + distance)) else offset)
        in (if distance < Num 0 \<and> offset < hi then or_zero (hi + Num 1 - pow_08 (hi - start - distance)) else offset)
      else offset)"

definition limit :: "jsnum \<Rightarrow> jsnum \<Rightarrow> jsnum \<Rightarrow> jsnum" where
  \<comment> \<open>one direction of \<open>limitPosition\<close>\<close>
  "limit canvas len offset =
     (if canvas < len then clamp_to canvas len offset else Math_max (Num 0) (canvas / Num 2 - len / Num 2))"

definition limitPosition :: "jsnum \<Rightarrow> jsnum \<Rightarrow> jsnum \<Rightarrow> jsnum \<Rightarrow> jsnum \<Rightarrow> jsnum \<Rightarrow> jsnum \<times> jsnum" where
  "limitPosition canvasWidth canvasHeight newOffsetX newOffsetY newWidth newHeight =
     (limit canvasWidth newWidth newOffsetX, limit canvasHeight newHeight newOffsetY)"

definition limitMovement :: "jsnum \<Rightarrow> jsnum \<Rightarrow> place \<Rightarrow> jsnum \<Rightarrow> jsnum \<Rightarrow> jsnum \<Rightarrow> jsnum \<Rightarrow> jsnum \<Rightarrow> jsnum \<Rightarrow> jsnum \<times> jsnum" where
  "limitMovement canvasWidth canvasHeight start distanceX distanceY newOffsetX newOffsetY newWidth newHeight =
     (sticky canvasWidth newWidth (pl_left start) distanceX newOffsetX,
      sticky canvasHeight newHeight (pl_top start) distanceY newOffsetY)"

definition pan_offsets :: "jsnum \<Rightarrow> jsnum \<Rightarrow> place \<Rightarrow> jsnum \<Rightarrow> jsnum \<Rightarrow> jsnum \<times> jsnum" where
  \<comment> \<open>\<open>onPan\<close>\<close>
  "pan_offsets canvasWidth canvasHeight start distanceX distanceY =
     limitMovement canvasWidth canvasHeight start distanceX distanceY
       (if canvasWidth < pl_width start then pl_left start + distanceX else pl_left start)
       (pl_top start + distanceY) (pl_width start) (pl_height start)"

definition pinch :: "jsnum \<Rightarrow> jsnum \<Rightarrow> jsnum \<Rightarrow> jsnum \<Rightarrow> jsnum \<Rightarrow> jsnum \<times> jsnum" where
  \<comment> \<open>one direction of \<open>onZoom\<close>: the new size and the new offset\<close>
  "pinch pinchRatio len offset centerStart centerEnd =
     (let percentage = (centerStart - offset) / len;
          newSize = Math_floor (len * pinchRatio)
      in (newSize, offset + ((len - newSize) * percentage + (centerEnd - centerStart))))"

subsection \<open>Finite values\<close>

lemma half_Num [simp]: "half (Num a) = Num (a / 2)"
  by (simp add: half_def)

lemma clamp_to_Num: "clamp_to (Num c) (Num s) (Num a) = Num (max (c - s) (min 0 a))"
  by (simp add: clamp_to_def Let_def)

lemma limit_Num:
  "limit (Num c) (Num s) (Num a) = Num (if c < s then max (c - s) (min 0 a) else (c - s) / 2)"
  by (simp add: limit_def clamp_to_Num diff_divide_distrib)

lemma actual_Num:
  "w \<noteq> 0 \<Longrightarrow> actual_offset (Num c) (Num s) (Num w) (Num a) (Num x) =
    Num (if c < s then max (c - s) (min 0 (x - (x - a) * (s / w))) else (c - s) / 2)"
  by (simp add: actual_offset_def clamp_to_Num diff_divide_distrib) (simp add: algebra_simps diff_divide_distrib)

lemma or_zero_Num [simp]: "or_zero (Num a) = Num a"
  by (simp add: or_zero_def num_truthy_def)

lemma sticky_Num:
  assumes "c < s"
  shows "sticky (Num c) (Num s) (Num a) (Num d) (Num (a + d)) =
    Num (if d > 0 \<and> a + d > 0 then (a + d) powr 0.8 - 1
         else if d < 0 \<and> a + d < c - s then c - s + 1 - (c - s - a - d) powr 0.8 else a + d)"
proof -
  have lo: "max 0 (c / 2 - s / 2) = 0" and hi: "min (c - s) (c / 2 - s / 2) = c - s" using assms by auto
  have "a + d > 0 \<Longrightarrow> \<not> a + d < c - s" using assms by simp
  then show ?thesis using assms by (auto simp: sticky_def Let_def lo hi algebra_simps)
qed

lemma parse_number_Num: "1 \<le> a \<Longrightarrow> a < 10 ^ 21 \<Longrightarrow> parse_number (Num a) = Num (of_int \<lfloor>a\<rfloor>)"
  by (simp add: parse_number_def)

subsection \<open>Properties\<close>

text \<open>
  C12.  The image is fitted into the stage within its margins, given as one number, as two or as four: scaled by
  one factor, at most 1, which is the largest for which it fits into the whole pixels of the stage, and
  rounded down.  (The stage is at least one pixel wide and high.)
\<close>

theorem fit_pos_fits:
  assumes "content v \<noteq> None" and "img_w v = Num iw" and "img_h v = Num ih" and "iw > 0" and "ih > 0"
    and "stage_w v = Num sw" and "stage_h v = Num sh" and "1 \<le> sw \<and> sw < 10 ^ 21" and "1 \<le> sh \<and> sh < 10 ^ 21"
    and "margin v = MNum (Num t) \<and> r = t \<and> b = t \<and> l = t \<or> margin v = MList [Num t, Num r] \<and> b = t \<and> l = r \<or>
      margin v = MList [Num t, Num r, Num b, Num l]"
  shows "\<exists>x y w h k. getFitPos v = Some \<lparr>pl_top = Num y, pl_left = Num x, pl_width = Num w, pl_height = Num h\<rparr> \<and>
    w = of_int \<lfloor>k * iw\<rfloor> \<and> h = of_int \<lfloor>k * ih\<rfloor> \<and> k \<le> 1 \<and>
    (k = 1 \<or> k * iw = of_int \<lfloor>sw\<rfloor> - (r + l) \<or> k * ih = of_int \<lfloor>sh\<rfloor> - (t + b)) \<and>
    l \<le> x \<and> x + w \<le> sw - r \<and> t \<le> y \<and> y + h \<le> sh - b"
proof -
  define cw where "cw = of_int \<lfloor>sw\<rfloor> - (r + l)"
  define ch where "ch = of_int \<lfloor>sh\<rfloor> - (t + b)"
  define k where "k = min (min 1 (cw / iw)) (ch / ih)"
  define w where "w = real_of_int \<lfloor>k * iw\<rfloor>"
  define h where "h = real_of_int \<lfloor>k * ih\<rfloor>"
  define x where "x = real_of_int \<lfloor>(cw - w) / 2\<rfloor> + l"
  define y where "y = real_of_int \<lfloor>(ch - h) / 2\<rfloor> + t"
  have p: "parse_number (stage_w v) = Num (of_int \<lfloor>sw\<rfloor>)" "parse_number (stage_h v) = Num (of_int \<lfloor>sh\<rfloor>)"
    using assms(6-9) by (simp_all add: parse_number_Num)
  have m: "(let ms = case margin v of MNum m \<Rightarrow> [m, m] | MList ms \<Rightarrow> ms
       in if length ms = 2 then [ms ! 0, ms ! 1, ms ! 0, ms ! 1] else ms) = [Num t, Num r, Num b, Num l]"
    using assms(10) by auto
  have fit: "getFitPos v = Some \<lparr>pl_top = Num y, pl_left = Num x, pl_width = Num w, pl_height = Num h\<rparr>"
    using assms(1-5) m
    by (simp add: getFitPos_def Let_def num_truthy_def js_nth_def p x_def y_def w_def h_def k_def cw_def ch_def)
  have k: "k \<le> 1" "k \<le> cw / iw" "k \<le> ch / ih" by (simp_all add: k_def)
  have max: "k = 1 \<or> k * iw = cw \<or> k * ih = ch" using assms(4,5) by (auto simp: k_def min_def)
  have "k * iw \<le> cw" "k * ih \<le> ch" using k(2,3) assms(4,5) by (simp_all add: pos_le_divide_eq)
  then have w: "w \<le> cw" "h \<le> ch" by (auto simp: w_def h_def intro: order_trans [OF of_int_floor_le])
  have low: "l \<le> x" "t \<le> y" using w by (simp_all add: x_def y_def)
  have "x + w \<le> cw + l" "y + h \<le> ch + t"
    using w of_int_floor_le [of "(cw - w) / 2"] of_int_floor_le [of "(ch - h) / 2"] by (simp_all add: x_def y_def)
  then have high: "x + w \<le> sw - r" "y + h \<le> sh - b"
    using of_int_floor_le [of sw] of_int_floor_le [of sh] unfolding cw_def ch_def by linarith+
  show ?thesis
    using fit k(1) max low high w_def h_def unfolding cw_def ch_def by blast
qed

definition sample_view :: view where
  \<comment> \<open>an image of 3000 by 2000 pixels on a stage of 1280 by 720 with the margin that is the default\<close>
  "sample_view = \<lparr>is_image = True, loaded = True, error = False, click_zooms = True, touch = True, margin = MList [Num 44, Num 0],
     stage_w = Num 1280, stage_h = Num 720, slide_w = Num 1280, slide_h = Num 720, img_w = Num 3000, img_h = Num 2000,
     content = Some \<lparr>pl_top = Num 44, pl_left = Num 166, pl_width = Num 948, pl_height = Num 632\<rparr>, animating = False, closing = False\<rparr>"

lemma sample_fits: "getFitPos sample_view = content sample_view"
  by (simp add: getFitPos_def sample_view_def num_truthy_def js_nth_def Let_def parse_number_Num)

theorem fit_pos_fits_witness:
  "getFitPos sample_view = Some \<lparr>pl_top = Num 44, pl_left = Num 166, pl_width = Num 948, pl_height = Num 632\<rparr> \<and>
   166 + 948 \<le> (1280 :: real)"
proof -
  have f: "content sample_view \<noteq> None" "img_w sample_view = Num 3000" "img_h sample_view = Num 2000" "stage_w sample_view = Num 1280"
      "stage_h sample_view = Num 720" and m: "margin sample_view = MList [Num 44, Num 0]"
    by (simp_all add: sample_view_def)
  have fit: "getFitPos sample_view = Some \<lparr>pl_top = Num 44, pl_left = Num 166, pl_width = Num 948, pl_height = Num 632\<rparr>"
    by (simp only: sample_fits) (simp add: sample_view_def)
  have "\<exists>x y w h. getFitPos sample_view = Some \<lparr>pl_top = Num y, pl_left = Num x, pl_width = Num w, pl_height = Num h\<rparr> \<and>
      x + w \<le> 1280 - 0"
    using fit_pos_fits [OF f(1-3) _ _ f(4,5), of 44 0 44 0] m by auto
  then show ?thesis unfolding fit by simp
qed

text \<open>A click on a fitted image that can be zoomed shows it at its actual size; the cursor says so before and after.\<close>

lemma cursor_before_zoom:
  assumes "isZoomable v" and "getFitPos v = content v"
  shows "updateCursor None v = [Zoomable, ZoomIn]"
  using assms by (auto simp: updateCursor_def isZoomable_def isScaledDown_def split: option.splits)

lemma between_clamp: "(c :: real) < s \<Longrightarrow> c - s < max (c - s) (min 0 b) \<Longrightarrow> max (c - s) (min 0 b) < 0 \<Longrightarrow> max (c - s) (min 0 b) = b"
  by (auto simp: max_def min_def split: if_splits)

text \<open>
  Zooming to the actual size leaves no gap between an edge of the image and that of the slide, or
  centres an image that is smaller; the point that was clicked stays where it is unless an edge is in the
  way, and the image gets its own size.
\<close>

theorem zoom_covers:
  assumes "content v = Some \<lparr>pl_top = Num b, pl_left = Num a, pl_width = Num w, pl_height = Num h\<rparr>"
    and "w \<noteq> 0" and "h \<noteq> 0" and "is_image v" and "\<not> error v" and "\<not> animating v"
    and "slide_w v = Num cw'" and "slide_h v = Num ch'" and "1 \<le> cw' \<and> cw' < 10 ^ 21" and "1 \<le> ch' \<and> ch' < 10 ^ 21"
    and "cw = real_of_int \<lfloor>cw'\<rfloor>" and "ch = real_of_int \<lfloor>ch'\<rfloor>" and "img_w v = Num (of_int iw)" and "img_h v = Num (of_int ih)"
  shows "\<exists>p q. content (scaleToActual (Some (Num x)) (Some (Num y)) v) =
      Some \<lparr>pl_top = Num q, pl_left = Num p, pl_width = Num (of_int iw), pl_height = Num (of_int ih)\<rparr> \<and>
    (if cw < iw then cw - iw \<le> p \<and> p \<le> 0 \<and> (cw - iw < p \<and> p < 0 \<longrightarrow> (x - p) * w = (x - a) * iw) else p + iw + p = cw) \<and>
    (if ch < ih then ch - ih \<le> q \<and> q \<le> 0 \<and> (ch - ih < q \<and> q < 0 \<longrightarrow> (y - q) * h = (y - b) * ih) else q + ih + q = ch)"
proof -
  define off where "off c s l d z = (if c < s then max (c - s) (min 0 (z - (z - d) * (s / l))) else (c - s) / 2)" for c s l d z :: real
  have off: "if c < s then c - s \<le> off c s l d z \<and> off c s l d z \<le> 0 \<and>
        (c - s < off c s l d z \<and> off c s l d z < 0 \<longrightarrow> (z - off c s l d z) * l = (z - d) * s)
      else off c s l d z + s + off c s l d z = c" if "l \<noteq> 0" for c s l d z :: real
  proof (cases "c < s")
    case True
    then have "c - s < off c s l d z \<Longrightarrow> off c s l d z < 0 \<Longrightarrow> off c s l d z = z - (z - d) * (s / l)"
      using between_clamp [OF True] by (simp add: off_def)
    then show ?thesis using True that by (auto simp: off_def)
  qed (simp add: off_def)
  have round: "Math_round (Num (of_int k)) = Num (of_int k)" for k :: int by (simp add: Math_round_def)
  have "content (scaleToActual (Some (Num x)) (Some (Num y)) v) =
      Some \<lparr>pl_top = Num (off ch ih h b y), pl_left = Num (off cw iw w a x), pl_width = Num (of_int iw), pl_height = Num (of_int ih)\<rparr>"
    using assms by (simp add: scaleToActual_def actual_Num off_def round parse_number_Num)
  with off [OF assms(2), of cw iw a x] off [OF assms(3), of ch ih b y] show ?thesis by blast
qed

theorem zoom_covers_witness:
  "\<exists>p q. content (scaleToActual (Some (Num 640)) (Some (Num 360)) sample_view) =
      Some \<lparr>pl_top = Num q, pl_left = Num p, pl_width = Num 3000, pl_height = Num 2000\<rparr> \<and>
    (- 1720 < p \<and> p < 0 \<longrightarrow> (640 - p) * 948 = (640 - 166) * 3000)"
proof -
  have f: "content sample_view = Some \<lparr>pl_top = Num 44, pl_left = Num 166, pl_width = Num 948, pl_height = Num 632\<rparr>"
    "is_image sample_view" "\<not> error sample_view" "\<not> animating sample_view" "slide_w sample_view = Num 1280"
    "slide_h sample_view = Num 720" "img_w sample_view = Num (of_int 3000)" "img_h sample_view = Num (of_int 2000)"
    by (simp_all add: sample_view_def)
  show ?thesis
    using zoom_covers [OF f(1) _ _ f(2-6) _ _ refl refl f(7,8), of 640 360] by auto
qed

text \<open>
  A pinch keeps the point of the image that is between the two fingers there, wherever they move.
\<close>

theorem pinch_keeps_point:
  assumes "w \<noteq> 0"
  shows "\<exists>w' p. pinch (Num r) (Num w) (Num a) (Num x) (Num x') = (Num (of_int w'), Num p) \<and>
    w' = \<lfloor>w * r\<rfloor> \<and> p + (x - a) / w * w' = x'"
  using assms by (simp add: pinch_def) (simp add: field_simps)

theorem pinch_keeps_point_witness:
  "pinch (Num 2) (Num 100) (Num 10) (Num 60) (Num 70) = (Num 200, Num (-30))"
proof -
  obtain w' p where "pinch (Num 2) (Num 100) (Num 10) (Num 60) (Num 70) = (Num (of_int w'), Num p)"
    "w' = \<lfloor>100 * 2 :: real\<rfloor>" "p + (60 - 10) / 100 * w' = 70"
    using pinch_keeps_point [of 100 2 10 60 70] by auto
  then show ?thesis by simp
qed

lemma limit_facts:
  obtains p where "limit (Num c) (Num s) (Num a) = Num p" "limit (Num c) (Num s) (Num p) = Num p"
    "c < s \<Longrightarrow> c - s \<le> p \<and> p \<le> 0" "s \<le> c \<Longrightarrow> p + s + p = c"
  using that [of "if c < s then max (c - s) (min 0 a) else (c - s) / 2"]
  by (auto simp: limit_Num)

text \<open>An image that is dragged past its edge follows the finger less and less, and it is never ahead of it.\<close>

lemma powr_less: "x > 0 \<Longrightarrow> x powr 0.8 - 1 < (x :: real)"
proof (cases "x < 1")
  case True
  assume "x > 0"
  with True have "x powr 0.8 \<le> 1" by (intro powr_le1) auto
  with \<open>x > 0\<close> show ?thesis by simp
next
  case False
  then have "x powr 0.8 \<le> x powr 1" by (intro powr_mono) auto
  with False show ?thesis by simp
qed

lemma drag_resists:
  assumes "c < s"
  obtains p where "sticky (Num c) (Num s) (Num a) (Num d) (Num (a + d)) = Num p"
    "\<lbrakk>d > 0; a + d > 0\<rbrakk> \<Longrightarrow> - 1 < p \<and> p < a + d" "\<lbrakk>d < 0; a + d < c - s\<rbrakk> \<Longrightarrow> a + d < p \<and> p < c - s + 1"
    "\<lbrakk>c - s \<le> a + d; a + d \<le> 0\<rbrakk> \<Longrightarrow> p = a + d"
proof -
  define p where "p = (if d > 0 \<and> a + d > 0 then (a + d) powr 0.8 - 1
         else if d < 0 \<and> a + d < c - s then c - s + 1 - (c - s - a - d) powr 0.8 else a + d)"
  have "\<lbrakk>d > 0; a + d > 0\<rbrakk> \<Longrightarrow> - 1 < p \<and> p < a + d" using powr_less [of "a + d"] by (simp add: p_def)
  moreover have "\<lbrakk>d < 0; a + d < c - s\<rbrakk> \<Longrightarrow> a + d < p \<and> p < c - s + 1"
    using powr_less [of "c - s - a - d"] by (simp add: p_def)
  moreover have "\<lbrakk>c - s \<le> a + d; a + d \<le> 0\<rbrakk> \<Longrightarrow> p = a + d" by (simp add: p_def)
  ultimately show thesis using that sticky_Num [OF assms] by (simp add: p_def)
qed

end
