(* ===== verification/Fancybox_Touch.thy ===== *)
theory Fancybox_Touch
  imports Fancybox_Slides Fancybox_Geometry
begin

section \<open>jquery.fancybox.js: gestures\<close>

text \<open>
  The module \<open>Guestures\<close> over the gallery and the place of the content: what a touch (or a press of the
  mouse button) begins, its moves, its end, and taps.  The points are those that \<open>pointers\<close> finds in an
  event.  Where slides are drawn while they are dragged is computed but not kept, so that \<open>jumpTo\<close> gets
  the argument \<open>dragged\<close> from the event; a second mouse button is left out.
\<close>

subsection \<open>The state\<close>

datatype swipe = NoSwipe | Undecided | SwipeX | SwipeY

datatype vertical = Never | Always | Auto

record touch_opts =
  vertical :: vertical
  momentum :: bool

datatype action = DoNothing | CloseIt | ToggleControls | GoNext | NextOrClose | Zoom

datatype spot = Outside | Slide | Content

text \<open>The options of a slide that gestures read, functions among them replaced by what they return.\<close>

record gesture_opts =
  touch_of :: "touch_opts option"
  click :: "spot \<Rightarrow> action"
  dblclick :: "spot \<Rightarrow> action"

type_synonym point = "real \<times> real"

record touch_state =
  gal :: gallery
  sight :: view
  hidden_controls :: bool
  handlers :: bool
  canTap :: bool
  opts :: "touch_opts option"
  swiping :: swipe
  panning :: bool
  zooming :: bool
  on_stage :: bool
  startPoints :: "point list"
  newPoints :: "point list"
  dist_x :: real
  dist_y :: real
  startTime :: real
  canvas_w :: jsnum
  canvas_h :: jsnum
  sliderStart :: point
  sliderLast :: "point option"
  contentStart :: "place option"
  contentLast :: "place option"
  pinched :: "jsnum \<times> jsnum"
  centerStart :: point
  tapped :: "(action \<times> int \<times> view) option"
  tapAt :: point

text \<open>What the page has for a position: the content of the slide when it is gone to, and its options.\<close>

record page =
  views :: "int \<Rightarrow> view"
  gestures :: "int \<Rightarrow> gesture_opts"

definition touch_start_state :: "page \<Rightarrow> gallery \<Rightarrow> touch_state" where
  "touch_start_state pg g =
     \<lparr>gal = g, sight = views pg (currPos g), hidden_controls = False, handlers = False, canTap = False, opts = None,
      swiping = NoSwipe, panning = False, zooming = False, on_stage = False, startPoints = [], newPoints = [],
      dist_x = 0, dist_y = 0, startTime = 0, canvas_w = Num 0, canvas_h = Num 0, sliderStart = (0, 0), sliderLast = None,
      contentStart = None, contentLast = None, pinched = (NaN, NaN), centerStart = (0, 0), tapped = None, tapAt = (0, 0)\<rparr>"

definition current_slide :: "touch_state \<Rightarrow> fslide option" where
  "current_slide t = (case current (gal t) of None \<Rightarrow> None | Some p \<Rightarrow> slides (gal t) p)"

definition seen :: "touch_state \<Rightarrow> view" where
  \<comment> \<open>the view of the current slide, with what the gallery knows of it\<close>
  "seen t =
     (let v = (sight t)\<lparr>animating := isAnimating (gal t), closing := isClosing (gal t)\<rparr> in
      case current_slide t of
        None \<Rightarrow> v
      | Some s \<Rightarrow> v\<lparr>is_image := item_type (item s) = Image, loaded := isLoaded s, error := hasError s\<rparr>)"

definition on_gal :: "page \<Rightarrow> (gallery \<Rightarrow> gallery) \<Rightarrow> touch_state \<Rightarrow> touch_state" where
  "on_gal pg f t =
     (let g = f (gal t) in
      t\<lparr>gal := g, sight := (if currPos g = currPos (gal t) then sight t else views pg (currPos g))\<rparr>)"

definition on_view :: "(view \<Rightarrow> view) \<Rightarrow> touch_state \<Rightarrow> touch_state" where
  "on_view f t =
     (let v = f (seen t) in t\<lparr>sight := v, gal := (gal t)\<lparr>isAnimating := animating v\<rparr>\<rparr>)"

subsection \<open>The beginning of a touch\<close>

definition dist_in :: "(point \<Rightarrow> real) \<Rightarrow> point list \<Rightarrow> point list \<Rightarrow> real" where
  \<comment> \<open>\<open>distance\<close> of the first points in one direction\<close>
  "dist_in d ps qs = (case (ps, qs) of (p # _, q # _) \<Rightarrow> d p - d q | _ \<Rightarrow> 0)"

definition point_distance :: "point \<Rightarrow> point \<Rightarrow> real" where
  "point_distance p q = sqrt ((fst p - fst q) ^ 2 + (snd p - snd q) ^ 2)"

definition middle :: "point list \<Rightarrow> point \<Rightarrow> point" where
  "middle ps scrolled =
     (((fst (ps ! 0) + fst (ps ! 1)) / 2) - fst scrolled, ((snd (ps ! 0) + snd (ps ! 1)) / 2) - snd scrolled)"

text \<open>\<open>ignored\<close>: a right click, a link or a button, or the scrollbar.\<close>

record touch_event =
  points :: "point list"
  ignored :: bool
  target_on_stage :: bool
  scrollable :: bool
  scroll :: point
  time :: real
  wide :: bool

definition wants_moves :: "touch_state \<Rightarrow> bool" where
  "wants_moves t \<longleftrightarrow> opts t \<noteq> None \<or> canPan (seen t)"

definition begin_touch :: "touch_event \<Rightarrow> touch_state \<Rightarrow> touch_state" where
  \<comment> \<open>the second half of \<open>ontouchstart\<close>\<close>
  "begin_touch e t =
     (let v = seen t;
          t = t\<lparr>canvas_w := Math_round (slide_w v), canvas_h := Math_round (slide_h v), startTime := time e,
                dist_x := 0, dist_y := 0, panning := False, swiping := NoSwipe, zooming := False,
                sliderStart := (case sliderLast t of None \<Rightarrow> (0, 0) | Some p \<Rightarrow> p),
                contentStart := content v, contentLast := None\<rparr>;
          large = (case contentStart t of
                     None \<Rightarrow> False
                   | Some p \<Rightarrow> canvas_w t + Num 1 < pl_width p \<or> canvas_h t + Num 1 < pl_height p);
          t = (if length (points e) = 1
               then (if is_image v \<and> large then t\<lparr>canTap := \<not> isSliding (gal t), panning := True\<rparr>
                     else t\<lparr>canTap := \<not> isSliding (gal t), swiping := Undecided\<rparr>)
               else t);
          ghost = (case current_slide t of None \<Rightarrow> False | Some s \<Rightarrow> ghost s)
      in if length (points e) = 2 \<and> \<not> isAnimating (gal t) \<and> \<not> error v \<and> is_image v \<and> (loaded v \<or> ghost)
         then t\<lparr>zooming := True, swiping := NoSwipe, panning := False, centerStart := middle (points e) (scroll e)\<rparr>
         else t)"

definition ontouchstart :: "page \<Rightarrow> touch_event \<Rightarrow> touch_state \<Rightarrow> touch_state" where
  "ontouchstart pg e t =
     (if current (gal t) = None \<or> isAnimating (gal t) \<or> isClosing (gal t) then t
      else if ignored e then t
      else
        let t = t\<lparr>startPoints := points e\<rparr> in
        if length (points e) > 1 \<and> isSliding (gal t) then t
        else
          let t = t\<lparr>canTap := True, on_stage := target_on_stage e, handlers := True,
                    opts := touch_of (gestures pg (currPos (gal t)))\<rparr>
          in if \<not> wants_moves t \<or> \<not> on_stage t then t else begin_touch e t)"

subsection \<open>Moves\<close>

definition swipe_direction :: "bool \<Rightarrow> touch_state \<Rightarrow> swipe" where
  "swipe_direction is_wide t =
     (let vert = (case opts t of None \<Rightarrow> None | Some p \<Rightarrow> Some (touch_opts.vertical p)) in
      if groupLen (gal t) < 2 \<and> (vert = Some Always \<or> vert = Some Auto) then SwipeY
      else if isSliding (gal t) \<or> vert = Some Never \<or> vert = Some Auto \<and> is_wide then SwipeX
      else
        let angle = Math_abs (Math_atan2 (Num (dist_y t)) (Num (dist_x t)) * Num (180 / pi))
        in if Num 45 < angle \<and> angle < Num 135 then SwipeY else SwipeX)"

definition at_end :: "bool \<Rightarrow> touch_state \<Rightarrow> bool" where
  \<comment> \<open>there is no item before (after) the current one\<close>
  "at_end after t =
     (let g = gal t; l = (case current_slide t of None \<Rightarrow> False | Some s \<Rightarrow> loop (item s)) in
      groupLen g < 2 \<or> (currIndex g = (if after then groupLen g - 1 else 0) \<and> \<not> l))"

definition onSwipe :: "bool \<Rightarrow> real \<Rightarrow> touch_state \<Rightarrow> touch_state" where
  \<comment> \<open>\<open>slide_left\<close>: where the current slide is drawn\<close>
  "onSwipe is_wide slide_left t =
     (if swiping t = Undecided then
        (if sqrt (dist_x t ^ 2 + dist_y t ^ 2) > 10
         then t\<lparr>canTap := False, swiping := swipe_direction is_wide t, gal := (gal t)\<lparr>isSliding := True\<rparr>,
                startPoints := newPoints t, sliderStart := (slide_left, snd (sliderStart t))\<rparr>
         else t)
      else
        let left = fst (sliderStart t);
            left = (if swiping t = SwipeX then
                      (if dist_x t > 0 \<and> at_end False t then left + dist_x t powr 0.8
                       else if dist_x t < 0 \<and> at_end True t then left - (- dist_x t) powr 0.8
                       else left + dist_x t)
                    else left)
        in t\<lparr>sliderLast := Some (left, if swiping t = SwipeX then 0 else snd (sliderStart t) + dist_y t)\<rparr>)"

definition onPan :: "touch_state \<Rightarrow> touch_state" where
  "onPan t =
     (case contentStart t of
        None \<Rightarrow> t
      | Some p \<Rightarrow>
          let (x, y) = pan_offsets (canvas_w t) (canvas_h t) p (Num (dist_x t)) (Num (dist_y t))
          in t\<lparr>canTap := False, contentLast := Some (p\<lparr>pl_left := x, pl_top := y\<rparr>)\<rparr>)"

definition onZoom :: "point \<Rightarrow> touch_state \<Rightarrow> touch_state" where
  \<comment> \<open>without two points the handler fails before it changes anything\<close>
  "onZoom scrolled t =
     (case (contentStart t, newPoints t) of
        (Some p, a # b # _) \<Rightarrow>
          let ratio = Num (point_distance a b) / Num (point_distance (startPoints t ! 0) (startPoints t ! 1));
              c = middle (newPoints t) scrolled;
              (w, x) = pinch ratio (pl_width p) (pl_left p) (Num (fst (centerStart t))) (Num (fst c));
              (h, y) = pinch ratio (pl_height p) (pl_top p) (Num (snd (centerStart t))) (Num (snd c))
          in t\<lparr>canTap := False, pinched := (w, h), contentLast := Some (p\<lparr>pl_left := x, pl_top := y\<rparr>)\<rparr>
      | _ \<Rightarrow> t)"

definition ontouchmove :: "touch_event \<Rightarrow> real \<Rightarrow> touch_state \<Rightarrow> touch_state" where
  "ontouchmove e slide_left t =
     (if \<not> handlers t then t
      else
        let t = t\<lparr>newPoints := points e\<rparr> in
        if scrollable e then t\<lparr>canTap := False\<rparr>
        else if \<not> wants_moves t \<or> points e = [] then t
        else
          let t = t\<lparr>dist_x := dist_in fst (newPoints t) (startPoints t), dist_y := dist_in snd (newPoints t) (startPoints t)\<rparr> in
          if sqrt (dist_x t ^ 2 + dist_y t ^ 2) > 0 \<and> on_stage t then
            (if swiping t \<noteq> NoSwipe then onSwipe (wide e) slide_left t
             else if panning t then onPan t
             else if zooming t then onZoom (scroll e) t
             else t)
          else t)"

subsection \<open>The end of a touch\<close>

definition endPanning :: "real \<Rightarrow> real \<Rightarrow> touch_state \<Rightarrow> touch_state" where
  "endPanning velocityX velocityY t =
     (case (contentLast t, contentStart t) of
        (Some l, Some p) \<Rightarrow>
          let still = (case opts t of None \<Rightarrow> False | Some to \<Rightarrow> \<not> momentum to);
              x = (if still then pl_left l else pl_left l + Num (velocityX * 366));
              y = (if still then pl_top l else pl_top l + Num (velocityY * 366));
              (x, y) = limitPosition (canvas_w t) (canvas_h t) x y (pl_width p) (pl_height p)
          in on_view (\<lambda>v. v\<lparr>content := Some \<lparr>pl_top = y, pl_left = x, pl_width = pl_width p, pl_height = pl_height p\<rparr>\<rparr>) t
      | _ \<Rightarrow> t)"

definition endZooming :: "touch_state \<Rightarrow> touch_state" where
  \<comment> \<open>where both scalings begin, the content is where the pinch has left it\<close>
  "endZooming t =
     (case contentLast t of
        None \<Rightarrow> t
      | Some l \<Rightarrow>
          let (w, h) = pinched t;
              reset = l\<lparr>pl_width := w, pl_height := h\<rparr>;
              t = on_view (\<lambda>v. v\<lparr>content := Some reset\<rparr>) t
          in if w < canvas_w t \<and> h < canvas_h t then on_view scaleToFit t
             else if img_w (sight t) < w \<or> img_h (sight t) < h
             then on_view (scaleToActual (Some (Num (fst (centerStart t)))) (Some (Num (snd (centerStart t))))) t
             else
               let (x, y) = limitPosition (canvas_w t) (canvas_h t) (pl_left l) (pl_top l) w h
               in on_view (\<lambda>v. v\<lparr>content := Some (reset\<lparr>pl_left := x, pl_top := y\<rparr>)\<rparr>) t)"

text \<open>\<open>jumpTo\<close> returns \<open>false\<close> at the ends of a gallery that does not loop, and nothing otherwise.\<close>

definition jump_refused :: "int \<Rightarrow> gallery \<Rightarrow> bool" where
  "jump_refused p g \<longleftrightarrow>
     \<not> (isSliding g \<or> isClosing g \<or> isAnimating g \<and> firstRun g = Some True) \<and>
     \<not> loops g \<and> (p < 0 \<or> p \<ge> groupLen g)"

definition endSwiping :: "page \<Rightarrow> bool \<Rightarrow> bool \<Rightarrow> int \<Rightarrow> swipe \<Rightarrow> touch_state \<Rightarrow> touch_state" where
  \<comment> \<open>\<open>speed\<close>: the duration of the animation, which is not 0\<close>
  "endSwiping pg dragged prevented speed how t =
     (let t = t\<lparr>gal := (gal t)\<lparr>isSliding := False\<rparr>, sliderLast := None\<rparr>;
          g = gal t;
          (refused, t) =
            (if how = SwipeY \<and> \<bar>dist_y t\<bar> > 50
             then (isClosing g \<or> prevented, on_gal pg (close_gallery prevented) t)
             else if how = SwipeX \<and> dist_x t > 50 \<and> groupLen g > 1
             then (jump_refused (currPos g - 1) g, on_gal pg (previous_slide (Some speed) dragged) t)
             else if how = SwipeX \<and> dist_x t < - 50 \<and> groupLen g > 1
             then (jump_refused (currPos g + 1) g, on_gal pg (next_slide (Some speed) dragged) t)
             else (True, t))
      in if refused \<and> (how = SwipeX \<or> how = SwipeY)
         then on_gal pg (\<lambda>g. jumpTo (currIndex g) (Some 150) dragged g) t else t)"

text \<open>A tap: where it is, and whether it is a right click or on the scrollbar.\<close>

record tap =
  tap_at :: point
  tap_spot :: "spot option"
  tap_ignored :: bool

definition zoom_action :: "page \<Rightarrow> point \<Rightarrow> view \<Rightarrow> bool \<Rightarrow> bool \<Rightarrow> touch_state \<Rightarrow> touch_state" where
  "zoom_action pg xy v has_ghost prevented t =
     (if is_image v \<and> (loaded v \<or> has_ghost) then
        (if canPan (seen t) then on_view scaleToFit t
         else if isScaledDown (seen t) then on_view (scaleToActual (Some (Num (fst xy))) (Some (Num (snd xy)))) t
         else if groupLen (gal t) < 2 then on_gal pg (close_gallery prevented) t
         else t)
      else t)"

definition process :: "page \<Rightarrow> point \<Rightarrow> view \<Rightarrow> bool \<Rightarrow> action \<Rightarrow> touch_state \<Rightarrow> touch_state" where
  \<comment> \<open>\<open>v\<close>: the slide that was tapped\<close>
  "process pg xy v prevented a t =
     (case a of
        DoNothing \<Rightarrow> t
      | CloseIt \<Rightarrow> on_gal pg (close_gallery prevented) t
      | ToggleControls \<Rightarrow> t\<lparr>hidden_controls := \<not> hidden_controls t\<rparr>
      | GoNext \<Rightarrow> on_gal pg (next_slide None False) t
      | NextOrClose \<Rightarrow>
          if groupLen (gal t) > 1 then on_gal pg (next_slide None False) t
          else on_gal pg (close_gallery prevented) t
      | Zoom \<Rightarrow> zoom_action pg xy v (case current_slide t of None \<Rightarrow> False | Some s \<Rightarrow> ghost s) prevented t)"

definition onTap :: "page \<Rightarrow> tap \<Rightarrow> bool \<Rightarrow> touch_state \<Rightarrow> touch_state" where
  "onTap pg e prevented t =
     (case (current (gal t), tap_spot e) of
        (Some p, Some spot) \<Rightarrow>
          if tap_ignored e \<or> isSliding (gal t) then t
          else
            let gs = gestures pg p in
            (case tapped t of
               Some _ \<Rightarrow>
                 let t = t\<lparr>tapped := None\<rparr> in
                 if \<bar>fst (tap_at e) - fst (tapAt t)\<bar> > 50 \<or> \<bar>snd (tap_at e) - snd (tapAt t)\<bar> > 50 then t
                 else process pg (tap_at e) (seen t) prevented (dblclick gs spot) t
             | None \<Rightarrow>
                 let t = t\<lparr>tapAt := tap_at e\<rparr> in
                 if dblclick gs spot \<noteq> DoNothing \<and> dblclick gs spot \<noteq> click gs spot
                 then t\<lparr>tapped := Some (click gs spot, p, seen t)\<rparr>
                 else process pg (tap_at e) (seen t) prevented (click gs spot) t)
      | _ \<Rightarrow> t)"

definition tap_timer :: "page \<Rightarrow> bool \<Rightarrow> touch_state \<Rightarrow> touch_state" where
  \<comment> \<open>300 ms after a tap that may be the first of two\<close>
  "tap_timer pg prevented t =
     (case tapped t of
        None \<Rightarrow> t
      | Some (a, p, v) \<Rightarrow>
          let t = t\<lparr>tapped := None\<rparr>
          in process pg (tapAt t) (if current (gal t) = Some p then seen t else v) prevented a t)"

definition ontouchend :: "page \<Rightarrow> real \<Rightarrow> tap \<Rightarrow> bool \<Rightarrow> bool \<Rightarrow> touch_state \<Rightarrow> touch_state" where
  "ontouchend pg now e dragged prevented t =
     (if \<not> handlers t then t
      else
        let dMs = max (now - startTime t) 1;
            how = swiping t; pans = panning t; zooms = zooming t;
            t = t\<lparr>handlers := False, swiping := NoSwipe, panning := False, zooming := False\<rparr>
        in if canTap t then onTap pg e prevented t
           else
             let velocityX = dist_x t / dMs * 0.5;
                 velocityY = dist_y t / dMs * 0.5;
                 speedX = (if velocityX = 0 then 549 else max 183 (min 549 (1 / \<bar>velocityX\<bar> * 366)))
             in if pans then endPanning velocityX velocityY t
                else if zooms then endZooming t
                else endSwiping pg dragged prevented \<lfloor>speedX\<rfloor> how t)"

subsection \<open>Events\<close>

datatype touch_input =
    TouchStart touch_event
  | TouchMove touch_event real
  | TouchEnd real tap bool bool
  | TapTimer bool
  | ZoomEnds
  | InGallery gevent

fun gesture_event :: "gevent \<Rightarrow> bool" where
  \<comment> \<open>these two are what gestures do\<close>
  "gesture_event (Sliding b) = True"
| "gesture_event (Animating b) = True"
| "gesture_event e = False"

fun touch_step :: "page \<Rightarrow> touch_input \<Rightarrow> touch_state \<Rightarrow> touch_state" where
  "touch_step pg (TouchStart e) t = ontouchstart pg e t"
| "touch_step pg (TouchMove e slide_left) t = ontouchmove e slide_left t"
| "touch_step pg (TouchEnd now e dragged prevented) t = ontouchend pg now e dragged prevented t"
| "touch_step pg (TapTimer prevented) t = tap_timer pg prevented t"
| "touch_step pg ZoomEnds t = t\<lparr>gal := (gal t)\<lparr>isAnimating := False\<rparr>\<rparr>"
| "touch_step pg (InGallery e) t = (if gesture_event e then t else on_gal pg (gallery_step e) t)"

definition touch_run :: "page \<Rightarrow> touch_input list \<Rightarrow> touch_state \<Rightarrow> touch_state" where
  "touch_run pg is t = fold (touch_step pg) is t"

fun one_by_one :: "page \<Rightarrow> touch_input list \<Rightarrow> touch_state \<Rightarrow> bool" where
  \<comment> \<open>the code does not check it: a touch that begins with one finger is the only one\<close>
  "one_by_one pg [] t = True"
| "one_by_one pg (i # is) t =
     ((case i of TouchStart e \<Rightarrow> length (points e) \<le> 1 \<longrightarrow> \<not> handlers t | _ \<Rightarrow> True) \<and> one_by_one pg is (touch_step pg i t))"

subsection \<open>Only gestures slide\<close>

lemma upd_slide_sliding [simp]: "isSliding (upd_slide p f g) = isSliding g"
  by (simp add: upd_slide_def)

lemma show_sliding [simp]:
  "isSliding (complete g) = isSliding g" "isSliding (revealContent p g) = isSliding g" "isSliding (afterLoad p g) = isSliding g"
  "isSliding (setContent p g) = isSliding g" "isSliding (setError p g) = isSliding g" "isSliding (imageLoaded p g) = isSliding g"
  "isSliding (setBigImage p g) = isSliding g"
proof -
  show c: "isSliding (complete g) = isSliding g" for g by (auto simp: complete_def Let_def split: option.split)
  show r: "isSliding (revealContent p g) = isSliding g" for g by (auto simp: revealContent_def c split: option.split)
  show a: "isSliding (afterLoad p g) = isSliding g" for g by (simp add: afterLoad_def r)
  show "isSliding (setContent p g) = isSliding g" for g by (simp add: setContent_def a)
  then show "isSliding (setError p g) = isSliding g" by (simp add: setError_def)
  show i: "isSliding (imageLoaded p g) = isSliding g" by (auto simp: imageLoaded_def a split: option.split)
  show "isSliding (setBigImage p g) = isSliding g" by (auto simp: setBigImage_def i split: option.split)
qed

lemma load_sliding [simp]:
  "isSliding (loadSlide p g) = isSliding g" "isSliding (preload g) = isSliding g" "isSliding (leave_slide q p g) = isSliding g"
  "isSliding (arrive p d m l g) = isSliding g"
proof -
  show l: "isSliding (loadSlide p g) = isSliding g" for p g
    by (auto simp: loadSlide_def setImage_def setIframe_def Let_def split: option.split item_type.split)
  show "isSliding (preload g) = isSliding g"
    by (auto simp: preload_def preload_at_def Let_def l split: option.split)
  show "isSliding (leave_slide q p g) = isSliding g" by (simp add: leave_slide_def split: option.split)
  have "isSliding (createSlide q h) = isSliding h" for q h by (simp add: createSlide_def Let_def)
  then show "isSliding (arrive p d m l g) = isSliding g" by (simp add: arrive_def create_around_def Let_def)
qed

lemma jump_sliding [simp]: "isSliding (jumpTo p d m g) = isSliding g"
  by (auto simp: jumpTo_def Let_def split: option.split)

lemma close_sliding [simp]: "isSliding (close_gallery b g) = isSliding g"
  by (simp add: close_gallery_def)

lemma step_sliding: "\<not> gesture_event e \<Longrightarrow> isSliding (gallery_step e g) = isSliding g"
proof -
  have "isSliding (answered p g) = isSliding g" "isSliding (failed p g) = isSliding g" for p
    by (auto simp: answered_def failed_def Let_def split: option.split)
  then show "\<not> gesture_event e \<Longrightarrow> ?thesis"
    by (cases e) (auto simp: next_slide_def previous_slide_def cleanUp_def)
qed

subsection \<open>The invariant\<close>

definition touch_ok :: "touch_state \<Rightarrow> bool" where
  "touch_ok t \<longleftrightarrow>
     (\<not> handlers t \<longrightarrow> \<not> isSliding (gal t) \<and> swiping t = NoSwipe \<and> \<not> panning t \<and> \<not> zooming t) \<and>
     (isSliding (gal t) \<longrightarrow> swiping t \<in> {SwipeX, SwipeY} \<and> \<not> canTap t) \<and>
     (panning t \<longrightarrow> swiping t = NoSwipe \<and> \<not> zooming t) \<and> (zooming t \<longrightarrow> swiping t = NoSwipe)"

text \<open>What an operation on the gallery or the view of a state leaves.\<close>

definition calm :: "touch_state \<Rightarrow> touch_state \<Rightarrow> bool" where
  "calm t u \<longleftrightarrow> handlers u = handlers t \<and> canTap u = canTap t \<and> swiping u = swiping t \<and> panning u = panning t \<and>
     zooming u = zooming t \<and> isSliding (gal u) = isSliding (gal t) \<and> (gallery_inv (gal t) \<longrightarrow> gallery_inv (gal u))"

lemma calm_ok: "calm t u \<Longrightarrow> touch_ok t \<Longrightarrow> touch_ok u"
  by (simp add: calm_def touch_ok_def)

lemma calm_refl [simp]: "calm t t"
  by (simp add: calm_def)

lemma calm_trans: "calm t u \<Longrightarrow> calm u w \<Longrightarrow> calm t w"
  by (auto simp: calm_def)

lemma calm_gal:
  assumes "isSliding (f (gal t)) = isSliding (gal t)" "gallery_inv (gal t) \<Longrightarrow> gallery_inv (f (gal t))"
  shows "calm t (on_gal pg f t)"
  using assms by (simp add: calm_def on_gal_def Let_def)

lemma calm_view: "calm t (on_view f t)"
  using flags_inv [of "gal t"] by (simp add: calm_def on_view_def Let_def)

lemma calm_process: "calm t (process pg p v b a t)"
proof -
  have c: "calm t (on_gal pg (close_gallery b) t)" by (rule calm_gal) (simp_all add: close_inv)
  have n: "calm t (on_gal pg (next_slide None False) t)" by (rule calm_gal) (simp_all add: next_slide_def jumpTo_inv)
  have "calm t (t\<lparr>hidden_controls := h\<rparr>)" for h by (simp add: calm_def)
  with c n show ?thesis by (cases a) (auto simp: process_def zoom_action_def calm_view)
qed

lemma calm_tap: "calm t (onTap pg e b t)"
proof -
  have u: "calm t (t\<lparr>tapped := x\<rparr>)" "calm t (t\<lparr>tapAt := y\<rparr>)" "calm t (t\<lparr>tapAt := y, tapped := x\<rparr>)" for x y
    by (simp_all add: calm_def)
  show ?thesis
    by (auto simp: onTap_def Let_def u intro: calm_trans [OF u(1) calm_process] calm_trans [OF u(2) calm_process]
        split: option.split)
qed

lemma calm_timer: "calm t (tap_timer pg b t)"
proof -
  have "calm t (t\<lparr>tapped := None\<rparr>)" by (simp add: calm_def)
  then show ?thesis by (auto simp: tap_timer_def Let_def intro: calm_trans [OF _ calm_process] split: option.split)
qed

lemma calm_panning: "calm t (endPanning x y t)"
  by (auto simp: endPanning_def Let_def calm_view split: option.split prod.split)

lemma calm_zooming: "calm t (endZooming t)"
  by (auto simp: endZooming_def Let_def intro: calm_trans [OF calm_view calm_view] split: option.split prod.split)

lemma begin_inv:
  assumes "handlers t" "\<not> isSliding (gal t)"
  shows "touch_ok (begin_touch e t) \<and> gal (begin_touch e t) = gal t"
  using assms by (auto simp: begin_touch_def touch_ok_def Let_def)

lemma touchstart_inv:
  assumes ok: "touch_ok t" and one: "length (points e) \<le> 1 \<longrightarrow> \<not> handlers t"
  shows "touch_ok (ontouchstart pg e t) \<and> gal (ontouchstart pg e t) = gal t"
proof -
  define u where "u = t\<lparr>startPoints := points e\<rparr>"
  define w where "w = u\<lparr>canTap := True, on_stage := target_on_stage e, handlers := True,
                    opts := touch_of (gestures pg (currPos (gal u)))\<rparr>"
  have u: "touch_ok u" "gal u = gal t" using ok by (simp_all add: u_def touch_ok_def)
  have "\<not> (length (points e) > 1 \<and> isSliding (gal u)) \<Longrightarrow> \<not> isSliding (gal w)"
    using u ok one by (auto simp: w_def touch_ok_def not_le)
  moreover have "\<not> isSliding (gal w) \<Longrightarrow> touch_ok w \<and> handlers w \<and> gal w = gal t"
    using u ok by (auto simp: w_def touch_ok_def)
  ultimately have "\<not> (length (points e) > 1 \<and> isSliding (gal u)) \<Longrightarrow>
      touch_ok w \<and> touch_ok (begin_touch e w) \<and> gal w = gal t \<and> gal (begin_touch e w) = gal t"
    using begin_inv [of w e] by simp
  then show ?thesis
    using ok u unfolding ontouchstart_def Let_def u_def [symmetric] w_def [symmetric] by simp
qed

lemma swipe_inv:
  assumes ok: "touch_ok t" and h: "handlers t" "swiping t \<noteq> NoSwipe" and inv: "gallery_inv (gal t)"
  shows "touch_ok (onSwipe b l t) \<and> gallery_inv (gal (onSwipe b l t))"
proof (cases "swiping t = Undecided")
  case True
  have "swipe_direction b t \<in> {SwipeX, SwipeY}" by (simp add: swipe_direction_def Let_def)
  then show ?thesis using True ok inv h flags_inv [OF inv] by (auto simp: onSwipe_def touch_ok_def)
next
  case False
  then show ?thesis using ok inv by (simp add: onSwipe_def Let_def touch_ok_def)
qed

lemma move_inv:
  assumes ok: "touch_ok t" and inv: "gallery_inv (gal t)"
  shows "touch_ok (ontouchmove e l t) \<and> gallery_inv (gal (ontouchmove e l t))"
proof -
  define w where "w = t\<lparr>newPoints := points e, dist_x := dist_in fst (points e) (startPoints t),
    dist_y := dist_in snd (points e) (startPoints t)\<rparr>"
  have w: "touch_ok w" "gallery_inv (gal w)" "handlers w = handlers t" using ok inv by (simp_all add: w_def touch_ok_def)
  have "touch_ok (onPan w) \<and> gal (onPan w) = gal w" if "panning w"
    using w(1) that by (auto simp: onPan_def touch_ok_def Let_def split: option.split prod.split)
  moreover have "touch_ok (onZoom c w) \<and> gal (onZoom c w) = gal w" if "zooming w" for c
    using w(1) that by (auto simp: onZoom_def touch_ok_def Let_def split: option.split prod.split list.split)
  ultimately have moved: "touch_ok v \<and> gallery_inv (gal v)"
    if "handlers t" "v = (if swiping w \<noteq> NoSwipe then onSwipe (wide e) l w else if panning w then onPan w
         else if zooming w then onZoom (scroll e) w else w)" for v
    using swipe_inv [of w "wide e" l] w that by auto
  have "touch_ok (t\<lparr>newPoints := points e, canTap := False\<rparr>)" "touch_ok (t\<lparr>newPoints := points e\<rparr>)"
    using ok by (auto simp: touch_ok_def)
  moreover have "ontouchmove e l t = (if \<not> handlers t then t
      else if scrollable e then t\<lparr>newPoints := points e, canTap := False\<rparr>
      else if \<not> wants_moves (t\<lparr>newPoints := points e\<rparr>) \<or> points e = [] then t\<lparr>newPoints := points e\<rparr>
      else if sqrt (dist_x w ^ 2 + dist_y w ^ 2) > 0 \<and> on_stage w
      then (if swiping w \<noteq> NoSwipe then onSwipe (wide e) l w else if panning w then onPan w
         else if zooming w then onZoom (scroll e) w else w) else w)"
    by (simp add: ontouchmove_def Let_def w_def)
  ultimately show ?thesis using ok inv w(1,2) moved [OF _ refl] by simp
qed

lemma calm_swiping:
  assumes "\<not> isSliding (gal t)"
  shows "calm t (endSwiping pg d b s how t)"
proof -
  define u where "u = t\<lparr>gal := (gal t)\<lparr>isSliding := False\<rparr>, sliderLast := None\<rparr>"
  have u: "calm t u" using assms flags_inv [of "gal t"] by (simp add: u_def calm_def)
  have j: "calm v (on_gal pg (\<lambda>g. jumpTo (q g) x d g) v)" for q x v by (rule calm_gal) (simp_all add: jumpTo_inv)
  have c: "calm v (on_gal pg (close_gallery b) v)" for v b by (rule calm_gal) (simp_all add: close_inv)
  have n: "calm v (on_gal pg (next_slide x d) v)" "calm v (on_gal pg (previous_slide x d) v)" for x v
    by (rule calm_gal; simp add: next_slide_def previous_slide_def jumpTo_inv)+
  have "calm u (endSwiping pg d b s how t)"
    unfolding endSwiping_def Let_def u_def [symmetric]
    by (auto intro: j c n calm_trans [OF c j] calm_trans [OF n(1) j] calm_trans [OF n(2) j])
  with u show ?thesis by (rule calm_trans)
qed

lemma end_inv:
  assumes ok: "touch_ok t" and inv: "gallery_inv (gal t)"
  shows "touch_ok (ontouchend pg now e d b t) \<and> gallery_inv (gal (ontouchend pg now e d b t))"
proof (cases "handlers t")
  case True
  define u where "u = t\<lparr>handlers := False, swiping := NoSwipe, panning := False, zooming := False\<rparr>"
  show ?thesis
  proof (cases "isSliding (gal t)")
    case False
    then have u: "touch_ok u" "gallery_inv (gal u)" using ok inv by (simp_all add: u_def touch_ok_def)
    have "calm u (ontouchend pg now e d b t)"
      using True False calm_tap calm_panning calm_zooming calm_swiping [of u]
      unfolding ontouchend_def Let_def u_def [symmetric] by (simp add: u_def)
    then show ?thesis using u calm_ok calm_def by blast
  next
    case True
    then have how: "swiping t \<in> {SwipeX, SwipeY}" "\<not> canTap t" "\<not> panning t" "\<not> zooming t"
      using ok by (auto simp: touch_ok_def)
    define w where "w = u\<lparr>gal := (gal u)\<lparr>isSliding := False\<rparr>\<rparr>"
    have w: "touch_ok w" "gallery_inv (gal w)" "\<not> isSliding (gal w)"
      using inv flags_inv [of "gal t"] by (simp_all add: w_def u_def touch_ok_def)
    have "endSwiping pg d b s h u = endSwiping pg d b s h w" for s h by (simp add: endSwiping_def w_def)
    moreover have "ontouchend pg now e d b t \<in> range (\<lambda>s. endSwiping pg d b s (swiping t) u)"
      using how \<open>handlers t\<close> unfolding ontouchend_def Let_def u_def [symmetric] by (simp add: u_def)
    ultimately have "calm w (ontouchend pg now e d b t)" using calm_swiping [OF w(3)] by auto
    then show ?thesis using w calm_ok calm_def by blast
  qed
qed (use assms in \<open>simp add: ontouchend_def\<close>)

lemma touch_step_inv:
  assumes ok: "touch_ok t" and inv: "gallery_inv (gal t)"
    and one: "case i of TouchStart e \<Rightarrow> length (points e) \<le> 1 \<longrightarrow> \<not> handlers t | _ \<Rightarrow> True"
  shows "touch_ok (touch_step pg i t) \<and> gallery_inv (gal (touch_step pg i t))"
proof (cases i)
  case (TouchStart e)
  then show ?thesis using touchstart_inv [OF ok, of e pg] one inv by auto
next
  case (TapTimer b)
  then show ?thesis using calm_timer [of t pg b] ok inv calm_ok by (auto simp: calm_def)
next
  case (InGallery e)
  then have "\<not> gesture_event e \<Longrightarrow> calm t (touch_step pg i t)"
    by (simp add: calm_gal step_sliding gallery_step_inv)
  then show ?thesis using ok inv calm_ok InGallery by (cases "gesture_event e") (auto simp: calm_def)
qed (use move_inv [OF ok inv] end_inv [OF ok inv] flags_inv [OF inv] ok inv in \<open>auto simp: touch_ok_def\<close>)

lemma touch_run_inv:
  "touch_ok t \<Longrightarrow> gallery_inv (gal t) \<Longrightarrow> one_by_one pg is t \<Longrightarrow>
   touch_ok (touch_run pg is t) \<and> gallery_inv (gal (touch_run pg is t))"
proof (induction "is" arbitrary: t)
  case (Cons i js)
  then have "touch_ok (touch_step pg i t) \<and> gallery_inv (gal (touch_step pg i t))" by (intro touch_step_inv) auto
  with Cons show ?case by (simp add: touch_run_def)
qed (simp add: touch_run_def)

text \<open>
  C9.  Whatever the fingers and the requests do, as long as a touch with one finger begins only when no other is
  on, the gallery keeps its invariant; at most one of swiping, panning and pinching goes on, and none without
  a touch: when all fingers are off the gallery is not sliding, so its buttons work.
\<close>

theorem gestures_end:
  assumes "gallery_inv g" and "\<not> isSliding g" and "one_by_one pg is (touch_start_state pg g)"
  shows "let t = touch_run pg is (touch_start_state pg g) in
    gallery_inv (gal t) \<and> (isSliding (gal t) \<longrightarrow> handlers t \<and> swiping t \<in> {SwipeX, SwipeY}) \<and>
    (swiping t \<noteq> NoSwipe \<or> panning t \<or> zooming t \<longrightarrow> handlers t) \<and>
    \<not> (swiping t \<noteq> NoSwipe \<and> panning t) \<and> \<not> (swiping t \<noteq> NoSwipe \<and> zooming t) \<and> \<not> (panning t \<and> zooming t)"
proof -
  have "touch_ok (touch_start_state pg g) \<and> gallery_inv (gal (touch_start_state pg g))"
    using assms by (simp add: touch_start_state_def touch_ok_def)
  then have "touch_ok (touch_run pg is (touch_start_state pg g)) \<and> gallery_inv (gal (touch_run pg is (touch_start_state pg g)))"
    using touch_run_inv assms(3) by blast
  then show ?thesis unfolding Let_def touch_ok_def by blast
qed

text \<open>
  On a device with a mouse and a touch screen both can be used at once.  Then a finger that is set down beside
  the stage while the mouse drags the gallery takes over the handlers; when it is lifted \<open>onTap\<close> returns because the
  gallery is sliding, and the gallery stays so: no button goes to another item any more, until the next swipe.
\<close>

lemma second_touch_stays:
  assumes "isSliding (gal t)" "current (gal t) \<noteq> None" "\<not> isAnimating (gal t)" "\<not> isClosing (gal t)"
    and "\<not> ignored e" "length (points e) = 1" "\<not> target_on_stage e"
  shows "isSliding (gal (touch_run pg [TouchStart e, TouchEnd now tp d b] t)) \<and>
    \<not> handlers (touch_run pg [TouchStart e, TouchEnd now tp d b] t)"
  using assms by (auto simp: touch_run_def ontouchstart_def ontouchend_def onTap_def Let_def split: option.splits)

end
