(* ===== verification/Fancybox_Swipe.thy ===== *)
theory Fancybox_Swipe
  imports Fancybox_Touch
begin

section \<open>What a swipe and a tap do\<close>

text \<open>Swiping through a gallery, from the first touch to the slide that is gone to, and pairs of taps.\<close>

subsection \<open>Where a swipe goes\<close>

lemma jump_index:
  assumes inv: "gallery_inv g" and g: "\<not> isSliding g" "\<not> isClosing g" "\<not> isAnimating g"
  shows "jump_refused p g \<longleftrightarrow> \<not> (loops g \<or> 0 \<le> p \<and> p < groupLen g)"
    and "loops g \<or> 0 \<le> p \<and> p < groupLen g \<Longrightarrow> currIndex (jumpTo p d m g) = p mod groupLen g"
    and "\<not> (loops g \<or> 0 \<le> p \<and> p < groupLen g) \<Longrightarrow> jumpTo p d m g = g"
  using jumpTo_goes [OF inv g, of p d m] g by (auto simp: jump_refused_def jumpTo_def)

lemma back_index:
  assumes inv: "gallery_inv g" and g: "\<not> isSliding g" "\<not> isClosing g" "\<not> isAnimating g"
  shows "currIndex (jumpTo (currIndex g) d m g) = currIndex g"
proof -
  have n: "groupLen g > 0" and i: "currIndex g = currPos g mod groupLen g"
    using inv by (simp_all add: gallery_inv_def gallery_ok_def groupLen_def)
  then have "0 \<le> currIndex g" "currIndex g < groupLen g" by simp_all
  then show ?thesis using jump_index(2) [OF assms, of "currIndex g"] by simp
qed

lemma endSwiping_index:
  assumes inv: "gallery_inv (gal t)" and g: "\<not> isClosing (gal t)" "\<not> isAnimating (gal t)"
  shows "currIndex (gal (endSwiping pg dr pv s SwipeX t)) =
    (let n = groupLen (gal t); i = currIndex (gal t); p = currPos (gal t) in
     if n > 1 \<and> dist_x t > 50 \<and> (loops (gal t) \<or> 0 \<le> p - 1 \<and> p - 1 < n) then (i - 1) mod n
     else if n > 1 \<and> dist_x t < - 50 \<and> (loops (gal t) \<or> 0 \<le> p + 1 \<and> p + 1 < n) then (i + 1) mod n
     else i)"
proof -
  define h where "h = (gal t)\<lparr>isSliding := False\<rparr>"
  have h: "gallery_inv h" "\<not> isSliding h" "\<not> isClosing h" "\<not> isAnimating h"
    using inv g flags_inv by (simp_all add: h_def)
  have f: "groupLen h = groupLen (gal t)" "currIndex h = currIndex (gal t)" "currPos h = currPos (gal t)" "loops h = loops (gal t)"
    by (simp_all add: h_def groupLen_def loops_def split: option.split)
  have i: "currIndex h = currPos h mod groupLen h" using h(1) by (simp add: gallery_inv_def gallery_ok_def)
  have m: "(currPos h - 1) mod groupLen h = (currIndex h - 1) mod groupLen h"
    "(currPos h + 1) mod groupLen h = (currIndex h + 1) mod groupLen h"
    by (simp_all add: i mod_diff_left_eq mod_add_left_eq)
  note j = jump_index [OF h] back_index [OF h]
  show ?thesis
    unfolding endSwiping_def Let_def h_def [symmetric] f [symmetric]
    using j(1) [of "currPos h - 1"] j(1) [of "currPos h + 1"] j(2) [of "currPos h - 1"] j(2) [of "currPos h + 1"]
      j(3) [of "currPos h - 1"] j(3) [of "currPos h + 1"] j(4) m
    by (auto simp: on_gal_def next_slide_def previous_slide_def Let_def h_def [symmetric])
qed

subsection \<open>A swipe from its first touch to its end\<close>

definition finger :: "point \<Rightarrow> touch_event" where
  "finger p = \<lparr>points = [p], ignored = False, target_on_stage = True, scrollable = False, scroll = (0, 0), time = 0, wide = False\<rparr>"

definition fits :: "touch_state \<Rightarrow> bool" where
  \<comment> \<open>the content is not larger than its slide\<close>
  "fits t \<longleftrightarrow> (case content (sight t) of
     None \<Rightarrow> True
   | Some p \<Rightarrow> \<not> Math_round (slide_w (sight t)) + Num 1 < pl_width p \<and> \<not> Math_round (slide_h (sight t)) + Num 1 < pl_height p)"

definition idle :: "touch_state \<Rightarrow> bool" where
  "idle t \<longleftrightarrow> \<not> handlers t \<and> \<not> isSliding (gal t) \<and> current (gal t) \<noteq> None \<and> \<not> isClosing (gal t) \<and> \<not> isAnimating (gal t)"

lemma seen_fields [simp]:
  "content (seen t) = content (sight t)" "slide_w (seen t) = slide_w (sight t)" "slide_h (seen t) = slide_h (sight t)"
  by (simp_all add: seen_def Let_def split: option.split)

lemma swipe_starts:
  fixes pg :: page and t :: touch_state and p :: point
  assumes "idle t" "fits t" "touch_of (gestures pg (currPos (gal t))) = Some vm"
  defines "u \<equiv> touch_step pg (TouchStart (finger p)) t"
  shows "gal u = gal t" "sight u = sight t" "handlers u" "swiping u = Undecided" "\<not> panning u" "\<not> zooming u" "on_stage u" "opts u = Some vm"
    "startPoints u = [p]"
  using assms(1,2,3)
  by (auto simp: u_def idle_def fits_def ontouchstart_def begin_touch_def finger_def wants_moves_def Let_def split: option.splits)

lemma swipe_locks:
  fixes pg :: page and u :: touch_state and q :: point and l :: real
  assumes "handlers u" "swiping u = Undecided" "on_stage u" "opts u = Some vm" "startPoints u = [p]" "\<not> isSliding (gal u)"
    and far: "sqrt ((fst q - fst p) ^ 2 + (snd q - snd p) ^ 2) > 10"
    and dir: "touch_opts.vertical vm = Never \<or> groupLen (gal u) > 1 \<and> snd q = snd p"
  defines "w \<equiv> touch_step pg (TouchMove (finger q) l) u"
  shows "gal w = (gal u)\<lparr>isSliding := True\<rparr>" "sight w = sight u" "handlers w" "swiping w = SwipeX" "panning w = panning u" "zooming w = zooming u"
    "on_stage w" "opts w = Some vm" "startPoints w = [q]" "\<not> canTap w" "dist_x w = fst q - fst p"
proof -
  define x where "x = u\<lparr>newPoints := [q], dist_x := fst q - fst p, dist_y := snd q - snd p\<rparr>"
  have "Arg (Complex a 0) = (if a < 0 then pi else 0)" if "a \<noteq> 0" for a :: real
  proof -
    have "sgn (Complex a 0) = cis (if a < 0 then pi else 0)"
      using that by (auto simp: complex_eq_iff sgn_eq cmod_def)
    then show ?thesis by (rule cis_Arg_unique) auto
  qed
  then have "\<not> (45 < \<bar>Arg (Complex a 0)\<bar> * 180 / pi \<and> \<bar>Arg (Complex a 0)\<bar> * 180 / pi < 135)" if "a \<noteq> 0" for a :: real
    using that by simp
  moreover have "snd q = snd p \<Longrightarrow> fst q - fst p \<noteq> 0" using far by auto
  ultimately have "swipe_direction False x = SwipeX"
    using dir assms(4) by (cases "touch_opts.vertical vm") (auto simp: swipe_direction_def x_def Let_def num_divide abs_mult)
  moreover have "0 < (fst q - fst p) ^ 2 + (snd q - snd p) ^ 2"
    using less_trans [OF _ far, of 0] by (simp only: real_sqrt_gt_0_iff)
  then have "w = onSwipe False l x"
    using assms(1-5) far by (auto simp: w_def ontouchmove_def finger_def x_def wants_moves_def dist_in_def Let_def)
  ultimately have "w = x\<lparr>canTap := False, swiping := SwipeX, gal := (gal x)\<lparr>isSliding := True\<rparr>,
                startPoints := newPoints x, sliderStart := (l, snd (sliderStart x))\<rparr>"
    using far assms(2) by (simp add: onSwipe_def x_def)
  then show "gal w = (gal u)\<lparr>isSliding := True\<rparr>" "sight w = sight u" "handlers w" "swiping w = SwipeX" "panning w = panning u" "zooming w = zooming u"
    "on_stage w" "opts w = Some vm" "startPoints w = [q]" "\<not> canTap w" "dist_x w = fst q - fst p"
    using assms(1-5) by (simp_all add: x_def)
qed

abbreviation moves :: "(point \<times> real) list \<Rightarrow> touch_input list" where
  \<comment> \<open>moves of the finger to these points\<close>
  "moves qs \<equiv> map (\<lambda>(q, l). TouchMove (finger q) l) qs"

definition near :: "point \<Rightarrow> point \<Rightarrow> bool" where
  "near p q \<longleftrightarrow> sqrt ((fst q - fst p) ^ 2 + (snd q - snd p) ^ 2) \<le> 10"

lemma swipe_waits:
  fixes pg :: page and u :: touch_state and p :: point
  assumes "gal u = g" "panning u = b" "zooming u = c" "handlers u" "swiping u = Undecided" "on_stage u" "opts u = Some vm" "startPoints u = [p]"
    and "list_all (\<lambda>(q, l). near p q) qs"
  shows "gal (fold (touch_step pg) (moves qs) u) = g \<and> panning (fold (touch_step pg) (moves qs) u) = b \<and>
    zooming (fold (touch_step pg) (moves qs) u) = c \<and> handlers (fold (touch_step pg) (moves qs) u) \<and>
    swiping (fold (touch_step pg) (moves qs) u) = Undecided \<and> on_stage (fold (touch_step pg) (moves qs) u) \<and>
    opts (fold (touch_step pg) (moves qs) u) = Some vm \<and> startPoints (fold (touch_step pg) (moves qs) u) = [p]"
  using assms
proof (induction qs arbitrary: u)
  case (Cons x qs)
  obtain q l where x: "x = (q, l)" by fastforce
  let ?u = "touch_step pg (TouchMove (finger q) l) u"
  have n: "\<not> sqrt ((fst q - fst p) ^ 2 + (snd q - snd p) ^ 2) > 10" using Cons.prems(9) by (simp add: x near_def)
  have "gal ?u = g" "panning ?u = b" "zooming ?u = c" "handlers ?u" "swiping ?u = Undecided" "on_stage ?u" "opts ?u = Some vm"
    "startPoints ?u = [p]"
    using Cons.prems(1-8) n by (auto simp: ontouchmove_def finger_def wants_moves_def dist_in_def onSwipe_def Let_def)
  from Cons.IH [OF this] Cons.prems(9) show ?case by (simp add: x)
qed simp

lemma swipe_moves:
  fixes pg :: page and u :: touch_state and r :: point and l :: real
  assumes "handlers u" "swiping u = SwipeX" "opts u = Some vm" "startPoints u = [q]" "\<not> canTap u"
  defines "w \<equiv> touch_step pg (TouchMove (finger r) l) u"
  shows "gal w = gal u" "panning w = panning u" "zooming w = zooming u" "handlers w" "swiping w = SwipeX" "opts w = Some vm"
    "startPoints w = [q]" "\<not> canTap w" "dist_x w = fst r - fst q"
  using assms(1-5)
  by (auto simp: w_def ontouchmove_def finger_def wants_moves_def dist_in_def onSwipe_def Let_def)

lemma swipe_follows:
  fixes pg :: page and u :: touch_state and q :: point
  assumes "gal u = g" "panning u = b" "zooming u = c" "handlers u" "swiping u = SwipeX" "opts u = Some vm" "startPoints u = [q]" "\<not> canTap u"
    "dist_x u = d"
  shows "gal (fold (touch_step pg) (moves rs) u) = g \<and> panning (fold (touch_step pg) (moves rs) u) = b \<and>
    zooming (fold (touch_step pg) (moves rs) u) = c \<and> handlers (fold (touch_step pg) (moves rs) u) \<and>
    swiping (fold (touch_step pg) (moves rs) u) = SwipeX \<and> \<not> canTap (fold (touch_step pg) (moves rs) u) \<and>
    dist_x (fold (touch_step pg) (moves rs) u) = (if rs = [] then d else fst (fst (last rs)) - fst q)"
  using assms
proof (induction rs arbitrary: u d)
  case (Cons x rs)
  obtain r l where x: "x = (r, l)" by fastforce
  note m = swipe_moves [OF Cons.prems(4-8), of pg r l]
  show ?case using Cons.IH [of "touch_step pg (TouchMove (finger r) l) u" "fst r - fst q"] m Cons.prems(1-3) by (simp add: x)
qed simp

text \<open>
  C10.  A finger is set down on the stage of a gallery at rest, moves by at most 10 pixels for a while, then to a
  point further away, and on through any other points, and is lifted.  The direction is recognised at that point,
  and it is horizontal if the slide does not move vertically at all, or if there are several items and the point
  is level with the first.  Then the distance counts from there to the last point, or from the first point to
  there if it is the last: if it is more than 50 pixels the swipe goes to the neighbouring item, round the group
  if it loops; otherwise, and at the ends of a group that does not loop, it ends at the same item.  (The content
  fits into the slide: one that does not is dragged.)
\<close>

theorem swipe_goes:
  assumes inv: "gallery_inv (gal t)" and idle: "idle t" and fit: "fits t"
    and opts: "touch_of (gestures pg (currPos (gal t))) = Some vm"
    and first: "list_all (\<lambda>(x, l). near p x) qs" and far: "\<not> near p q"
    and dir: "touch_opts.vertical vm = Never \<or> groupLen (gal t) > 1 \<and> snd q = snd p"
  shows "currIndex (gal (touch_run pg ([TouchStart (finger p)] @ moves (qs @ [(q, l)] @ rs) @ [TouchEnd now tp dr pv]) t)) =
    (let n = groupLen (gal t); i = currIndex (gal t); k = currPos (gal t);
         d = (if rs = [] then fst q - fst p else fst (fst (last rs)) - fst q) in
     if n > 1 \<and> d > 50 \<and> (loops (gal t) \<or> 0 \<le> k - 1 \<and> k - 1 < n) then (i - 1) mod n
     else if n > 1 \<and> d < - 50 \<and> (loops (gal t) \<or> 0 \<le> k + 1 \<and> k + 1 < n) then (i + 1) mod n
     else i)"
proof -
  define a where "a = touch_step pg (TouchStart (finger p)) t"
  define u where "u = fold (touch_step pg) (moves qs) a"
  define b where "b = touch_step pg (TouchMove (finger q) l) u"
  define c where "c = fold (touch_step pg) (moves rs) b"
  define e where "e = c\<lparr>handlers := False, swiping := NoSwipe, panning := False, zooming := False\<rparr>"
  define d where "d = (if rs = [] then fst q - fst p else fst (fst (last rs)) - fst q)"
  note a = swipe_starts [OF idle fit opts, of p, folded a_def]
  note u = swipe_waits [OF a(1) _ _ a(3,4,7,8,9) first, of False False pg, folded u_def]
  have u': "gal u = gal t" "\<not> panning u" "\<not> zooming u" "handlers u" "swiping u = Undecided" "on_stage u" "opts u = Some vm"
    "startPoints u = [p]" using u a(5,6) by auto
  have nu: "\<not> isSliding (gal u)" "groupLen (gal u) = groupLen (gal t)" using u'(1) idle by (simp_all add: idle_def)
  have far': "sqrt ((fst q - fst p) ^ 2 + (snd q - snd p) ^ 2) > 10" using far by (simp add: near_def)
  note b = swipe_locks [OF u'(4-8) nu(1) far', unfolded nu(2), OF dir, of pg l, folded b_def]
  note c = swipe_follows [OF b(1,5,6,3,4,8,9,10,11), of pg rs, folded c_def d_def]
  have g: "gal e = (gal t)\<lparr>isSliding := True\<rparr>" "dist_x e = d"
    using c u'(1) by (simp_all add: e_def)
  obtain s where fin: "touch_step pg (TouchEnd now tp dr pv) c = endSwiping pg dr pv s SwipeX e"
    using c u' by (auto simp: ontouchend_def Let_def e_def)
  have h: "gallery_inv (gal e)" "\<not> isClosing (gal e)" "\<not> isAnimating (gal e)"
    using inv idle flags_inv by (simp_all add: g idle_def)
  have f: "groupLen (gal e) = groupLen (gal t)" "currIndex (gal e) = currIndex (gal t)" "currPos (gal e) = currPos (gal t)"
    "loops (gal e) = loops (gal t)"
    by (simp_all add: g groupLen_def loops_def split: option.split)
  have "touch_run pg ([TouchStart (finger p)] @ moves (qs @ [(q, l)] @ rs) @ [TouchEnd now tp dr pv]) t =
      endSwiping pg dr pv s SwipeX e"
    using fin by (simp add: touch_run_def a_def b_def c_def u_def)
  then show ?thesis using endSwiping_index [OF h, of pg dr pv s] unfolding f g(2) Let_def d_def by simp
qed

definition swipe_page :: page where
  "swipe_page = \<lparr>views = (\<lambda>_. sample_view),
     gestures = (\<lambda>_. \<lparr>touch_of = Some \<lparr>vertical = Always, momentum = True\<rparr>, click = (\<lambda>_. DoNothing), dblclick = (\<lambda>_. DoNothing)\<rparr>)\<rparr>"

definition swipe_state :: "bool \<Rightarrow> touch_state" where
  "swipe_state l = touch_start_state swipe_page (gallery_run [plain_item Image, plain_item Html, plain_item Ajax] l 0 [])"

lemma swipe_state_idle: "idle (swipe_state False)" "fits (swipe_state False)" "gallery_inv (gal (swipe_state False))"
proof -
  let ?g = "gallery_run [plain_item Image, plain_item Html, plain_item Ajax] False 0 []"
  have "\<not> isSliding ?g \<and> current ?g \<noteq> None \<and> \<not> isClosing ?g \<and> \<not> isAnimating ?g" by code_simp
  then show "idle (swipe_state False)" by (simp add: idle_def swipe_state_def touch_start_state_def)
  show "fits (swipe_state False)"
    by (simp add: fits_def swipe_state_def touch_start_state_def swipe_page_def sample_view_def Math_round_def)
  have "gallery_inv ?g" by (rule gallery_run_inv) simp_all
  then show "gallery_inv (gal (swipe_state False))" by (simp add: swipe_state_def touch_start_state_def)
qed

theorem gestures_end_witness:
  "let t = touch_run swipe_page [TouchStart (finger (500, 200)), TouchMove (finger (480, 200)) 0] (swipe_state False) in
    gallery_inv (gal t) \<and> (isSliding (gal t) \<longrightarrow> handlers t)"
proof -
  have "gallery_inv (gallery_run [plain_item Image, plain_item Html, plain_item Ajax] False 0 [])"
    by (rule gallery_run_inv) simp_all
  moreover have "\<not> isSliding (gallery_run [plain_item Image, plain_item Html, plain_item Ajax] False 0 [])" by code_simp
  ultimately show ?thesis
    using gestures_end [of "gallery_run [plain_item Image, plain_item Html, plain_item Ajax] False 0 []"
        swipe_page "[TouchStart (finger (500, 200)), TouchMove (finger (480, 200)) 0]"]
    unfolding Let_def swipe_state_def by (simp add: touch_start_state_def)
qed

theorem swipe_goes_witness:
  "currIndex (gal (touch_run swipe_page [TouchStart (finger (500, 200)), TouchMove (finger (495, 203)) 0,
     TouchMove (finger (480, 200)) 0, TouchMove (finger (400, 210)) 0,
     TouchEnd 100 \<lparr>tap_at = (400, 210), tap_spot = Some Slide, tap_ignored = False\<rparr> True False]
     (swipe_state False))) = 1"
proof -
  have f: "groupLen (gal (swipe_state False)) = 3" "currIndex (gal (swipe_state False)) = 0" "currPos (gal (swipe_state False)) = 0"
    by code_simp+
  have o: "touch_of (gestures swipe_page (currPos (gal (swipe_state False)))) = Some \<lparr>vertical = Always, momentum = True\<rparr>"
    by (simp add: swipe_page_def)
  have "sqrt (34 :: real) \<le> sqrt (10 ^ 2)" by (rule real_sqrt_le_mono) simp
  then have n: "list_all (\<lambda>(x, l). near (500, 200) x) [((495, 203), 0 :: real)]" "\<not> near (500, 200) (480, 200)"
    by (simp_all add: near_def)
  show ?thesis
    using swipe_goes [OF swipe_state_idle(3,1,2) o n, of 0 "[((400, 210), 0)]"] f by (simp add: Let_def)
qed

text \<open>After a gallery has gone round, a swipe that is given up changes the position, though not the item.\<close>

lemma given_up_swipe_moves:
  assumes inv: "gallery_inv (gal t)" and g: "\<not> isClosing (gal t)" "\<not> isAnimating (gal t)"
    and "\<bar>dist_x t\<bar> \<le> 50"
  shows "currPos (gal (endSwiping pg dr pv s SwipeX t)) = currPos (gal t) mod groupLen (gal t)"
proof -
  define h where "h = (gal t)\<lparr>isSliding := False\<rparr>"
  have h: "gallery_inv h" "\<not> isSliding h" "\<not> isClosing h" "\<not> isAnimating h"
    using inv g flags_inv by (simp_all add: h_def)
  have f: "groupLen h = groupLen (gal t)" "currIndex h = currPos (gal t) mod groupLen (gal t)"
    using inv by (simp_all add: h_def groupLen_def gallery_inv_def gallery_ok_def)
  have "0 \<le> currIndex h \<and> currIndex h < groupLen h"
    unfolding f using inv by (simp add: gallery_inv_def gallery_ok_def groupLen_def)
  then have "currPos (jumpTo (currIndex h) (Some 150) dr h) = currIndex h" using jumpTo_goes [OF h] by blast
  moreover have "\<not> dist_x t > 50" "\<not> dist_x t < - 50" using assms(4) by auto
  ultimately show ?thesis
    unfolding endSwiping_def Let_def h_def [symmetric] by (simp add: on_gal_def Let_def h_def [symmetric] f)
qed

subsection \<open>Taps\<close>

text \<open>
  Two taps within 300 ms and 50 pixels do what a double tap does; if they are further apart they do
  nothing at all, not even what one tap does.
\<close>

lemma two_taps:
  assumes "current (gal t) = Some p" "\<not> isSliding (gal t)" "tapped t = None"
    and "dblclick (gestures pg p) spot \<noteq> DoNothing" "dblclick (gestures pg p) spot \<noteq> click (gestures pg p) spot"
    and a: "tap_spot a = Some spot" "\<not> tap_ignored a" and b: "tap_spot b = Some spot" "\<not> tap_ignored b"
  shows "onTap pg b pv (onTap pg a pv' t) =
    (if \<bar>fst (tap_at b) - fst (tap_at a)\<bar> > 50 \<or> \<bar>snd (tap_at b) - snd (tap_at a)\<bar> > 50 then t\<lparr>tapAt := tap_at a\<rparr>
     else process pg (tap_at b) (seen t) pv (dblclick (gestures pg p) spot) (t\<lparr>tapAt := tap_at a\<rparr>))"
proof -
  have "t\<lparr>tapped := None\<rparr> = t" using assms(3) by (cases t) simp
  then have same: "t\<lparr>tapAt := x, tapped := None\<rparr> = t\<lparr>tapAt := x\<rparr>" for x
    by (metis touch_state.update_convs(24,25) touch_state.surjective)
  have seen: "seen (t\<lparr>tapAt := x\<rparr>) = seen t" for x
    by (simp add: seen_def current_slide_def cong: option.case_cong)
  have "onTap pg b pv (onTap pg a pv' t) =
    (if \<bar>fst (tap_at b) - fst (tap_at a)\<bar> > 50 \<or> \<bar>snd (tap_at b) - snd (tap_at a)\<bar> > 50 then t\<lparr>tapAt := tap_at a, tapped := None\<rparr>
     else process pg (tap_at b) (seen (t\<lparr>tapAt := tap_at a, tapped := None\<rparr>)) pv (dblclick (gestures pg p) spot)
       (t\<lparr>tapAt := tap_at a, tapped := None\<rparr>))"
    using assms by (simp add: onTap_def Let_def)
  then show ?thesis unfolding same seen .
qed

end
