(* ===== verification/Js_Uri.thy ===== *)
theory Js_Uri
  imports JsText
begin

section \<open>encodeURIComponent and decodeURIComponent\<close>

text \<open>
  The two functions of the language on texts of UTF-16 units: a code point becomes the
  percent-escapes of its UTF-8 bytes, and only well formed UTF-8 is read back.  Code points and bytes
  are natural numbers.
\<close>

subsection \<open>Code points\<close>

fun code_points :: "nat list \<Rightarrow> nat list option" where
  "code_points [] = Some []"
| "code_points (c # cs) =
     (if 56320 \<le> c \<and> c \<le> 57343 then None
      else if c < 55296 \<or> 56319 < c then map_option ((#) c) (code_points cs)
      else (case cs of
              [] \<Rightarrow> None
            | d # ds \<Rightarrow>
                if 56320 \<le> d \<and> d \<le> 57343
                then map_option ((#) ((c - 55296) * 1024 + (d - 56320) + 65536)) (code_points ds)
                else None))"

definition utf16 :: "nat \<Rightarrow> nat list" where
  "utf16 p = (if p < 65536 then [p] else [(p - 65536) div 1024 + 55296, (p - 65536) mod 1024 + 56320])"

definition scalar :: "nat \<Rightarrow> bool" where
  "scalar p \<longleftrightarrow> p < 1114112 \<and> \<not> (55296 \<le> p \<and> p \<le> 57343)"

subsection \<open>UTF-8\<close>

definition utf8 :: "nat \<Rightarrow> nat list" where
  "utf8 p =
     (if p < 128 then [p]
      else if p < 2048 then [192 + p div 64, 128 + p mod 64]
      else if p < 65536 then [224 + p div 4096, 128 + p div 64 mod 64, 128 + p mod 64]
      else [240 + p div 262144, 128 + p div 4096 mod 64, 128 + p div 64 mod 64, 128 + p mod 64])"

definition continuation :: "nat \<Rightarrow> bool" where
  "continuation b \<longleftrightarrow> 128 \<le> b \<and> b < 192"

fun utf8_read :: "nat list \<Rightarrow> nat list option" where
  "utf8_read [] = Some []"
| "utf8_read (b # bs) =
     (if b < 128 then map_option ((#) b) (utf8_read bs)
      else if 192 \<le> b \<and> b < 224 then
        (case bs of c # bs' \<Rightarrow>
           (let p = (b - 192) * 64 + (c - 128) in
            if continuation c \<and> 128 \<le> p then map_option ((#) p) (utf8_read bs') else None)
         | _ \<Rightarrow> None)
      else if 224 \<le> b \<and> b < 240 then
        (case bs of c # d # bs' \<Rightarrow>
           (let p = (b - 224) * 4096 + (c - 128) * 64 + (d - 128) in
            if continuation c \<and> continuation d \<and> 2048 \<le> p \<and> scalar p
            then map_option ((#) p) (utf8_read bs') else None)
         | _ \<Rightarrow> None)
      else if 240 \<le> b \<and> b < 248 then
        (case bs of c # d # e # bs' \<Rightarrow>
           (let p = (b - 240) * 262144 + (c - 128) * 4096 + (d - 128) * 64 + (e - 128) in
            if continuation c \<and> continuation d \<and> continuation e \<and> 65536 \<le> p \<and> scalar p
            then map_option ((#) p) (utf8_read bs') else None)
         | _ \<Rightarrow> None)
      else None)"

subsection \<open>Percent escapes\<close>

definition hex_digit :: "nat \<Rightarrow> nat" where
  "hex_digit d = (if d < 10 then 48 + d else 55 + d)"

definition hex_value :: "nat \<Rightarrow> nat option" where
  "hex_value c =
     (if 48 \<le> c \<and> c \<le> 57 then Some (c - 48)
      else if 65 \<le> c \<and> c \<le> 70 then Some (c - 55)
      else if 97 \<le> c \<and> c \<le> 102 then Some (c - 87)
      else None)"

definition percent :: "nat \<Rightarrow> nat list" where
  "percent b = [37, hex_digit (b div 16), hex_digit (b mod 16)]"

definition unreserved :: "nat \<Rightarrow> bool" where
  \<comment> \<open>letters, digits and the marks \<open>- _ . ! ~ * ' ( )\<close>\<close>
  "unreserved c \<longleftrightarrow> 48 \<le> c \<and> c \<le> 57 \<or> 65 \<le> c \<and> c \<le> 90 \<or> 97 \<le> c \<and> c \<le> 122 \<or>
     c \<in> set [45, 95, 46, 33, 126, 42, 39, 40, 41]"

definition encode_point :: "nat \<Rightarrow> nat list" where
  "encode_point p = (if unreserved p then [p] else concat (map percent (utf8 p)))"

definition encodeURIComponent :: "nat list \<Rightarrow> nat list res" where
  "encodeURIComponent s =
     (case code_points s of None \<Rightarrow> Inl URIError | Some ps \<Rightarrow> Inr (concat (map encode_point ps)))"

text \<open>
  Decoding reads a maximal run of escapes as bytes: an escape sequence of UTF-8 cannot be continued
  by a plain character, so a run that ends early is malformed.
\<close>

fun escapes :: "nat list \<Rightarrow> (nat list \<times> nat list) option" where
  "escapes (c # s) =
     (if c = 37 then
        (case s of
           h # l # rest \<Rightarrow>
             (case (hex_value h, hex_value l) of
                (Some x, Some y) \<Rightarrow> map_option (\<lambda>(bs, r). ((16 * x + y) # bs, r)) (escapes rest)
              | _ \<Rightarrow> None)
         | _ \<Rightarrow> None)
      else Some ([], c # s))"
| "escapes [] = Some ([], [])"

lemma escapes_shorter: "escapes s = Some (bs, r) \<Longrightarrow> length r + 3 * length bs = length s"
  by (induction s arbitrary: bs rule: escapes.induct) (auto split: if_splits list.splits option.splits)

lemma escapes_rest: "escapes s = Some (bs, r) \<Longrightarrow> bs \<noteq> [] \<Longrightarrow> length r < length s"
  using escapes_shorter [of s bs r] by (cases bs) auto

function decodeURIComponent :: "nat list \<Rightarrow> nat list res" where
  "decodeURIComponent s =
     (case s of
        [] \<Rightarrow> Inr []
      | c # cs \<Rightarrow>
          if c = 37 then
            (case escapes s of
               None \<Rightarrow> Inl URIError
             | Some (bs, r) \<Rightarrow>
                 if bs = [] then Inl URIError
                 else case utf8_read bs of
                        None \<Rightarrow> Inl URIError
                      | Some ps \<Rightarrow>
                          andThen (decodeURIComponent r) (\<lambda>t. Inr (concat (map utf16 ps) @ t)))
          else andThen (decodeURIComponent cs) (\<lambda>t. Inr (c # t)))"
  by pat_completeness auto
termination
  by (relation "measure length") (auto simp del: escapes.simps dest!: escapes_rest)

declare decodeURIComponent.simps [simp del]

subsection \<open>Reading back\<close>

lemma utf8_inverse:
  assumes "scalar p"
  shows "utf8_read (utf8 p @ bs) = map_option ((#) p) (utf8_read bs)"
proof -
  define r0 q1 where "r0 = p mod 64" "q1 = p div 64"
  define r1 q2 where "r1 = q1 mod 64" "q2 = q1 div 64"
  define r2 q3 where "r2 = q2 mod 64" "q3 = q2 div 64"
  note defs = r0_q1_def r1_q2_def r2_q3_def
  have d: "p div 64 = q1" "p mod 64 = r0" "q1 mod 64 = r1" "p div 4096 = q2" "q2 mod 64 = r2"
      "p div 262144 = q3"
    by (simp_all add: defs flip: div_mult2_eq)
  have b: "r0 < 64" "r1 < 64" "r2 < 64" by (simp_all add: defs)
  have eqs: "p = q1 * 64 + r0" "q1 = q2 * 64 + r1" "q2 = q3 * 64 + r2" by (simp_all add: defs)
  have p: "p < 1114112" using assms by (simp add: scalar_def)
  consider "p < 128" | "128 \<le> p" "p < 2048" | "2048 \<le> p" "p < 65536" | "65536 \<le> p"
    by linarith
  then show ?thesis
  proof cases
    case 2
    then have "192 + q1 < 224" "(q1 * 64 + r0) = p" using eqs b by linarith+
    with 2 b show ?thesis by (simp add: utf8_def d continuation_def Let_def)
  next
    case 3
    then have "224 + q2 < 240" "q2 * 4096 + r1 * 64 + r0 = p" using eqs b by linarith+
    with 3 b assms show ?thesis by (simp add: utf8_def d continuation_def Let_def)
  next
    case 4
    then have "240 + q3 < 248" "q3 * 262144 + r2 * 4096 + r1 * 64 + r0 = p" using eqs b p by linarith+
    with 4 b assms show ?thesis by (simp add: utf8_def d continuation_def Let_def)
  qed (simp add: utf8_def)
qed

lemma utf8_code_bytes: "scalar p \<Longrightarrow> b \<in> set (utf8 p) \<Longrightarrow> b < 256"
  by (auto simp: utf8_def scalar_def split: if_splits)

lemma utf8_points: "list_all scalar ps \<Longrightarrow> utf8_read (concat (map utf8 ps)) = Some ps"
  by (induction ps) (auto simp: utf8_inverse)

lemma hex_pair_roundtrip: "d < 16 \<Longrightarrow> hex_value (hex_digit d) = Some d"
  by (auto simp: hex_value_def hex_digit_def)

lemma escapes_percent:
  "b < 256 \<Longrightarrow> escapes (percent b @ s) = map_option (\<lambda>(bs, r). (b # bs, r)) (escapes s)"
  by (simp add: percent_def hex_pair_roundtrip)

lemma escapes_bytes:
  "list_all (\<lambda>b. b < 256) bs \<Longrightarrow>
   escapes (concat (map percent bs) @ s) = map_option (\<lambda>(cs, r). (bs @ cs, r)) (escapes s)"
  by (induction bs) (auto simp: escapes_percent map_option.compositionality o_def case_prod_unfold
      option.map_ident simp del: escapes.simps)

text \<open>The texts that consist of code points.\<close>

lemma code_points_utf16:
  assumes "code_points s = Some ps" and "\<forall>c \<in> set s. c < 65536"
  shows "concat (map utf16 ps) = s \<and> list_all scalar ps"
  using assms
proof (induction s arbitrary: ps rule: code_points.induct)
  case (2 c cs)
  show ?case
  proof (cases "c < 55296 \<or> 56319 < c")
    case True
    with 2 show ?thesis by (auto simp: utf16_def scalar_def split: if_splits)
  next
    case False
    with "2.prems" obtain d ds qs where cs: "cs = d # ds" and d: "56320 \<le> d" "d \<le> 57343"
      and qs: "code_points ds = Some qs" "ps = ((c - 55296) * 1024 + (d - 56320) + 65536) # qs"
      by (auto split: if_splits list.splits)
    have IH: "concat (map utf16 qs) = ds \<and> list_all scalar qs"
      using "2.IH"(2) False d cs qs "2.prems"(2) by auto
    have "c - 55296 < 1024" "d - 56320 < 1024" using False d by auto
    then have "((c - 55296) * 1024 + (d - 56320)) div 1024 = c - 55296"
      "((c - 55296) * 1024 + (d - 56320)) mod 1024 = d - 56320"
      by (metis add.commute add.right_neutral div_less div_mult_self3 zero_neq_numeral mult.commute)
        (use \<open>d - 56320 < 1024\<close> in \<open>metis mod_mult_self3 mod_less\<close>)
    moreover have "scalar ((c - 55296) * 1024 + (d - 56320) + 65536)"
      using \<open>c - 55296 < 1024\<close> \<open>d - 56320 < 1024\<close> by (simp add: scalar_def)
    ultimately have "utf16 ((c - 55296) * 1024 + (d - 56320) + 65536) = [c, d]"
      "scalar ((c - 55296) * 1024 + (d - 56320) + 65536)"
      using False d by (simp_all add: utf16_def del: diff_add_assoc)
    with IH show ?thesis by (simp add: qs cs)
  qed
qed simp

end
