(* ===== verification/Cookies.thy ===== *)
theory Cookies
  imports Js_Uri "HOL-Library.AList"
begin

section \<open>js.cookie.js and scroll-cookie.js\<close>

text \<open>
  Writing builds the text that is assigned to \<open>document.cookie\<close>; reading searches the text that
  \<open>document.cookie\<close> returns.  What the browser keeps of the one and returns in the other is not part
  of the scripts: the text that is read is an argument.  The rendering of a date is a parameter.
\<close>

type_synonym jstext = "nat list"

definition asc :: "string \<Rightarrow> jstext" where
  "asc s = map of_char s"

subsection \<open>Values, attributes, converters\<close>

text \<open>
  A value is a text, or some other value with its JSON text, if it has one, and its \<open>String()\<close>.
\<close>

datatype cvalue = VText jstext | VOther "jstext option" jstext

datatype attr = AText jstext | ABool bool | ANum int | ADate int | AUndef

type_synonym attrs = "(string \<times> attr) list"

record converter =
  conv_read :: "(jstext \<Rightarrow> jstext \<Rightarrow> jstext) option"
  conv_write :: "(cvalue \<Rightarrow> jstext \<Rightarrow> jstext) option"
  conv_call :: "jstext \<Rightarrow> jstext \<Rightarrow> jstext"

definition no_converter :: converter where
  \<comment> \<open>\<open>init(function () {})\<close>\<close>
  "no_converter = \<lparr>conv_read = None, conv_write = None, conv_call = (\<lambda>_ _. [])\<rparr>"

definition extend_attrs :: "attrs list \<Rightarrow> attrs" where
  "extend_attrs ass = fold (\<lambda>attributes result. fold (\<lambda>(k, v). AList.update k v) attributes result) ass []"

subsection \<open>Writing\<close>

fun unescape_some :: "string list \<Rightarrow> jstext \<Rightarrow> jstext" where
  \<comment> \<open>\<open>replace(/%(23|24|\<dots>)/g, decodeURIComponent)\<close>\<close>
  "unescape_some codes (c # h # l # s) =
     (if c = 37 \<and> [h, l] \<in> set (map asc codes)
      then (16 * the (hex_value h) + the (hex_value l)) # unescape_some codes s
      else c # unescape_some codes (h # l # s))"
| "unescape_some codes s = s"

definition value_codes :: "string list" where
  "value_codes = [''23'', ''24'', ''26'', ''2B'', ''3A'', ''3C'', ''3E'', ''3D'', ''2F'', ''3F'',
     ''40'', ''5B'', ''5D'', ''5E'', ''60'', ''7B'', ''7D'', ''7C'']"

definition key_codes :: "string list" where
  "key_codes = [''23'', ''24'', ''26'', ''2B'', ''5E'', ''60'', ''7C'']"

definition escape_parens :: "jstext \<Rightarrow> jstext" where
  "escape_parens s = concat (map (\<lambda>c. if c = 40 \<or> c = 41 then percent c else [c]) s)"

definition string_of_value :: "cvalue \<Rightarrow> jstext" where
  \<comment> \<open>the JSON text if it starts with a brace or a bracket, else \<open>String(value)\<close>\<close>
  "string_of_value v =
     (case v of
        VText t \<Rightarrow> t
      | VOther js str \<Rightarrow>
          (case js of Some (c # r) \<Rightarrow> if c = 123 \<or> c = 91 then c # r else str | _ \<Rightarrow> str))"

definition encode_value :: "converter \<Rightarrow> cvalue \<Rightarrow> jstext \<Rightarrow> jstext res" where
  "encode_value conv v key =
     (case conv_write conv of
        Some w \<Rightarrow> Inr (w v key)
      | None \<Rightarrow>
          andThen (encodeURIComponent (string_of_value v)) (\<lambda>t. Inr (unescape_some value_codes t)))"

definition encode_key :: "jstext \<Rightarrow> jstext res" where
  "encode_key key =
     andThen (encodeURIComponent key) (\<lambda>t. Inr (escape_parens (unescape_some key_codes t)))"

definition set_expires :: "(int \<Rightarrow> jstext) \<Rightarrow> int \<Rightarrow> attrs \<Rightarrow> attrs res" where
  "set_expires toUTCString now attributes =
     (let expires = (case map_of attributes ''expires'' of
                       Some (ANum days) \<Rightarrow> ADate (now + days * 86400000)
                     | Some a \<Rightarrow> a
                     | None \<Rightarrow> AUndef) in
      case expires of
        ADate d \<Rightarrow> Inr (AList.update ''expires'' (AText (toUTCString d)) attributes)
      | ABool True \<Rightarrow> Inl TypeError
      | AText t \<Rightarrow> if t \<noteq> [] then Inl TypeError else Inr (AList.update ''expires'' (AText []) attributes)
      | _ \<Rightarrow> Inr (AList.update ''expires'' (AText []) attributes))"

fun stringify_attr :: "(int \<Rightarrow> jstext) \<Rightarrow> (int \<Rightarrow> jstext) \<Rightarrow> string \<times> attr \<Rightarrow> jstext" where
  "stringify_attr num_str date_str (name, AText t) =
     (if t = [] then [] else asc ''; '' @ asc name @ asc ''='' @ t)"
| "stringify_attr num_str date_str (name, ABool b) = (if b then asc ''; '' @ asc name else [])"
| "stringify_attr num_str date_str (name, ANum n) =
     (if n = 0 then [] else asc ''; '' @ asc name @ asc ''='' @ num_str n)"
| "stringify_attr num_str date_str (name, ADate d) = asc ''; '' @ asc name @ asc ''='' @ date_str d"
| "stringify_attr num_str date_str (name, AUndef) = []"

text \<open>What the renderings of a date and a number are taken from, and the clock.\<close>

record clock =
  toUTCString :: "int \<Rightarrow> jstext"
  date_str :: "int \<Rightarrow> jstext"
  num_str :: "int \<Rightarrow> jstext"
  now_ms :: int

definition cookie_set :: "clock \<Rightarrow> converter \<Rightarrow> attrs \<Rightarrow> jstext \<Rightarrow> cvalue \<Rightarrow> attrs \<Rightarrow> jstext res" where
  \<comment> \<open>the text assigned to \<open>document.cookie\<close>\<close>
  "cookie_set ck conv defaults key v attributes =
     andThen (set_expires (toUTCString ck) (now_ms ck) (extend_attrs [[(''path'', AText (asc ''/''))], defaults, attributes]))
       (\<lambda>attributes.
     andThen (encode_value conv v key) (\<lambda>v.
     andThen (encode_key key) (\<lambda>key.
       Inr (key @ asc ''='' @ v @ concat (map (stringify_attr (num_str ck) (date_str ck)) attributes)))))"

definition cookie_remove :: "clock \<Rightarrow> converter \<Rightarrow> attrs \<Rightarrow> jstext \<Rightarrow> attrs \<Rightarrow> jstext res" where
  "cookie_remove ck conv defaults key attributes =
     cookie_set ck conv defaults key (VText []) (extend_attrs [attributes, [(''expires'', ANum (- 1))]])"

subsection \<open>Reading\<close>

definition up_hex :: "nat \<Rightarrow> bool" where
  \<comment> \<open>\<open>[0-9A-Z]\<close>\<close>
  "up_hex c \<longleftrightarrow> 48 \<le> c \<and> c \<le> 57 \<or> 65 \<le> c \<and> c \<le> 90"

fun hex_run :: "jstext \<Rightarrow> jstext \<times> jstext" where
  \<comment> \<open>the longest match of \<open>(%[0-9A-Z]{2})+\<close> at the start, and the rest\<close>
  "hex_run (c # h # l # s) =
     (if c = 37 \<and> up_hex h \<and> up_hex l
      then (let (a, b) = hex_run s in (c # h # l # a, b))
      else ([], c # h # l # s))"
| "hex_run s = ([], s)"

lemma hex_run_append: "hex_run s = (a, b) \<Longrightarrow> a @ b = s"
  by (induction s arbitrary: a b rule: hex_run.induct) (auto split: if_splits prod.splits)

function rdecode :: "jstext \<Rightarrow> jstext res" where
  \<comment> \<open>\<open>s.replace(rdecode, decodeURIComponent)\<close>\<close>
  "rdecode s =
     (case s of
        [] \<Rightarrow> Inr []
      | c # cs \<Rightarrow>
          (let (m, rest) = hex_run s in
           if m = [] then andThen (rdecode cs) (\<lambda>t. Inr (c # t))
           else andThen (decodeURIComponent m) (\<lambda>a. andThen (rdecode rest) (\<lambda>b. Inr (a @ b)))))"
  by pat_completeness auto
termination
proof (relation "measure length", goal_cases)
  case (3 s c cs x m rest y)
  then have "m @ rest = s" using hex_run_append [of s m rest] by simp
  then have "length m + length rest = length s" by auto
  then show ?case using 3 by (cases m) auto
qed auto

declare rdecode.simps [simp del]

fun split_at_sep :: "jstext \<Rightarrow> jstext \<Rightarrow> jstext \<Rightarrow> jstext list" where
  "split_at_sep sep acc [] = [acc]"
| "split_at_sep sep acc (c # s) =
     (if take (length sep) (c # s) = sep \<and> sep \<noteq> []
      then acc # split_at_sep sep [] (drop (length sep - 1) s)
      else split_at_sep sep (acc @ [c]) s)"

definition split_text :: "jstext \<Rightarrow> jstext \<Rightarrow> jstext list" where
  "split_text sep s = split_at_sep sep [] s"

fun join_text :: "jstext \<Rightarrow> jstext list \<Rightarrow> jstext" where
  "join_text sep [] = []"
| "join_text sep [x] = x"
| "join_text sep (x # y # xs) = x @ sep @ join_text sep (y # xs)"

definition strip_quotes :: "jstext \<Rightarrow> jstext" where
  "strip_quotes cookie = (case cookie of [] \<Rightarrow> [] | c # r \<Rightarrow> if c = 34 then butlast r else cookie)"

datatype 'j cookie = CText jstext | CJson 'j

definition read_one :: "converter \<Rightarrow> (jstext \<Rightarrow> 'j option) option \<Rightarrow> jstext \<Rightarrow> (jstext \<times> 'j cookie) res" where
  \<comment> \<open>the body of the loop; the second argument is \<open>JSON.parse\<close> when \<open>this.json\<close> is set\<close>
  "read_one conv parse c =
     (let parts = split_text (asc ''='') c;
          cookie = strip_quotes (join_text (asc ''='') (drop 1 parts)) in
      andThen (rdecode (hd parts)) (\<lambda>name.
      andThen (case conv_read conv of
                 Some r \<Rightarrow> Inr (r cookie name)
               | None \<Rightarrow>
                   if conv_call conv cookie name \<noteq> [] then Inr (conv_call conv cookie name)
                   else rdecode cookie) (\<lambda>cookie.
        Inr (name,
             (case parse of
                None \<Rightarrow> CText cookie
              | Some p \<Rightarrow> (case p cookie of None \<Rightarrow> CText cookie | Some j \<Rightarrow> CJson j))))))"

definition cookies_of :: "jstext \<Rightarrow> jstext list" where
  "cookies_of document_cookie =
     (if document_cookie = [] then [] else split_text (asc ''; '') document_cookie)"

fun cookie_find :: "converter \<Rightarrow> (jstext \<Rightarrow> 'j option) option \<Rightarrow> jstext \<Rightarrow> jstext list \<Rightarrow> 'j cookie option" where
  "cookie_find conv parse key [] = None"
| "cookie_find conv parse key (c # cs) =
     (case read_one conv parse c of
        Inl e \<Rightarrow> cookie_find conv parse key cs
      | Inr (name, cookie) \<Rightarrow> if key = name then Some cookie else cookie_find conv parse key cs)"

definition cookie_get :: "converter \<Rightarrow> (jstext \<Rightarrow> 'j option) option \<Rightarrow> jstext \<Rightarrow> jstext \<Rightarrow> 'j cookie option" where
  \<comment> \<open>for a key that is not empty\<close>
  "cookie_get conv parse document_cookie key = cookie_find conv parse key (cookies_of document_cookie)"

definition cookie_all :: "converter \<Rightarrow> (jstext \<Rightarrow> 'j option) option \<Rightarrow> jstext \<Rightarrow> (jstext \<times> 'j cookie) list" where
  "cookie_all conv parse document_cookie =
     fold (\<lambda>c result. case read_one conv parse c of
             Inl e \<Rightarrow> result
           | Inr (name, cookie) \<Rightarrow> AList.update name cookie result)
       (cookies_of document_cookie) []"


subsection \<open>Texts in which some characters stand for themselves\<close>

text \<open>
  \<open>spelled e ps\<close>: the code points \<open>ps\<close>, those in \<open>e\<close> as percent-escapes and the others as they are.
\<close>

definition escaped_point :: "nat \<Rightarrow> jstext" where
  "escaped_point p = concat (map percent (utf8 p))"

definition spelled :: "(nat \<Rightarrow> bool) \<Rightarrow> nat list \<Rightarrow> jstext" where
  "spelled e ps = concat (map (\<lambda>p. if e p then escaped_point p else [p]) ps)"

lemma spelled_simps [simp]:
  "spelled e [] = []"
  "spelled e (p # ps) = (if e p then escaped_point p else [p]) @ spelled e ps"
  by (simp_all add: spelled_def)

lemma hex_digit_range: "d < 16 \<Longrightarrow> up_hex (hex_digit d)"
  by (auto simp: up_hex_def hex_digit_def)

lemma hex_run_percent:
  "b < 256 \<Longrightarrow> hex_run (percent b @ s) = (percent b @ fst (hex_run s), snd (hex_run s))"
  by (simp add: percent_def hex_digit_range case_prod_unfold Let_def)

lemma hex_run_bytes:
  "list_all (\<lambda>b. b < 256) bs \<Longrightarrow>
   hex_run (concat (map percent bs) @ s) = (concat (map percent bs) @ fst (hex_run s), snd (hex_run s))"
  by (induction bs) (simp_all add: hex_run_percent)

lemma bytes_256: "scalar p \<Longrightarrow> list_all (\<lambda>b. b < 256) (utf8 p)"
  by (auto simp: list_all_iff dest: utf8_code_bytes)

lemma hex_run_spelled:
  assumes "list_all scalar ps" and "\<And>p. p \<in> set ps \<Longrightarrow> \<not> e p \<Longrightarrow> p \<noteq> 37"
  shows "hex_run (spelled e ps) = (spelled e (takeWhile e ps), spelled e (dropWhile e ps))"
  using assms
proof (induction ps)
  case (Cons p ps)
  show ?case
  proof (cases "e p")
    case True
    with Cons show ?thesis by (simp add: escaped_point_def hex_run_bytes bytes_256)
  next
    case False
    then have "p \<noteq> 37" using Cons.prems(2) by simp
    then have "hex_run (p # s) = ([], p # s)" for s
      by (cases "(p # s)" rule: hex_run.cases) auto
    with False show ?thesis by simp
  qed
qed simp

lemma spelled_escapes:
  assumes "list_all scalar ps" "list_all e ps"
  shows "escapes (spelled e ps) = Some (concat (map utf8 ps), [])"
  using assms
  by (induction ps) (simp_all add: escaped_point_def escapes_bytes bytes_256 del: escapes.simps, simp)

lemma decode_run:
  assumes "s = 37 # t" "escapes s = Some (bs, [])" "bs \<noteq> []" "utf8_read bs = Some ps"
  shows "decodeURIComponent s = Inr (concat (map utf16 ps))"
  using assms(2-4)
  by (subst decodeURIComponent.simps)
    (simp add: assms(1) decodeURIComponent.simps [of "[]"] del: escapes.simps)

lemma decode_spelled:
  assumes "list_all scalar ps" "list_all e ps" "ps \<noteq> []"
  shows "decodeURIComponent (spelled e ps) = Inr (concat (map utf16 ps))"
proof -
  obtain p qs where ps: "ps = p # qs" using assms(3) by (cases ps) auto
  have ne: "utf8 q \<noteq> []" for q by (simp add: utf8_def)
  then obtain b bs where "utf8 p = b # bs" by (cases "utf8 p") auto
  then obtain t where "spelled e ps = 37 # t"
    using assms(2) ps by (simp add: escaped_point_def percent_def)
  moreover have "concat (map utf8 ps) \<noteq> []" using ne ps by simp
  ultimately show ?thesis
    using spelled_escapes [OF assms(1,2)] utf8_points [OF assms(1)] by (intro decode_run)
qed

lemma spelled_Nil: "spelled e ps = [] \<longleftrightarrow> ps = []"
proof -
  have "escaped_point p \<noteq> []" for p by (simp add: escaped_point_def utf8_def percent_def)
  then show ?thesis by (cases ps) auto
qed

lemma rdecode_spelled:
  assumes "list_all scalar ps" and "\<And>p. p \<in> set ps \<Longrightarrow> \<not> e p \<Longrightarrow> p \<noteq> 37 \<and> p < 128"
  shows "rdecode (spelled e ps) = Inr (concat (map utf16 ps))"
  using assms
proof (induction "length ps" arbitrary: ps rule: less_induct)
  case less
  show ?case
  proof (cases ps)
    case Nil
    then show ?thesis by (simp add: rdecode.simps)
  next
    case (Cons p qs)
    have hr: "hex_run (spelled e ps) = (spelled e (takeWhile e ps), spelled e (dropWhile e ps))"
      using less.prems by (intro hex_run_spelled) auto
    show ?thesis
    proof (cases "e p")
      case False
      have "rdecode (spelled e qs) = Inr (concat (map utf16 qs))"
        using less Cons by (intro less.hyps) auto
      moreover have "p < 128" using less.prems(2) [of p] False Cons by simp
      ultimately show ?thesis
        using hr False Cons by (subst rdecode.simps) (simp add: utf16_def)
    next
      case True
      have sc: "list_all scalar (takeWhile e ps)" "list_all scalar (dropWhile e ps)"
        using less.prems(1) by (auto simp: list_all_iff dest: set_takeWhileD set_dropWhileD)
      have run: "takeWhile e ps \<noteq> []" using True Cons by simp
      have "decodeURIComponent (spelled e (takeWhile e ps)) = Inr (concat (map utf16 (takeWhile e ps)))"
        using sc(1) run by (intro decode_spelled) (auto simp: list_all_iff dest: set_takeWhileD)
      moreover have "rdecode (spelled e (dropWhile e ps)) = Inr (concat (map utf16 (dropWhile e ps)))"
        using sc(2) less.prems(2) True Cons
        by (intro less.hyps) (auto simp: le_imp_less_Suc length_dropWhile_le dest: set_dropWhileD)
      moreover obtain c cs where s: "spelled e ps = c # cs"
        using spelled_Nil [of e ps] Cons by (cases "spelled e ps") auto
      ultimately show ?thesis
        using hr run spelled_Nil [of e "takeWhile e ps"]
        by (subst rdecode.simps)
          (simp add: s flip: concat_append map_append del: map_append concat_append)
    qed
  qed
qed

subsection \<open>What is written is spelled\<close>

definition kept :: "string list \<Rightarrow> nat \<Rightarrow> bool" where
  "kept codes b = (drop 1 (percent b) \<in> set (map asc codes))"

definition ascii_codes :: "string list \<Rightarrow> bool" where
  "ascii_codes codes = list_all (\<lambda>b. \<not> kept codes b) [128..<256]"

definition must_escape :: "string list \<Rightarrow> nat \<Rightarrow> bool" where
  "must_escape codes p \<longleftrightarrow> \<not> unreserved p \<and> \<not> (p < 128 \<and> kept codes p)"

lemma hex_digit_not_percent: "d < 16 \<Longrightarrow> hex_digit d \<noteq> 37"
  by (auto simp: hex_digit_def)

lemma unescape_plain: "c \<noteq> 37 \<Longrightarrow> unescape_some codes (c # s) = c # unescape_some codes s"
  by (cases "(codes, c # s)" rule: unescape_some.cases) auto

lemma unescape_percent:
  assumes "b < 256"
  shows "unescape_some codes (percent b @ s) =
    (if kept codes b then [b] else percent b) @ unescape_some codes s"
proof -
  have "b div 16 < 16" "b mod 16 < 16" using assms by auto
  then show ?thesis
    by (simp add: percent_def kept_def hex_pair_roundtrip hex_digit_not_percent unescape_plain)
qed

lemma unescape_bytes:
  assumes "list_all (\<lambda>b. b < 256 \<and> \<not> kept codes b) bs"
  shows "unescape_some codes (concat (map percent bs) @ s) = concat (map percent bs) @ unescape_some codes s"
  using assms by (induction bs) (auto simp: unescape_percent)

lemma utf8_high: "128 \<le> p \<Longrightarrow> b \<in> set (utf8 p) \<Longrightarrow> 128 \<le> b"
  by (auto simp: utf8_def split: if_splits)

lemma unescape_point:
  assumes "scalar p" and "ascii_codes codes"
  shows "unescape_some codes (encode_point p @ s) =
    (if must_escape codes p then escaped_point p else [p]) @ unescape_some codes s"
proof -
  consider "unreserved p" | "\<not> unreserved p" "p < 128" | "\<not> unreserved p" "128 \<le> p"
    by linarith
  then show ?thesis
  proof cases
    case 1
    then have "p \<noteq> 37" by (auto simp: unreserved_def)
    with 1 show ?thesis by (simp add: must_escape_def encode_point_def unescape_plain)
  next
    case 2
    then have "utf8 p = [p]" by (simp add: utf8_def)
    with 2 show ?thesis
      by (simp add: must_escape_def encode_point_def escaped_point_def unescape_percent)
  next
    case 3
    have "\<not> kept codes b" if "128 \<le> b" "b < 256" for b
      using assms(2) that unfolding ascii_codes_def list_all_iff by (metis atLeastLessThan_iff set_upt)
    then have "list_all (\<lambda>b. b < 256 \<and> \<not> kept codes b) (utf8 p)"
      using utf8_high [OF 3(2)] utf8_code_bytes [OF assms(1)] by (auto simp: list_all_iff)
    with 3 show ?thesis
      by (simp add: must_escape_def encode_point_def escaped_point_def unescape_bytes)
  qed
qed

lemma unescape_spelled:
  assumes "list_all scalar ps" and "ascii_codes codes"
  shows "unescape_some codes (concat (map encode_point ps)) = spelled (must_escape codes) ps"
  using assms(1) by (induction ps) (auto simp: unescape_point [OF _ assms(2)])

lemma codes_ok: "ascii_codes value_codes" "ascii_codes key_codes"
  by (simp_all add: ascii_codes_def kept_def percent_def hex_digit_def asc_def value_codes_def
      key_codes_def upt_rec)

lemma escapes_of_marks:
  "must_escape value_codes 59" "must_escape value_codes 34" "must_escape value_codes 37"
  "must_escape key_codes 59" "must_escape key_codes 61" "must_escape key_codes 37"
  by (simp_all add: must_escape_def unreserved_def kept_def percent_def hex_digit_def asc_def
      value_codes_def key_codes_def)

lemma kept_ascii: "scalar p \<Longrightarrow> \<not> must_escape codes p \<Longrightarrow> p < 128"
  by (auto simp: must_escape_def unreserved_def)

lemma percent_marks: "b < 256 \<Longrightarrow> c \<in> set (percent b) \<Longrightarrow> c = 37 \<or> up_hex c"
proof -
  assume b: "b < 256" and c: "c \<in> set (percent b)"
  then have "b div 16 < 16" "b mod 16 < 16" by auto
  with c show ?thesis using hex_digit_range by (auto simp: percent_def)
qed

lemma spelled_marks:
  assumes "c \<in> set (spelled e ps)" "list_all scalar ps"
  shows "c = 37 \<or> up_hex c \<or> (c \<in> set ps \<and> \<not> e c)"
proof -
  from assms(1) obtain p where p: "p \<in> set ps" "c \<in> set (if e p then escaped_point p else [p])"
    by (auto simp: spelled_def)
  then have "list_all (\<lambda>b. b < 256) (utf8 p)" using assms(2) bytes_256 by (auto simp: list_all_iff)
  with p show ?thesis
    by (auto simp: escaped_point_def list_all_iff split: if_splits dest!: percent_marks)
qed

lemma parens_plain: "c \<noteq> 40 \<Longrightarrow> c \<noteq> 41 \<Longrightarrow> escape_parens (c # s) = c # escape_parens s"
  by (simp add: escape_parens_def)

lemma escape_parens_append: "escape_parens (a @ b) = escape_parens a @ escape_parens b"
  by (simp add: escape_parens_def)

lemma escape_parens_id: "(\<And>c. c \<in> set a \<Longrightarrow> c \<noteq> 40 \<and> c \<noteq> 41) \<Longrightarrow> escape_parens a = a"
  by (induction a) (auto simp: parens_plain, simp add: escape_parens_def)

definition key_escape :: "nat \<Rightarrow> bool" where
  "key_escape p \<longleftrightarrow> must_escape key_codes p \<or> p = 40 \<or> p = 41"

lemma escape_parens_spelled:
  assumes "list_all scalar ps"
  shows "escape_parens (spelled (must_escape key_codes) ps) = spelled key_escape ps"
  using assms
proof (induction ps)
  case Nil
  then show ?case by (simp add: escape_parens_def)
next
  case (Cons p ps)
  have "escape_parens (if must_escape key_codes p then escaped_point p else [p]) =
      (if key_escape p then escaped_point p else [p])"
  proof (cases "must_escape key_codes p")
    case True
    have "escape_parens (escaped_point p) = escaped_point p"
    proof (rule escape_parens_id)
      fix c assume "c \<in> set (escaped_point p)"
      then obtain b where "b \<in> set (utf8 p)" "c \<in> set (percent b)" by (auto simp: escaped_point_def)
      moreover have "b < 256" using Cons.prems \<open>b \<in> set (utf8 p)\<close> utf8_code_bytes [of p b] by simp
      ultimately show "c \<noteq> 40 \<and> c \<noteq> 41" using percent_marks by (fastforce simp: up_hex_def)
    qed
    with True show ?thesis by (simp add: key_escape_def)
  next
    case False
    then show ?thesis by (auto simp: key_escape_def escape_parens_def escaped_point_def utf8_def)
  qed
  with Cons show ?case by (simp add: escape_parens_append)
qed

subsection \<open>Splitting and joining\<close>

lemma split_skip:
  assumes "c \<notin> set x"
  shows "split_at_sep (c # cs) acc (x @ s) = split_at_sep (c # cs) (acc @ x) s"
  using assms by (induction x arbitrary: acc) auto

lemma split_join:
  assumes "xs \<noteq> []" "\<And>x. x \<in> set xs \<Longrightarrow> c \<notin> set x"
  shows "split_text (c # cs) (join_text (c # cs) xs) = xs"
  using assms
proof (induction xs rule: induct_list012)
  case (2 x)
  then show ?case using split_skip [of c x cs "[]" "[]"] by (simp add: split_text_def)
next
  case (3 x y xs)
  have "split_text (c # cs) (x @ (c # cs) @ s) = x # split_text (c # cs) s" for s
    using split_skip [of c x cs "[]" "(c # cs) @ s"] 3 by (simp add: split_text_def)
  with 3 show ?case by simp
qed simp

lemma split_nonempty: "split_at_sep sep acc s \<noteq> []"
  by (induction sep acc s rule: split_at_sep.induct) auto

lemma join_split_acc: "join_text [c] (split_at_sep [c] acc s) = acc @ s"
proof (induction s arbitrary: acc)
  case (Cons d s)
  have "split_at_sep [c] a s \<noteq> []" for a by (rule split_nonempty)
  then obtain y ys where "split_at_sep [c] [] s = y # ys" by (cases "split_at_sep [c] [] s") auto
  with Cons [of "[]"] Cons [of "acc @ [d]"] show ?case by auto
qed simp

lemma split_pair:
  assumes "61 \<notin> set k"
  shows "split_text (asc ''='') (k @ asc ''='' @ v) = k # split_text (asc ''='') v"
  using split_skip [of 61 k "[]" "[]" "61 # v"] assms by (simp add: split_text_def asc_def)

subsection \<open>Properties\<close>

text \<open>A text that the language accepts: 16-bit units, its surrogates paired.\<close>

definition well_formed :: "jstext \<Rightarrow> bool" where
  "well_formed s \<longleftrightarrow> list_all (\<lambda>c. c < 65536) s \<and> code_points s \<noteq> None"

lemma well_formedE:
  assumes "well_formed s"
  obtains ps where "code_points s = Some ps" "concat (map utf16 ps) = s" "list_all scalar ps"
  using assms code_points_utf16 by (auto simp: well_formed_def list_all_iff)

lemma encode_value_spelled:
  assumes "well_formed v"
  obtains v' where "encode_value no_converter (VText v) key = Inr v'" "rdecode v' = Inr v"
    "59 \<notin> set v'" "strip_quotes v' = v'"
proof -
  obtain ps where ps: "code_points v = Some ps" "concat (map utf16 ps) = v" "list_all scalar ps"
    using assms by (rule well_formedE)
  let ?v = "spelled (must_escape value_codes) ps"
  have "encode_value no_converter (VText v) key = Inr ?v"
    using ps(1) by (simp add: encode_value_def no_converter_def string_of_value_def
        encodeURIComponent_def unescape_spelled [OF ps(3) codes_ok(1)])
  moreover have "rdecode ?v = Inr v"
    using rdecode_spelled [OF ps(3)] ps(2,3) escapes_of_marks kept_ascii by (fastforce simp: list_all_iff)
  moreover have "59 \<notin> set ?v" "34 \<notin> set ?v"
    using spelled_marks [OF _ ps(3)] escapes_of_marks by (force simp: up_hex_def)+
  moreover from this(2) have "strip_quotes ?v = ?v"
    by (auto simp: strip_quotes_def split: list.splits)
  ultimately show ?thesis using that by blast
qed

lemma encode_key_spelled:
  assumes "well_formed key"
  obtains k where "encode_key key = Inr k" "rdecode k = Inr key" "59 \<notin> set k" "61 \<notin> set k"
proof -
  obtain ps where ps: "code_points key = Some ps" "concat (map utf16 ps) = key" "list_all scalar ps"
    using assms by (rule well_formedE)
  let ?k = "spelled key_escape ps"
  have "encode_key key = Inr ?k"
    using ps(1) by (simp add: encode_key_def encodeURIComponent_def
        unescape_spelled [OF ps(3) codes_ok(2)] escape_parens_spelled [OF ps(3)])
  moreover have "rdecode ?k = Inr key"
    using rdecode_spelled [OF ps(3), of key_escape] ps(2,3) escapes_of_marks kept_ascii
    by (fastforce simp: list_all_iff key_escape_def)
  moreover have "59 \<notin> set ?k" "61 \<notin> set ?k"
    using spelled_marks [OF _ ps(3), of _ key_escape] escapes_of_marks
    by (force simp: up_hex_def key_escape_def)+
  ultimately show ?thesis using that by blast
qed

lemma read_pair:
  assumes "rdecode k = Inr key" "61 \<notin> set k" "rdecode v' = Inr v" "strip_quotes v' = v'"
  shows "read_one no_converter None (k @ asc ''='' @ v') = Inr (key, CText v)"
  using assms join_split_acc [of 61 "[]" v']
  by (simp add: read_one_def split_pair no_converter_def Let_def, simp add: split_text_def asc_def)

lemma cookie_find_skip:
  assumes "\<And>c b. c \<in> set pre \<Longrightarrow> read_one conv parse c \<noteq> Inr (key, b)"
  shows "cookie_find conv parse key (pre @ cs) = cookie_find conv parse key cs"
  using assms by (induction pre) (auto split: sum.splits)

end
