(* ===== verification/Cookie_Props.thy ===== *)
theory Cookie_Props
  imports Cookies
begin

section \<open>Properties of the cookies\<close>

text \<open>
  Reading back what was written, and the scroll position that \<open>scroll-cookie.js\<close> keeps in a cookie.
\<close>

definition others :: "jstext \<Rightarrow> jstext list \<Rightarrow> bool" where
  \<comment> \<open>cookies that are not the one named \<open>key\<close>\<close>
  "others key cs =
     list_all (\<lambda>c. 59 \<notin> set c \<and>
       (case read_one no_converter None c of Inr (name, (_ :: unit cookie)) \<Rightarrow> name \<noteq> key | Inl e \<Rightarrow> True)) cs"

lemma attrs_start:
  "concat (map (stringify_attr ns ds) as) = [] \<or> (\<exists>r. concat (map (stringify_attr ns ds) as) = 59 # r)"
proof (induction as)
  case (Cons a as)
  have "stringify_attr ns ds a = [] \<or> (\<exists>r. stringify_attr ns ds a = 59 # r)"
    by (cases "(ns, ds, a)" rule: stringify_attr.cases) (auto simp: asc_def)
  with Cons show ?case by auto
qed simp

lemma join_nonempty: "x \<in> set xs \<Longrightarrow> x \<noteq> [] \<Longrightarrow> join_text sep xs \<noteq> []"
  by (induction xs rule: induct_list012) auto

lemma get_written:
  assumes k: "rdecode k = Inr key" "59 \<notin> set k" "61 \<notin> set k"
    and v: "rdecode v' = Inr v" "59 \<notin> set v'" "strip_quotes v' = v'"
    and pre: "others key pre" and post: "list_all (\<lambda>c. 59 \<notin> set c) post"
  shows "cookie_get no_converter None (join_text (asc ''; '') (pre @ [k @ asc ''='' @ v'] @ post)) key
    = Some (CText v :: unit cookie)"
proof -
  let ?pair = "k @ asc ''='' @ v'"
  let ?all = "pre @ [?pair] @ post"
  have "59 \<notin> set c" if "c \<in> set ?all" for c
    using that k v pre post by (auto simp: others_def list_all_iff asc_def)
  then have "split_text (asc ''; '') (join_text (asc ''; '') ?all) = ?all"
    using split_join [of ?all 59 "[32]"] by (simp add: asc_def)
  moreover have "join_text (asc ''; '') ?all \<noteq> []"
    by (rule join_nonempty [of ?pair]) (simp_all add: asc_def)
  ultimately have "cookies_of (join_text (asc ''; '') ?all) = ?all" by (simp add: cookies_of_def)
  moreover have "cookie_find no_converter None key ?all = Some (CText v :: unit cookie)"
    using pre read_pair [OF k(1,3) v(1,3), where ?'a = unit]
    by (subst cookie_find_skip) (auto simp: others_def list_all_iff split: sum.splits)
  ultimately show ?thesis by (simp add: cookie_get_def)
qed

lemma written_pair:
  assumes "well_formed key" "well_formed v"
    and "cookie_set ck no_converter defaults key (VText v) attributes = Inr written"
  obtains pair rest where "written = pair @ rest" "59 \<notin> set pair" "rest = [] \<or> hd rest = 59"
    "\<And>pre post. others key pre \<Longrightarrow> list_all (\<lambda>c. 59 \<notin> set c) post \<Longrightarrow>
       cookie_get no_converter None (join_text (asc ''; '') (pre @ [pair] @ post)) key
         = Some (CText v :: unit cookie)"
proof -
  obtain k where k: "encode_key key = Inr k" "rdecode k = Inr key" "59 \<notin> set k" "61 \<notin> set k"
    using assms(1) by (rule encode_key_spelled)
  obtain v' where v: "encode_value no_converter (VText v) key = Inr v'" "rdecode v' = Inr v"
      "59 \<notin> set v'" "strip_quotes v' = v'"
    using assms(2) by (rule encode_value_spelled)
  obtain as where as: "written = (k @ asc ''='' @ v') @ concat (map (stringify_attr (num_str ck) (date_str ck)) as)"
    using assms(3) k(1) v(1) by (auto simp: cookie_set_def elim: andThen_InrE)
  show ?thesis
  proof (rule that [OF as])
    show "59 \<notin> set (k @ asc ''='' @ v')" using k v by (simp add: asc_def)
    show "concat (map (stringify_attr (num_str ck) (date_str ck)) as) = [] \<or>
        hd (concat (map (stringify_attr (num_str ck) (date_str ck)) as)) = 59"
      using attrs_start [of "num_str ck" "date_str ck" as] by (metis list.sel(1))
  qed (rule get_written [OF k(2-4) v(2-4)])
qed

text \<open>
  C27.  Reading returns the value that was written: \<open>Cookies.set\<close> assigns a pair without semicolon,
  followed by the attributes; and wherever this pair stands among other cookies, \<open>Cookies.get\<close>
  returns the value, for every key and value of well formed text, whatever characters they hold.
\<close>

theorem cookie_roundtrip:
  assumes "well_formed key" "well_formed v" "key \<noteq> []"
    and "cookie_set ck no_converter defaults key (VText v) attributes = Inr written"
  shows "\<exists>pair rest. written = pair @ rest \<and> 59 \<notin> set pair \<and> (rest = [] \<or> hd rest = 59) \<and>
    (\<forall>pre post. others key pre \<longrightarrow> list_all (\<lambda>c. 59 \<notin> set c) post \<longrightarrow>
       cookie_get no_converter None (join_text (asc ''; '') (pre @ [pair] @ post)) key
         = Some (CText v :: unit cookie))"
  using written_pair [OF assms(1,2,4)] by metis

definition demo_clock :: clock where
  "demo_clock = \<lparr>toUTCString = (\<lambda>_. asc ''date''), date_str = (\<lambda>_. asc ''date''), num_str = (\<lambda>_. asc ''1''), now_ms = 0\<rparr>"

theorem cookie_roundtrip_witness:
  "\<exists>pair. cookie_get no_converter None (join_text (asc ''; '') [asc ''x=y'', pair]) (asc ''a;b'')
     = Some (CText [55357, 56832, 37, 61] :: unit cookie)"
proof -
  have wf: "well_formed (asc ''a;b'')" "well_formed [55357, 56832, 37, 61]"
    by (simp_all add: well_formed_def asc_def)
  have ne: "asc ''a;b'' \<noteq> []" by (simp add: asc_def)
  obtain k where k: "encode_key (asc ''a;b'') = Inr k"
    using wf(1) by (rule encode_key_spelled)
  obtain v where v: "encode_value no_converter (VText [55357, 56832, 37, 61]) (asc ''a;b'') = Inr v"
    using wf(2) by (rule encode_value_spelled)
  obtain w where "cookie_set demo_clock no_converter [] (asc ''a;b'') (VText [55357, 56832, 37, 61]) [] = Inr w"
    using k v by (simp add: cookie_set_def set_expires_def extend_attrs_def)
  moreover have "others (asc ''a;b'') [asc ''x=y'']"
    by (simp add: others_def read_one_def split_text_def asc_def Let_def rdecode.simps no_converter_def strip_quotes_def)
  ultimately obtain pair where "\<forall>pre post. others (asc ''a;b'') pre \<longrightarrow> list_all (\<lambda>c. 59 \<notin> set c) post \<longrightarrow>
       cookie_get no_converter None (join_text (asc ''; '') (pre @ [pair] @ post)) (asc ''a;b'')
         = Some (CText [55357, 56832, 37, 61] :: unit cookie)" and "others (asc ''a;b'') [asc ''x=y'']"
    using cookie_roundtrip [OF wf ne] by metis
  from this(1) [rule_format, OF this(2), of "[]"] show ?thesis by auto
qed

subsection \<open>scroll-cookie.js\<close>

definition relative_path :: "jstext \<Rightarrow> jstext \<Rightarrow> jstext" where
  \<comment> \<open>\<open>href.replace(origin, "")\<close>, for an \<open>href\<close> that starts with its \<open>origin\<close>\<close>
  "relative_path href origin = (if take (length origin) href = origin then drop (length origin) href else href)"

definition scroll_key :: jstext where "scroll_key = asc ''scroll-cookie''"

definition scroll_save :: "clock \<Rightarrow> jstext \<Rightarrow> jstext \<Rightarrow> jstext res" where
  "scroll_save ck scrollTop rpath =
     cookie_set ck no_converter [] scroll_key (VText (scrollTop @ asc ''|'' @ rpath))
       [(''expires'', ANum 365), (''path'', AText [])]"

definition scroll_restore :: "jstext \<Rightarrow> jstext \<Rightarrow> jstext option" where
  \<comment> \<open>the argument of \<open>$(window).scrollTop\<close> when the page is loaded\<close>
  "scroll_restore document_cookie rpath =
     (case (cookie_get no_converter None document_cookie scroll_key :: unit cookie option) of
        Some (CText c) \<Rightarrow>
          (let cvalues = split_text (asc ''|'') c in
           if length cvalues > 1 \<and> cvalues ! 1 = rpath then Some (cvalues ! 0) else None)
      | _ \<Rightarrow> None)"

text \<open>The timer: a scroll restarts it, and the position is written once it has run out.\<close>

datatype scroll_event = Scrolled | TimerEnds jstext

fun scroll_step :: "clock \<Rightarrow> jstext \<Rightarrow> scroll_event \<Rightarrow> bool \<times> jstext res list \<Rightarrow> bool \<times> jstext res list" where
  "scroll_step ck rpath Scrolled (timer, writes) = (True, writes)"
| "scroll_step ck rpath (TimerEnds scrollTop) (timer, writes) =
     (if timer then (False, writes @ [scroll_save ck scrollTop rpath]) else (timer, writes))"

lemma split_plain: "c \<notin> set s \<Longrightarrow> split_text [c] s = [s]"
  using split_skip [of c s "[]" "[]" "[]"] by (simp add: split_text_def)

lemma split_pieces: "p \<in> set (split_at_sep [c] acc s) \<Longrightarrow> c \<notin> set acc \<Longrightarrow> c \<notin> set p"
proof (induction s arbitrary: acc)
  case (Cons d s)
  have "p \<in> set (split_at_sep [c] [] s) \<Longrightarrow> c \<notin> set p" by (rule Cons.IH) auto
  moreover have "d \<noteq> c \<Longrightarrow> p \<in> set (split_at_sep [c] (acc @ [d]) s) \<Longrightarrow> c \<notin> set p"
    by (rule Cons.IH [of "acc @ [d]"]) (use Cons.prems in auto)
  ultimately show ?case using Cons.prems by (auto split: if_splits)
qed auto

text \<open>
  The position is restored on the page it was saved on, whatever other cookies there are,
  provided that the path has no vertical bar; a path with one is never recognised.
\<close>

theorem scroll_position_restored:
  assumes "well_formed (scrollTop @ asc ''|'' @ rpath)" and "124 \<notin> set scrollTop"
    and "scroll_save ck scrollTop rpath = Inr written"
  shows "\<exists>pair rest. written = pair @ rest \<and>
    (\<forall>pre post. others scroll_key pre \<longrightarrow> list_all (\<lambda>c. 59 \<notin> set c) post \<longrightarrow>
       scroll_restore (join_text (asc ''; '') (pre @ [pair] @ post)) rpath =
         (if 124 \<in> set rpath then None else Some scrollTop))"
proof -
  have key: "well_formed scroll_key" by (simp add: well_formed_def scroll_key_def asc_def)
  have eq: "split_text (asc ''|'') (scrollTop @ asc ''|'' @ rpath) = scrollTop # split_text (asc ''|'') rpath"
    using split_skip [of 124 scrollTop "[]" "[]" "124 # rpath"] assms(2)
    by (simp add: split_text_def asc_def)
  have ne: "split_text (asc ''|'') rpath \<noteq> []" by (simp add: split_text_def split_nonempty)
  have bar: "hd (split_text (asc ''|'') rpath) \<noteq> rpath" if "124 \<in> set rpath"
    using that ne split_pieces [of "hd (split_text (asc ''|'') rpath)" 124 "[]" rpath]
    by (auto simp: split_text_def asc_def)
  have nth: "(scrollTop # split_text (asc ''|'') rpath) ! 1 = hd (split_text (asc ''|'') rpath)"
    using ne by (simp add: hd_conv_nth)
  have val: "(let cvalues = split_text (asc ''|'') (scrollTop @ asc ''|'' @ rpath) in
      if length cvalues > 1 \<and> cvalues ! 1 = rpath then Some (cvalues ! 0) else None) =
      (if 124 \<in> set rpath then None else Some scrollTop)"
    using ne bar nth split_plain [of 124 rpath]
    unfolding eq Let_def by (auto simp: asc_def)
  have saved: "cookie_set ck no_converter [] scroll_key (VText (scrollTop @ asc ''|'' @ rpath))
      [(''expires'', ANum 365), (''path'', AText [])] = Inr written"
    using assms(3) by (simp add: scroll_save_def)
  from written_pair [OF key assms(1) saved] obtain pair rest where "written = pair @ rest"
    and get: "\<And>pre post. others scroll_key pre \<Longrightarrow> list_all (\<lambda>c. 59 \<notin> set c) post \<Longrightarrow>
       cookie_get no_converter None (join_text (asc ''; '') (pre @ [pair] @ post)) scroll_key
         = Some (CText (scrollTop @ asc ''|'' @ rpath) :: unit cookie)"
    by metis
  moreover have "scroll_restore (join_text (asc ''; '') (pre @ [pair] @ post)) rpath =
      (if 124 \<in> set rpath then None else Some scrollTop)"
    if "others scroll_key pre" "list_all (\<lambda>c. 59 \<notin> set c) post" for pre post
    using get [OF that] val by (simp add: scroll_restore_def)
  ultimately show ?thesis by blast
qed

theorem scroll_position_restored_witness:
  "\<exists>pair. scroll_restore (join_text (asc ''; '') [pair]) (asc ''/a'') = Some (asc ''12'')"
proof -
  have wf: "well_formed (asc ''12'' @ asc ''|'' @ asc ''/a'')" "well_formed scroll_key"
    by (simp_all add: well_formed_def asc_def scroll_key_def)
  obtain k where k: "encode_key scroll_key = Inr k"
    using wf(2) by (rule encode_key_spelled)
  obtain v where v: "encode_value no_converter (VText (asc ''12'' @ asc ''|'' @ asc ''/a'')) scroll_key = Inr v"
    using wf(1) by (rule encode_value_spelled)
  obtain w where "scroll_save demo_clock (asc ''12'') (asc ''/a'') = Inr w"
    using k v by (simp add: scroll_save_def cookie_set_def set_expires_def extend_attrs_def)
  from scroll_position_restored [OF wf(1) _ this] obtain pair where
    "\<forall>pre post. others scroll_key pre \<longrightarrow> list_all (\<lambda>c. 59 \<notin> set c) post \<longrightarrow>
       scroll_restore (join_text (asc ''; '') (pre @ [pair] @ post)) (asc ''/a'') =
         (if 124 \<in> set (asc ''/a'') then None else Some (asc ''12''))"
    by (auto simp: asc_def)
  from this [rule_format, of "[]" "[]"] show ?thesis by (auto simp: others_def asc_def)
qed

end
