(* ===== verification/Fancybox_Hash.thy ===== *)
theory Fancybox_Hash
  imports Cookie_Props
begin

section \<open>jquery.fancybox.js: the gallery in the address\<close>

text \<open>
  The module \<open>Hash\<close>: the address names the gallery that is shown and the number of the item, counted
  from 1.  A text is a list of code units, as in \<open>Cookies\<close>; the names are those that an address keeps as
  they are, without characters that the browser would escape.  What the page has for a name is a
  parameter.
\<close>

subsection \<open>Reading and writing the hash\<close>

definition all_digits :: "jstext \<Rightarrow> bool" where
  "all_digits s \<longleftrightarrow> s \<noteq> [] \<and> list_all (\<lambda>c. 48 \<le> c \<and> c \<le> 57) s"

definition numeric :: "jstext \<Rightarrow> bool" where
  \<comment> \<open>\<open>/^\+?\d+$/\<close>\<close>
  "numeric s \<longleftrightarrow> all_digits s \<or> (case s of [] \<Rightarrow> False | c # r \<Rightarrow> c = 43 \<and> all_digits r)"

definition parseInt_10 :: "jstext \<Rightarrow> nat" where
  \<comment> \<open>of a numeric text\<close>
  "parseInt_10 s = foldl (\<lambda>n c. 10 * n + (c - 48)) 0 (case s of [] \<Rightarrow> [] | c # r \<Rightarrow> if c = 43 then r else s)"

record gallery_url =
  url_hash :: jstext
  url_index :: nat
  url_gallery :: jstext

definition parseUrl :: "jstext \<Rightarrow> gallery_url" where
  \<comment> \<open>of \<open>window.location.hash\<close>, which is empty or begins with \<open>#\<close>\<close>
  "parseUrl location_hash =
     (let hash = drop 1 location_hash;
          rez = split_text [45] hash;
          last_is = length rez > 1 \<and> numeric (last rez);
          index = (if last_is then (let n = parseInt_10 (last rez) in if n = 0 then 1 else n) else 1);
          rez = (if last_is then butlast rez else rez)
      in \<lparr>url_hash = hash, url_index = (if index < 1 then 1 else index), url_gallery = join_text [45] rez\<rparr>)"

fun dec_text :: "nat \<Rightarrow> jstext" where
  "dec_text n = (if n < 10 then [48 + n] else dec_text (n div 10) @ [48 + n mod 10])"

declare dec_text.simps [simp del]

definition gallery_hash :: "jstext \<Rightarrow> nat \<Rightarrow> nat \<Rightarrow> jstext" where
  \<comment> \<open>what \<open>beforeShow\<close> puts into \<open>currentHash\<close> for the item \<open>index\<close> of \<open>n\<close>\<close>
  "gallery_hash gallery n index = gallery @ (if n > 1 then 45 # dec_text (index + 1) else [])"

definition numbered :: "jstext \<Rightarrow> bool" where
  \<comment> \<open>a name that reads like a name with the number of an item\<close>
  "numbered gallery \<longleftrightarrow> (let ps = split_text [45] gallery in length ps > 1 \<and> numeric (last ps))"

subsection \<open>The address and the history\<close>

text \<open>
  \<open>entries\<close>: the hashes of the session history, the current one first; \<open>timer\<close>: the address will be written;
  \<open>pushes\<close> counts the entries that the module has made.
\<close>

record shown =
  name :: jstext
  items :: nat
  origHash :: "jstext option"

record hash_state =
  entries :: "jstext list"
  shouldCreateHistory :: bool
  currentHash :: "jstext option"
  timer :: bool
  viewer :: "shown option"
  pushes :: nat

definition hash_start :: "jstext list \<Rightarrow> hash_state" where
  "hash_start hs = \<lparr>entries = hs, shouldCreateHistory = True, currentHash = None, timer = False, viewer = None, pushes = 0\<rparr>"

definition location :: "hash_state \<Rightarrow> jstext" where
  "location s = (case entries s of [] \<Rightarrow> [] | h # _ \<Rightarrow> h)"

definition init_index :: "jstext \<Rightarrow> nat \<Rightarrow> hash_state \<Rightarrow> nat" where
  \<comment> \<open>\<open>onInit\<close>: the item with which a gallery begins\<close>
  "init_index gallery currIndex s =
     (let url = parseUrl (location s) in
      if gallery \<noteq> [] \<and> url_gallery url \<noteq> [] \<and> gallery = url_gallery url then url_index url - 1 else currIndex)"

definition before_show :: "nat \<Rightarrow> hash_state \<Rightarrow> hash_state" where
  "before_show index s =
     (case viewer s of
        None \<Rightarrow> s
      | Some v \<Rightarrow>
          if name v = [] then s
          else
            let v' = (if occurs (name v) (location s) then v else v\<lparr>origHash := Some (location s)\<rparr>)
            in s\<lparr>viewer := Some v', currentHash := Some (gallery_hash (name v) (items v) index), timer := True\<rparr>)"

definition timer_ends :: "hash_state \<Rightarrow> hash_state" where
  "timer_ends s =
     (if \<not> timer s then s
      else
        (case currentHash s of
           None \<Rightarrow> s
         | Some h \<Rightarrow>
             (if shouldCreateHistory s then s\<lparr>entries := (35 # h) # entries s, pushes := pushes s + 1\<rparr>
              else s\<lparr>entries := (35 # h) # tl (entries s)\<rparr>)\<lparr>timer := False, shouldCreateHistory := False\<rparr>))"

definition before_close :: "hash_state \<Rightarrow> hash_state" where
  "before_close s =
     (case viewer s of
        None \<Rightarrow> s
      | Some v \<Rightarrow>
          let s = s\<lparr>timer := False, viewer := None, currentHash := None\<rparr> in
          if name v = [] then s
          else s\<lparr>entries := (case origHash v of None \<Rightarrow> [] | Some h \<Rightarrow> h) # tl (entries s)\<rparr>)"

definition open_viewer :: "jstext \<Rightarrow> nat \<Rightarrow> nat \<Rightarrow> hash_state \<Rightarrow> hash_state" where
  "open_viewer gallery n index s =
     before_show (init_index gallery index s) (s\<lparr>viewer := Some \<lparr>name = gallery, items = n, origHash = None\<rparr>\<rparr>)"

definition triggerFromUrl :: "(jstext \<Rightarrow> nat \<Rightarrow> (jstext \<times> nat \<times> nat) option) \<Rightarrow> gallery_url \<Rightarrow> hash_state \<Rightarrow> hash_state" where
  \<comment> \<open>\<open>page\<close>: the gallery, its size and the item that a click on the link found for a name and a number opens\<close>
  "triggerFromUrl page url s =
     (if url_gallery url \<noteq> [] then
        (case page (url_gallery url) (url_index url) of
           None \<Rightarrow> s
         | Some (gallery, n, index) \<Rightarrow> open_viewer gallery n index (s\<lparr>shouldCreateHistory := False\<rparr>))
      else s)"

definition hash_change :: "(jstext \<Rightarrow> nat \<Rightarrow> (jstext \<times> nat \<times> nat) option) \<Rightarrow> hash_state \<Rightarrow> hash_state" where
  "hash_change page s =
     (let url = parseUrl (location s) in
      if viewer s \<noteq> None then
        (case currentHash s of
           None \<Rightarrow> s
         | Some h \<Rightarrow>
             if h \<noteq> [] \<and> h \<noteq> url_gallery url @ 45 # dec_text (url_index url) \<and> \<not> (url_index url = 1 \<and> h = url_gallery url)
             then before_close (s\<lparr>currentHash := None\<rparr>) else s)
      else triggerFromUrl page url s)"

datatype hash_event = Opened jstext nat nat | Shown nat | TimerEnded | ClosedViewer | Navigated jstext | WentBack | PageReady

definition navigated :: "(jstext \<Rightarrow> nat \<Rightarrow> (jstext \<times> nat \<times> nat) option) \<Rightarrow> jstext list \<Rightarrow> hash_state \<Rightarrow> hash_state" where
  \<comment> \<open>the browser reports a change of the hash only\<close>
  "navigated page hs s =
     (let s' = s\<lparr>entries := hs\<rparr> in if location s' = location s then s' else hash_change page s')"

fun hash_step :: "(jstext \<Rightarrow> nat \<Rightarrow> (jstext \<times> nat \<times> nat) option) \<Rightarrow> hash_event \<Rightarrow> hash_state \<Rightarrow> hash_state" where
  "hash_step page (Opened gallery n i) s = (if viewer s = None then open_viewer gallery n i s else s)"
| "hash_step page (Shown i) s = before_show i s"
| "hash_step page TimerEnded s = timer_ends s"
| "hash_step page ClosedViewer s = before_close s"
| "hash_step page (Navigated h) s = navigated page (h # entries s) s"
| "hash_step page WentBack s = (if length (entries s) > 1 then navigated page (tl (entries s)) s else s)"
| "hash_step page PageReady s = triggerFromUrl page (parseUrl (location s)) s"

definition hash_run :: "(jstext \<Rightarrow> nat \<Rightarrow> (jstext \<times> nat \<times> nat) option) \<Rightarrow> hash_event list \<Rightarrow> hash_state \<Rightarrow> hash_state" where
  "hash_run page es s = fold (hash_step page) es s"

subsection \<open>Numbers\<close>

lemma dec_text_digits: "all_digits (dec_text n)"
proof (induction n rule: dec_text.induct)
  case (1 n)
  then show ?case by (cases "n < 10") (auto simp: all_digits_def dec_text.simps [of n])
qed

lemma parse_dec_text: "parseInt_10 (dec_text n) = n"
proof -
  have "foldl (\<lambda>n c. 10 * n + (c - 48)) 0 (dec_text n) = n"
    by (induction n rule: dec_text.induct) (subst dec_text.simps, auto)
  moreover have "case dec_text n of [] \<Rightarrow> True | c # r \<Rightarrow> c \<noteq> 43"
    using dec_text_digits [of n] by (auto simp: all_digits_def split: list.split)
  ultimately show ?thesis by (auto simp: parseInt_10_def split: list.splits)
qed

lemma dec_text_plain: "45 \<notin> set (dec_text n)"
  using dec_text_digits [of n] by (auto simp: all_digits_def list_all_iff)

subsection \<open>Texts with dashes\<close>

lemma split_dash: "45 \<notin> set d \<Longrightarrow> split_at_sep [45] acc (s @ 45 # d) = split_at_sep [45] acc s @ [d]"
proof (induction s arbitrary: acc)
  case Nil
  then show ?case using split_plain [of 45 d] by (simp add: split_text_def)
qed auto

lemma split_text_dash: "45 \<notin> set d \<Longrightarrow> split_text [45] (s @ 45 # d) = split_text [45] s @ [d]"
  by (simp add: split_text_def split_dash)

lemma join_split: "join_text [45] (split_text [45] s) = s"
  using join_split_acc [of 45 "[]" s] by (simp add: split_text_def)

lemma split_ne: "split_text sep s \<noteq> []"
  by (simp add: split_text_def split_nonempty)

text \<open>
  The hash written for an item is read back as the name of its gallery and the number of the item;
  for the only item of a gallery whose name itself ends with a dash and a number, the name is cut.
\<close>

theorem hash_roundtrip:
  assumes "n > 1 \<or> index = 0"
  shows "parseUrl (35 # gallery_hash gallery n index) =
    (if n > 1 \<or> \<not> numbered gallery
     then \<lparr>url_hash = gallery_hash gallery n index, url_index = index + 1, url_gallery = gallery\<rparr>
     else \<lparr>url_hash = gallery, url_index = max 1 (parseInt_10 (last (split_text [45] gallery))),
           url_gallery = join_text [45] (butlast (split_text [45] gallery))\<rparr>)"
proof (cases "n > 1")
  case True
  have "split_text [45] (gallery_hash gallery n index) = split_text [45] gallery @ [dec_text (index + 1)]"
    using True split_text_dash [OF dec_text_plain] by (simp add: gallery_hash_def)
  moreover have "numeric (dec_text (index + 1))" using dec_text_digits by (simp add: numeric_def)
  ultimately show ?thesis
    using True split_ne [of "[45]" gallery] by (simp add: parseUrl_def Let_def parse_dec_text join_split)
next
  case False
  then show ?thesis using assms
    by (auto simp: parseUrl_def Let_def gallery_hash_def numbered_def join_split)
qed

theorem hash_roundtrip_witness:
  "parseUrl (asc ''#trip-12'') = \<lparr>url_hash = asc ''trip-12'', url_index = 12, url_gallery = asc ''trip''\<rparr>"
proof -
  have "35 # gallery_hash (asc ''trip'') 20 11 = asc ''#trip-12''" by code_simp
  then show ?thesis using hash_roundtrip [of 20 11 "asc ''trip''"] by (simp add: gallery_hash_def asc_def)
qed

lemma name_cut: "url_gallery (parseUrl (35 # gallery_hash (asc ''trip-2017'') 1 0)) = asc ''trip''"
  by code_simp

subsection \<open>The history\<close>

definition budget :: "hash_state \<Rightarrow> nat" where
  "budget s = pushes s + (if shouldCreateHistory s then 1 else 0)"

lemma budget_parts:
  "budget (before_show i s) = budget s" "budget (before_close s) = budget s"
  "budget (s\<lparr>viewer := v\<rparr>) = budget s" "budget (s\<lparr>currentHash := h\<rparr>) = budget s" "budget (s\<lparr>entries := hs\<rparr>) = budget s"
  "budget (s\<lparr>shouldCreateHistory := False\<rparr>) \<le> budget s"
  by (simp_all add: budget_def before_show_def before_close_def Let_def split: option.split)

lemma budget_open: "budget (open_viewer g n i s) = budget s"
  by (simp add: open_viewer_def budget_parts)

lemma budget_change: "budget (hash_change page s) \<le> budget s"
  using budget_parts(6) [of s]
  by (simp add: hash_change_def triggerFromUrl_def Let_def budget_parts budget_open split: option.split prod.split)

lemma budget_timer: "budget (timer_ends s) \<le> budget s"
  by (simp add: budget_def timer_ends_def split: option.split)

lemma budget_step: "budget (hash_step page e s) \<le> budget s"
proof -
  have n: "budget (navigated page hs s) \<le> budget s" for hs
    using budget_change [of page "s\<lparr>entries := hs\<rparr>"] by (simp add: navigated_def Let_def budget_parts)
  have "budget (triggerFromUrl page url s) \<le> budget s" for url
    using budget_parts(6) [of s] by (simp add: triggerFromUrl_def budget_open split: option.split prod.split)
  with n show ?thesis by (cases e) (simp_all add: budget_parts budget_open budget_timer)
qed

lemma run_append: "hash_run page (es @ es') s = hash_run page es' (hash_run page es s)"
  by (simp add: hash_run_def)

lemma budget_run: "budget (hash_run page es s) \<le> budget s"
  by (induction es rule: rev_induct) (auto simp: run_append intro: order_trans [OF budget_step] simp: hash_run_def)

lemma history_once: "pushes (hash_run page es (hash_start hs)) \<le> 1"
  using budget_run [of page es "hash_start hs"] by (simp add: budget_def hash_start_def)

subsection \<open>A viewing\<close>

definition viewing :: "jstext \<Rightarrow> jstext \<Rightarrow> nat \<Rightarrow> hash_state \<Rightarrow> bool" where
  "viewing l gallery n s \<longleftrightarrow>
     viewer s = Some \<lparr>name = gallery, items = n, origHash = Some l\<rparr> \<and>
     (location s = l \<or> (\<exists>j. location s = 35 # gallery_hash gallery n j)) \<and>
     (\<exists>j. currentHash s = Some (gallery_hash gallery n j))"

lemma occurs_hash: "occurs gallery (35 # gallery_hash gallery n j)"
proof -
  have "gallery @ t = [] @ gallery @ t" for t by simp
  then have "occurs gallery (gallery @ t)" for t unfolding occurs_def by blast
  then show ?thesis using occurs_append [of gallery _ "[35]"] by (simp add: gallery_hash_def)
qed

lemma viewing_opened:
  assumes "viewer s = None" "gallery \<noteq> []" "\<not> occurs gallery (location s)"
  shows "viewing (location s) gallery n (hash_step page (Opened gallery n i) s)"
  using assms by (auto simp: open_viewer_def before_show_def viewing_def location_def)

lemma viewing_shown:
  assumes "viewing l gallery n s" "gallery \<noteq> []"
  shows "viewing l gallery n (hash_step page (Shown i) s)"
proof -
  have "occurs gallery (location s) \<or> location s = l" using assms(1) occurs_hash by (auto simp: viewing_def)
  then show ?thesis using assms by (auto simp: viewing_def before_show_def location_def)
qed

lemma viewing_timer: "viewing l gallery n s \<Longrightarrow> viewing l gallery n (hash_step page TimerEnded s)"
  by (auto simp: viewing_def timer_ends_def location_def)

lemma viewing_closed:
  assumes "viewing l gallery n s" "gallery \<noteq> []"
  shows "location (hash_step page ClosedViewer s) = l \<and> viewer (hash_step page ClosedViewer s) = None"
  using assms by (auto simp: viewing_def before_close_def location_def)

text \<open>
  C11.  A gallery with a name that does not occur in the address of the page is opened, and then items are shown
  and the timers of the module end, in any order, until it is closed.  While it is viewed the address is the one
  before or that of an item of the gallery, and when it is closed it is the one before again, with at most one
  new entry in the history.  (If the name occurs in the address, or the address is changed by other means while
  the gallery is viewed, this need not hold.)
\<close>

theorem address_restored:
  assumes "viewer s = None" and "gallery \<noteq> []" and "\<not> occurs gallery (location s)"
    and "set es \<subseteq> insert TimerEnded (range Shown)"
  shows "let s' = hash_run page (Opened gallery n i # es) s; s'' = hash_step page ClosedViewer s' in
    (location s' = location s \<or> (\<exists>j. location s' = 35 # gallery_hash gallery n j)) \<and>
    location s'' = location s \<and> viewer s'' = None \<and> pushes s'' \<le> pushes s + 1"
proof -
  have "viewing (location s) gallery n (hash_run page (Opened gallery n i # es) s)"
    using assms(4)
  proof (induction es rule: rev_induct)
    case Nil
    then show ?case using viewing_opened [OF assms(1-3)] by (simp add: hash_run_def)
  next
    case (snoc e es)
    then have v: "viewing (location s) gallery n (hash_run page (Opened gallery n i # es) s)" by simp
    have "hash_run page (Opened gallery n i # es @ [e]) s = hash_step page e (hash_run page (Opened gallery n i # es) s)"
      by (simp add: hash_run_def)
    moreover have "e = TimerEnded \<or> (\<exists>j. e = Shown j)" using snoc.prems by auto
    ultimately show ?case using viewing_shown [OF v assms(2)] viewing_timer [OF v] by metis
  qed
  note v = this viewing_closed [OF this assms(2)]
  have "pushes (hash_step page ClosedViewer (hash_run page (Opened gallery n i # es) s)) \<le> pushes s + 1"
    using budget_step [of page ClosedViewer "hash_run page (Opened gallery n i # es) s"] budget_run [of page "Opened gallery n i # es" s]
    by (simp add: budget_def split: if_splits)
  with v show ?thesis unfolding Let_def viewing_def by blast
qed

theorem address_restored_witness:
  "location (hash_run (\<lambda>_ _. None) [Opened (asc ''trip'') 20 3, TimerEnded, Shown 4, TimerEnded] (hash_start [asc ''#top''])) = asc ''#trip-5'' \<and>
   location (hash_step (\<lambda>_ _. None) ClosedViewer
     (hash_run (\<lambda>_ _. None) [Opened (asc ''trip'') 20 3, TimerEnded, Shown 4, TimerEnded] (hash_start [asc ''#top'']))) = asc ''#top''"
proof -
  define es where "es = [TimerEnded, Shown 4, TimerEnded]"
  define s where "s = hash_start [asc ''#top'']"
  define g where "g = asc ''trip''"
  have s: "viewer s = None" "location s = asc ''#top''" by (simp_all add: s_def hash_start_def location_def)
  have "\<not> occurs g (location s)" unfolding s(2) by (simp add: occurs_Cons asc_def g_def) (simp add: occurs_def)
  moreover have "g \<noteq> []" "set es \<subseteq> insert TimerEnded (range Shown)" by (simp_all add: g_def asc_def es_def)
  ultimately have "location (hash_step (\<lambda>_ _. None) ClosedViewer (hash_run (\<lambda>_ _. None) (Opened g 20 3 # es) s)) = location s"
    using address_restored [OF s(1), of g es "\<lambda>_ _. None" 20 3] unfolding Let_def by blast
  moreover have "location (hash_run (\<lambda>_ _. None) (Opened g 20 3 # es) s) = asc ''#trip-5''"
    unfolding es_def s_def g_def
    by (simp add: hash_run_def open_viewer_def init_index_def before_show_def timer_ends_def hash_start_def location_def parseUrl_def split_text_def asc_def gallery_hash_def occurs_Cons dec_text.simps Let_def)
  ultimately show ?thesis using s(2) by (simp add: es_def s_def g_def)
qed

text \<open>The address that the module writes does not close the viewer, unless the name reads like a name with a number.\<close>

lemma own_address_stays:
  assumes "viewing l gallery n s" and "location s = 35 # the (currentHash s)" and "n > 1 \<or> \<not> numbered gallery"
  shows "hash_change page s = s"
proof -
  obtain j where "currentHash s = Some (gallery_hash gallery n j)" using assms(1) by (auto simp: viewing_def)
  then obtain j where j: "currentHash s = Some (gallery_hash gallery n j)" "n > 1 \<or> j = 0"
    by (cases "n > 1") (auto simp: gallery_hash_def)
  from hash_roundtrip [OF j(2), of gallery] show ?thesis
    using assms j by (auto simp: hash_change_def viewing_def Let_def gallery_hash_def)
qed

text \<open>An address in which the name of the gallery occurs by chance is lost.\<close>

lemma address_lost:
  "location (hash_run (\<lambda>_ _. None) [Opened (asc ''ban'') 2 0, TimerEnded, ClosedViewer] (hash_start [asc ''#banner''])) = []"
  by (simp add: hash_run_def open_viewer_def init_index_def before_show_def timer_ends_def before_close_def hash_start_def
      location_def parseUrl_def split_text_def asc_def gallery_hash_def occurs_Cons dec_text.simps Let_def)

end
