(* ===== verification/Fancybox_Slideshow.thy ===== *)
theory Fancybox_Slideshow
  imports Fancybox_Slides
begin

section \<open>jquery.fancybox.js: the slide show\<close>

text \<open>
  The module \<open>SlideShow\<close> over the gallery of \<open>Fancybox_Gallery\<close>: its methods and its handlers of the events of
  the viewer.  The event \<open>beforeShow\<close> comes in each call of \<open>jumpTo\<close> that is not refused, \<open>afterShow\<close> when the
  current slide becomes complete.  The timers of the browser that have not run out are a list, of which the
  object knows at most one, and any of them may run out at any time.  That the controls are shown when the
  show stops at the end belongs to \<open>Fancybox_Instances\<close>.
\<close>

subsection \<open>The state\<close>

record show_opts =
  \<comment> \<open>the option \<open>slideShow\<close> of an item: whether it is an object and not false, and its fields; a speed that is not
     given is 0 for \<open>setTimeout\<close>\<close>
  on_offer :: bool
  autoStart :: bool
  show_speed :: int

record show_state =
  viewer :: gallery
  slideShow :: "nat \<Rightarrow> show_opts"
  isActive :: bool
  timer :: "nat option"
  timers :: "(nat \<times> int) list"
  fresh_timer :: nat
  doc_hidden :: bool
  pause_button :: bool
  button_shown :: bool

definition current_opts :: "show_state \<Rightarrow> show_opts" where
  "current_opts s = slideShow s (nat (currIndex (viewer s)))"

subsection \<open>The methods\<close>

definition new_show :: "gallery \<Rightarrow> (nat \<Rightarrow> show_opts) \<Rightarrow> show_state" where
  \<comment> \<open>\<open>init\<close>, before the first slide\<close>
  "new_show g opts =
     \<lparr>viewer = g, slideShow = opts, isActive = False, timer = None, timers = [], fresh_timer = 0, doc_hidden = False,
      pause_button = False, button_shown = \<not> (groupLen g < 2 \<or> \<not> on_offer (opts (nat (currIndex g))))\<rparr>"

definition clear_show :: "show_state \<Rightarrow> show_state" where
  "clear_show s = s\<lparr>timers := filter (\<lambda>t. Some (fst t) \<noteq> timer s) (timers s), timer := None\<rparr>"

definition stop_show :: "show_state \<Rightarrow> show_state" where
  "stop_show s = (clear_show s)\<lparr>pause_button := False, isActive := False\<rparr>"

definition set_show :: "bool \<Rightarrow> show_state \<Rightarrow> show_state" where
  \<comment> \<open>a timer that the object knows is forgotten, not stopped\<close>
  "set_show force s =
     (if current (viewer s) \<noteq> None \<and> (force \<or> loops (viewer s) \<or> currIndex (viewer s) < groupLen (viewer s) - 1)
      then s\<lparr>timers := timers s @ [(fresh_timer s, show_speed (current_opts s))], timer := Some (fresh_timer s),
             fresh_timer := Suc (fresh_timer s)\<rparr>
      else stop_show s)"

definition start_show :: "show_state \<Rightarrow> show_state" where
  "start_show s =
     (if current (viewer s) \<noteq> None then set_show True (s\<lparr>isActive := True, pause_button := True\<rparr>) else s)"

definition toggle_show :: "show_state \<Rightarrow> show_state" where
  "toggle_show s = (if isActive s then stop_show s else start_show s)"

subsection \<open>The handlers\<close>

definition before_slide :: "bool \<Rightarrow> show_state \<Rightarrow> show_state" where
  "before_slide first s =
     (if first then (if autoStart (current_opts s) then start_show s else s)
      else if isActive s then clear_show s else s)"

definition after_slide :: "show_state \<Rightarrow> show_state" where
  "after_slide s = (if isActive s then set_show False s else s)"

definition show_key :: "int \<Rightarrow> bool \<Rightarrow> show_state \<Rightarrow> show_state" where
  \<comment> \<open>P or the space bar; \<open>on_control\<close>: a button, a link or an input has the focus\<close>
  "show_key keycode on_control s =
     (if current (viewer s) \<noteq> None \<and> on_offer (current_opts s) \<and> (keycode = 80 \<or> keycode = 32) \<and> \<not> on_control
      then toggle_show s else s)"

definition visibility :: "bool \<Rightarrow> show_state \<Rightarrow> show_state" where
  "visibility hidden s =
     (let s = s\<lparr>doc_hidden := hidden\<rparr>
      in if isActive s then (if hidden then clear_show s else set_show False s) else s)"

definition target :: "gevent \<Rightarrow> gallery \<Rightarrow> int option" where
  \<comment> \<open>where a call of \<open>jumpTo\<close> goes, if the event is one\<close>
  "target e g =
     (case e of Jump p d m \<Rightarrow> Some p | Next d m \<Rightarrow> Some (currPos g + 1) | Previous d m \<Rightarrow> Some (currPos g - 1) | _ \<Rightarrow> None)"

definition jump_made :: "int \<Rightarrow> gallery \<Rightarrow> bool" where
  "jump_made p g \<longleftrightarrow>
     \<not> (isSliding g \<or> isClosing g \<or> isAnimating g \<and> firstRun g = Some True) \<and> (loops g \<or> 0 \<le> p \<and> p < groupLen g)"

definition complete_at :: "int \<Rightarrow> gallery \<Rightarrow> bool" where
  "complete_at p g \<longleftrightarrow> (case slides g p of None \<Rightarrow> False | Some s \<Rightarrow> isComplete s)"

definition completes :: "gallery \<Rightarrow> gallery \<Rightarrow> bool" where
  \<comment> \<open>\<open>complete\<close> has reached its end between the two states\<close>
  "completes g h \<longleftrightarrow> complete_at (currPos h) h \<and> \<not> complete_at (currPos h) g"

text \<open>A swipe whose direction is recognised stops the show, in \<open>onSwipe\<close>.\<close>

definition viewer_event :: "gevent \<Rightarrow> show_state \<Rightarrow> show_state" where
  "viewer_event e s =
     (let g = viewer s; h = gallery_step e g;
          s = s\<lparr>viewer := h\<rparr>;
          s = (case target e g of Some p \<Rightarrow> if jump_made p g then before_slide False s else s | None \<Rightarrow> s);
          s = (case e of
                 Close prevented \<Rightarrow> if isClosing g \<or> prevented then s else stop_show s
               | Sliding b \<Rightarrow> if b \<and> isActive s then stop_show s else s
               | _ \<Rightarrow> s)
      in if completes g h then after_slide s else s)"

definition timer_ends :: "nat \<Rightarrow> bool \<Rightarrow> show_state \<Rightarrow> show_state" where
  "timer_ends t dragged s =
     (if t \<in> fst ` set (timers s) then
        (let s = s\<lparr>timers := filter (\<lambda>x. fst x \<noteq> t) (timers s)\<rparr>
         in if isActive s
            then viewer_event (Jump ((currIndex (viewer s) + 1) mod groupLen (viewer s)) None dragged) s else s)
      else s)"

subsection \<open>Events\<close>

text \<open>\<open>Enlarged\<close>: the image is shown at its actual size, at the end of \<open>scaleToActual\<close>.\<close>

datatype show_event =
    Viewer gevent
  | Timer nat bool
  | Button
  | Keydown int bool
  | Visibility bool
  | Deactivated
  | Enlarged

fun show_step :: "show_event \<Rightarrow> show_state \<Rightarrow> show_state" where
  "show_step (Viewer e) s = viewer_event e s"
| "show_step (Timer t dragged) s = timer_ends t dragged s"
| "show_step Button s = (if button_shown s then toggle_show s else s)"
| "show_step (Keydown k c) s = show_key k c s"
| "show_step (Visibility hidden) s = visibility hidden s"
| "show_step Deactivated s = stop_show s"
| "show_step Enlarged s = (if isActive s then stop_show s else s)"

definition show_begin :: "fitem list \<Rightarrow> bool \<Rightarrow> int \<Rightarrow> (nat \<Rightarrow> show_opts) \<Rightarrow> show_state" where
  "show_begin is l index opts =
     (let g = new_gallery is l index; h = jumpTo index None False g;
          s = before_slide True ((new_show g opts)\<lparr>viewer := h\<rparr>)
      in if completes g h then after_slide s else s)"

definition show_run :: "fitem list \<Rightarrow> bool \<Rightarrow> int \<Rightarrow> (nat \<Rightarrow> show_opts) \<Rightarrow> show_event list \<Rightarrow> show_state" where
  "show_run is l index opts es = fold show_step es (show_begin is l index opts)"

end
