(* ===== verification/Fancybox_Show.thy ===== *)
theory Fancybox_Show
  imports Fancybox_Slideshow
begin

section \<open>jquery.fancybox.js: the slide show, what holds\<close>

text \<open>
  A slide show that is off does not touch the gallery; one that is on waits for a timer or for the current slide,
  if no slide is gone to that is current already.
\<close>

lemma methods_viewer [simp]:
  "viewer (clear_show s) = viewer s" "viewer (stop_show s) = viewer s" "viewer (set_show f s) = viewer s"
  "viewer (start_show s) = viewer s" "viewer (toggle_show s) = viewer s" "viewer (before_slide b s) = viewer s"
  "viewer (after_slide s) = viewer s" "viewer (show_key k c s) = viewer s" "viewer (visibility h s) = viewer s"
proof -
  show c: "viewer (clear_show s) = viewer s" for s by (simp add: clear_show_def)
  show t: "viewer (stop_show s) = viewer s" for s by (simp add: stop_show_def c)
  show e: "viewer (set_show f s) = viewer s" for f s by (simp add: set_show_def t)
  show a: "viewer (start_show s) = viewer s" for s by (simp add: start_show_def e)
  show g: "viewer (toggle_show s) = viewer s" for s by (simp add: toggle_show_def t a)
  show "viewer (before_slide b s) = viewer s" "viewer (after_slide s) = viewer s" "viewer (show_key k c s) = viewer s"
    "viewer (visibility h s) = viewer s"
    by (simp_all add: before_slide_def after_slide_def show_key_def visibility_def a c e g Let_def)
qed

lemma viewer_event_viewer [simp]: "viewer (viewer_event e s) = gallery_step e (viewer s)"
  by (simp add: viewer_event_def Let_def split: option.split gevent.split)

subsection \<open>A slide show that is off\<close>

definition starts_show :: "show_event \<Rightarrow> bool" where
  "starts_show e \<longleftrightarrow> (case e of Button \<Rightarrow> True | Keydown k c \<Rightarrow> k = 80 \<or> k = 32 | _ \<Rightarrow> False)"

fun viewer_events :: "show_event list \<Rightarrow> gevent list" where
  "viewer_events [] = []"
| "viewer_events (Viewer e # es) = e # viewer_events es"
| "viewer_events (_ # es) = viewer_events es"

lemma viewer_event_off: "\<not> isActive s \<Longrightarrow> \<not> isActive (viewer_event e s)"
  by (auto simp: viewer_event_def Let_def before_slide_def after_slide_def stop_show_def split: option.split gevent.split)

lemma step_off:
  assumes "\<not> isActive s" "\<not> starts_show e"
  shows "\<not> isActive (show_step e s) \<and> viewer (show_step e s) = fold gallery_step (viewer_events [e]) (viewer s)"
proof (cases e)
  case (Viewer g)
  then show ?thesis using viewer_event_off [OF assms(1)] by simp
qed (use assms in \<open>auto simp: timer_ends_def show_key_def visibility_def stop_show_def starts_show_def Let_def\<close>)

lemma viewer_events_Cons: "viewer_events (e # es) = viewer_events [e] @ viewer_events es"
  by (cases e) simp_all

lemma run_off:
  "\<not> isActive s \<Longrightarrow> list_all (\<lambda>e. \<not> starts_show e) es \<Longrightarrow>
   \<not> isActive (fold show_step es s) \<and> viewer (fold show_step es s) = fold gallery_step (viewer_events es) (viewer s)"
proof (induction es arbitrary: s)
  case (Cons e es)
  have e: "\<not> isActive (show_step e s)" "viewer (show_step e s) = fold gallery_step (viewer_events [e]) (viewer s)"
    using step_off [OF Cons.prems(1), of e] Cons.prems(2) by simp_all
  have "\<not> isActive (fold show_step es (show_step e s)) \<and>
      viewer (fold show_step es (show_step e s)) = fold gallery_step (viewer_events es) (viewer (show_step e s))"
    by (rule Cons.IH [OF e(1)]) (use Cons.prems(2) in simp)
  then show ?case unfolding e(2) viewer_events_Cons [of e es] by simp
qed simp

text \<open>What ends a slide show: closing, deactivation, and the end of a group that does not loop.\<close>

definition over_event :: "gevent \<Rightarrow> gallery \<Rightarrow> bool" where
  "over_event e g \<longleftrightarrow>
     (case e of
        Close prevented \<Rightarrow> \<not> isClosing g \<and> \<not> prevented
      | Sliding b \<Rightarrow> b
      | _ \<Rightarrow> (let h = gallery_step e g in completes g h \<and> \<not> loops h \<and> currIndex h = groupLen h - 1))"

definition show_over :: "show_event \<Rightarrow> show_state \<Rightarrow> bool" where
  "show_over e s \<longleftrightarrow>
     (case e of
        Deactivated \<Rightarrow> True
      | Enlarged \<Rightarrow> True
      | Viewer g \<Rightarrow> over_event g (viewer s)
      | Timer t dragged \<Rightarrow> t \<in> fst ` set (timers s) \<and> isActive s \<and>
          over_event (Jump ((currIndex (viewer s) + 1) mod groupLen (viewer s)) None dragged) (viewer s)
      | _ \<Rightarrow> False)"

lemma swipe_stops: "viewer_event (Sliding b) s =
   (if b \<and> isActive s then stop_show (s\<lparr>viewer := (viewer s)\<lparr>isSliding := b\<rparr>\<rparr>) else s\<lparr>viewer := (viewer s)\<lparr>isSliding := b\<rparr>\<rparr>)"
proof -
  have "\<not> completes (viewer s) ((viewer s)\<lparr>isSliding := b\<rparr>)" by (simp add: completes_def complete_at_def)
  moreover have "target (Sliding c) (viewer s) = None" for c by (simp add: target_def)
  ultimately show ?thesis by (simp add: viewer_event_def Let_def)
qed

lemma over_viewer: "over_event e (viewer s) \<Longrightarrow> \<not> isActive (viewer_event e s)"
proof -
  assume o: "over_event e (viewer s)"
  show ?thesis
  proof (cases "(\<exists>b. e = Close b) \<or> (\<exists>b. e = Sliding b)")
    case True
    then show ?thesis
    proof
      assume "\<exists>b. e = Close b"
      then show ?thesis using o by (auto simp: over_event_def viewer_event_def Let_def stop_show_def after_slide_def)
    next
      assume "\<exists>b. e = Sliding b"
      then show ?thesis using o by (auto simp: over_event_def swipe_stops stop_show_def split: if_splits)
    qed
  next
    case False
    then have c: "completes (viewer s) (gallery_step e (viewer s))" "\<not> loops (gallery_step e (viewer s))"
      "currIndex (gallery_step e (viewer s)) = groupLen (gallery_step e (viewer s)) - 1"
      using o by (auto simp: over_event_def Let_def split: gevent.splits)
    have "\<not> isActive (after_slide t)" if "viewer t = gallery_step e (viewer s)" for t
      using that c by (simp add: after_slide_def set_show_def stop_show_def)
    then show ?thesis using c(1) False by (simp add: viewer_event_def Let_def split: option.split gevent.split)
  qed
qed

lemma over_off: "show_over e s \<Longrightarrow> \<not> isActive (show_step e s)"
  by (cases e) (auto simp: show_over_def over_viewer timer_ends_def stop_show_def Let_def)

text \<open>C33.  When a slide show ends, because the viewer is closed or another one becomes active, because the user swipes or
  enlarges an image, or because the last item of a group that does not loop is shown, it has no more effect: until the user starts it again the gallery
  does what it does without a slide show, whatever timers are left.\<close>
theorem show_ends:
  assumes "show_over e s" "list_all (\<lambda>e. \<not> starts_show e) es"
  shows "\<not> isActive (fold show_step es (show_step e s)) \<and>
    viewer (fold show_step es (show_step e s)) = fold gallery_step (viewer_events es) (viewer (show_step e s))"
  by (rule run_off [OF over_off [OF assms(1)] assms(2)])

subsection \<open>A slide show that is on\<close>





lemma methods_hidden [simp]:
  "doc_hidden (clear_show s) = doc_hidden s" "doc_hidden (stop_show s) = doc_hidden s" "doc_hidden (set_show f s) = doc_hidden s"
  "doc_hidden (start_show s) = doc_hidden s" "doc_hidden (toggle_show s) = doc_hidden s"
  by (simp_all add: clear_show_def stop_show_def set_show_def start_show_def toggle_show_def)

lemma stop_off [simp]: "\<not> isActive (stop_show s)"
  by (simp add: stop_show_def)


lemma set_active: "isActive (set_show f s) \<Longrightarrow> isActive s"
  by (auto simp: set_show_def split: if_splits)























definition demo_show :: "nat \<Rightarrow> show_opts" where
  "demo_show = (\<lambda>_. \<lparr>on_offer = True, autoStart = True, show_speed = 3000\<rparr>)"


text \<open>The theorem when the last of two items is shown and a forgotten timer is left.\<close>
lemma show_ends_witness:
  "let s = show_run [plain_item Html, plain_item Html] False 0 demo_show [Timer 1 False]
   in timers s \<noteq> [] \<and> currIndex (viewer s) = 1 \<and> viewer (show_step (Timer 0 False) s) = viewer s"
proof -
  let ?s = "show_run [plain_item Html, plain_item Html] False 0 demo_show []"
  let ?t = "show_run [plain_item Html, plain_item Html] False 0 demo_show [Timer 1 False]"
  have t: "?t = show_step (Timer 1 False) ?s" by (simp add: show_run_def)
  have o: "show_over (Timer 1 False) ?s" by code_simp
  have "viewer (show_step (Timer 0 False) ?t) = viewer ?t"
    using show_ends [OF o, of "[Timer 0 False]"] unfolding t by (simp add: starts_show_def)
  moreover have "timers ?t \<noteq> []" "currIndex (viewer ?t) = 1" by code_simp+
  ultimately show ?thesis unfolding Let_def by blast
qed

subsection \<open>Where the slide show goes wrong\<close>

text \<open>A jump to the current item, which a click on its thumbnail makes, stops the timer for good, though the button
  still shows a pause.\<close>
lemma show_stalls:
  "let s = show_run [looping Html, looping Html] True 0 demo_show
      [Timer 0 False, Timer 2 False, Viewer (Jump 0 None False), Viewer (MoveEnd 0)]
   in isActive s \<and> pause_button s \<and> timers s = [] \<and> complete_at (currPos (viewer s)) (viewer s)"
  by code_simp

text \<open>The timer that \<open>start\<close> has set for the first item is forgotten when the item is shown and sets another: when the
  user goes on to the last item and this is still loading, the forgotten timer takes the gallery back to the
  first one, though it does not loop.\<close>
lemma show_wraps:
  "let s = show_run [plain_item Html, plain_item Ajax] False 0 demo_show [Viewer (Next None False)];
       t = show_step (Timer 0 False) s
   in \<not> loops (viewer s) \<and> currIndex (viewer s) = 1 \<and> currIndex (viewer t) = 0"
  by code_simp

end
