(* ===== verification/Fancybox_Instances.thy ===== *)
theory Fancybox_Instances
  imports JsPrelude
begin

section \<open>jquery.fancybox.js: several viewers on one page\<close>

text \<open>
  A page may open a viewer over another one.  A \<open>box\<close> is an object of the class \<open>FancyBox\<close> whose container
  is in the document; \<open>boxes\<close> are the containers in document order.  The handlers that a viewer puts on the
  document and on the window belong to the page: \<open>keys\<close>, \<open>traps\<close>, \<open>resizes\<close> and \<open>idles\<close> hold the numbers of
  the objects whose handlers are there, as \<open>off\<close> removes those of every viewer.  \<open>intervals\<close> are the running
  intervals of the page, \<open>fading\<close> the viewers whose closing animation runs.  The sizes and places of things,
  the slides and the callbacks of the page, other than the answer of \<open>beforeClose\<close>, are left out here.
\<close>

datatype iid = Own string | Count nat

datatype place = Body | El nat | Box nat | Within nat
  \<comment> \<open>an element of the page, a container, an element of a container\<close>

record item =
  \<comment> \<open>options that an item may set, as truth values; \<open>toolbar\<close>: also that there is a list of buttons\<close>
  keyboard :: bool
  trapFocus :: bool
  backFocus :: bool
  idleTime :: nat
  toolbar :: bool
  infobar :: bool
  arrows :: bool
  modal :: bool
  has_caption :: bool
  effect :: bool
  animationDuration :: nat
  is_image :: bool

record box =
  oid :: nat
  bid :: iid
  own_opts :: item
  group :: "item list"
  currIndex :: nat
  current :: "nat option"
  tabbable :: bool
  isClosing :: bool
  closingClass :: bool
  isVisible :: bool
  isHiddenControls :: bool
  isIdle :: bool
  idleSecondsCounter :: nat
  idleInterval :: "nat option"
  caption :: bool
  shown :: "bool \<times> bool \<times> bool \<times> bool"
  is_modal :: bool
  nav_handlers :: nat
  zoom_handlers :: nat
  saved_scroll :: "int \<times> int"
  lastFocus :: place

datatype message = Previous nat | Next nat | AfterKeydown nat nat | Update nat

record page =
  boxes :: "box list"
  called :: nat
  objects :: nat
  timers :: nat
  active_class :: bool
  compensate :: bool
  iosfix :: "int option"
  noscroll_styles :: nat
  scroll_pos :: "int \<times> int"
  focused :: place
  fixed_el :: "nat \<Rightarrow> bool"
  keys :: "nat list"
  traps :: "nat list"
  resizes :: "nat list"
  idles :: "nat list"
  intervals :: "(nat \<times> nat) list"
  fading :: "nat list"
  messages :: "message list"

subsection \<open>Finding and updating a viewer\<close>

definition box_at :: "nat \<Rightarrow> page \<Rightarrow> box option" where
  "box_at o1 p = find (\<lambda>b. oid b = o1) (boxes p)"

definition upd_box :: "nat \<Rightarrow> (box \<Rightarrow> box) \<Rightarrow> page \<Rightarrow> page" where
  "upd_box o1 f p = p\<lparr>boxes := map (\<lambda>b. if oid b = o1 then f b else b) (boxes p)\<rparr>"

definition getInstance :: "page \<Rightarrow> box option" where
  \<comment> \<open>the last container without the class \<open>fancybox-is-closing\<close>\<close>
  "getInstance p = find (\<lambda>b. \<not> closingClass b) (rev (boxes p))"

definition current_opts :: "box \<Rightarrow> item" where
  "current_opts b = (case current b of Some i \<Rightarrow> group b ! i | None \<Rightarrow> own_opts b)"

subsection \<open>Controls\<close>

definition hideControls :: "box \<Rightarrow> box" where
  "hideControls b = b\<lparr>isHiddenControls := True, shown := (False, False, False, False)\<rparr>"

definition showControls :: "box \<Rightarrow> box" where
  \<comment> \<open>the classes of the toolbar, the infobar, the arrows and the caption\<close>
  "showControls b =
     (let opts = current_opts b
      in b\<lparr>isHiddenControls := False, idleSecondsCounter := 0,
           shown := (toolbar opts, infobar opts \<and> length (group b) > 1, arrows opts \<and> length (group b) > 1,
                     caption b),
           is_modal := modal opts\<rparr>)"

definition toggleControls :: "box \<Rightarrow> box" where
  "toggleControls b = (if isHiddenControls b then showControls b else hideControls b)"

definition updateControls :: "box \<Rightarrow> box" where
  "updateControls b =
     (let b = b\<lparr>caption := has_caption (current_opts b)\<rparr>
      in if \<not> isHiddenControls b \<and> \<not> isIdle b then showControls b else b)"

subsection \<open>Handlers\<close>

definition removeEvents :: "nat \<Rightarrow> page \<Rightarrow> page" where
  "removeEvents o1 p =
     (let p = p\<lparr>resizes := [], traps := [], keys := [], idles := []\<rparr>;
          p = upd_box o1 (\<lambda>b. b\<lparr>nav_handlers := 0\<rparr>) p
      in case box_at o1 p of
           None \<Rightarrow> p
         | Some b \<Rightarrow> (case idleInterval b of
             None \<Rightarrow> p
           | Some t \<Rightarrow> upd_box o1 (\<lambda>b. b\<lparr>idleInterval := None\<rparr>)
                         (p\<lparr>intervals := filter (\<lambda>i. fst i \<noteq> t) (intervals p)\<rparr>)))"

definition add_idle :: "nat \<Rightarrow> page \<Rightarrow> page" where
  "add_idle o1 p =
     (let t = timers p
      in upd_box o1 (\<lambda>b. b\<lparr>idleSecondsCounter := 0, idleInterval := Some t\<rparr>)
           (p\<lparr>idles := idles p @ [o1], timers := Suc t, intervals := intervals p @ [(t, o1)]\<rparr>))"

definition addEvents :: "nat \<Rightarrow> page \<Rightarrow> page" where
  "addEvents o1 p =
     (let p = removeEvents o1 p;
          p = upd_box o1 (\<lambda>b. b\<lparr>nav_handlers := Suc (nav_handlers b), zoom_handlers := Suc (zoom_handlers b)\<rparr>) p;
          p = p\<lparr>resizes := resizes p @ [o1], traps := traps p @ [o1], keys := keys p @ [o1]\<rparr>
      in case box_at o1 p of
           None \<Rightarrow> p
         | Some b \<Rightarrow> if idleTime (group b ! currIndex b) > 0 then add_idle o1 p else p)"

definition deactivate :: "iid \<Rightarrow> page \<Rightarrow> nat \<Rightarrow> page" where
  \<comment> \<open>what \<open>activate\<close> of the viewer with the id \<open>i\<close> does for one container\<close>
  "deactivate i p o1 =
     (case box_at o1 p of
        None \<Rightarrow> p
      | Some b \<Rightarrow> if bid b \<noteq> i \<and> \<not> isClosing b
                then upd_box o1 (\<lambda>b. b\<lparr>isVisible := False\<rparr>) (removeEvents o1 p) else p)"

definition activate :: "nat \<Rightarrow> page \<Rightarrow> page" where
  "activate o1 p =
     (case box_at o1 p of
        None \<Rightarrow> p
      | Some b \<Rightarrow>
          let p = foldl (deactivate (bid b)) p (map oid (boxes p));
              p = upd_box o1 (\<lambda>b. b\<lparr>isVisible := True\<rparr>) p;
              p = upd_box o1 (\<lambda>b. if current b \<noteq> None \<or> isIdle b then updateControls b else b) p
          in addEvents o1 p)"

subsection \<open>Focus\<close>

definition focus_box :: "box \<Rightarrow> place" where
  \<comment> \<open>\<open>focus\<close>: the first field of a complete slide, if there is one, otherwise the container\<close>
  "focus_box b = (if tabbable b then Within (oid b) else Box (oid b))"

definition trap :: "place \<Rightarrow> page \<Rightarrow> nat \<Rightarrow> page" where
  \<comment> \<open>the handler of \<open>focusin\<close> of the viewer \<open>o1\<close>, when the element \<open>x\<close> gets the focus\<close>
  "trap x p o1 =
     (case getInstance p of
        None \<Rightarrow> p
      | Some b \<Rightarrow>
          if isClosing b \<or> current b = None \<or> \<not> trapFocus (current_opts b) then p
          else (case x of
              Body \<Rightarrow> p
            | Box _ \<Rightarrow> p
            | Within k \<Rightarrow> if k = oid b then p
                else p\<lparr>focused := focus_box b,
                       scroll_pos := (case box_at o1 p of Some c \<Rightarrow> saved_scroll c | None \<Rightarrow> scroll_pos p)\<rparr>
            | El n \<Rightarrow> if fixed_el p n then p
                else p\<lparr>focused := focus_box b,
                       scroll_pos := (case box_at o1 p of Some c \<Rightarrow> saved_scroll c | None \<Rightarrow> scroll_pos p)\<rparr>))"

definition in_page :: "place \<Rightarrow> page \<Rightarrow> bool" where
  "in_page x p = (case x of Body \<Rightarrow> False | El _ \<Rightarrow> True | Box k \<Rightarrow> box_at k p \<noteq> None | Within k \<Rightarrow> box_at k p \<noteq> None)"

definition focus_on :: "place \<Rightarrow> page \<Rightarrow> page" where
  \<comment> \<open>\<open>x.focus()\<close>: an element that is no more in the document, and the body, do not get the focus\<close>
  "focus_on x p = (if in_page x p then foldl (trap x) (p\<lparr>focused := x\<rparr>) (traps p) else p)"

subsection \<open>Closing\<close>

definition restore_body :: "box \<Rightarrow> page \<Rightarrow> page" where
  "restore_body b p =
     (let p = p\<lparr>scroll_pos := saved_scroll b, active_class := False, compensate := False\<rparr>;
          p = (case iosfix p of
                 None \<Rightarrow> p
               | Some offset \<Rightarrow> p\<lparr>iosfix := None, scroll_pos := (- offset, snd (scroll_pos p))\<rparr>)
      in p\<lparr>noscroll_styles := noscroll_styles p - 1\<rparr>)"

definition cleanUp :: "nat \<Rightarrow> page \<Rightarrow> page" where
  "cleanUp o1 p =
     (case box_at o1 p of
        None \<Rightarrow> p
      | Some b \<Rightarrow>
          let p = p\<lparr>boxes := filter (\<lambda>c. oid c \<noteq> o1) (boxes p),
                    focused := (if focused p = Box o1 \<or> focused p = Within o1 then Body else focused p)\<rparr>;
              p = (if backFocus (current_opts b) then focus_on (lastFocus b) p else p)
          in case getInstance p of
               Some i \<Rightarrow> activate (oid i) p
             | None \<Rightarrow> restore_body b p)"

definition close_duration :: "nat option \<Rightarrow> item \<Rightarrow> nat" where
  "close_duration d opts = (case d of Some n \<Rightarrow> n | None \<Rightarrow> if effect opts then animationDuration opts else 0)"

definition close_box :: "nat \<Rightarrow> bool \<Rightarrow> nat option \<Rightarrow> page \<Rightarrow> page" where
  \<comment> \<open>\<open>veto\<close>: a callback of \<open>beforeClose\<close> answers \<open>false\<close>; \<open>d\<close>: the second argument of \<open>close\<close>, if it is a number\<close>
  "close_box o1 veto d p =
     (case box_at o1 p of
        None \<Rightarrow> p
      | Some b \<Rightarrow>
          if isClosing b then p
          else if veto then p\<lparr>messages := messages p @ [Update o1]\<rparr>
          else
            let p = upd_box o1 (\<lambda>b. b\<lparr>isClosing := True\<rparr>) p;
                p = removeEvents o1 p;
                duration = close_duration d (current_opts b);
                p = upd_box o1 (\<lambda>b. b\<lparr>closingClass := closingClass b \<or> duration \<noteq> 0\<rparr>) p;
                p = upd_box o1 hideControls p
            in if effect (current_opts b) \<and> duration \<noteq> 0 then p\<lparr>fading := fading p @ [o1]\<rparr>
               else cleanUp o1 p)"

definition close_done :: "nat \<Rightarrow> page \<Rightarrow> page" where
  \<comment> \<open>the closing animation of a viewer ends\<close>
  "close_done o1 p = (if o1 \<in> set (fading p) then cleanUp o1 (p\<lparr>fading := remove1 o1 (fading p)\<rparr>) else p)"

definition close_one :: "(nat \<Rightarrow> bool) \<Rightarrow> page \<Rightarrow> page" where
  \<comment> \<open>\<open>$.fancybox.close()\<close>\<close>
  "close_one veto p = (case getInstance p of None \<Rightarrow> p | Some b \<Rightarrow> close_box (oid b) (veto (oid b)) None p)"

definition close_viewer :: "bool \<Rightarrow> (nat \<Rightarrow> bool) \<Rightarrow> page \<Rightarrow> page" where
  \<comment> \<open>\<open>$.fancybox.close(all)\<close>: the call for the next viewer has no argument\<close>
  "close_viewer every veto p =
     (case getInstance p of
        None \<Rightarrow> p
      | Some b \<Rightarrow> let p = close_box (oid b) (veto (oid b)) None p in if every then close_one veto p else p)"

subsection \<open>Opening\<close>

record browser =
  ios :: bool
  mobile :: bool
  overflows :: bool
  body_top :: int

datatype outcome = Opened | Empty | Throws

definition hide_scrollbars :: "browser \<Rightarrow> item \<Rightarrow> page \<Rightarrow> page" where
  "hide_scrollbars w first p =
     (if getInstance p \<noteq> None then p
      else let p = p\<lparr>active_class := True\<rparr>
           in if ios w then (if is_image first then p else p\<lparr>iosfix := Some (- body_top w)\<rparr>)
              else if \<not> mobile w \<and> overflows w
                   then p\<lparr>noscroll_styles := Suc (noscroll_styles p), compensate := True\<rparr> else p)"

definition new_box :: "nat \<Rightarrow> iid \<Rightarrow> item \<Rightarrow> item list \<Rightarrow> nat \<Rightarrow> int \<times> int \<Rightarrow> place \<Rightarrow> box" where
  "new_box o1 i own items idx pos foc =
     \<lparr>oid = o1, bid = i, own_opts = own, group = items, currIndex = idx, current = None, tabbable = False,
      isClosing = False, closingClass = False, isVisible = False, isHiddenControls = False, isIdle = False,
      idleSecondsCounter = 0, idleInterval = None, caption = False, shown = (False, False, False, False),
      is_modal = False, nav_handlers = 0, zoom_handlers = 0, saved_scroll = pos, lastFocus = foc\<rparr>"

definition arrive_at :: "nat \<Rightarrow> box \<Rightarrow> box" where
  \<comment> \<open>what \<open>jumpTo\<close> does to the state here when it gets to the item \<open>i\<close>\<close>
  "arrive_at i b = updateControls (b\<lparr>current := Some i, currIndex := i, tabbable := False\<rparr>)"

definition insert_box :: "nat \<Rightarrow> box \<Rightarrow> box list \<Rightarrow> box list" where
  "insert_box after b bs = take (length bs - after) bs @ [b] @ drop (length bs - after) bs"

definition open_viewer ::
  "browser \<Rightarrow> item list \<Rightarrow> item \<Rightarrow> string option \<Rightarrow> int \<Rightarrow> nat \<Rightarrow> page \<Rightarrow> outcome \<times> page" where
  \<comment> \<open>\<open>custom\<close>: the option \<open>id\<close>; \<open>after\<close>: the number of containers that
     are behind the end of \<open>parentEl\<close> in the document\<close>
  "open_viewer w items own custom index after p =
     (let (i, p) = (case custom of
             Some c \<Rightarrow> if c = [] then (Count (Suc (called p)), p\<lparr>called := Suc (called p)\<rparr>) else (Own c, p)
           | None \<Rightarrow> (Count (Suc (called p)), p\<lparr>called := Suc (called p)\<rparr>))
      in if items = [] then (Empty, p)
         else
           let foc = focused p;
               p = p\<lparr>focused := Body\<rparr>
           in if index < 0 \<or> nat index \<ge> length items then (Throws, p)
              else
                let idx = nat index;
                    o1 = objects p;
                    b = new_box o1 i own items idx (scroll_pos p) foc;
                    p = hide_scrollbars w (items ! idx) p;
                    p = p\<lparr>boxes := insert_box after b (boxes p), objects := Suc o1\<rparr>;
                    p = activate o1 p
                in (Opened, upd_box o1 (arrive_at idx) p))"

subsection \<open>Events\<close>

definition keydown :: "nat \<Rightarrow> bool \<Rightarrow> bool \<Rightarrow> page \<Rightarrow> nat \<Rightarrow> page" where
  \<comment> \<open>\<open>in_field\<close>: the target is an \<open>input\<close> or a \<open>textarea\<close>\<close>
  "keydown kc in_field veto p o1 =
     (case box_at o1 p of
        None \<Rightarrow> p
      | Some b \<Rightarrow>
          if current b = None \<or> \<not> keyboard (current_opts b) then p
          else if in_field then p
          else if kc = 8 \<or> kc = 27 then close_box o1 veto None p
          else if kc = 37 \<or> kc = 38 then p\<lparr>messages := messages p @ [Previous o1]\<rparr>
          else if kc = 39 \<or> kc = 40 then p\<lparr>messages := messages p @ [Next o1]\<rparr>
          else p\<lparr>messages := messages p @ [AfterKeydown o1 kc]\<rparr>)"

definition woken :: "box \<Rightarrow> box" where
  "woken b =
     (let b = b\<lparr>idleSecondsCounter := 0\<rparr>;
          b = (if isIdle b then showControls b else b)
      in b\<lparr>isIdle := False\<rparr>)"

definition wake :: "page \<Rightarrow> nat \<Rightarrow> page" where
  \<comment> \<open>the handler of the namespace \<open>fb-idle\<close>\<close>
  "wake p o1 = upd_box o1 woken p"

definition second_passes :: "box \<Rightarrow> box" where
  \<comment> \<open>the interval of the idle time\<close>
  "second_passes b =
     (let b = b\<lparr>idleSecondsCounter := Suc (idleSecondsCounter b)\<rparr>
      in if idleSecondsCounter b \<ge> idleTime (group b ! currIndex b)
         then hideControls (b\<lparr>isIdle := True, idleSecondsCounter := 0\<rparr>) else b)"

datatype page_event =
    Open browser "item list" item "string option" int nat
  | Close nat bool "nat option"
  | Click_close nat bool
  | Close_viewer bool "nat \<Rightarrow> bool"
  | Close_done nat
  | Arrive nat nat
  | Fields nat bool
  | Key nat bool bool
  | Activity
  | Second nat
  | Resized
  | Focused place
  | Toggle nat
  | Scrolled "int \<times> int"

definition page_step :: "page \<Rightarrow> page_event \<Rightarrow> page" where
  "page_step p e =
     (case e of
        Open w items own custom index after \<Rightarrow> snd (open_viewer w items own custom index after p)
      | Close o1 veto d \<Rightarrow> close_box o1 veto d p
      | Click_close o1 veto \<Rightarrow>
          (case box_at o1 p of None \<Rightarrow> p | Some b \<Rightarrow> if nav_handlers b > 0 then close_box o1 veto None p else p)
      | Close_viewer every veto \<Rightarrow> close_viewer every veto p
      | Close_done o1 \<Rightarrow> close_done o1 p
      | Arrive o1 i \<Rightarrow> upd_box o1 (\<lambda>b. if isClosing b \<or> i \<ge> length (group b) then b else arrive_at i b) p
      | Fields o1 has \<Rightarrow> upd_box o1 (\<lambda>b. b\<lparr>tabbable := has\<rparr>) p
      | Key kc in_field veto \<Rightarrow>
          (let idle = idles p in foldl wake (foldl (keydown kc in_field veto) p (keys p)) idle)
      | Activity \<Rightarrow> foldl wake p (idles p)
      | Second t \<Rightarrow> (case map_of (intervals p) t of None \<Rightarrow> p | Some o1 \<Rightarrow> upd_box o1 second_passes p)
      | Resized \<Rightarrow> p\<lparr>messages := messages p @ map Update (resizes p)\<rparr>
      | Focused x \<Rightarrow> foldl (trap x) (p\<lparr>focused := x\<rparr>) (traps p)
      | Toggle o1 \<Rightarrow> upd_box o1 toggleControls p
      | Scrolled pos \<Rightarrow> p\<lparr>scroll_pos := pos\<rparr>)"

definition page_start :: "(nat \<Rightarrow> bool) \<Rightarrow> page" where
  "page_start fixed =
     \<lparr>boxes = [], called = 0, objects = 0, timers = 0, active_class = False, compensate = False, iosfix = None,
      noscroll_styles = 0, scroll_pos = (0, 0), focused = Body, fixed_el = fixed, keys = [], traps = [],
      resizes = [], idles = [], intervals = [], fading = [], messages = []\<rparr>"

definition page_run :: "page \<Rightarrow> page_event list \<Rightarrow> page" where
  "page_run p es = foldl page_step p es"

end
