(* ===== verification/Fancybox_Boxes.thy ===== *)
theory Fancybox_Boxes
  imports Fancybox_Instances
begin

section \<open>jquery.fancybox.js: one viewer is active, and the page is given back\<close>

text \<open>
  The invariants of a page with several viewers, one lemma per operation, and the statements over all
  sequences of events that follow.  \<open>X\<close> is the set of viewers that an operation is just closing: their
  flags and classes do not agree until they are removed.
\<close>

subsection \<open>Lookup and update\<close>

lemma upd_box_simps [simp]:
  "boxes (upd_box k f p) = map (\<lambda>b. if oid b = k then f b else b) (boxes p)"
  "called (upd_box k f p) = called p" "objects (upd_box k f p) = objects p"
  "timers (upd_box k f p) = timers p" "active_class (upd_box k f p) = active_class p"
  "compensate (upd_box k f p) = compensate p" "iosfix (upd_box k f p) = iosfix p"
  "noscroll_styles (upd_box k f p) = noscroll_styles p" "scroll_pos (upd_box k f p) = scroll_pos p"
  "focused (upd_box k f p) = focused p" "fixed_el (upd_box k f p) = fixed_el p"
  "keys (upd_box k f p) = keys p" "traps (upd_box k f p) = traps p" "resizes (upd_box k f p) = resizes p"
  "idles (upd_box k f p) = idles p" "intervals (upd_box k f p) = intervals p"
  "fading (upd_box k f p) = fading p" "messages (upd_box k f p) = messages p"
  by (simp_all add: upd_box_def)

lemma box_at_Some: "box_at k p = Some b \<Longrightarrow> b \<in> set (boxes p) \<and> oid b = k"
  by (auto simp: box_at_def find_Some_iff)

lemma box_at_None: "box_at k p = None \<longleftrightarrow> k \<notin> oid ` set (boxes p)"
  by (auto simp: box_at_def find_None_iff)

lemma getInstance_Some: "getInstance p = Some b \<Longrightarrow> b \<in> set (boxes p) \<and> \<not> closingClass b"
  by (auto simp: getInstance_def find_Some_iff) (metis nth_mem set_rev length_rev)

lemma getInstance_None: "getInstance p = None \<longleftrightarrow> (\<forall>b \<in> set (boxes p). closingClass b)"
  by (auto simp: getInstance_def find_None_iff)

lemma getInstance_last: "boxes p \<noteq> [] \<Longrightarrow> \<not> closingClass (last (boxes p)) \<Longrightarrow> getInstance p = Some (last (boxes p))"
  by (cases "boxes p" rule: rev_cases) (auto simp: getInstance_def)

subsection \<open>What operations leave alone\<close>

definition core_of :: "page \<Rightarrow> _" where
  "core_of p = ((boxes p, called p, objects p, timers p, keys p, traps p, resizes p), (idles p, intervals p, fading p),
                (active_class p, compensate p, iosfix p, noscroll_styles p))"

lemma trap_core [simp]: "core_of (trap x p k) = core_of p"
  by (auto simp: trap_def core_of_def Let_def split: option.split place.split)

lemma fold_trap_core [simp]: "core_of (foldl (trap x) p ks) = core_of p"
  by (induction ks arbitrary: p) auto

lemma focus_on_core [simp]: "core_of (focus_on x p) = core_of p"
  by (auto simp: focus_on_def) (simp add: core_of_def)

lemma core_fields:
  assumes "core_of q = core_of p"
  shows "boxes q = boxes p" "called q = called p" "objects q = objects p" "timers q = timers p"
    "keys q = keys p" "traps q = traps p" "resizes q = resizes p" "idles q = idles p"
    "intervals q = intervals p" "fading q = fading p" "active_class q = active_class p"
    "compensate q = compensate p" "iosfix q = iosfix p" "noscroll_styles q = noscroll_styles p"
  using assms by (auto simp: core_of_def)

lemma core_box_at: "core_of q = core_of p \<Longrightarrow> box_at k q = box_at k p"
  by (simp add: box_at_def core_of_def)

lemma core_getInstance: "core_of q = core_of p \<Longrightarrow> getInstance q = getInstance p"
  by (simp add: getInstance_def core_of_def)

subsection \<open>Invariants\<close>

definition item_ok :: "box \<Rightarrow> bool" where
  "item_ok b \<longleftrightarrow> currIndex b < length (group b) \<and> (current b = None \<or> current b = Some (currIndex b))"

definition boxes_ok :: "nat set \<Rightarrow> page \<Rightarrow> bool" where
  "boxes_ok X p \<longleftrightarrow>
     distinct (map oid (boxes p)) \<and>
     (\<forall>b \<in> set (boxes p). oid b < objects p \<and> item_ok b) \<and>
     (\<forall>b \<in> set (boxes p). oid b \<notin> X \<longrightarrow> closingClass b = isClosing b \<and> isClosing b = (oid b \<in> set (fading p))) \<and>
     (\<forall>b \<in> set (boxes p). oid b \<in> X \<longrightarrow> isClosing b) \<and>
     distinct (fading p) \<and> set (fading p) \<subseteq> oid ` set (boxes p) - X"

definition docs_ok :: "page \<Rightarrow> bool" where
  "docs_ok p \<longleftrightarrow>
     traps p = keys p \<and> resizes p = keys p \<and> (idles p = [] \<or> idles p = keys p) \<and> length (keys p) \<le> 1 \<and>
     (\<forall>k \<in> set (keys p). \<exists>b \<in> set (boxes p). oid b = k \<and> \<not> isClosing b \<and> nav_handlers b = 1)"

definition timers_ok :: "page \<Rightarrow> bool" where
  "timers_ok p \<longleftrightarrow>
     distinct (map fst (intervals p)) \<and> (\<forall>i \<in> set (intervals p). fst i < timers p) \<and>
     (\<forall>i \<in> set (intervals p). \<exists>b \<in> set (boxes p). oid b = snd i \<and> idleInterval b = Some (fst i)) \<and>
     (\<forall>b \<in> set (boxes p). \<forall>t. idleInterval b = Some t \<longrightarrow> (t, oid b) \<in> set (intervals p) \<and> \<not> isClosing b)"

definition body_ok :: "page \<Rightarrow> bool" where
  "body_ok p \<longleftrightarrow>
     ((\<exists>b \<in> set (boxes p). \<not> closingClass b) \<longrightarrow> active_class p) \<and>
     (boxes p = [] \<longrightarrow> \<not> active_class p) \<and>
     (\<not> active_class p \<longrightarrow> \<not> compensate p \<and> iosfix p = None)"

definition page_ok :: "nat set \<Rightarrow> page \<Rightarrow> bool" where
  "page_ok X p \<longleftrightarrow> boxes_ok X p \<and> docs_ok p \<and> timers_ok p"

lemma page_ok_cong:
  assumes "boxes q = boxes p" "objects q = objects p" "timers q = timers p" "keys q = keys p" "traps q = traps p"
    "resizes q = resizes p" "idles q = idles p" "intervals q = intervals p" "fading q = fading p"
  shows "page_ok X q = page_ok X p"
  unfolding page_ok_def boxes_ok_def docs_ok_def timers_ok_def assms by (rule refl)

lemma core_ok:
  assumes "core_of q = core_of p"
  shows "page_ok X q = page_ok X p" "body_ok q = body_ok p"
  using core_fields [OF assms] by (simp_all add: page_ok_def boxes_ok_def docs_ok_def timers_ok_def body_ok_def)

subsection \<open>Updates that keep the flags\<close>

definition tame :: "(box \<Rightarrow> box) \<Rightarrow> bool" where
  "tame f \<longleftrightarrow> (\<forall>b. oid (f b) = oid b \<and> isClosing (f b) = isClosing b \<and> closingClass (f b) = closingClass b \<and>
     idleInterval (f b) = idleInterval b \<and> nav_handlers (f b) = nav_handlers b \<and> (item_ok b \<longrightarrow> item_ok (f b)) \<and>
     bid (f b) = bid b \<and> group (f b) = group b \<and> own_opts (f b) = own_opts b \<and>
     saved_scroll (f b) = saved_scroll b \<and> lastFocus (f b) = lastFocus b)"

lemma map_boxes_ok:
  assumes g: "\<And>b. oid (g b) = oid b" "\<And>b. isClosing (g b) = isClosing b" "\<And>b. closingClass (g b) = closingClass b"
    "\<And>b. item_ok b \<Longrightarrow> item_ok (g b)"
    and p: "boxes_ok X p" and q: "boxes q = map g (boxes p)" "objects q = objects p" "fading q = fading p"
  shows "boxes_ok X q"
proof -
  have m: "map oid (map g (boxes p)) = map oid (boxes p)" using g(1) by simp
  have i: "oid ` set (map g (boxes p)) = oid ` set (boxes p)" using m by (metis list.set_map)
  show ?thesis using p g(4) unfolding boxes_ok_def q m i by (simp add: g(1-3))
qed

lemma map_docs_ok:
  assumes g: "\<And>b. oid (g b) = oid b" "\<And>b. isClosing (g b) = isClosing b" "\<And>b. nav_handlers (g b) = nav_handlers b"
    and p: "docs_ok p" and q: "boxes q = map g (boxes p)" "keys q = keys p" "traps q = traps p" "resizes q = resizes p"
      "idles q = idles p"
  shows "docs_ok q"
  using p unfolding docs_ok_def q by (simp add: g)

lemma map_timers_ok:
  assumes g: "\<And>b. oid (g b) = oid b" "\<And>b. isClosing (g b) = isClosing b" "\<And>b. idleInterval (g b) = idleInterval b"
    and p: "timers_ok p" and q: "boxes q = map g (boxes p)" "timers q = timers p" "intervals q = intervals p"
  shows "timers_ok q"
  using p unfolding timers_ok_def q by (simp add: g)

lemma tame_page_ok:
  assumes "tame f" "page_ok X p"
  shows "page_ok X (upd_box k f p)"
proof -
  let ?g = "\<lambda>b. if oid b = k then f b else b"
  have g: "oid (?g b) = oid b" "isClosing (?g b) = isClosing b" "closingClass (?g b) = closingClass b"
    "idleInterval (?g b) = idleInterval b" "nav_handlers (?g b) = nav_handlers b" "item_ok b \<Longrightarrow> item_ok (?g b)" for b
    using assms(1) unfolding tame_def by auto
  have p: "boxes_ok X p" "docs_ok p" "timers_ok p" using assms(2) by (simp_all add: page_ok_def)
  have "boxes_ok X (upd_box k f p)" by (rule map_boxes_ok [OF g(1-3) g(6) p(1)]) simp_all
  moreover have "docs_ok (upd_box k f p)" by (rule map_docs_ok [OF g(1,2,5) p(2)]) simp_all
  moreover have "timers_ok (upd_box k f p)" by (rule map_timers_ok [OF g(1,2,4) p(3)]) simp_all
  ultimately show ?thesis by (simp add: page_ok_def)
qed

lemma item_ok_current: "item_ok b \<Longrightarrow> current b = Some i \<Longrightarrow> i < length (group b)"
  by (auto simp: item_ok_def)

lemma tame_controls [intro!]: "tame hideControls" "tame showControls" "tame toggleControls" "tame updateControls"
  "tame second_passes" "tame (\<lambda>b. b\<lparr>tabbable := v\<rparr>)"
  "tame (\<lambda>b. if current b \<noteq> None \<or> isIdle b then updateControls b else b)"
  "tame (\<lambda>b. if isClosing b \<or> length (group b) \<le> i then b else arrive_at i b)"
  "tame woken"
  by (simp_all add: woken_def tame_def item_ok_def hideControls_def showControls_def toggleControls_def updateControls_def
        second_passes_def arrive_at_def Let_def)

subsection \<open>Removing and adding handlers\<close>

definition bare :: "nat \<Rightarrow> box \<Rightarrow> box" where
  "bare k b = (if oid b = k then b\<lparr>nav_handlers := 0, idleInterval := None\<rparr> else b)"

lemma bare_simps [simp]:
  "oid (bare k b) = oid b" "bid (bare k b) = bid b" "isClosing (bare k b) = isClosing b"
  "closingClass (bare k b) = closingClass b" "item_ok (bare k b) = item_ok b" "group (bare k b) = group b"
  "currIndex (bare k b) = currIndex b" "current (bare k b) = current b" "isVisible (bare k b) = isVisible b"
  "idleInterval (bare k b) = (if oid b = k then None else idleInterval b)"
  by (simp_all add: bare_def item_ok_def)

definition timers_core :: "page \<Rightarrow> bool" where
  "timers_core p \<longleftrightarrow>
     distinct (map oid (boxes p)) \<and> distinct (map fst (intervals p)) \<and>
     (\<forall>i \<in> set (intervals p). \<exists>b \<in> set (boxes p). oid b = snd i \<and> idleInterval b = Some (fst i)) \<and>
     (\<forall>b \<in> set (boxes p). \<forall>t. idleInterval b = Some t \<longrightarrow> (t, oid b) \<in> set (intervals p))"

lemma timers_core: "boxes_ok X p \<Longrightarrow> timers_ok p \<Longrightarrow> timers_core p"
  by (auto simp: boxes_ok_def timers_ok_def timers_core_def)

lemma boxes_ok_distinct: "boxes_ok X p \<Longrightarrow> distinct (map oid (boxes p))"
  by (simp add: boxes_ok_def)

lemma same_oid: "distinct (map oid (boxes p)) \<Longrightarrow> b \<in> set (boxes p) \<Longrightarrow> c \<in> set (boxes p) \<Longrightarrow> oid b = oid c \<Longrightarrow> b = c"
  by (auto simp: distinct_map dest: inj_onD)

lemma box_at_eq:
  assumes "distinct (map oid (boxes p))" "b \<in> set (boxes p)"
  shows "box_at (oid b) p = Some b"
proof (cases "box_at (oid b) p")
  case None
  then show ?thesis using assms(2) by (auto simp: box_at_None)
next
  case (Some c)
  then show ?thesis using box_at_Some [OF Some] same_oid [OF assms(1), of c b] assms(2) by simp
qed

lemma box_at_map:
  assumes "boxes q = map g (boxes p)" "\<And>b. oid (g b) = oid b"
  shows "box_at k q = map_option g (box_at k p)"
proof -
  have "find (\<lambda>b. oid b = k) (map g bs) = map_option g (find (\<lambda>b. oid b = k) bs)" for bs
    by (induction bs) (auto simp: assms(2))
  then show ?thesis by (simp add: box_at_def assms(1))
qed

lemma interval_of:
  assumes "timers_core p" "i \<in> set (intervals p)" "b \<in> set (boxes p)" "oid b = snd i"
  shows "idleInterval b = Some (fst i)"
proof -
  have d: "distinct (map oid (boxes p))" using assms(1) by (simp add: timers_core_def)
  obtain c where "c \<in> set (boxes p)" "oid c = snd i" "idleInterval c = Some (fst i)"
    using assms(1,2) by (auto simp: timers_core_def)
  then show ?thesis using same_oid [OF d assms(3), of c] assms(4) by simp
qed

definition off_all :: "nat \<Rightarrow> page \<Rightarrow> page" where
  "off_all k p = upd_box k (\<lambda>b. b\<lparr>nav_handlers := 0\<rparr>) (p\<lparr>resizes := [], traps := [], keys := [], idles := []\<rparr>)"

lemma off_all_at: "box_at k (off_all k p) = map_option (\<lambda>b. if oid b = k then b\<lparr>nav_handlers := 0\<rparr> else b) (box_at k p)"
  by (rule box_at_map) (simp_all add: off_all_def)

lemma removeEvents_off_all:
  "removeEvents k p = (case box_at k p of
       None \<Rightarrow> off_all k p
     | Some b \<Rightarrow> (case idleInterval b of
         None \<Rightarrow> off_all k p
       | Some t \<Rightarrow> upd_box k (\<lambda>b. b\<lparr>idleInterval := None\<rparr>)
                     ((off_all k p)\<lparr>intervals := filter (\<lambda>i. fst i \<noteq> t) (intervals p)\<rparr>)))"
proof -
  have "removeEvents k p = (case box_at k (off_all k p) of
       None \<Rightarrow> off_all k p
     | Some b \<Rightarrow> (case idleInterval b of
         None \<Rightarrow> off_all k p
       | Some t \<Rightarrow> upd_box k (\<lambda>b. b\<lparr>idleInterval := None\<rparr>)
                     ((off_all k p)\<lparr>intervals := filter (\<lambda>i. fst i \<noteq> t) (intervals (off_all k p))\<rparr>)))"
    unfolding removeEvents_def off_all_def Let_def by (rule refl)
  also have "intervals (off_all k p) = intervals p" by (simp add: off_all_def)
  finally show ?thesis
    unfolding off_all_at by (cases "box_at k p") (auto dest: box_at_Some)
qed

lemma removeEvents_boxes:
  assumes "distinct (map oid (boxes p))"
  shows "boxes (removeEvents k p) = map (bare k) (boxes p)"
proof (cases "box_at k p")
  case None
  then have "\<And>b. b \<in> set (boxes p) \<Longrightarrow> oid b \<noteq> k" by (auto simp: box_at_None)
  then show ?thesis using None by (auto simp: removeEvents_off_all bare_def off_all_def)
next
  case (Some b)
  then have b: "b \<in> set (boxes p)" "oid b = k" by (auto dest: box_at_Some)
  have u: "\<And>c. c \<in> set (boxes p) \<Longrightarrow> oid c = k \<Longrightarrow> c = b" using same_oid [OF assms] b by blast
  show ?thesis
  proof (cases "idleInterval b")
    case None
    have n: "b\<lparr>nav_handlers := 0\<rparr> = b\<lparr>nav_handlers := 0, idleInterval := None\<rparr>" using None by (cases b) simp
    have e: "removeEvents k p = off_all k p" using Some None by (simp add: removeEvents_off_all)
    have "(if oid c = k then c\<lparr>nav_handlers := 0\<rparr> else c) = bare k c" if "c \<in> set (boxes p)" for c
      using u [OF that] n by (auto simp: bare_def)
    then show ?thesis unfolding e off_all_def by simp
  next
    case (Some t)
    then have e: "removeEvents k p = upd_box k (\<lambda>b. b\<lparr>idleInterval := None\<rparr>)
                     ((off_all k p)\<lparr>intervals := filter (\<lambda>i. fst i \<noteq> t) (intervals p)\<rparr>)"
      using \<open>box_at k p = Some b\<close> by (simp add: removeEvents_off_all)
    show ?thesis unfolding e off_all_def by (simp add: bare_def)
  qed
qed

lemma removeEvents_intervals:
  assumes p: "timers_core p"
  shows "intervals (removeEvents k p) = filter (\<lambda>i. snd i \<noteq> k) (intervals p)"
proof (cases "\<exists>t. (t, k) \<in> set (intervals p)")
  case False
  have "intervals (removeEvents k p) = intervals p"
  proof (cases "box_at k p")
    case (Some b)
    then have "idleInterval b = None"
      using False p box_at_Some [OF Some] by (cases "idleInterval b") (auto simp: timers_core_def)
    then show ?thesis using Some by (simp add: removeEvents_off_all off_all_def)
  qed (simp add: removeEvents_off_all off_all_def)
  moreover have "filter (\<lambda>i. snd i \<noteq> k) (intervals p) = intervals p"
    using False by (intro filter_True) (metis prod.collapse)
  ultimately show ?thesis by simp
next
  case True
  then obtain t where t: "(t, k) \<in> set (intervals p)" by blast
  then obtain b where b: "b \<in> set (boxes p)" "oid b = k" "idleInterval b = Some t"
    using p by (fastforce simp: timers_core_def)
  have "fst i \<noteq> t \<longleftrightarrow> snd i \<noteq> k" if i: "i \<in> set (intervals p)" for i
  proof -
    have d: "distinct (map fst (intervals p))" using p by (simp add: timers_core_def)
    have "fst i = t \<Longrightarrow> snd i = k"
      using eq_key_imp_eq_value [OF d _ t, of "snd i"] i by (metis prod.collapse)
    moreover have "snd i = k \<Longrightarrow> fst i = t" using interval_of [OF p i b(1)] b(2,3) by simp
    ultimately show ?thesis by auto
  qed
  then have f: "filter (\<lambda>i. fst i \<noteq> t) (intervals p) = filter (\<lambda>i. snd i \<noteq> k) (intervals p)"
    by (rule filter_cong [OF refl])
  show ?thesis using box_at_eq [OF _ b(1)] b p by (simp add: removeEvents_off_all f timers_core_def)
qed

lemma removeEvents_fields [simp]:
  "keys (removeEvents k p) = []" "traps (removeEvents k p) = []" "resizes (removeEvents k p) = []"
  "idles (removeEvents k p) = []" "objects (removeEvents k p) = objects p" "called (removeEvents k p) = called p"
  "timers (removeEvents k p) = timers p" "fading (removeEvents k p) = fading p"
  "active_class (removeEvents k p) = active_class p" "compensate (removeEvents k p) = compensate p"
  "iosfix (removeEvents k p) = iosfix p" "noscroll_styles (removeEvents k p) = noscroll_styles p"
  "scroll_pos (removeEvents k p) = scroll_pos p" "focused (removeEvents k p) = focused p"
  by (simp_all add: removeEvents_def Let_def split: option.split)

lemma removeEvents_ok:
  assumes "page_ok X p"
  shows "page_ok X (removeEvents k p)"
proof -
  have p: "boxes_ok X p" "docs_ok p" "timers_ok p" using assms by (simp_all add: page_ok_def)
  note b = removeEvents_boxes [OF boxes_ok_distinct [OF p(1)]] and i = removeEvents_intervals [OF timers_core [OF p(1,3)]]
  have "boxes_ok X (removeEvents k p)"
    by (rule map_boxes_ok [of "bare k", OF _ _ _ _ p(1) b]) simp_all
  moreover have "docs_ok (removeEvents k p)" by (simp add: docs_ok_def)
  moreover have "timers_ok (removeEvents k p)"
    using p(3) unfolding timers_ok_def b i
    by (auto simp: distinct_map inj_on_def) (metis bare_simps(1,10) fst_conv snd_conv)
  ultimately show ?thesis by (simp add: page_ok_def)
qed

definition flags :: "box \<Rightarrow> _" where
  "flags b = (oid b, bid b, isClosing b, closingClass b, (group b, currIndex b, current b),
     own_opts b, saved_scroll b, lastFocus b)"

lemma flags_fields:
  assumes "flags c = flags b"
  shows "oid c = oid b" "bid c = bid b" "isClosing c = isClosing b" "closingClass c = closingClass b" "group c = group b"
    "currIndex c = currIndex b" "current c = current b" "own_opts c = own_opts b" "saved_scroll c = saved_scroll b"
    "lastFocus c = lastFocus b"
  using assms by (simp_all add: flags_def)

lemma flags_in:
  assumes "map flags (boxes q) = map flags (boxes p)" "b \<in> set (boxes p)"
  obtains c where "c \<in> set (boxes q)" "flags c = flags b"
proof -
  have "flags b \<in> flags ` set (boxes q)" using assms by (metis image_eqI list.set_map)
  then show ?thesis using that by (metis imageE)
qed

lemma flags_if [simp]: "\<forall>b. flags (f b) = flags b \<Longrightarrow> flags \<circ> (\<lambda>b. if oid b = k then f b else b) = flags"
  by auto

lemma flags_removeEvents: "boxes_ok X p \<Longrightarrow> map flags (boxes (removeEvents k p)) = map flags (boxes p)"
  by (simp add: removeEvents_boxes boxes_ok_distinct flags_def bare_def)

lemma add_idle_fields [simp]:
  "boxes (add_idle k p) = map (\<lambda>b. if oid b = k then b\<lparr>idleSecondsCounter := 0, idleInterval := Some (timers p)\<rparr> else b) (boxes p)"
  "keys (add_idle k p) = keys p" "traps (add_idle k p) = traps p" "resizes (add_idle k p) = resizes p"
  "idles (add_idle k p) = idles p @ [k]" "objects (add_idle k p) = objects p" "called (add_idle k p) = called p"
  "timers (add_idle k p) = Suc (timers p)" "fading (add_idle k p) = fading p"
  "intervals (add_idle k p) = intervals p @ [(timers p, k)]"
  "active_class (add_idle k p) = active_class p" "compensate (add_idle k p) = compensate p"
  "iosfix (add_idle k p) = iosfix p" "noscroll_styles (add_idle k p) = noscroll_styles p"
  "scroll_pos (add_idle k p) = scroll_pos p" "focused (add_idle k p) = focused p"
  by (simp_all add: add_idle_def Let_def)

definition with_handlers :: "nat \<Rightarrow> page \<Rightarrow> page" where
  "with_handlers k p =
     (let p = upd_box k (\<lambda>b. b\<lparr>nav_handlers := Suc (nav_handlers b), zoom_handlers := Suc (zoom_handlers b)\<rparr>) (removeEvents k p)
      in p\<lparr>resizes := resizes p @ [k], traps := traps p @ [k], keys := keys p @ [k]\<rparr>)"

lemma addEvents_eq:
  "addEvents k p = (case box_at k (with_handlers k p) of
      None \<Rightarrow> with_handlers k p
    | Some b \<Rightarrow> if idleTime (group b ! currIndex b) > 0 then add_idle k (with_handlers k p) else with_handlers k p)"
  unfolding addEvents_def with_handlers_def Let_def by (rule refl)

lemma with_handlers_fields [simp]:
  "keys (with_handlers k p) = [k]" "traps (with_handlers k p) = [k]" "resizes (with_handlers k p) = [k]"
  "idles (with_handlers k p) = []" "objects (with_handlers k p) = objects p" "called (with_handlers k p) = called p"
  "timers (with_handlers k p) = timers p" "fading (with_handlers k p) = fading p"
  "active_class (with_handlers k p) = active_class p" "compensate (with_handlers k p) = compensate p"
  "iosfix (with_handlers k p) = iosfix p" "noscroll_styles (with_handlers k p) = noscroll_styles p"
  "scroll_pos (with_handlers k p) = scroll_pos p" "focused (with_handlers k p) = focused p"
  by (simp_all add: with_handlers_def Let_def)

definition armed :: "nat \<Rightarrow> box \<Rightarrow> box" where
  "armed k b = (if oid b = k then b\<lparr>nav_handlers := 1, zoom_handlers := Suc (zoom_handlers b), idleInterval := None\<rparr> else b)"

lemma armed_simps [simp]:
  "oid (armed k b) = oid b" "bid (armed k b) = bid b" "isClosing (armed k b) = isClosing b"
  "closingClass (armed k b) = closingClass b" "item_ok (armed k b) = item_ok b" "group (armed k b) = group b"
  "currIndex (armed k b) = currIndex b" "current (armed k b) = current b" "isVisible (armed k b) = isVisible b"
  "idleInterval (armed k b) = (if oid b = k then None else idleInterval b)" "flags (armed k b) = flags b"
  by (simp_all add: armed_def item_ok_def flags_def)

lemma with_handlers_boxes: "boxes_ok X p \<Longrightarrow> boxes (with_handlers k p) = map (armed k) (boxes p)"
  by (simp add: with_handlers_def Let_def removeEvents_boxes boxes_ok_distinct armed_def bare_def)

lemma with_handlers_intervals:
  "boxes_ok X p \<Longrightarrow> timers_ok p \<Longrightarrow> intervals (with_handlers k p) = filter (\<lambda>i. snd i \<noteq> k) (intervals p)"
  by (simp add: with_handlers_def Let_def removeEvents_intervals timers_core)

lemma with_handlers_ok:
  assumes "page_ok X p" "b \<in> set (boxes p)" "oid b = k" "\<not> isClosing b"
  shows "page_ok X (with_handlers k p)"
proof -
  have p: "boxes_ok X p" "docs_ok p" "timers_ok p" using assms(1) by (simp_all add: page_ok_def)
  note b = with_handlers_boxes [OF p(1)] and i = with_handlers_intervals [OF p(1,3)]
  have "boxes_ok X (with_handlers k p)"
    by (rule map_boxes_ok [of "armed k", OF _ _ _ _ p(1) b]) simp_all
  moreover have "docs_ok (with_handlers k p)"
  proof -
    have "armed k b \<in> set (boxes (with_handlers k p))" using assms(2) by (simp add: with_handlers_boxes [OF p(1)])
    moreover have "oid (armed k b) = k \<and> \<not> isClosing (armed k b) \<and> nav_handlers (armed k b) = 1"
      using assms(3,4) by (simp add: armed_def)
    ultimately show ?thesis unfolding docs_ok_def by (simp del: armed_simps) blast
  qed
  moreover have "timers_ok (with_handlers k p)"
    using p(3) unfolding timers_ok_def b i
    by (auto simp: distinct_map inj_on_def) (metis fst_conv snd_conv)
  ultimately show ?thesis by (simp add: page_ok_def)
qed

lemma add_idle_ok:
  assumes "page_ok X p" "keys p = [k]" "idles p = []" "b \<in> set (boxes p)" "oid b = k" "idleInterval b = None"
  shows "page_ok X (add_idle k p)"
proof -
  have p: "boxes_ok X p" "docs_ok p" "timers_ok p" using assms(1) by (simp_all add: page_ok_def)
  let ?g = "\<lambda>b. if oid b = k then b\<lparr>idleSecondsCounter := 0, idleInterval := Some (timers p)\<rparr> else b"
  have g: "?g c \<in> set (boxes (add_idle k p))" if "c \<in> set (boxes p)" for c
    using imageI [OF that, of ?g] by (simp only: add_idle_fields set_map)
  have "boxes_ok X (add_idle k p)"
    by (rule map_boxes_ok [of ?g, OF _ _ _ _ p(1)]) (simp_all add: item_ok_def)
  moreover have "docs_ok (add_idle k p)"
  proof -
    obtain c where c: "c \<in> set (boxes p)" "oid c = k" "\<not> isClosing c" "nav_handlers c = 1"
      using p(2) assms(2) by (auto simp: docs_ok_def)
    show ?thesis using g [OF c(1)] p(2) assms(2,3) c unfolding docs_ok_def
      by (simp del: set_map add_idle_fields(1)) (rule bexI [of _ "?g c"], auto)
  qed
  moreover have "timers_ok (add_idle k p)"
  proof -
    have c: "\<not> isClosing c" if "c \<in> set (boxes p)" "oid c = k" for c
      using p(2) assms(2) same_oid [OF boxes_ok_distinct [OF p(1)] that(1)] that by (fastforce simp: docs_ok_def)
    have n: "snd i \<noteq> k" if "i \<in> set (intervals p)" for i
      using interval_of [OF timers_core [OF p(1,3)] that assms(4)] assms(5,6) by auto
    have "\<exists>b\<in>set (boxes (add_idle k p)). oid b = snd i \<and> idleInterval b = Some (fst i)"
      if i: "i \<in> set (intervals (add_idle k p))" for i
    proof (cases "i = (timers p, k)")
      case True
      then show ?thesis using assms(5) by (intro bexI [OF _ g [OF assms(4)]]) simp
    next
      case False
      then have i: "i \<in> set (intervals p)" using i by simp
      then obtain c where "c \<in> set (boxes p)" "oid c = snd i" "idleInterval c = Some (fst i)"
        using p(3) by (auto simp: timers_ok_def)
      then show ?thesis using n [OF i] by (intro bexI [OF _ g [of c]]) simp_all
    qed
    then show ?thesis using p(3) c unfolding timers_ok_def by (auto simp: less_Suc_eq)
  qed
  ultimately show ?thesis by (simp add: page_ok_def)
qed

subsection \<open>Activation\<close>

lemma flags_with_handlers: "boxes_ok X p \<Longrightarrow> map flags (boxes (with_handlers k p)) = map flags (boxes p)"
  by (simp add: with_handlers_boxes)

lemma addEvents_at:
  assumes "boxes_ok X p" "b \<in> set (boxes p)" "oid b = k"
  shows "addEvents k p =
    (if idleTime (group b ! currIndex b) > 0 then add_idle k (with_handlers k p) else with_handlers k p)"
proof -
  have "box_at k (with_handlers k p) = map_option (armed k) (box_at k p)"
    by (rule box_at_map [OF with_handlers_boxes [OF assms(1)]]) simp
  then show ?thesis using box_at_eq [OF boxes_ok_distinct [OF assms(1)] assms(2)] assms(3) by (simp add: addEvents_eq)
qed

lemma flags_idle [simp]: "flags (b\<lparr>idleSecondsCounter := n, idleInterval := t\<rparr>) = flags b"
  by (simp add: flags_def)

lemma addEvents_ok:
  assumes "page_ok X p" "b \<in> set (boxes p)" "oid b = k" "\<not> isClosing b"
  shows "page_ok X (addEvents k p)" "keys (addEvents k p) = [k]" "map flags (boxes (addEvents k p)) = map flags (boxes p)"
proof -
  have p: "boxes_ok X p" using assms(1) by (simp add: page_ok_def)
  note at = addEvents_at [OF p assms(2,3)]
  have w: "page_ok X (with_handlers k p)" by (rule with_handlers_ok [OF assms])
  have c: "armed k b \<in> set (boxes (with_handlers k p))" using assms(2) by (simp add: with_handlers_boxes [OF p])
  have i: "page_ok X (add_idle k (with_handlers k p))"
    by (rule add_idle_ok [OF w _ _ c]) (simp_all add: assms(3))
  show "page_ok X (addEvents k p)" using w i by (simp add: at)
  show "keys (addEvents k p) = [k]" by (simp add: at)
  show "map flags (boxes (addEvents k p)) = map flags (boxes p)"
    by (simp add: at flags_with_handlers [OF p])
qed

lemma addEvents_body [simp]:
  "objects (addEvents k p) = objects p" "called (addEvents k p) = called p" "fading (addEvents k p) = fading p"
  "active_class (addEvents k p) = active_class p" "compensate (addEvents k p) = compensate p"
  "iosfix (addEvents k p) = iosfix p" "noscroll_styles (addEvents k p) = noscroll_styles p"
  "scroll_pos (addEvents k p) = scroll_pos p" "focused (addEvents k p) = focused p"
  by (simp_all add: addEvents_eq split: option.split)

lemma tame_visible [intro!]: "tame (\<lambda>b. b\<lparr>isVisible := v\<rparr>)"
  by (simp add: tame_def item_ok_def)

lemma flags_visible [simp]: "flags (b\<lparr>isVisible := v\<rparr>) = flags b"
  by (simp add: flags_def)

lemma deactivate_ok:
  assumes "page_ok X p"
  shows "page_ok X (deactivate i p k) \<and> map flags (boxes (deactivate i p k)) = map flags (boxes p)"
proof -
  have p: "boxes_ok X p" using assms by (simp add: page_ok_def)
  show ?thesis
    using assms tame_page_ok [OF tame_visible removeEvents_ok [OF assms], of k False k] flags_removeEvents [OF p, of k]
    by (simp add: deactivate_def split: option.split)
qed

lemma deactivate_body [simp]:
  "objects (deactivate i p k) = objects p" "called (deactivate i p k) = called p" "fading (deactivate i p k) = fading p"
  "active_class (deactivate i p k) = active_class p" "compensate (deactivate i p k) = compensate p"
  "iosfix (deactivate i p k) = iosfix p" "noscroll_styles (deactivate i p k) = noscroll_styles p"
  "scroll_pos (deactivate i p k) = scroll_pos p" "focused (deactivate i p k) = focused p"
  by (simp_all add: deactivate_def split: option.split)

lemma deactivate_all_ok:
  assumes "page_ok X p"
  shows "page_ok X (foldl (deactivate i) p ks) \<and> map flags (boxes (foldl (deactivate i) p ks)) = map flags (boxes p)"
  using assms by (induction ks arbitrary: p) (simp_all add: deactivate_ok)

lemma deactivate_all_body [simp]:
  "objects (foldl (deactivate i) p ks) = objects p" "called (foldl (deactivate i) p ks) = called p"
  "fading (foldl (deactivate i) p ks) = fading p" "active_class (foldl (deactivate i) p ks) = active_class p"
  "compensate (foldl (deactivate i) p ks) = compensate p" "iosfix (foldl (deactivate i) p ks) = iosfix p"
  "noscroll_styles (foldl (deactivate i) p ks) = noscroll_styles p"
  "scroll_pos (foldl (deactivate i) p ks) = scroll_pos p" "focused (foldl (deactivate i) p ks) = focused p"
  by (induction ks arbitrary: p) simp_all

definition prepared :: "nat \<Rightarrow> iid \<Rightarrow> page \<Rightarrow> page" where
  \<comment> \<open>the page when \<open>activate\<close> calls \<open>addEvents\<close>\<close>
  "prepared k i p =
     upd_box k (\<lambda>b. if current b \<noteq> None \<or> isIdle b then updateControls b else b)
       (upd_box k (\<lambda>b. b\<lparr>isVisible := True\<rparr>) (foldl (deactivate i) p (map oid (boxes p))))"

lemma activate_eq: "activate k p = (case box_at k p of None \<Rightarrow> p | Some b \<Rightarrow> addEvents k (prepared k (bid b) p))"
  unfolding activate_def prepared_def Let_def by (rule refl)

lemma updateControls_flags [simp]: "flags (updateControls b) = flags b"
  by (simp add: flags_def updateControls_def showControls_def Let_def)

lemma prepared_ok:
  assumes "page_ok X p"
  shows "page_ok X (prepared k i p) \<and> map flags (boxes (prepared k i p)) = map flags (boxes p)"
proof -
  let ?q = "foldl (deactivate i) p (map oid (boxes p))"
  have q: "page_ok X ?q" "map flags (boxes ?q) = map flags (boxes p)" using deactivate_all_ok [OF assms] by blast+
  have "map flags (boxes (prepared k i p)) = map flags (boxes ?q)"
    by (simp add: prepared_def)
  moreover have "page_ok X (prepared k i p)"
    unfolding prepared_def by (intro tame_page_ok tame_controls tame_visible q(1))
  ultimately show ?thesis using q(2) by simp
qed

lemma activate_ok:
  assumes "page_ok X p" "b \<in> set (boxes p)" "oid b = k" "\<not> isClosing b"
  shows "page_ok X (activate k p) \<and> keys (activate k p) = [k] \<and> map flags (boxes (activate k p)) = map flags (boxes p)"
proof -
  have p: "boxes_ok X p" using assms(1) by (simp add: page_ok_def)
  have at: "box_at k p = Some b" using box_at_eq [OF boxes_ok_distinct [OF p] assms(2)] assms(3) by simp
  note q = prepared_ok [OF assms(1), of k "bid b"]
  obtain c where "c \<in> set (boxes (prepared k (bid b) p))" "flags c = flags b"
    using flags_in [OF _ assms(2)] q by blast
  then show ?thesis
    using addEvents_ok [of X "prepared k (bid b) p" c k] q assms(3,4) flags_fields [of c b]
    by (simp add: activate_eq at)
qed

lemma activate_body [simp]:
  "objects (activate k p) = objects p" "called (activate k p) = called p" "fading (activate k p) = fading p"
  "active_class (activate k p) = active_class p" "compensate (activate k p) = compensate p"
  "iosfix (activate k p) = iosfix p" "noscroll_styles (activate k p) = noscroll_styles p"
  "scroll_pos (activate k p) = scroll_pos p" "focused (activate k p) = focused p"
  by (simp_all add: activate_eq prepared_def split: option.split)

lemma flags_body_ok:
  assumes "map flags (boxes q) = map flags (boxes p)" "active_class q = active_class p" "compensate q = compensate p"
    "iosfix q = iosfix p" "body_ok p"
  shows "body_ok q"
proof -
  have "map closingClass (boxes q) = map closingClass (boxes p)"
    using arg_cong [OF assms(1), of "map (\<lambda>f. fst (snd (snd (snd f))))"] by (simp add: flags_def o_def)
  then have "closingClass ` set (boxes q) = closingClass ` set (boxes p)" by (metis list.set_map)
  moreover have "boxes q = [] \<longleftrightarrow> boxes p = []" using assms(1) by (metis map_is_Nil_conv)
  ultimately show ?thesis using assms(2-5) unfolding body_ok_def by (metis (no_types, lifting) image_iff)
qed

lemma oids_of_flags: "map oid bs = map fst (map flags bs)"
  by (simp add: flags_def o_def)

lemma flags_classes: "map flags (boxes q) = map flags (boxes p) \<Longrightarrow> map oid (boxes q) = map oid (boxes p)"
  by (simp only: oids_of_flags)

subsection \<open>Removing a viewer\<close>

definition lead :: "bool \<Rightarrow> page \<Rightarrow> bool" where
  \<comment> \<open>when nothing is closing, one viewer has the keyboard; \<open>last_one\<close>: it is that of the last container\<close>
  "lead last_one p \<longleftrightarrow> (fading p = [] \<and> boxes p \<noteq> [] \<longrightarrow>
     (\<exists>k. keys p = [k]) \<and> (last_one \<longrightarrow> keys p = [oid (last (boxes p))]))"

definition body_pre :: "page \<Rightarrow> bool" where
  "body_pre p \<longleftrightarrow>
     ((\<exists>b \<in> set (boxes p). \<not> closingClass b) \<longrightarrow> active_class p) \<and> (\<not> active_class p \<longrightarrow> \<not> compensate p \<and> iosfix p = None)"

lemma body_ok_pre: "body_ok p \<Longrightarrow> body_pre p"
  by (simp add: body_ok_def body_pre_def)

definition without :: "nat \<Rightarrow> page \<Rightarrow> page" where
  \<comment> \<open>the container is removed\<close>
  "without k p = p\<lparr>boxes := filter (\<lambda>c. oid c \<noteq> k) (boxes p),
                    focused := (if focused p = Box k \<or> focused p = Within k then Body else focused p)\<rparr>"

lemma without_fields [simp]:
  "boxes (without k p) = filter (\<lambda>c. oid c \<noteq> k) (boxes p)"
  "keys (without k p) = keys p" "traps (without k p) = traps p" "resizes (without k p) = resizes p"
  "idles (without k p) = idles p" "objects (without k p) = objects p" "called (without k p) = called p"
  "timers (without k p) = timers p" "fading (without k p) = fading p" "intervals (without k p) = intervals p"
  "active_class (without k p) = active_class p" "compensate (without k p) = compensate p"
  "iosfix (without k p) = iosfix p" "noscroll_styles (without k p) = noscroll_styles p"
  "scroll_pos (without k p) = scroll_pos p"
  by (simp_all add: without_def)

definition refocused :: "nat \<Rightarrow> box \<Rightarrow> page \<Rightarrow> page" where
  "refocused k b p = (if backFocus (current_opts b) then focus_on (lastFocus b) (without k p) else without k p)"

lemma refocused_core: "core_of (refocused k b p) = core_of (without k p)"
  by (simp add: refocused_def)

lemmas refocused_fields [simp] = core_fields [OF refocused_core]

lemma cleanUp_eq:
  "cleanUp k p = (case box_at k p of None \<Rightarrow> p
    | Some b \<Rightarrow> (case getInstance (refocused k b p) of Some i \<Rightarrow> activate (oid i) (refocused k b p)
                | None \<Rightarrow> restore_body b (refocused k b p)))"
  unfolding cleanUp_def without_def refocused_def Let_def by (rule refl)

lemma without_ok:
  assumes "page_ok {k} p"
  shows "page_ok {} (without k p)"
proof -
  have p: "boxes_ok {k} p" "docs_ok p" "timers_ok p" using assms by (simp_all add: page_ok_def)
  have k: "isClosing b" if "b \<in> set (boxes p)" "oid b = k" for b using p(1) that by (auto simp: boxes_ok_def)
  have "boxes_ok {} (without k p)"
    using p(1) unfolding boxes_ok_def by (auto simp: distinct_map inj_on_def)
  moreover have "docs_ok (without k p)" using p(2) k unfolding docs_ok_def by simp metis
  moreover have "timers_ok (without k p)" using p(3) k unfolding timers_ok_def by simp metis
  ultimately show ?thesis by (simp add: page_ok_def)
qed

lemma restore_body_fields [simp]:
  "boxes (restore_body b p) = boxes p" "keys (restore_body b p) = keys p" "traps (restore_body b p) = traps p"
  "resizes (restore_body b p) = resizes p" "idles (restore_body b p) = idles p" "objects (restore_body b p) = objects p"
  "called (restore_body b p) = called p" "timers (restore_body b p) = timers p" "fading (restore_body b p) = fading p"
  "intervals (restore_body b p) = intervals p" "active_class (restore_body b p) = False"
  "compensate (restore_body b p) = False" "iosfix (restore_body b p) = None"
  "noscroll_styles (restore_body b p) = noscroll_styles p - 1" "focused (restore_body b p) = focused p"
  by (simp_all add: restore_body_def Let_def split: option.split)

lemma last_flags: "map f xs = map f ys \<Longrightarrow> xs \<noteq> [] \<Longrightarrow> f (last xs) = f (last ys)"
  by (metis last_map map_is_Nil_conv)

lemma cleanUp_ok:
  assumes "page_ok {k} p" "body_pre p" "box_at k p \<noteq> None"
  shows "page_ok {} (cleanUp k p) \<and> body_ok (cleanUp k p) \<and> lead F (cleanUp k p) \<and>
    map flags (boxes (cleanUp k p)) = map flags (filter (\<lambda>c. oid c \<noteq> k) (boxes p)) \<and> fading (cleanUp k p) = fading p"
proof -
  obtain b where b: "box_at k p = Some b" using assms(3) by auto
  define q where "q = refocused k b p"
  have qf: "boxes q = filter (\<lambda>c. oid c \<noteq> k) (boxes p)" "fading q = fading p" "active_class q = active_class p"
    "compensate q = compensate p" "iosfix q = iosfix p"
    by (simp_all add: q_def)
  have q: "page_ok {} q" using core_ok(1) [OF refocused_core] without_ok [OF assms(1)] by (simp add: q_def)
  have cl: "closingClass c = isClosing c" "isClosing c = (oid c \<in> set (fading q))" if "c \<in> set (boxes q)" for c
    using q that by (auto simp: page_ok_def boxes_ok_def)
  show ?thesis
  proof (cases "getInstance q")
    case None
    then have e: "cleanUp k p = restore_body b q" by (simp add: cleanUp_eq b q_def)
    have "\<forall>c \<in> set (boxes q). closingClass c" using None by (simp add: getInstance_None)
    moreover have "page_ok {} (restore_body b q)"
      using q unfolding page_ok_def boxes_ok_def docs_ok_def timers_ok_def restore_body_fields .
    moreover have "boxes q = [] \<or> fading q \<noteq> []" using calculation(1) cl by (cases "boxes q") auto
    ultimately show ?thesis by (auto simp: e body_ok_def lead_def qf)
  next
    case (Some i)
    then have e: "cleanUp k p = activate (oid i) q" by (simp add: cleanUp_eq b q_def)
    have i: "i \<in> set (boxes q)" "\<not> closingClass i" using getInstance_Some [OF Some] by auto
    then have "\<not> isClosing i" using cl by simp
    note a = activate_ok [OF q i(1) refl this]
    have ne: "boxes (activate (oid i) q) \<noteq> []" "boxes q \<noteq> []" using a i(1) by (metis empty_iff list.set(1) map_is_Nil_conv)+
    have act: "active_class q" using assms(2) i by (auto simp: body_pre_def qf)
    have "body_ok (activate (oid i) q)" using ne act by (simp add: body_ok_def)
    moreover have "lead F (activate (oid i) q)"
    proof -
      have "i = last (boxes q)" if "fading q = []"
        using getInstance_last [OF ne(2)] cl [of "last (boxes q)"] ne(2) Some that by simp
      moreover have "oid (last (boxes (activate (oid i) q))) = oid (last (boxes q))"
        using last_flags [of oid] flags_classes [of "activate (oid i) q" q] a ne(1) by blast
      ultimately show ?thesis using a by (auto simp: lead_def)
    qed
    ultimately show ?thesis using a by (simp add: e qf)
  qed
qed

subsection \<open>Closing\<close>

definition shut :: "nat \<Rightarrow> nat \<Rightarrow> page \<Rightarrow> page" where
  \<comment> \<open>a viewer whose closing begins, \<open>n\<close> the duration\<close>
  "shut k n p =
     upd_box k hideControls (upd_box k (\<lambda>b. b\<lparr>closingClass := closingClass b \<or> n \<noteq> 0\<rparr>)
       (removeEvents k (upd_box k (\<lambda>b. b\<lparr>isClosing := True\<rparr>) p)))"

lemma close_box_eq:
  "close_box k veto d p =
     (case box_at k p of
        None \<Rightarrow> p
      | Some b \<Rightarrow>
          if isClosing b then p else if veto then p\<lparr>messages := messages p @ [Update k]\<rparr>
          else let q = shut k (close_duration d (current_opts b)) p
               in if effect (current_opts b) \<and> close_duration d (current_opts b) \<noteq> 0 then q\<lparr>fading := fading q @ [k]\<rparr>
                  else cleanUp k q)"
  unfolding close_box_def shut_def Let_def by (rule refl)

definition shut_box :: "nat \<Rightarrow> nat \<Rightarrow> box \<Rightarrow> box" where
  "shut_box k n b = (if oid b = k
     then hideControls (b\<lparr>isClosing := True, nav_handlers := 0, idleInterval := None, closingClass := closingClass b \<or> n \<noteq> 0\<rparr>)
     else b)"

lemma shut_box_simps [simp]:
  "oid (shut_box k n b) = oid b" "bid (shut_box k n b) = bid b" "item_ok (shut_box k n b) = item_ok b"
  "group (shut_box k n b) = group b" "currIndex (shut_box k n b) = currIndex b" "current (shut_box k n b) = current b"
  "isClosing (shut_box k n b) = (oid b = k \<or> isClosing b)"
  "closingClass (shut_box k n b) = (closingClass b \<or> oid b = k \<and> n \<noteq> 0)"
  "idleInterval (shut_box k n b) = (if oid b = k then None else idleInterval b)"
  "nav_handlers (shut_box k n b) = (if oid b = k then 0 else nav_handlers b)"
  "isVisible (shut_box k n b) = isVisible b"
  by (auto simp: shut_box_def hideControls_def item_ok_def)

lemma shut_fields [simp]:
  "keys (shut k n p) = []" "traps (shut k n p) = []" "resizes (shut k n p) = []" "idles (shut k n p) = []"
  "objects (shut k n p) = objects p" "called (shut k n p) = called p" "timers (shut k n p) = timers p"
  "fading (shut k n p) = fading p" "active_class (shut k n p) = active_class p" "compensate (shut k n p) = compensate p"
  "iosfix (shut k n p) = iosfix p" "noscroll_styles (shut k n p) = noscroll_styles p"
  "scroll_pos (shut k n p) = scroll_pos p" "focused (shut k n p) = focused p"
  by (simp_all add: shut_def)

lemma map_timers_core:
  assumes g: "\<And>b. oid (g b) = oid b" "\<And>b. idleInterval (g b) = idleInterval b"
    and p: "timers_core p" and q: "boxes q = map g (boxes p)" "intervals q = intervals p"
  shows "timers_core q"
proof -
  have "oid \<circ> g = oid" using g(1) by auto
  then show ?thesis using p unfolding timers_core_def q by (simp add: g)
qed

lemma shut_boxes:
  assumes "page_ok {} p"
  shows "boxes (shut k n p) = map (shut_box k n) (boxes p)"
    "intervals (shut k n p) = filter (\<lambda>i. snd i \<noteq> k) (intervals p)"
proof -
  let ?g = "\<lambda>b. if oid b = k then b\<lparr>isClosing := True\<rparr> else b"
  let ?q = "upd_box k (\<lambda>b. b\<lparr>isClosing := True\<rparr>) p"
  have p: "timers_core p" using assms by (auto simp: page_ok_def intro: timers_core)
  have q: "timers_core ?q" by (rule map_timers_core [of ?g, OF _ _ p]) simp_all
  then have d: "distinct (map oid (boxes ?q))" by (simp only: timers_core_def)
  show "boxes (shut k n p) = map (shut_box k n) (boxes p)"
    by (simp add: shut_def removeEvents_boxes [OF d] bare_def shut_box_def hideControls_def)
  show "intervals (shut k n p) = filter (\<lambda>i. snd i \<noteq> k) (intervals p)"
    by (simp add: shut_def removeEvents_intervals [OF q])
qed

lemma shut_ok:
  assumes "page_ok {} p" "b \<in> set (boxes p)" "oid b = k" "\<not> isClosing b"
  shows "page_ok {k} (shut k n p)"
proof -
  have p: "boxes_ok {} p" "docs_ok p" "timers_ok p" using assms by (simp_all add: page_ok_def)
  note b = shut_boxes [OF assms(1), of k n]
  have nf: "k \<notin> set (fading p)" using p(1) assms(2-4) by (auto simp: boxes_ok_def)
  have o: "map oid (boxes (shut k n p)) = map oid (boxes p)" by (simp add: b)
  have s: "oid ` set (boxes (shut k n p)) = oid ` set (boxes p)" using o by (metis list.set_map)
  have "boxes_ok {k} (shut k n p)"
    using p(1) nf unfolding boxes_ok_def o s by (auto simp: b)
  moreover have "docs_ok (shut k n p)" by (simp add: docs_ok_def)
  moreover have "timers_ok (shut k n p)"
    using p(3) unfolding timers_ok_def b
    by (auto simp: distinct_map inj_on_def) (metis fst_conv snd_conv)
  ultimately show ?thesis by (simp add: page_ok_def)
qed

definition all_ok :: "bool \<Rightarrow> page \<Rightarrow> bool" where
  "all_ok F p \<longleftrightarrow> page_ok {} p \<and> body_ok p \<and> lead F p"

lemma core_all_ok: "core_of q = core_of p \<Longrightarrow> all_ok F q = all_ok F p"
  using core_ok [of q p] core_fields [of q p] by (simp add: all_ok_def lead_def)

lemma fading_ok:
  assumes "page_ok {k} p" "k \<in> oid ` set (boxes p)" "\<forall>b \<in> set (boxes p). oid b = k \<longrightarrow> closingClass b"
  shows "page_ok {} (p\<lparr>fading := fading p @ [k]\<rparr>)"
  using assms unfolding page_ok_def boxes_ok_def docs_ok_def timers_ok_def by auto

lemma close_box_ok:
  assumes "all_ok F p"
  shows "all_ok F (close_box k veto d p)"
proof (cases "box_at k p")
  case None
  then show ?thesis using assms by (simp add: close_box_eq)
next
  case (Some b)
  then have b: "b \<in> set (boxes p)" "oid b = k" by (auto dest: box_at_Some)
  have p: "page_ok {} p" "body_ok p" using assms by (simp_all add: all_ok_def)
  let ?n = "close_duration d (current_opts b)"
  let ?q = "shut k ?n p"
  note qb = shut_boxes [OF p(1), of k ?n]
  consider "isClosing b" | "\<not> isClosing b" "veto" | "\<not> isClosing b" "\<not> veto" by blast
  then show ?thesis
  proof cases
    case 1
    then show ?thesis using assms Some by (simp add: close_box_eq)
  next
    case 2
    then have "close_box k veto d p = p\<lparr>messages := messages p @ [Update k]\<rparr>" using Some by (simp add: close_box_eq)
    moreover have "core_of (p\<lparr>messages := messages p @ [Update k]\<rparr>) = core_of p" by (simp add: core_of_def)
    ultimately show ?thesis using assms core_all_ok by metis
  next
    case 3
    have q: "page_ok {k} ?q" using shut_ok [OF p(1) b 3(1)] .
    have k: "k \<in> oid ` set (boxes ?q)" using b by (auto simp: qb image_iff)
    have ne: "boxes ?q \<noteq> []" using k by auto
    have bp: "body_pre ?q" using p(2) by (auto simp: body_ok_def body_pre_def qb)
    show ?thesis
    proof (cases "effect (current_opts b) \<and> ?n \<noteq> 0")
      case True
      then have e: "close_box k veto d p = ?q\<lparr>fading := fading ?q @ [k]\<rparr>" using 3 Some by (simp add: close_box_eq Let_def)
      have "page_ok {} (?q\<lparr>fading := fading ?q @ [k]\<rparr>)" by (rule fading_ok [OF q k]) (use True in \<open>auto simp: qb\<close>)
      moreover have "body_ok (?q\<lparr>fading := fading ?q @ [k]\<rparr>)" using bp ne by (simp add: body_ok_def body_pre_def)
      ultimately show ?thesis by (simp add: e all_ok_def lead_def)
    next
      case False
      then have e: "close_box k veto d p = cleanUp k ?q" using 3 Some by (auto simp: close_box_eq Let_def)
      have "box_at k ?q \<noteq> None" using k by (simp add: box_at_None)
      then show ?thesis using cleanUp_ok [OF q bp] by (simp add: e all_ok_def)
    qed
  qed
qed

lemma close_done_pre:
  assumes "all_ok F p" "k \<in> set (fading p)"
  shows "page_ok {k} (p\<lparr>fading := remove1 k (fading p)\<rparr>) \<and> body_pre (p\<lparr>fading := remove1 k (fading p)\<rparr>) \<and>
    box_at k (p\<lparr>fading := remove1 k (fading p)\<rparr>) \<noteq> None"
proof -
  have p: "page_ok {} p" "body_ok p" using assms(1) by (simp_all add: all_ok_def)
  let ?q = "p\<lparr>fading := remove1 k (fading p)\<rparr>"
  have "page_ok {k} ?q"
    using p(1) assms(2) unfolding page_ok_def boxes_ok_def docs_ok_def timers_ok_def by auto
  moreover have "body_pre ?q" using p(2) by (simp add: body_ok_def body_pre_def)
  moreover have "box_at k ?q \<noteq> None" using p(1) assms(2) by (auto simp: box_at_None page_ok_def boxes_ok_def)
  ultimately show ?thesis by blast
qed

lemma close_done_ok:
  assumes "all_ok F p"
  shows "all_ok F (close_done k p)"
proof (cases "k \<in> set (fading p)")
  case True
  then show ?thesis using close_done_pre [OF assms True] cleanUp_ok [of k _ F]
    by (simp add: close_done_def all_ok_def)
qed (use assms in \<open>simp add: close_done_def\<close>)

lemma tame_flags: "tame f \<Longrightarrow> map closingClass (boxes (upd_box k f p)) = map closingClass (boxes p)
    \<and> map oid (boxes (upd_box k f p)) = map oid (boxes p)"
  by (auto simp: tame_def)

lemma tame_all_ok:
  assumes "tame f" "all_ok F p"
  shows "all_ok F (upd_box k f p)"
proof -
  have c: "map closingClass (boxes (upd_box k f p)) = map closingClass (boxes p)"
    "map oid (boxes (upd_box k f p)) = map oid (boxes p)" using tame_flags [OF assms(1), of k p] by blast+
  then have "closingClass ` set (boxes (upd_box k f p)) = closingClass ` set (boxes p)" by (metis list.set_map)
  moreover have n: "boxes (upd_box k f p) = [] \<longleftrightarrow> boxes p = []" by simp
  ultimately have "body_ok (upd_box k f p)" using assms(2) unfolding all_ok_def body_ok_def
    by (simp del: upd_box_simps(1)) (metis (no_types, lifting) image_iff)
  moreover have "lead F (upd_box k f p)"
    using assms(2) last_flags [OF c(2)] n by (simp add: all_ok_def lead_def del: upd_box_simps(1))
  ultimately show ?thesis using tame_page_ok [OF assms(1)] assms(2) by (simp add: all_ok_def)
qed

subsection \<open>Opening\<close>

lemma distinct_insert: "distinct (take n xs @ y # drop n xs) \<longleftrightarrow> y \<notin> set xs \<and> distinct xs"
proof -
  obtain as bs where s: "take n xs = as" "drop n xs = bs" by blast
  then have "xs = as @ bs" by (metis append_take_drop_id)
  then show ?thesis unfolding s by auto
qed

lemma set_insert_box [simp]: "set (insert_box n b bs) = insert b (set bs)"
proof -
  have "set bs = set (take (length bs - n) bs) \<union> set (drop (length bs - n) bs)" by (metis append_take_drop_id set_append)
  then show ?thesis by (simp add: insert_box_def)
qed

lemma insert_box_end [simp]: "insert_box 0 b bs = bs @ [b]"
  by (simp add: insert_box_def)

lemma insert_box_distinct: "distinct (map oid (insert_box n b bs)) \<longleftrightarrow> oid b \<notin> oid ` set bs \<and> distinct (map oid bs)"
  using distinct_insert [of "length bs - n" "map oid bs" "oid b"] by (simp add: insert_box_def take_map drop_map)

lemma insert_box_ne [simp]: "insert_box n b bs \<noteq> []"
  by (simp add: insert_box_def)

definition inserted :: "box \<Rightarrow> nat \<Rightarrow> page \<Rightarrow> page" where
  "inserted b n p = p\<lparr>boxes := insert_box n b (boxes p), objects := Suc (objects p)\<rparr>"

lemma inserted_fields [simp]:
  "boxes (inserted b n p) = insert_box n b (boxes p)" "objects (inserted b n p) = Suc (objects p)"
  "called (inserted b n p) = called p"
  "keys (inserted b n p) = keys p" "traps (inserted b n p) = traps p" "resizes (inserted b n p) = resizes p"
  "idles (inserted b n p) = idles p" "timers (inserted b n p) = timers p" "fading (inserted b n p) = fading p"
  "intervals (inserted b n p) = intervals p" "active_class (inserted b n p) = active_class p"
  "compensate (inserted b n p) = compensate p" "iosfix (inserted b n p) = iosfix p"
  "noscroll_styles (inserted b n p) = noscroll_styles p" "scroll_pos (inserted b n p) = scroll_pos p"
  "focused (inserted b n p) = focused p"
  by (simp_all add: inserted_def)

lemma new_box_fields [simp]:
  "oid (new_box k i own items j pos x) = k" "isClosing (new_box k i own items j pos x) = False"
  "closingClass (new_box k i own items j pos x) = False" "idleInterval (new_box k i own items j pos x) = None"
  "group (new_box k i own items j pos x) = items" "currIndex (new_box k i own items j pos x) = j"
  "current (new_box k i own items j pos x) = None" "isVisible (new_box k i own items j pos x) = False"
  "bid (new_box k i own items j pos x) = i"
  by (simp_all add: new_box_def)

lemma inserted_ok:
  assumes "page_ok {} p" "j < length items"
  shows "page_ok {} (inserted (new_box (objects p) i own items j pos x) n p)"
proof -
  let ?b = "new_box (objects p) i own items j pos x"
  have p: "boxes_ok {} p" "docs_ok p" "timers_ok p" using assms(1) by (simp_all add: page_ok_def)
  have lt: "oid c < objects p" if "c \<in> set (boxes p)" for c using p(1) that by (simp add: boxes_ok_def)
  have s: "set (boxes (inserted ?b n p)) = insert ?b (set (boxes p))" by simp
  have "objects p \<notin> oid ` set (boxes p)" using lt by (metis imageE less_irrefl)
  then have d: "distinct (map oid (boxes (inserted ?b n p)))"
    using p(1) by (simp add: boxes_ok_def insert_box_distinct)
  have i: "item_ok ?b" using assms(2) by (simp add: item_ok_def)
  have f: "objects p \<notin> set (fading p)" using p(1) lt by (fastforce simp: boxes_ok_def)
  have "boxes_ok {} (inserted ?b n p)"
    using p(1) d i f unfolding boxes_ok_def s by (auto intro: less_SucI)
  moreover have "docs_ok (inserted ?b n p)" using p(2) unfolding docs_ok_def s by auto
  moreover have "timers_ok (inserted ?b n p)" using p(3) unfolding timers_ok_def s by auto
  ultimately show ?thesis by (simp add: page_ok_def)
qed

lemma hide_scrollbars_fields [simp]:
  "boxes (hide_scrollbars w f p) = boxes p" "keys (hide_scrollbars w f p) = keys p" "traps (hide_scrollbars w f p) = traps p"
  "resizes (hide_scrollbars w f p) = resizes p" "idles (hide_scrollbars w f p) = idles p"
  "objects (hide_scrollbars w f p) = objects p" "called (hide_scrollbars w f p) = called p"
  "timers (hide_scrollbars w f p) = timers p" "fading (hide_scrollbars w f p) = fading p"
  "intervals (hide_scrollbars w f p) = intervals p" "scroll_pos (hide_scrollbars w f p) = scroll_pos p"
  "focused (hide_scrollbars w f p) = focused p"
  by (simp_all add: hide_scrollbars_def Let_def)

lemma hide_scrollbars_active:
  assumes "body_ok p"
  shows "active_class (hide_scrollbars w f p)"
  using assms getInstance_Some [of p] by (cases "getInstance p") (auto simp: hide_scrollbars_def body_ok_def Let_def)

definition open_start :: "string option \<Rightarrow> page \<Rightarrow> iid \<times> page" where
  "open_start custom p = (case custom of
             Some c \<Rightarrow> if c = [] then (Count (Suc (called p)), p\<lparr>called := Suc (called p)\<rparr>) else (Own c, p)
           | None \<Rightarrow> (Count (Suc (called p)), p\<lparr>called := Suc (called p)\<rparr>))"

definition opened :: "browser \<Rightarrow> item list \<Rightarrow> item \<Rightarrow> iid \<Rightarrow> nat \<Rightarrow> nat \<Rightarrow> page \<Rightarrow> page" where
  "opened w items own i idx n p =
     (let q = hide_scrollbars w (items ! idx) (p\<lparr>focused := Body\<rparr>);
          q = inserted (new_box (objects p) i own items idx (scroll_pos p) (focused p)) n q
      in upd_box (objects p) (arrive_at idx) (activate (objects p) q))"

lemma open_viewer_eq:
  "open_viewer w items own custom index n p =
     (case open_start custom p of (i, q) \<Rightarrow>
        if items = [] then (Empty, q)
        else if index < 0 \<or> nat index \<ge> length items then (Throws, q\<lparr>focused := Body\<rparr>)
        else (Opened, opened w items own i (nat index) n q))"
  by (simp add: open_viewer_def open_start_def opened_def inserted_def Let_def split: option.split)

lemma opened_ok:
  assumes p: "page_ok {} p" "body_ok p" and j: "j < length items" and F: "F \<Longrightarrow> n = 0"
  shows "all_ok F (opened w items own i j n p)"
proof -
  let ?h = "hide_scrollbars w (items ! j) (p\<lparr>focused := Body\<rparr>)"
  let ?b = "new_box (objects p) i own items j (scroll_pos p) (focused p)"
  let ?q = "inserted ?b n ?h"
  have c: "core_of (p\<lparr>focused := Body\<rparr>) = core_of p" by (simp add: core_of_def)
  have h: "page_ok {} ?h" using p(1) by (subst page_ok_cong [of _ p]) simp_all
  have q: "page_ok {} ?q" using inserted_ok [OF h j, of i own] by simp
  have b: "?b \<in> set (boxes ?q)" by simp
  have act: "active_class ?h" by (rule hide_scrollbars_active) (use core_ok(2) [OF c] p(2) in simp)
  let ?r = "activate (objects p) ?q"
  have a: "page_ok {} ?r \<and> keys ?r = [objects p] \<and> map flags (boxes ?r) = map flags (boxes ?q)"
    by (rule activate_ok [OF q b]) simp_all
  have r: "page_ok {} ?r" "keys ?r = [objects p]" "map oid (boxes ?r) = map oid (boxes ?q)"
    using a flags_classes [of ?r ?q] by blast+
  have ne: "boxes ?r \<noteq> []" using r(3) insert_box_ne by (metis inserted_fields(1) map_is_Nil_conv)
  have "body_ok ?r" using ne act by (simp add: body_ok_def)
  moreover have "lead F ?r"
  proof -
    have "oid (last (boxes ?r)) = oid (last (boxes ?q))" by (rule last_flags [OF r(3) ne])
    then show ?thesis using r(2) F by (auto simp: lead_def)
  qed
  ultimately have ok: "all_ok F ?r" using r(1) by (simp add: all_ok_def)
  let ?f = "\<lambda>b. if length (group b) \<le> j then b else arrive_at j b"
  have t: "tame ?f"
    by (simp add: tame_def item_ok_def arrive_at_def updateControls_def showControls_def Let_def)
  have g: "j < length (group c)" if "c \<in> set (boxes ?r)" "oid c = objects p" for c
  proof -
    have "map flags (boxes ?q) = map flags (boxes ?r)" using a by simp
    from flags_in [OF this that(1)]
    obtain d where d: "d \<in> set (boxes ?q)" "flags d = flags c" .
    have o: "distinct (map oid (boxes ?q))" using q by (simp add: page_ok_def boxes_ok_def)
    have "d = ?b" using same_oid [OF o d(1) b] flags_fields(1) [OF d(2)] that(2) by simp
    then show ?thesis using j flags_fields(5) [OF d(2)] by simp
  qed
  have "upd_box (objects p) (arrive_at j) ?r = upd_box (objects p) ?f ?r"
  proof -
    have "(if oid c = objects p then arrive_at j c else c) = (if oid c = objects p then ?f c else c)"
      if "c \<in> set (boxes ?r)" for c using g [OF that] by auto
    then have "map (\<lambda>c. if oid c = objects p then arrive_at j c else c) (boxes ?r) =
      map (\<lambda>c. if oid c = objects p then ?f c else c) (boxes ?r)" by (rule map_cong [OF refl])
    then show ?thesis by (simp only: upd_box_def)
  qed
  then show ?thesis using tame_all_ok [OF t ok] by (simp add: opened_def Let_def)
qed

subsection \<open>All events\<close>

lemma open_start_core:
  assumes "open_start custom p = (i, q)"
  shows "page_ok X q = page_ok X p \<and> body_ok q = body_ok p \<and> lead F q = lead F p"
proof -
  have c: "page_ok X (p\<lparr>called := n\<rparr>) = page_ok X p" for n by (rule page_ok_cong) simp_all
  have "q = p \<or> q = p\<lparr>called := Suc (called p)\<rparr>"
    using assms by (auto simp: open_start_def split: option.splits if_splits)
  then show ?thesis using c by (auto simp: body_ok_def lead_def)
qed

lemma aside_core:
  "core_of (p\<lparr>messages := m\<rparr>) = core_of p" "core_of (p\<lparr>scroll_pos := s\<rparr>) = core_of p"
  "core_of (p\<lparr>focused := x\<rparr>) = core_of p"
  by (simp_all add: core_of_def)

lemmas aside_ok [simp] = aside_core [THEN core_all_ok]

lemma open_viewer_ok:
  assumes "all_ok F p" "F \<Longrightarrow> n = 0"
  shows "all_ok F (snd (open_viewer w items own custom index n p))"
proof -
  obtain i q where s: "open_start custom p = (i, q)" by fastforce
  have q: "all_ok F q" using assms(1) open_start_core [OF s] by (simp add: all_ok_def)
  have o: "all_ok F (opened w items own i (nat index) n q)" if "nat index < length items"
    by (rule opened_ok) (use q that assms(2) in \<open>simp_all add: all_ok_def\<close>)
  show ?thesis
  proof (cases "index < 0 \<or> nat index \<ge> length items")
    case False
    then show ?thesis using o q by (simp add: open_viewer_eq s)
  qed (use q in \<open>simp add: open_viewer_eq s\<close>)
qed

lemma keydown_ok: "all_ok F p \<Longrightarrow> all_ok F (keydown kc f veto p k)"
  by (simp add: keydown_def close_box_ok split: option.split)

lemma fold_keydown_ok: "all_ok F p \<Longrightarrow> all_ok F (foldl (keydown kc f veto) p ks)"
  by (induction ks arbitrary: p) (simp_all add: keydown_ok)

lemma fold_wake_ok: "all_ok F p \<Longrightarrow> all_ok F (foldl wake p ks)"
  by (induction ks arbitrary: p) (simp_all add: wake_def tame_all_ok [OF tame_controls(9)])

lemma close_viewer_ok: "all_ok F p \<Longrightarrow> all_ok F (close_viewer every veto p)"
  by (simp add: close_viewer_def close_one_def close_box_ok Let_def split: option.split)

definition at_end :: "page_event \<Rightarrow> bool" where
  \<comment> \<open>a viewer is opened with its container behind the others\<close>
  "at_end e = (case e of Open _ _ _ _ _ n \<Rightarrow> n = 0 | _ \<Rightarrow> True)"

lemma page_step_ok:
  assumes "all_ok F p" "F \<Longrightarrow> at_end e"
  shows "all_ok F (page_step p e)"
proof (cases e)
  case (Focused x)
  have "all_ok F (foldl (trap x) q ks) = all_ok F q" for q ks by (rule core_all_ok) simp
  then show ?thesis using assms(1) by (simp add: page_step_def Focused)
qed (use assms in \<open>simp_all add: page_step_def at_end_def open_viewer_ok close_box_ok close_viewer_ok close_done_ok
     fold_wake_ok fold_keydown_ok Let_def tame_all_ok [OF tame_controls(8)] tame_all_ok [OF tame_controls(6)]
     tame_all_ok [OF tame_controls(5)] tame_all_ok [OF tame_controls(3)]
     split: option.split\<close>)

lemma page_start_ok: "all_ok F (page_start fixed)"
  by (simp add: all_ok_def page_ok_def boxes_ok_def docs_ok_def timers_ok_def body_ok_def lead_def page_start_def)

lemma page_run_ok: "all_ok F p \<Longrightarrow> (F \<Longrightarrow> list_all at_end es) \<Longrightarrow> all_ok F (page_run p es)"
  unfolding page_run_def by (induction es arbitrary: p) (simp_all add: page_step_ok)

end
