(* ===== verification/Fancybox_Stack.thy ===== *)
theory Fancybox_Stack
  imports Fancybox_Boxes
begin

section \<open>jquery.fancybox.js: viewers over viewers, what holds\<close>

text \<open>
  The properties of a page with several viewers: who has the keyboard, that at most one viewer is shown as
  active, that closing ends and that the page is given back as it was found.
\<close>

subsection \<open>Who has the keyboard\<close>

text \<open>C28.  Whatever viewers are opened, closed (by links, keys or calls, with or without animation, allowed
  or prevented by a callback) and used in whatever order: the handlers that viewers put on the document and
  on the window, those of the keyboard, of the focus, of the size of the window and of the idle time, belong
  to at most one viewer, the same for all; it is in the document and not closing, and its buttons have one
  handler each.\<close>
theorem one_listener:
  "let p = page_run (page_start fixed) es
   in traps p = keys p \<and> resizes p = keys p \<and> idles p \<in> {[], keys p} \<and>
      (keys p = [] \<or> (\<exists>b. b \<in> set (boxes p) \<and> keys p = [oid b] \<and> isClosing b = False \<and> nav_handlers b = 1))"
proof -
  let ?p = "page_run (page_start fixed) es"
  have "all_ok False ?p" by (rule page_run_ok [OF page_start_ok]) simp
  then have d: "docs_ok ?p" by (simp add: all_ok_def page_ok_def)
  then have "length (keys ?p) \<le> 1" by (simp add: docs_ok_def)
  then have "keys ?p = [] \<or> (\<exists>k. keys ?p = [k])" by (cases "keys ?p") auto
  then show ?thesis using d unfolding docs_ok_def Let_def by auto
qed

definition plain_item :: item where
  "plain_item = \<lparr>keyboard = True, trapFocus = True, backFocus = True, idleTime = 3, toolbar = True, infobar = True,
     arrows = True, modal = False, has_caption = False, effect = True, animationDuration = 366, is_image = True\<rparr>"

definition desktop :: browser where
  "desktop = \<lparr>ios = False, mobile = False, overflows = True, body_top = 0\<rparr>"

definition open_plain :: page_event where
  "open_plain = Open desktop [plain_item, plain_item] plain_item None 0 0"

text \<open>C20.  While no closing animation runs, the viewer whose container is the last of the document, which is the
  one that \<open>getInstance\<close> finds, has the keyboard, if every viewer has been opened with its container behind
  the others.\<close>
theorem top_listens:
  assumes "list_all at_end es" "fading (page_run (page_start fixed) es) = []" "boxes (page_run (page_start fixed) es) \<noteq> []"
  shows "let p = page_run (page_start fixed) es
    in keys p = [oid (last (boxes p))] \<and> getInstance p = Some (last (boxes p))"
proof -
  let ?p = "page_run (page_start fixed) es"
  have a: "all_ok True ?p" by (rule page_run_ok [OF page_start_ok]) (rule assms(1))
  then have "closingClass (last (boxes ?p)) = False"
    using assms(2,3) by (simp add: all_ok_def page_ok_def boxes_ok_def)
  then show ?thesis using a assms(2,3) getInstance_last by (simp add: all_ok_def lead_def Let_def)
qed

lemma top_listens_witness:
  "let p = page_run (page_start (\<lambda>_. False)) [open_plain, open_plain, Close 1 False None, Close_done 1]
   in keys p = [oid (last (boxes p))] \<and> getInstance p = Some (last (boxes p))"
proof -
  let ?es = "[open_plain, open_plain, Close 1 False None, Close_done 1]"
  have "list_all at_end ?es" by code_simp
  moreover have "fading (page_run (page_start (\<lambda>_. False)) ?es) = []" by code_simp
  moreover have "boxes (page_run (page_start (\<lambda>_. False)) ?es) \<noteq> []" by code_simp
  ultimately show ?thesis by (rule top_listens)
qed

text \<open>A page whose last viewer has gone is free of them: no handler is on the document or on the window, no
  interval runs, no animation is waited for, and the body has neither of the classes \<open>fancybox-active\<close> and
  \<open>compensate-for-scrollbar\<close> nor the fixed position for iOS.\<close>
theorem page_free:
  assumes "boxes (page_run (page_start fixed) es) = []"
  shows "let p = page_run (page_start fixed) es
    in keys p = [] \<and> traps p = [] \<and> resizes p = [] \<and> idles p = [] \<and> intervals p = [] \<and> fading p = [] \<and>
       \<not> active_class p \<and> \<not> compensate p \<and> iosfix p = None"
proof -
  let ?p = "page_run (page_start fixed) es"
  have a: "all_ok False ?p" by (rule page_run_ok [OF page_start_ok]) simp
  have "keys ?p = []" using a assms by (cases "keys ?p") (auto simp: all_ok_def page_ok_def docs_ok_def)
  moreover have "intervals ?p = []" using a assms by (cases "intervals ?p") (auto simp: all_ok_def page_ok_def timers_ok_def)
  moreover have "fading ?p = []" using a assms by (auto simp: all_ok_def page_ok_def boxes_ok_def)
  ultimately show ?thesis using a assms by (auto simp: all_ok_def page_ok_def docs_ok_def body_ok_def Let_def)
qed

lemma page_free_witness:
  "\<not> active_class (page_run (page_start (\<lambda>_. False)) [open_plain, open_plain, Close 1 False None, Close 0 False None, Close_done 0, Close_done 1])"
proof -
  have "boxes (page_run (page_start (\<lambda>_. False)) [open_plain, open_plain, Close 1 False None, Close 0 False None, Close_done 0, Close_done 1]) = []"
    by code_simp
  from page_free [OF this] show ?thesis by (simp add: Let_def)
qed

subsection \<open>Closing ends\<close>

definition open_ids :: "page \<Rightarrow> nat list" where
  "open_ids p = map oid (filter (\<lambda>b. \<not> isClosing b) (boxes p))"

lemma open_ids_flags:
  assumes "map flags bs = map flags cs"
  shows "map oid (filter (\<lambda>b. \<not> isClosing b) bs) = map oid (filter (\<lambda>b. \<not> isClosing b) cs)"
  using assms
proof (induction bs arbitrary: cs)
  case (Cons b bs)
  then obtain c ds where "cs = c # ds" by (cases cs) auto
  then show ?case using Cons flags_fields(1,3) [of b c] by auto
qed simp

lemma filter_oid_map:
  "map oid (filter P (filter (\<lambda>c. oid c \<noteq> k) bs)) = filter (\<lambda>i. i \<noteq> k) (map oid (filter P bs))"
  by (induction bs) auto

lemma shut_open_ids: "page_ok {} p \<Longrightarrow> open_ids (shut k n p) = filter (\<lambda>i. i \<noteq> k) (open_ids p)"
proof -
  assume "page_ok {} p"
  have "map oid (filter (\<lambda>b. \<not> isClosing b) (map (shut_box k n) bs)) = filter (\<lambda>i. i \<noteq> k) (map oid (filter (\<lambda>b. \<not> isClosing b) bs))" for bs
    by (induction bs) auto
  then show ?thesis by (simp add: open_ids_def shut_boxes [OF \<open>page_ok {} p\<close>])
qed

lemma cleanUp_open_ids:
  assumes "page_ok {k} p" "body_pre p" "box_at k p \<noteq> None"
  shows "open_ids (cleanUp k p) = filter (\<lambda>i. i \<noteq> k) (open_ids p)"
proof -
  have "map flags (boxes (cleanUp k p)) = map flags (filter (\<lambda>c. oid c \<noteq> k) (boxes p))"
    using cleanUp_ok [OF assms] by blast
  from open_ids_flags [OF this] show ?thesis unfolding open_ids_def filter_oid_map .
qed

lemma close_box_open_ids:
  assumes "all_ok F p"
  shows "open_ids (close_box k False d p) = filter (\<lambda>i. i \<noteq> k) (open_ids p)"
proof (cases "box_at k p")
  case None
  then have "k \<notin> set (open_ids p)" by (auto simp: box_at_None open_ids_def)
  then have "filter (\<lambda>i. i \<noteq> k) (open_ids p) = open_ids p" by (auto intro!: filter_True)
  then show ?thesis using None by (simp add: close_box_eq)
next
  case (Some b)
  then have b: "b \<in> set (boxes p)" "oid b = k" by (auto dest: box_at_Some)
  have p: "page_ok {} p" "body_ok p" using assms by (simp_all add: all_ok_def)
  show ?thesis
  proof (cases "isClosing b")
    case True
    have d: "distinct (map oid (boxes p))" using p(1) by (simp add: page_ok_def boxes_ok_def)
    have "isClosing c" if "c \<in> set (boxes p)" "oid c = k" for c
      using same_oid [OF d that(1) b(1)] that(2) b(2) True by simp
    then have "k \<notin> set (open_ids p)" by (auto simp: open_ids_def)
    then have "filter (\<lambda>i. i \<noteq> k) (open_ids p) = open_ids p" by (auto intro!: filter_True)
    then show ?thesis using Some True by (simp add: close_box_eq)
  next
    case False
    let ?n = "close_duration d (current_opts b)"
    let ?q = "shut k ?n p"
    have i: "open_ids ?q = filter (\<lambda>i. i \<noteq> k) (open_ids p)" by (rule shut_open_ids [OF p(1)])
    have q: "page_ok {k} ?q" using shut_ok [OF p(1) b False] .
    have bp: "body_pre ?q" using p(2) by (auto simp: body_ok_def body_pre_def shut_boxes [OF p(1)])
    have k: "box_at k ?q \<noteq> None" using b by (auto simp: box_at_None shut_boxes [OF p(1)] image_iff)
    have c: "open_ids (cleanUp k ?q) = filter (\<lambda>i. i \<noteq> k) (open_ids p)"
      using cleanUp_open_ids [OF q bp k] i by simp
    have f: "open_ids (?q\<lparr>fading := m\<rparr>) = open_ids ?q" for m by (simp add: open_ids_def)
    show ?thesis using Some False i c f by (simp add: close_box_eq Let_def)
  qed
qed

lemma close_all_open_ids:
  assumes "all_ok F p"
  shows "all_ok F (page_run p (map (\<lambda>k. Close k False d) ks)) \<and>
    open_ids (page_run p (map (\<lambda>k. Close k False d) ks)) = filter (\<lambda>i. i \<notin> set ks) (open_ids p)"
  using assms
proof (induction ks arbitrary: p)
  case (Cons k ks)
  have "all_ok F (close_box k False d p)" by (rule close_box_ok [OF Cons.prems])
  from Cons.IH [OF this] show ?case
    using close_box_open_ids [OF Cons.prems, of k d]
    by (simp add: page_run_def page_step_def conj_commute)
qed (simp add: page_run_def)

lemma close_done_oids:
  assumes "all_ok F p" "k \<in> set (fading p)"
  shows "map oid (boxes (close_done k p)) = filter (\<lambda>i. i \<noteq> k) (map oid (boxes p)) \<and>
    fading (close_done k p) = remove1 k (fading p)"
proof -
  have p: "page_ok {} p" "body_ok p" using assms(1) by (simp_all add: all_ok_def)
  let ?q = "p\<lparr>fading := remove1 k (fading p)\<rparr>"
  have "page_ok {k} ?q" "body_pre ?q" "box_at k ?q \<noteq> None" using close_done_pre [OF assms] by auto
  from cleanUp_ok [OF this] have "map flags (boxes (cleanUp k ?q)) = map flags (filter (\<lambda>c. oid c \<noteq> k) (boxes p))"
    "fading (cleanUp k ?q) = remove1 k (fading p)" by simp_all
  moreover have "map oid (filter (\<lambda>c. oid c \<noteq> k) bs) = filter (\<lambda>i. i \<noteq> k) (map oid bs)" for bs :: "box list"
    by (induction bs) auto
  ultimately show ?thesis using assms(2) by (simp add: close_done_def oids_of_flags [of "boxes (cleanUp k ?q)"])
      (simp add: oids_of_flags)
qed

lemma done_all_oids:
  assumes "all_ok F p" "fading p = ks"
  shows "map oid (boxes (page_run p (map Close_done ks))) = filter (\<lambda>i. i \<notin> set ks) (map oid (boxes p))"
  using assms
proof (induction ks arbitrary: p)
  case (Cons k ks)
  have k: "k \<in> set (fading p)" using Cons.prems(2) by simp
  have f: "fading (close_done k p) = ks" using close_done_oids [OF Cons.prems(1) k] Cons.prems(2) by simp
  from Cons.IH [OF close_done_ok [OF Cons.prems(1)] f] show ?case
    using close_done_oids [OF Cons.prems(1) k] by (simp add: page_run_def page_step_def conj_commute)
qed (simp add: page_run_def)

text \<open>C26.  However many viewers are open, and in whatever state of use or closing: if each of them is closed once, with
  any duration, and the closing animations that then run come to their end, no viewer is left in the
  document.\<close>
theorem all_close:
  "let p = page_run (page_start fixed) es;
       q = page_run p (map (\<lambda>b. Close (oid b) False d) (boxes p))
   in boxes (page_run q (map Close_done (fading q))) = []"
proof -
  define p where "p = page_run (page_start fixed) es"
  define q where "q = page_run p (map (\<lambda>b. Close (oid b) False d) (boxes p))"
  have p: "all_ok False p" unfolding p_def by (rule page_run_ok [OF page_start_ok]) simp
  have e: "map (\<lambda>b. Close (oid b) False d) (boxes p) = map (\<lambda>k. Close k False d) (map oid (boxes p))" by simp
  have q: "all_ok False q" "open_ids q = filter (\<lambda>i. i \<notin> set (map oid (boxes p))) (open_ids p)"
    using close_all_open_ids [OF p, of d "map oid (boxes p)"] unfolding q_def e by blast+
  have "set (open_ids p) \<subseteq> set (map oid (boxes p))" by (auto simp: open_ids_def)
  then have "open_ids q = []" using q(2) by (auto simp: filter_empty_conv)
  then have "oid b \<in> set (fading q)" if "b \<in> set (boxes q)" for b
    using that q(1) by (auto simp: open_ids_def filter_empty_conv all_ok_def page_ok_def boxes_ok_def)
  then have "filter (\<lambda>i. i \<notin> set (fading q)) (map oid (boxes q)) = []" by (auto simp: filter_empty_conv)
  then show ?thesis using done_all_oids [OF q(1) refl] by (simp add: Let_def p_def [symmetric] q_def [symmetric])
qed

subsection \<open>At most one viewer is active\<close>

definition solo :: "page \<Rightarrow> bool" where
  "solo p \<longleftrightarrow>
     distinct (map bid (boxes p)) \<and> (\<forall>b \<in> set (boxes p). \<forall>n. bid b = Count n \<longrightarrow> n \<le> called p) \<and>
     (\<forall>b \<in> set (boxes p). idleInterval b \<noteq> None \<longrightarrow> isVisible b) \<and>
     (\<forall>b \<in> set (boxes p). \<forall>c \<in> set (boxes p).
        isVisible b \<and> \<not> isClosing b \<and> isVisible c \<and> \<not> isClosing c \<longrightarrow> oid b = oid c)"

lemma map_solo:
  assumes p: "solo p" and q: "boxes q = map g (boxes p)" "called q = called p"
    and g: "\<And>b. oid (g b) = oid b" "\<And>b. bid (g b) = bid b" "\<And>b. isVisible (g b) = isVisible b"
      "\<And>b. isClosing b \<Longrightarrow> isClosing (g b)" "\<And>b. idleInterval (g b) \<noteq> None \<Longrightarrow> idleInterval b \<noteq> None"
  shows "solo q"
proof -
  have "bid \<circ> g = bid" using g(2) by auto
  then show ?thesis using p g(4,5) unfolding solo_def q by (simp add: g(1-3)) metis
qed

lemma filter_solo:
  assumes "solo p" "boxes q = filter P (boxes p)" "called q = called p"
  shows "solo q"
  using assms(1) unfolding solo_def assms(2,3) by (auto simp: distinct_map inj_on_def)

lemma solo_mono:
  assumes "solo p" "boxes q = boxes p" "called p \<le> called q"
  shows "solo q"
proof -
  have "n \<le> called q" if "b \<in> set (boxes p)" "bid b = Count n" for b n
    using assms(1) that le_trans [OF _ assms(3)] by (simp add: solo_def)
  then show ?thesis using assms(1) unfolding solo_def assms(2) by blast
qed

lemma same_solo: "solo p \<Longrightarrow> boxes q = boxes p \<Longrightarrow> called q = called p \<Longrightarrow> solo q"
  by (rule solo_mono) (auto intro: le_refl)

definition dimmed :: "iid \<Rightarrow> nat set \<Rightarrow> box \<Rightarrow> box" where
  "dimmed i K b = (if oid b \<in> K \<and> bid b \<noteq> i \<and> \<not> isClosing b
     then b\<lparr>nav_handlers := 0, idleInterval := None, isVisible := False\<rparr> else b)"

lemma dimmed_simps [simp]:
  "oid (dimmed i K b) = oid b" "bid (dimmed i K b) = bid b" "isClosing (dimmed i K b) = isClosing b"
  "current (dimmed i K b) = current b"
  by (simp_all add: dimmed_def)

lemma deactivate_boxes:
  assumes "distinct (map oid (boxes p))"
  shows "boxes (deactivate i p k) = map (dimmed i {k}) (boxes p)"
proof (cases "box_at k p")
  case None
  then have "\<And>b. b \<in> set (boxes p) \<Longrightarrow> oid b \<noteq> k" by (auto simp: box_at_None)
  then show ?thesis using None by (simp add: deactivate_def dimmed_def map_idI)
next
  case (Some b)
  then have b: "b \<in> set (boxes p)" "oid b = k" by (auto dest: box_at_Some)
  have u: "c = b" if "c \<in> set (boxes p)" "oid c = k" for c using same_oid [OF assms that(1) b(1)] that(2) b(2) by simp
  show ?thesis
  proof (cases "bid b \<noteq> i \<and> \<not> isClosing b")
    case True
    have "(if oid (bare k c) = k then (bare k c)\<lparr>isVisible := False\<rparr> else bare k c) = dimmed i {k} c"
      if "c \<in> set (boxes p)" for c
      using True u [OF that] by (auto simp: bare_def dimmed_def)
    then show ?thesis using Some True by (simp add: deactivate_def removeEvents_boxes [OF assms])
  next
    case False
    have "dimmed i {k} c = c" if "c \<in> set (boxes p)" for c using False u [OF that] by (auto simp: dimmed_def)
    then show ?thesis using Some False by (auto simp: deactivate_def map_idI)
  qed
qed

lemma dimmed_dimmed: "dimmed i K (dimmed i L b) = dimmed i (K \<union> L) b"
  by (cases b) (auto simp: dimmed_def)

lemma deactivate_all_boxes:
  assumes "distinct (map oid (boxes p))"
  shows "boxes (foldl (deactivate i) p ks) = map (dimmed i (set ks)) (boxes p)"
  using assms
proof (induction ks arbitrary: p)
  case Nil
  then show ?case by (simp add: dimmed_def map_idI)
next
  case (Cons k ks)
  have o: "oid \<circ> dimmed i {k} = oid" by auto
  have "distinct (map oid (boxes (deactivate i p k)))"
    using Cons.prems by (simp add: deactivate_boxes o)
  from Cons.IH [OF this] show ?case
    by (simp add: deactivate_boxes [OF Cons.prems] dimmed_dimmed)
qed

definition risen :: "nat \<Rightarrow> iid \<Rightarrow> nat set \<Rightarrow> box \<Rightarrow> box" where
  \<comment> \<open>a viewer after the activation of \<open>k\<close>, without the handlers\<close>
  "risen k i K b =
     (let b = dimmed i K b;
          b = (if oid b = k then b\<lparr>isVisible := True\<rparr> else b)
      in if oid b = k then (if current b \<noteq> None \<or> isIdle b then updateControls b else b) else b)"

lemma prepared_boxes:
  assumes "distinct (map oid (boxes p))"
  shows "boxes (prepared k i p) = map (risen k i (oid ` set (boxes p))) (boxes p)"
  by (simp add: prepared_def deactivate_all_boxes [OF assms] risen_def Let_def)

lemma updateControls_simps [simp]:
  "oid (updateControls b) = oid b" "bid (updateControls b) = bid b" "isClosing (updateControls b) = isClosing b"
  "isVisible (updateControls b) = isVisible b" "idleInterval (updateControls b) = idleInterval b"
  by (simp_all add: updateControls_def showControls_def Let_def)

lemma risen_simps [simp]:
  "oid (risen k i K b) = oid b" "bid (risen k i K b) = bid b" "isClosing (risen k i K b) = isClosing b"
  by (simp_all add: risen_def Let_def)

lemma risen_visible:
  "isVisible (risen k i K b) \<longleftrightarrow> oid b = k \<or> isVisible b \<and> \<not> (oid b \<in> K \<and> bid b \<noteq> i \<and> \<not> isClosing b)"
  "idleInterval (risen k i K b) = (if oid b \<in> K \<and> bid b \<noteq> i \<and> \<not> isClosing b then None else idleInterval b)"
  by (auto simp: risen_def dimmed_def Let_def)

lemma activate_solo:
  assumes "page_ok X p" "solo p" "b \<in> set (boxes p)" "oid b = k" "\<not> isClosing b"
  shows "solo (activate k p)"
proof -
  have d: "distinct (map oid (boxes p))" using assms(1) by (simp add: page_ok_def boxes_ok_def)
  let ?K = "oid ` set (boxes p)" let ?i = "bid b" let ?q = "prepared k ?i p"
  note qb = prepared_boxes [OF d, of k ?i]
  have cq: "called ?q = called p" by (simp add: prepared_def)
  have at: "box_at k p = Some b" using box_at_eq [OF d assms(3)] assms(4) by simp
  have only: "oid c = k" if "c \<in> set (boxes p)" "bid c = ?i" for c
    using assms(2,4) that assms(3) by (auto simp: solo_def distinct_map dest: inj_onD)
  have visible: "oid c = k" if "c \<in> set (boxes ?q)" "isVisible c" "\<not> isClosing c" for c
    using that only by (auto simp: qb risen_visible)
  have idle: "isVisible c" if "c \<in> set (boxes ?q)" "idleInterval c \<noteq> None" for c
    using that assms(2) by (auto simp: qb risen_visible solo_def split: if_splits)
  have bids: "map bid (boxes ?q) = map bid (boxes p)" by (simp add: qb)
  have q: "page_ok X ?q" using prepared_ok [OF assms(1)] by blast
  have bq: "risen k ?i ?K b \<in> set (boxes ?q)" using assms(3) by (simp add: qb)
  have dq: "boxes_ok X ?q" using q by (simp add: page_ok_def)
  have vis: "isVisible c" if c: "c \<in> set (boxes ?q)" "oid c = k" for c
  proof -
    obtain x where x: "c = risen k ?i ?K x" using c(1) unfolding qb set_map by blast
    then have "oid x = k" using c(2) by simp
    then show ?thesis unfolding x risen_visible by simp
  qed
  have nums: "\<forall>c \<in> set (boxes ?q). \<forall>n. bid c = Count n \<longrightarrow> n \<le> called p" using assms(2) by (auto simp: qb solo_def)
  define h where "h c = (if oid c = k \<and> idleTime (group (risen k ?i ?K b) ! currIndex (risen k ?i ?K b)) > 0
     then (armed k c)\<lparr>idleSecondsCounter := 0, idleInterval := Some (timers ?q)\<rparr> else armed k c)" for c
  have hb: "boxes (addEvents k ?q) = map h (boxes ?q)"
    using addEvents_at [OF dq bq] assms(4) by (simp add: with_handlers_boxes [OF dq] h_def)
  have hs: "oid (h c) = oid c" "bid (h c) = bid c" "isVisible (h c) = isVisible c" "isClosing (h c) = isClosing c"
    "idleInterval (h c) \<noteq> None \<Longrightarrow> oid c = k \<or> idleInterval c \<noteq> None" for c
    by (auto simp: h_def)
  have "solo (addEvents k ?q)"
    unfolding solo_def hb
  proof (intro conjI)
    have "bid \<circ> h = bid" using hs(2) by auto
    then show "distinct (map bid (map h (boxes ?q)))" using bids assms(2) by (simp add: solo_def)
    show "\<forall>b\<in>set (map h (boxes ?q)). \<forall>n. bid b = Count n \<longrightarrow> n \<le> called (addEvents k ?q)"
      using nums by (simp add: hs(2) cq)
    show "\<forall>b\<in>set (map h (boxes ?q)). idleInterval b \<noteq> None \<longrightarrow> isVisible b"
    proof -
      have "isVisible (h c)" if c: "c \<in> set (boxes ?q)" "idleInterval (h c) \<noteq> None" for c
        using hs(5) [OF c(2)] idle [OF c(1)] vis [OF c(1)] hs(3) [of c] by blast
      then show ?thesis unfolding set_map by blast
    qed
    show "\<forall>b\<in>set (map h (boxes ?q)). \<forall>c\<in>set (map h (boxes ?q)).
        isVisible b \<and> \<not> isClosing b \<and> isVisible c \<and> \<not> isClosing c \<longrightarrow> oid b = oid c"
      using visible by (simp add: hs(1,3,4))
  qed
  then show ?thesis by (simp add: activate_eq at)
qed

lemma restore_body_called [simp]: "called (restore_body b p) = called p"
  by (simp add: restore_body_def Let_def split: option.split)

lemma cleanUp_solo:
  assumes "page_ok {k} p" "solo p"
  shows "solo (cleanUp k p)"
proof (cases "box_at k p")
  case None
  then show ?thesis using assms(2) by (simp add: cleanUp_eq)
next
  case (Some b)
  define q where "q = refocused k b p"
  have q: "page_ok {} q" using core_ok(1) [OF refocused_core] without_ok [OF assms(1)] by (simp add: q_def)
  have s: "solo q" by (rule filter_solo [OF assms(2), of _ "\<lambda>c. oid c \<noteq> k"]) (simp_all add: q_def)
  show ?thesis
  proof (cases "getInstance q")
    case None
    then have "cleanUp k p = restore_body b q" using Some by (simp add: cleanUp_eq q_def)
    then show ?thesis using same_solo [OF s, of "restore_body b q"] by simp
  next
    case i: (Some i)
    then have e: "cleanUp k p = activate (oid i) q" using Some by (simp add: cleanUp_eq q_def)
    have "i \<in> set (boxes q)" "\<not> isClosing i"
      using getInstance_Some [OF i] q by (auto simp: page_ok_def boxes_ok_def)
    then show ?thesis unfolding e by (intro activate_solo [OF q s]) simp_all
  qed
qed

lemma close_box_solo:
  assumes "all_ok F p" "solo p"
  shows "solo (close_box k veto d p)"
proof (cases "box_at k p")
  case None
  then show ?thesis using assms by (simp add: close_box_eq)
next
  case (Some b)
  then have b: "b \<in> set (boxes p)" "oid b = k" by (auto dest: box_at_Some)
  have p: "page_ok {} p" using assms by (simp add: all_ok_def)
  let ?n = "close_duration d (current_opts b)"
  let ?q = "shut k ?n p"
  have s: "solo ?q"
    by (rule map_solo [OF assms(2) shut_boxes(1) [OF p]]) (simp_all split: if_splits)
  show ?thesis
  proof (cases "isClosing b \<or> veto")
    case True
    then show ?thesis using Some assms(2) same_solo [OF assms(2), of "p\<lparr>messages := messages p @ [Update k]\<rparr>"]
      by (auto simp: close_box_eq)
  next
    case False
    then have "page_ok {k} ?q" using shut_ok [OF p b] by simp
    then have "solo (cleanUp k ?q)" by (rule cleanUp_solo [OF _ s])
    moreover have "solo (?q\<lparr>fading := m\<rparr>)" for m by (rule same_solo [OF s]) simp_all
    ultimately show ?thesis using Some False by (simp add: close_box_eq Let_def)
  qed
qed

lemma close_done_solo:
  assumes "all_ok F p" "solo p"
  shows "solo (close_done k p)"
proof (cases "k \<in> set (fading p)")
  case True
  let ?q = "p\<lparr>fading := remove1 k (fading p)\<rparr>"
  have "page_ok {k} ?q" using close_done_pre [OF assms(1) True] by blast
  moreover have "solo ?q" by (rule same_solo [OF assms(2)]) simp_all
  ultimately show ?thesis using True by (simp add: close_done_def cleanUp_solo)
qed (use assms in \<open>simp add: close_done_def\<close>)

definition new_id :: "page \<Rightarrow> page_event \<Rightarrow> bool" where
  \<comment> \<open>the option \<open>id\<close> of a new viewer, if it has one, is not that of a viewer in the document\<close>
  "new_id p e = (case e of Open _ _ _ (Some c) _ _ \<Rightarrow> list_all (\<lambda>b. bid b \<noteq> Own c) (boxes p) | _ \<Rightarrow> True)"

lemma opened_solo:
  assumes p: "page_ok {} p" "solo p" and j: "j < length items" and i: "\<forall>b \<in> set (boxes p). bid b \<noteq> i"
    "\<And>m. i = Count m \<Longrightarrow> m \<le> called p"
  shows "solo (opened w items own i j n p)"
proof -
  let ?h = "hide_scrollbars w (items ! j) (p\<lparr>focused := Body\<rparr>)"
  let ?b = "new_box (objects p) i own items j (scroll_pos p) (focused p)"
  let ?q = "inserted ?b n ?h"
  have h: "page_ok {} ?h" using p(1) by (subst page_ok_cong [of _ p]) simp_all
  have q: "page_ok {} ?q" using inserted_ok [OF h j, of i own] by simp
  have b: "?b \<in> set (boxes ?q)" by simp
  have d: "distinct (map bid (insert_box n ?b (boxes p)))"
  proof -
    have "distinct (take m (map bid (boxes p)) @ i # drop m (map bid (boxes p)))" for m
      unfolding distinct_insert using p(2) i(1) by (auto simp: solo_def)
    then show ?thesis by (simp add: insert_box_def take_map drop_map)
  qed
  have bs: "set (boxes ?q) = insert ?b (set (boxes p))" by simp
  have s: "solo ?q"
    unfolding solo_def bs
  proof (intro conjI)
    show "distinct (map bid (boxes ?q))" using d by simp
    show "\<forall>b\<in>insert ?b (set (boxes p)). \<forall>n. bid b = Count n \<longrightarrow> n \<le> called ?q"
      using p(2) i(2) by (simp add: solo_def)
    show "\<forall>b\<in>insert ?b (set (boxes p)). idleInterval b \<noteq> None \<longrightarrow> isVisible b"
      using p(2) by (simp add: solo_def)
    show "\<forall>b\<in>insert ?b (set (boxes p)). \<forall>c\<in>insert ?b (set (boxes p)).
        isVisible b \<and> \<not> isClosing b \<and> isVisible c \<and> \<not> isClosing c \<longrightarrow> oid b = oid c"
    proof -
      have f: "\<forall>b\<in>set (boxes p). \<forall>c\<in>set (boxes p).
          isVisible b \<and> \<not> isClosing b \<and> isVisible c \<and> \<not> isClosing c \<longrightarrow> oid b = oid c"
        using p(2) unfolding solo_def by blast
      have "\<not> isVisible ?b" by simp
      then show ?thesis using f by blast
    qed
  qed
  have a: "solo (activate (objects p) ?q)" by (rule activate_solo [OF q s b]) simp_all
  have "solo (upd_box (objects p) (arrive_at j) (activate (objects p) ?q))"
    by (rule map_solo [OF a, of _ "\<lambda>b. if oid b = objects p then arrive_at j b else b"])
      (simp_all add: arrive_at_def split: if_splits)
  then show ?thesis by (simp add: opened_def Let_def)
qed

lemma open_viewer_solo:
  assumes "all_ok F p" "solo p" "new_id p (Open w items own custom index n)"
  shows "solo (snd (open_viewer w items own custom index n p))"
proof -
  obtain i q where s: "open_start custom p = (i, q)" by fastforce
  have q: "page_ok {} q" using assms(1) open_start_core [OF s, of "{}"] by (simp add: all_ok_def)
  have bq: "boxes q = boxes p" "called p \<le> called q"
    using s by (auto simp: open_start_def split: option.splits if_splits)
  have sq: "solo q" by (rule solo_mono [OF assms(2) bq])
  have i: "\<forall>b \<in> set (boxes q). bid b \<noteq> i" "\<And>m. i = Count m \<Longrightarrow> m \<le> called q"
  proof -
    have n: "n \<le> called p" if "b \<in> set (boxes p)" "bid b = Count n" for b n using assms(2) that by (simp add: solo_def)
    show "\<forall>b \<in> set (boxes q). bid b \<noteq> i"
    proof (cases custom)
      case None
      then have "i = Count (Suc (called p))" using s by (simp add: open_start_def)
      then show ?thesis using n unfolding bq(1) by fastforce
    next
      case (Some c)
      then have "i = (if c = [] then Count (Suc (called p)) else Own c)" using s by (simp add: open_start_def split: if_splits)
      moreover have "\<forall>b \<in> set (boxes p). bid b \<noteq> Own c" using assms(3) Some by (simp add: new_id_def list_all_iff)
      moreover have "bid b \<noteq> Count (Suc (called p))" if "b \<in> set (boxes p)" for b using n [OF that] by fastforce
      ultimately show ?thesis unfolding bq(1) by (cases "c = []") auto
    qed
    show "m \<le> called q" if "i = Count m" for m
      using s that by (auto simp: open_start_def split: option.splits if_splits)
  qed
  have sf: "solo (q\<lparr>focused := Body\<rparr>)" by (rule same_solo [OF sq]) simp_all
  show ?thesis
  proof (cases "index < 0 \<or> nat index \<ge> length items")
    case False
    then have "solo (opened w items own i (nat index) n q)" by (intro opened_solo [OF q sq _ i]) auto
    then show ?thesis using False sq by (simp add: open_viewer_eq s)
  qed (use sq sf in \<open>simp add: open_viewer_eq s\<close>)
qed

lemma upd_solo:
  assumes "solo p" "tame f" "\<And>b. isVisible (f b) = isVisible b"
  shows "solo (upd_box k f p)"
  by (rule map_solo [OF assms(1), of _ "\<lambda>b. if oid b = k then f b else b"])
    (use assms(2,3) in \<open>simp_all add: tame_def split: if_splits\<close>)

lemma core_solo: "core_of q = core_of p \<Longrightarrow> solo q = solo p"
  using core_fields [of q p] by (simp add: solo_def)

lemma keydown_solo:
  assumes "all_ok F p" "solo p"
  shows "solo (keydown kc f veto p k)"
proof -
  have "solo (p\<lparr>messages := m\<rparr>)" for m using core_solo [OF aside_core(1)] assms(2) by blast
  then show ?thesis using close_box_solo [OF assms] assms(2) by (simp add: keydown_def split: option.split)
qed

lemma fold_keydown_solo: "all_ok F p \<Longrightarrow> solo p \<Longrightarrow> solo (foldl (keydown kc f veto) p ks)"
  by (induction ks arbitrary: p) (simp_all add: keydown_solo keydown_ok)

lemma wake_solo: "solo p \<Longrightarrow> solo (wake p k)"
  unfolding wake_def by (rule upd_solo) (auto simp: woken_def showControls_def Let_def)

lemma fold_wake_solo: "solo p \<Longrightarrow> solo (foldl wake p ks)"
  by (induction ks arbitrary: p) (simp_all add: wake_solo)

lemma close_viewer_solo:
  assumes "all_ok F p" "solo p"
  shows "solo (close_viewer every veto p)"
  by (simp add: close_viewer_def close_one_def Let_def assms close_box_solo [of F] close_box_ok split: option.split)

lemma controls_visible [simp]:
  "isVisible (hideControls b) = isVisible b" "isVisible (showControls b) = isVisible b"
  "isVisible (toggleControls b) = isVisible b" "isVisible (second_passes b) = isVisible b"
  by (simp_all add: hideControls_def showControls_def toggleControls_def second_passes_def Let_def)

lemma page_step_solo:
  assumes "all_ok F p" "solo p" "new_id p e"
  shows "solo (page_step p e)"
proof (cases e)
  case (Open w items own custom index n)
  then show ?thesis using open_viewer_solo [OF assms(1,2)] assms(3) by (simp add: page_step_def)
next
  case (Focused x)
  have "core_of (foldl (trap x) (p\<lparr>focused := x\<rparr>) (traps p)) = core_of p" by (simp add: aside_core)
  from core_solo [OF this] show ?thesis using assms(2) by (simp add: page_step_def Focused)
next
  case (Arrive k i)
  then show ?thesis using upd_solo [OF assms(2) tame_controls(8), of i k]
    by (simp add: page_step_def arrive_at_def)
next
  case (Fields k v)
  then show ?thesis using assms(2) by (auto simp: page_step_def intro!: upd_solo)
next
  case (Second t)
  then show ?thesis using assms(2)
    by (auto simp: page_step_def split: option.split intro!: upd_solo)
next
  case (Toggle k)
  then show ?thesis using assms(2)
    by (auto simp: page_step_def intro!: upd_solo)
next
  case Resized
  then show ?thesis using assms(2) core_solo [OF aside_core(1)] by (simp add: page_step_def)
next
  case (Scrolled s)
  then show ?thesis using assms(2) core_solo [OF aside_core(2)] by (simp add: page_step_def)
qed (use assms in \<open>auto simp: page_step_def close_box_solo close_viewer_solo close_done_solo Let_def
       split: option.split intro!: fold_wake_solo fold_keydown_solo\<close>)

fun new_ids :: "page \<Rightarrow> page_event list \<Rightarrow> bool" where
  "new_ids p [] = True"
| "new_ids p (e # es) = (new_id p e \<and> new_ids (page_step p e) es)"

lemma page_run_solo: "all_ok False p \<Longrightarrow> solo p \<Longrightarrow> new_ids p es \<Longrightarrow> solo (page_run p es)"
  unfolding page_run_def
  by (induction es arbitrary: p) (simp_all add: page_step_solo page_step_ok)

lemma length_le_1:
  assumes "distinct xs" "\<And>x y. x \<in> set xs \<Longrightarrow> y \<in> set xs \<Longrightarrow> x = y"
  shows "length xs \<le> 1"
proof (rule ccontr)
  assume "\<not> length xs \<le> 1"
  then obtain x y ys where "xs = x # y # ys" by (cases xs; cases "tl xs") auto
  then show False using assms(1) assms(2) [of x y] by simp
qed

text \<open>C32.  If no viewer is opened with the id of one that is in the document, at most one viewer at a time is
  marked as visible and not closing, and at most one interval that counts the idle time is running.\<close>
theorem one_active:
  assumes "new_ids (page_start fixed) es"
  shows "let p = page_run (page_start fixed) es
    in length (filter (\<lambda>b. isVisible b \<and> \<not> isClosing b) (boxes p)) \<le> 1 \<and> length (intervals p) \<le> 1"
proof -
  let ?p = "page_run (page_start fixed) es"
  have a: "all_ok False ?p" by (rule page_run_ok [OF page_start_ok]) simp
  then have ok: "boxes_ok {} ?p" "timers_ok ?p" by (simp_all add: all_ok_def page_ok_def)
  have d: "distinct (map oid (boxes ?p))" using ok(1) by (simp add: boxes_ok_def)
  have s: "solo ?p"
    by (rule page_run_solo [OF page_start_ok _ assms]) (simp add: solo_def page_start_def)
  have eq: "b = c" if "b \<in> set (boxes ?p)" "c \<in> set (boxes ?p)" "isVisible b" "\<not> isClosing b" "isVisible c" "\<not> isClosing c" for b c
    using s that same_oid [OF d that(1,2)] unfolding solo_def by blast
  have "length (filter (\<lambda>b. isVisible b \<and> \<not> isClosing b) (boxes ?p)) \<le> 1"
    by (rule length_le_1) (use d eq in \<open>auto simp: distinct_map\<close>)
  moreover have "length (intervals ?p) \<le> 1"
  proof (rule length_le_1)
    show "distinct (intervals ?p)" using ok(2) by (simp add: timers_ok_def distinct_map)
    fix i j assume ij: "i \<in> set (intervals ?p)" "j \<in> set (intervals ?p)"
    obtain b where b: "b \<in> set (boxes ?p)" "oid b = snd i" "idleInterval b = Some (fst i)"
      using ok(2) ij(1) by (auto simp: timers_ok_def)
    obtain c where c: "c \<in> set (boxes ?p)" "oid c = snd j" "idleInterval c = Some (fst j)"
      using ok(2) ij(2) by (auto simp: timers_ok_def)
    have "isVisible b" "\<not> isClosing b" "isVisible c" "\<not> isClosing c"
      using s ok(2) b c unfolding solo_def timers_ok_def by blast+
    then have "b = c" using eq b(1) c(1) by blast
    then show "i = j" using b c by (auto simp: prod_eq_iff)
  qed
  ultimately show ?thesis by (simp add: Let_def)
qed

lemma one_active_witness:
  "length (intervals (page_run (page_start (\<lambda>_. False)) [open_plain, open_plain, open_plain])) \<le> 1"
proof -
  have "new_ids (page_start (\<lambda>_. False)) [open_plain, open_plain, open_plain]" by code_simp
  from one_active [OF this] show ?thesis by (simp add: Let_def)
qed

text \<open>Two viewers with the same option \<open>id\<close>: the first is not deactivated when the second is opened.\<close>
lemma same_id_two_active:
  "let e = Open desktop [plain_item] plain_item (Some ''a'') 0 0;
       p = page_run (page_start (\<lambda>_. False)) [e, e]
   in length (filter (\<lambda>b. isVisible b \<and> \<not> isClosing b) (boxes p)) = 2 \<and> length (intervals p) = 2"
  by code_simp

text \<open>\<open>$.fancybox.close(true)\<close> and \<open>destroy\<close> close two viewers of three.\<close>
lemma close_true_leaves_one:
  "let p = page_run (page_start (\<lambda>_. False)) [open_plain, open_plain, open_plain, Close_viewer True (\<lambda>_. False)]
   in open_ids p = [0]"
  by code_simp

text \<open>An item without idle time in a gallery that began with one that has it: the controls are hidden after
  a second.\<close>
lemma idle_off_hides:
  "let p = page_run (page_start (\<lambda>_. False))
       [Open desktop [plain_item, plain_item\<lparr>idleTime := 0\<rparr>] plain_item None 0 0, Arrive 0 1, Second 0]
   in map isHiddenControls (boxes p) = [True]"
  by code_simp

text \<open>A viewer that is opened while another one is closing adds a second style element for the body; the
  end removes only the first.\<close>
lemma style_left:
  "let p = page_run (page_start (\<lambda>_. False))
       [open_plain, Close 0 False None, open_plain, Close_done 0, Close 1 False None, Close_done 1]
   in boxes p = [] \<and> noscroll_styles p = 1"
  by code_simp

text \<open>Every activation adds one more handler to the zoom button, as \<open>removeEvents\<close> does not remove it.\<close>
lemma zoom_handlers_grow:
  "let p = page_run (page_start (\<lambda>_. False)) [open_plain, open_plain, Close 1 False None, Close_done 1]
   in map zoom_handlers (boxes p) = [2] \<and> map nav_handlers (boxes p) = [1]"
  by code_simp

subsection \<open>The page is given back\<close>

definition mark :: "box \<Rightarrow> _" where
  "mark b = (oid b, saved_scroll b, lastFocus b, own_opts b, group b)"

definition marks :: "page \<Rightarrow> _" where
  "marks p = mark ` set (boxes p)"

lemma mark_flags: "mark = (\<lambda>(a, _, _, _, (g, _, _), b, c, d). (a, c, d, b, g)) \<circ> flags"
  by (auto simp: mark_def flags_def)

lemma marks_flags:
  assumes "map flags bs = map flags cs"
  shows "mark ` set bs = mark ` set cs"
proof -
  have "flags ` set bs = flags ` set cs" using assms by (metis list.set_map)
  then show ?thesis unfolding mark_flags image_comp [symmetric] by (rule arg_cong)
qed

lemma marks_upd:
  assumes "tame f"
  shows "marks (upd_box k f p) = marks p"
proof -
  have "mark (if oid b = k then f b else b) = mark b" for b using assms unfolding mark_def tame_def by auto
  then show ?thesis unfolding marks_def upd_box_simps set_map image_image by (simp only:)
qed

lemma marks_core: "core_of q = core_of p \<Longrightarrow> marks q = marks p"
  using core_fields(1) [of q p] by (simp add: marks_def)

lemma marks_shut: "page_ok {} p \<Longrightarrow> marks (shut k n p) = marks p"
proof -
  assume p: "page_ok {} p"
  have "mark (shut_box k n b) = mark b" for b by (auto simp: mark_def shut_box_def hideControls_def)
  then show ?thesis by (simp add: marks_def shut_boxes [OF p] image_image)
qed

definition unmoved :: "page \<Rightarrow> page \<Rightarrow> bool" where
  \<comment> \<open>no viewer is new, and no fixed position\<close>
  "unmoved p q \<longleftrightarrow> marks q \<subseteq> marks p \<and> (iosfix p = None \<longrightarrow> iosfix q = None)"

lemma cleanUp_unmoved:
  assumes "page_ok {k} p" "body_pre p"
  shows "unmoved p (cleanUp k p)"
proof (cases "box_at k p")
  case None
  then show ?thesis by (simp add: cleanUp_eq unmoved_def)
next
  case (Some b)
  then have "map flags (boxes (cleanUp k p)) = map flags (filter (\<lambda>c. oid c \<noteq> k) (boxes p))"
    using cleanUp_ok [OF assms] by simp
  then have "marks (cleanUp k p) \<subseteq> marks p" unfolding marks_def by (subst marks_flags) auto
  moreover have "iosfix p = None \<Longrightarrow> iosfix (cleanUp k p) = None"
    using Some by (simp add: cleanUp_eq split: option.split)
  ultimately show ?thesis by (simp add: unmoved_def)
qed

lemma close_box_unmoved:
  assumes "all_ok F p"
  shows "unmoved p (close_box k veto d p)"
proof (cases "box_at k p")
  case None
  then show ?thesis by (simp add: close_box_eq unmoved_def)
next
  case (Some b)
  then have b: "b \<in> set (boxes p)" "oid b = k" by (auto dest: box_at_Some)
  have p: "page_ok {} p" "body_ok p" using assms by (simp_all add: all_ok_def)
  let ?n = "close_duration d (current_opts b)"
  let ?q = "shut k ?n p"
  have m: "marks (p\<lparr>messages := x\<rparr>) = marks p" "marks (?q\<lparr>fading := y\<rparr>) = marks ?q" for x y by (simp_all add: marks_def)
  show ?thesis
  proof (cases "isClosing b \<or> veto")
    case True
    then show ?thesis using Some m(1) by (auto simp: close_box_eq unmoved_def)
  next
    case False
    then have "page_ok {k} ?q" using shut_ok [OF p(1) b] by simp
    moreover have "body_pre ?q" using p(2) by (auto simp: body_ok_def body_pre_def shut_boxes [OF p(1)])
    ultimately have "unmoved ?q (cleanUp k ?q)" by (rule cleanUp_unmoved)
    then show ?thesis using Some False m(2) marks_shut [OF p(1)] by (simp add: close_box_eq Let_def unmoved_def)
  qed
qed

lemma close_done_unmoved:
  assumes "all_ok F p"
  shows "unmoved p (close_done k p)"
proof (cases "k \<in> set (fading p)")
  case True
  from close_done_pre [OF assms this] have "unmoved (p\<lparr>fading := remove1 k (fading p)\<rparr>) (cleanUp k (p\<lparr>fading := remove1 k (fading p)\<rparr>))"
    using cleanUp_unmoved by blast
  then show ?thesis using True by (simp add: close_done_def unmoved_def marks_def)
qed (simp add: close_done_def unmoved_def)

lemma unmoved_trans: "unmoved p q \<Longrightarrow> unmoved q r \<Longrightarrow> unmoved p r"
  by (auto simp: unmoved_def)

lemma unmoved_refl [simp]: "unmoved p p"
  by (simp add: unmoved_def)

lemma unmoved_core: "core_of q = core_of p \<Longrightarrow> unmoved p q"
  using marks_core [of q p] core_fields(13) [of q p] by (simp add: unmoved_def)

lemma unmoved_upd: "tame f \<Longrightarrow> unmoved p (upd_box k f p)"
  by (simp add: unmoved_def marks_upd)

lemma keydown_unmoved: "all_ok F p \<Longrightarrow> unmoved p (keydown kc f veto p k)"
  by (simp add: keydown_def close_box_unmoved unmoved_core aside_core split: option.split)

lemma fold_keydown_unmoved: "all_ok F p \<Longrightarrow> unmoved p (foldl (keydown kc f veto) p ks)"
  by (induction ks arbitrary: p) (simp, simp, metis unmoved_trans keydown_unmoved keydown_ok)

lemma fold_wake_unmoved: "unmoved p (foldl wake p ks)"
  by (induction ks arbitrary: p) (simp, simp, metis unmoved_trans unmoved_upd tame_controls(9) wake_def)

lemma close_viewer_unmoved:
  assumes "all_ok F p"
  shows "unmoved p (close_viewer every veto p)"
proof (cases "getInstance p")
  case (Some b)
  let ?q = "close_box (oid b) (veto (oid b)) None p"
  have q: "all_ok F ?q" "unmoved p ?q" using assms close_box_ok close_box_unmoved by blast+
  have "unmoved ?q (close_one veto ?q)" using close_box_unmoved [OF q(1)] by (simp add: close_one_def split: option.split)
  then have "unmoved p (close_one veto ?q)" by (rule unmoved_trans [OF q(2)])
  then show ?thesis using Some q(2) by (simp add: close_viewer_def Let_def)
qed (simp add: close_viewer_def)

definition opens :: "page_event \<Rightarrow> bool" where
  "opens e = (case e of Open _ _ _ _ _ _ \<Rightarrow> True | _ \<Rightarrow> False)"

lemma page_step_unmoved:
  assumes "all_ok F p" "\<not> opens e"
  shows "unmoved p (page_step p e)"
proof (cases e)
  case (Focused x)
  show ?thesis unfolding page_step_def Focused by (simp add: unmoved_core aside_core)
next
  case (Key kc f v)
  have "unmoved p (foldl (keydown kc f v) p (keys p))" by (rule fold_keydown_unmoved [OF assms(1)])
  then show ?thesis using fold_wake_unmoved unmoved_trans by (simp add: page_step_def Key Let_def)
qed (use assms in \<open>simp_all add: opens_def page_step_def close_box_unmoved close_done_unmoved close_viewer_unmoved fold_wake_unmoved
       unmoved_upd [OF tame_controls(8)] unmoved_upd [OF tame_controls(6)] unmoved_upd [OF tame_controls(5)]
       unmoved_upd [OF tame_controls(3)] unmoved_core aside_core split: option.split\<close>)

lemma page_run_unmoved:
  assumes "all_ok False p" "list_all (\<lambda>e. \<not> opens e) es"
  shows "unmoved p (page_run p es)"
  using assms unfolding page_run_def
  by (induction es arbitrary: p) (simp, simp, metis unmoved_trans page_step_unmoved page_step_ok)

lemma page_run_append: "page_run (page_run p es) fs = page_run p (es @ fs)"
  by (simp add: page_run_def)

lemma open_plain_start:
  assumes "items \<noteq> []" "0 \<le> index" "nat index < length items"
  shows "page_step p (Open w items own None index n) =
    opened w items own (Count (Suc (called p))) (nat index) n (p\<lparr>called := Suc (called p)\<rparr>)"
  using assms by (simp add: page_step_def open_viewer_eq open_start_def)

lemma opened_marks:
  assumes "page_ok {} p" "boxes p = []" "j < length items" "\<not> ios w" "iosfix p = None"
  shows "marks (opened w items own i j n p) = {(objects p, scroll_pos p, focused p, own, items)} \<and>
    iosfix (opened w items own i j n p) = None"
proof -
  let ?h = "hide_scrollbars w (items ! j) (p\<lparr>focused := Body\<rparr>)"
  let ?b = "new_box (objects p) i own items j (scroll_pos p) (focused p)"
  let ?q = "inserted ?b n ?h"
  have h: "page_ok {} ?h" using assms(1) by (subst page_ok_cong [of _ p]) simp_all
  have q: "page_ok {} ?q" using inserted_ok [OF h assms(3), of i own] by simp
  have b: "?b \<in> set (boxes ?q)" by simp
  have bs: "boxes ?q = [?b]" using assms(2) by (simp add: insert_box_def)
  have "map flags (boxes (activate (objects p) ?q)) = map flags (boxes ?q)"
    using activate_ok [OF q b] by simp
  then have m: "marks (activate (objects p) ?q) = {mark ?b}" using marks_flags bs unfolding marks_def by fastforce
  have "mark (if oid b = k then arrive_at j b else b) = mark b" for b k
    by (simp add: mark_def arrive_at_def updateControls_def showControls_def Let_def)
  then have "marks (upd_box k (arrive_at j) r) = marks r" for k r
    unfolding marks_def upd_box_simps set_map image_image by (simp only:)
  moreover have "mark ?b = (objects p, scroll_pos p, focused p, own, items)" by (simp add: mark_def new_box_def)
  moreover have "iosfix ?h = None" using assms(4,5) by (simp add: hide_scrollbars_def Let_def)
  ultimately show ?thesis using m by (simp add: opened_def Let_def)
qed

lemma current_opts_in:
  assumes "item_ok b" "list_all P (own_opts b # group b)"
  shows "P (current_opts b)"
  using assms by (auto simp: current_opts_def item_ok_def list_all_length split: option.split)

lemma last_done:
  assumes p: "page_ok {k} p" "body_pre p" and b: "box_at k p = Some b" "boxes p = [b]" "traps p = []" "iosfix p = None"
    and f: "backFocus (current_opts b)" "lastFocus b = El m"
  shows "boxes (cleanUp k p) = [] \<and> scroll_pos (cleanUp k p) = saved_scroll b \<and> focused (cleanUp k p) = El m"
proof -
  have k: "oid b = k" using box_at_Some [OF b(1)] by simp
  have r: "boxes (refocused k b p) = []" using b(2) k by simp
  then have g: "getInstance (refocused k b p) = None" by (simp add: getInstance_None)
  have "focused (refocused k b p) = El m"
    using f b(3) by (simp add: refocused_def focus_on_def in_page_def)
  then show ?thesis using r g b(1,4) by (simp add: cleanUp_eq restore_body_def Let_def)
qed

lemma shut_box_aside [simp]:
  "saved_scroll (shut_box k n b) = saved_scroll b" "lastFocus (shut_box k n b) = lastFocus b"
  "current_opts (shut_box k n b) = current_opts b"
  by (cases "current b"; simp add: shut_box_def hideControls_def current_opts_def)+

lemma only_one_closes:
  assumes a: "all_ok False q" and b: "boxes q = [b]" "oid b = k" and i: "iosfix q = None"
    and f: "backFocus (current_opts b)" "lastFocus b = El m"
    and r_def: "r = close_done k (close_box k False d q)"
  shows "boxes r = [] \<and> scroll_pos r = saved_scroll b \<and> focused r = El m"
proof -
  have q: "page_ok {} q" "body_ok q" using a by (simp_all add: all_ok_def)
  have at: "box_at k q = Some b" using b by (simp add: box_at_def)
  have cl: "isClosing b \<longleftrightarrow> k \<in> set (fading q)" using q(1) b by (simp add: page_ok_def boxes_ok_def)
  show ?thesis
  proof (cases "isClosing b")
    case True
    then have k: "k \<in> set (fading q)" using cl by simp
    let ?q = "q\<lparr>fading := remove1 k (fading q)\<rparr>"
    have pre: "page_ok {k} ?q" "body_pre ?q" using close_done_pre [OF a k] by blast+
    have "keys q = []" using q(1) b(1) True by (cases "keys q") (auto simp: page_ok_def docs_ok_def)
    then have "traps ?q = []" using q(1) by (simp add: page_ok_def docs_ok_def)
    moreover have "box_at k ?q = Some b" using at by (simp add: box_at_def)
    moreover have "close_done k (close_box k False d q) = cleanUp k ?q"
      using k at True by (simp add: close_box_eq close_done_def)
    ultimately show ?thesis using last_done [OF pre] b i f by (simp add: r_def)
  next
    case False
    let ?n = "close_duration d (current_opts b)"
    let ?q = "shut k ?n q" let ?b = "shut_box k ?n b"
    have nk: "k \<notin> set (fading q)" using cl False by simp
    have bs: "boxes ?q = [?b]" using b(1) by (simp add: shut_boxes [OF q(1)])
    have bm: "b \<in> set (boxes q)" using b by simp
    have pre: "page_ok {k} ?q" by (rule shut_ok [OF q(1) bm b(2) False])
    have bp: "body_pre ?q" using q(2) by (auto simp: body_ok_def body_pre_def shut_boxes [OF q(1)])
    have at': "box_at k ?q = Some ?b" using bs b(2) by (simp add: box_at_def)
    have l: "boxes (cleanUp k ?q) = [] \<and> scroll_pos (cleanUp k ?q) = saved_scroll b \<and> focused (cleanUp k ?q) = El m"
      using last_done [OF pre bp at' bs _ _ _] i f by simp
    show ?thesis
    proof (cases "effect (current_opts b) \<and> ?n \<noteq> 0")
      case True
      then have "close_box k False d q = ?q\<lparr>fading := fading q @ [k]\<rparr>" using at False by (simp add: close_box_eq Let_def)
      moreover have "?q\<lparr>fading := remove1 k (fading q @ [k])\<rparr> = ?q" using nk by (simp add: remove1_append)
      ultimately have "r = cleanUp k ?q" by (simp add: r_def close_done_def)
      then show ?thesis using l by simp
    next
      case 2: False
      then have e: "close_box k False d q = cleanUp k ?q" using at False by (auto simp: close_box_eq Let_def)
      have "fading (cleanUp k ?q) = fading q" using cleanUp_ok [OF pre bp] at' by simp
      then have "r = cleanUp k ?q" using nk e by (simp add: r_def close_done_def)
      then show ?thesis using l by simp
    qed
  qed
qed

text \<open>C40.  A viewer that is opened on a page without one, outside iOS, with no id of its own and with the option
  \<open>backFocus\<close> on for the gallery and for every item, gives the page back as it was: whatever happens while it is
  open, except that another one is opened, if it is still open then and is closed and its animation ends, the
  document has no viewer, is scrolled to where it was, and the element that had the focus has it again.\<close>
theorem page_as_found:
  assumes "boxes (page_run (page_start fixed) es0) = []" "focused (page_run (page_start fixed) es0) = El m"
    and "\<not> ios w" "list_all backFocus (own # items)" "0 \<le> index" "nat index < length items"
    and "list_all (\<lambda>e. \<not> opens e) es"
    and "boxes (page_run (page_start fixed) (es0 @ Open w items own None index n # es)) \<noteq> []"
  shows "let p = page_run (page_start fixed) es0;
             k = objects p;
             r = page_run p (Open w items own None index n # es @ [Close k False d, Close_done k])
         in boxes r = [] \<and> scroll_pos r = scroll_pos p \<and> focused r = El m"
proof -
  define p where "p = page_run (page_start fixed) es0"
  define p' where "p' = p\<lparr>called := Suc (called p)\<rparr>"
  define q0 where "q0 = opened w items own (Count (Suc (called p))) (nat index) n p'"
  define q where "q = page_run q0 es"
  have ne: "items \<noteq> []" using assms(6) by auto
  have p: "all_ok False p" unfolding p_def by (rule page_run_ok [OF page_start_ok]) simp
  have st: "page_step p (Open w items own None index n) = q0"
    unfolding q0_def p'_def by (rule open_plain_start [OF ne assms(5,6)])
  have p': "page_ok {} p'" using p page_ok_cong [of p' p "{}"] by (simp add: p'_def all_ok_def)
  have "iosfix p' = None" using p assms(1) by (simp add: p'_def p_def [symmetric] all_ok_def body_ok_def)
  then have m: "marks q0 = {(objects p, scroll_pos p, El m, own, items)}" "iosfix q0 = None"
    using opened_marks [OF p' _ assms(6,3), of own "Count (Suc (called p))" n] assms(1,2)
    by (simp_all add: q0_def p'_def p_def)
  have q0: "all_ok False q0" using page_step_ok [OF p, of "Open w items own None index n"] st by simp
  have q: "all_ok False q" unfolding q_def by (rule page_run_ok [OF q0]) simp
  have c: "unmoved q0 q" unfolding q_def by (rule page_run_unmoved [OF q0 assms(7)])
  have "boxes q \<noteq> []" using assms(8) st by (simp add: q_def page_run_def p_def)
  then obtain b bs where b: "boxes q = b # bs" by (cases "boxes q") auto
  have mb: "mark x = (objects p, scroll_pos p, El m, own, items)" if "x \<in> set (boxes q)" for x
    using c m(1) that by (auto simp: unmoved_def marks_def)
  have "distinct (map oid (boxes q))" using q by (simp add: all_ok_def page_ok_def boxes_ok_def)
  moreover have oo: "oid x = objects p" if "x \<in> set (boxes q)" for x using mb [OF that] by (simp add: mark_def)
  have "bs = []" if "distinct (map oid (boxes q))"
    using that oo [of b] oo [of "hd bs"] by (cases bs) (simp_all add: b)
  ultimately have "bs = []" by blast
  then have b1: "boxes q = [b]" using b by simp
  have mb: "oid b = objects p" "saved_scroll b = scroll_pos p" "lastFocus b = El m" "own_opts b = own" "group b = items"
    using mb [of b] b by (simp_all add: mark_def)
  have "item_ok b" using q b1 by (simp add: all_ok_def page_ok_def boxes_ok_def)
  then have f: "backFocus (current_opts b)" using current_opts_in [of b backFocus] assms(4) mb by simp
  have "iosfix q = None" using c m(2) by (simp add: unmoved_def)
  from only_one_closes [OF q b1 mb(1) this f mb(3) refl, of d]
  have "boxes (close_done (objects p) (close_box (objects p) False d q)) = [] \<and>
    scroll_pos (close_done (objects p) (close_box (objects p) False d q)) = scroll_pos p \<and>
    focused (close_done (objects p) (close_box (objects p) False d q)) = El m" using mb by simp
  moreover have "page_run p (Open w items own None index n # es @ [Close (objects p) False d, Close_done (objects p)]) =
    close_done (objects p) (close_box (objects p) False d q)"
    using st by (simp add: page_run_def q_def page_step_def [of _ "Close _ _ _"] page_step_def [of _ "Close_done _"])
  ultimately show ?thesis unfolding Let_def p_def [symmetric] by (simp only:)
qed

lemma page_as_found_witness:
  "focused (page_run (page_start (\<lambda>_. False))
     [Focused (El 7), Scrolled (40, 0), open_plain, Key 39 False False, Arrive 0 1, Focused (El 3), Close 0 False None, Close_done 0]) = El 7"
proof -
  have 1: "boxes (page_run (page_start (\<lambda>_. False)) [Focused (El 7), Scrolled (40, 0)]) = []" by code_simp
  have 2: "focused (page_run (page_start (\<lambda>_. False)) [Focused (El 7), Scrolled (40, 0)]) = El 7" by code_simp
  have 3: "\<not> ios desktop" by code_simp
  have 4: "list_all backFocus (plain_item # [plain_item, plain_item])" by code_simp
  have 5: "(0::int) \<le> 0" "nat 0 < length [plain_item, plain_item]" by simp_all
  have 6: "list_all (\<lambda>e. \<not> opens e) [Key 39 False False, Arrive 0 1, Focused (El 3)]" by (simp add: opens_def)
  have 7: "boxes (page_run (page_start (\<lambda>_. False)) ([Focused (El 7), Scrolled (40, 0)] @
    Open desktop [plain_item, plain_item] plain_item None 0 0 # [Key 39 False False, Arrive 0 1, Focused (El 3)])) \<noteq> []"
    by code_simp
  have o: "objects (page_run (page_start (\<lambda>_. False)) [Focused (El 7), Scrolled (40, 0)]) = 0" by code_simp
  from page_as_found [OF 1 2 3 4 5 6 7, of None] show ?thesis
    unfolding Let_def o page_run_append open_plain_def by simp
qed

end
