(* ===== verification/Js_Regex.thy ===== *)
theory Js_Regex
  imports JsPrelude
begin

section \<open>Regular expressions\<close>

text \<open>
  The regular expressions of the scripts, without the flags \<open>m\<close>, \<open>g\<close> and \<open>y\<close> and without references to groups and
  looking ahead.  A text is a list of 16-bit units, given as numbers.  The language tries the alternatives of
  a match in an order that the expression fixes and takes the first; here \<open>run\<close> gives the list of all ways to
  match from a position, in this order, so the first element of the list is the match of the language.  A
  state of the matching is a position and the groups that have been captured, the last one first.
\<close>

subsection \<open>Expressions and their execution\<close>

datatype rx =
    Eps
  | Cls "nat \<Rightarrow> bool"
  | Seq rx rx
  | Alt rx rx
  | Star rx
  | Lazy rx
  | Opt rx
  | Grp nat rx
  | Bos
  | Eos

type_synonym captures = "(nat \<times> nat \<times> nat) list"

type_synonym rstate = "nat \<times> captures"

fun groups :: "rx \<Rightarrow> nat list" where
  "groups (Seq a b) = groups a @ groups b"
| "groups (Alt a b) = groups a @ groups b"
| "groups (Star a) = groups a"
| "groups (Lazy a) = groups a"
| "groups (Opt a) = groups a"
| "groups (Grp n a) = n # groups a"
| "groups _ = []"

definition reset :: "nat list \<Rightarrow> rstate \<Rightarrow> rstate" where
  \<comment> \<open>an iteration forgets what its groups have captured\<close>
  "reset ns st = (fst st, filter (\<lambda>c. fst c \<notin> set ns) (snd st))"

primrec iterate :: "bool \<Rightarrow> (rstate \<Rightarrow> rstate list) \<Rightarrow> nat \<Rightarrow> rstate \<Rightarrow> rstate list" where
  \<comment> \<open>\<open>*\<close>, \<open>*?\<close> and \<open>?\<close>; an iteration that matches the empty text is refused\<close>
  "iterate greedy f 0 st = [st]"
| "iterate greedy f (Suc n) st =
     (let more = concat (map (\<lambda>st'. if fst st' > fst st then iterate greedy f n st' else []) (f st))
      in if greedy then more @ [st] else st # more)"

primrec run :: "nat list \<Rightarrow> rx \<Rightarrow> rstate \<Rightarrow> rstate list" where
  "run s Eps st = [st]"
| "run s (Cls p) st = (if fst st < length s \<and> p (s ! fst st) then [(Suc (fst st), snd st)] else [])"
| "run s (Seq a b) st = concat (map (run s b) (run s a st))"
| "run s (Alt a b) st = run s a st @ run s b st"
| "run s (Star a) st = iterate True (\<lambda>st. run s a (reset (groups a) st)) (length s - fst st) st"
| "run s (Lazy a) st = iterate False (\<lambda>st. run s a (reset (groups a) st)) (length s - fst st) st"
| "run s (Opt a) st = iterate True (\<lambda>st. run s a (reset (groups a) st)) 1 st"
| "run s (Grp n a) st = map (\<lambda>st'. (fst st', (n, fst st, fst st') # snd st')) (run s a st)"
| "run s Bos st = (if fst st = 0 then [st] else [])"
| "run s Eos st = (if fst st = length s then [st] else [])"

primrec find_match :: "rx \<Rightarrow> nat list \<Rightarrow> nat \<Rightarrow> nat \<Rightarrow> (nat \<times> rstate) option" where
  "find_match r s 0 i = None"
| "find_match r s (Suc n) i = (case run s r (i, []) of m # _ \<Rightarrow> Some (i, m) | [] \<Rightarrow> find_match r s n (Suc i))"

definition regex_exec :: "rx \<Rightarrow> nat list \<Rightarrow> (nat \<times> rstate) option" where
  \<comment> \<open>where the match begins, where it ends and its groups\<close>
  "regex_exec r s = find_match r s (Suc (length s)) 0"

definition regex_test :: "rx \<Rightarrow> nat list \<Rightarrow> bool" where
  "regex_test r s \<longleftrightarrow> regex_exec r s \<noteq> None"

definition slice :: "nat list \<Rightarrow> nat \<Rightarrow> nat \<Rightarrow> nat list" where
  "slice s i j = take (j - i) (drop i s)"

definition group_text :: "nat list \<Rightarrow> nat \<times> rstate \<Rightarrow> nat \<Rightarrow> nat list option" where
  \<comment> \<open>the element \<open>n\<close> of the array that \<open>match\<close> returns, \<open>None\<close> for \<open>undefined\<close>\<close>
  "group_text s m n =
     (if n = 0 then Some (slice s (fst m) (fst (snd m)))
      else map_option (\<lambda>(i, j). slice s i j) (map_of (snd (snd m)) n))"

subsection \<open>Abbreviations of the syntax\<close>

definition codes :: "string \<Rightarrow> nat list" where
  "codes t = map of_char t"

definition fold_case :: "nat \<Rightarrow> nat" where
  \<comment> \<open>the flag \<open>i\<close>, on letters of ASCII\<close>
  "fold_case c = (if 97 \<le> c \<and> c \<le> 122 then c - 32 else c)"

definition nocase :: "(nat \<Rightarrow> bool) \<Rightarrow> nat \<Rightarrow> bool" where
  "nocase p c \<longleftrightarrow> p c \<or> (65 \<le> c \<and> c \<le> 90 \<and> p (c + 32)) \<or> (97 \<le> c \<and> c \<le> 122 \<and> p (c - 32))"

fun lit :: "bool \<Rightarrow> nat list \<Rightarrow> rx" where
  \<comment> \<open>a literal text, with or without regard to case\<close>
  "lit i [] = Eps"
| "lit i [c] = Cls (if i then nocase (\<lambda>x. x = c) else (\<lambda>x. x = c))"
| "lit i (c # cs) = Seq (Cls (if i then nocase (\<lambda>x. x = c) else (\<lambda>x. x = c))) (lit i cs)"

definition one_of :: "nat list \<Rightarrow> nat \<Rightarrow> bool" where
  "one_of cs c \<longleftrightarrow> c \<in> set cs"

definition dot :: rx where
  "dot = Cls (\<lambda>c. c \<noteq> 10 \<and> c \<noteq> 13 \<and> c \<noteq> 8232 \<and> c \<noteq> 8233)"

definition digit :: "nat \<Rightarrow> bool" where
  "digit c \<longleftrightarrow> 48 \<le> c \<and> c \<le> 57"

definition letter :: "nat \<Rightarrow> bool" where
  "letter c \<longleftrightarrow> 97 \<le> c \<and> c \<le> 122"

definition word_char :: "nat \<Rightarrow> bool" where
  \<comment> \<open>\<open>\w\<close>\<close>
  "word_char c \<longleftrightarrow> digit c \<or> letter c \<or> 65 \<le> c \<and> c \<le> 90 \<or> c = 95"

definition plus :: "rx \<Rightarrow> rx" where
  \<comment> \<open>\<open>r+\<close>, for an expression without groups\<close>
  "plus r = Seq r (Star r)"

definition plus_lazy :: "rx \<Rightarrow> rx" where
  \<comment> \<open>\<open>r+?\<close>\<close>
  "plus_lazy r = Seq r (Lazy r)"

primrec times :: "nat \<Rightarrow> rx \<Rightarrow> rx" where
  \<comment> \<open>\<open>r{n}\<close>\<close>
  "times 0 r = Eps"
| "times (Suc n) r = Seq r (times n r)"

fun seqs :: "rx list \<Rightarrow> rx" where
  "seqs [] = Eps"
| "seqs [r] = r"
| "seqs (r # rs) = Seq r (seqs rs)"

fun alts :: "rx list \<Rightarrow> rx" where
  "alts [] = Eps"
| "alts [r] = r"
| "alts (r # rs) = Alt r (alts rs)"

subsection \<open>What an expression matches\<close>

text \<open>
  \<open>matches s r i j\<close>: the units \<open>i\<close> to \<open>j - 1\<close> of the text match, whatever the order of the alternatives.
\<close>

inductive matches :: "nat list \<Rightarrow> rx \<Rightarrow> nat \<Rightarrow> nat \<Rightarrow> bool" for s where
  eps: "matches s Eps i i"
| cls: "i < length s \<Longrightarrow> p (s ! i) \<Longrightarrow> matches s (Cls p) i (Suc i)"
| seq: "matches s a i j \<Longrightarrow> matches s b j k \<Longrightarrow> matches s (Seq a b) i k"
| alt1: "matches s a i j \<Longrightarrow> matches s (Alt a b) i j"
| alt2: "matches s b i j \<Longrightarrow> matches s (Alt a b) i j"
| star0: "matches s (Star a) i i"
| star1: "matches s a i j \<Longrightarrow> matches s (Star a) j k \<Longrightarrow> matches s (Star a) i k"
| lazy0: "matches s (Lazy a) i i"
| lazy1: "matches s a i j \<Longrightarrow> matches s (Lazy a) j k \<Longrightarrow> matches s (Lazy a) i k"
| opt0: "matches s (Opt a) i i"
| opt1: "matches s a i j \<Longrightarrow> matches s (Opt a) i j"
| grp: "matches s a i j \<Longrightarrow> matches s (Grp n a) i j"
| bos: "matches s Bos 0 0"
| eos: "matches s Eos (length s) (length s)"

inductive_simps matches_simps:
  "matches s Eps i j" "matches s (Cls p) i j" "matches s (Seq a b) i j" "matches s (Alt a b) i j"
  "matches s (Opt a) i j" "matches s (Grp n a) i j" "matches s Bos i j" "matches s Eos i j"

lemma matches_bounds: "matches s r i j \<Longrightarrow> i \<le> length s \<Longrightarrow> i \<le> j \<and> j \<le> length s"
  by (induction rule: matches.induct) auto

lemma matches_order: "matches s r i j \<Longrightarrow> i \<le> j"
  by (induction rule: matches.induct) auto

definition end_points :: "rstate list \<Rightarrow> nat set" where
  "end_points xs = fst ` set xs"

lemma end_points_simps [simp]: "end_points [] = {}" "end_points (x # xs) = insert (fst x) (end_points xs)" "end_points (xs @ ys) = end_points xs \<union> end_points ys"
  by (auto simp: end_points_def)

lemma end_points_concat: "end_points (concat (map f xs)) = (\<Union>x \<in> set xs. end_points (f x))"
  by (auto simp: end_points_def)

text \<open>Iterations that make progress are enough.\<close>

lemma star_proper:
  assumes "matches s (Star a) i k" "i \<le> length s"
  shows "k = i \<or> (\<exists>j. i < j \<and> matches s a i j \<and> matches s (Star a) j k)"
  using assms
proof (induction "Star a" i k rule: matches.induct)
  case (star1 i j k)
  then have "i \<le> j \<and> j \<le> length s" using matches_bounds by blast
  then show ?case using star1 by (cases "j = i") auto
qed simp

lemma lazy_proper:
  assumes "matches s (Lazy a) i k" "i \<le> length s"
  shows "k = i \<or> (\<exists>j. i < j \<and> matches s a i j \<and> matches s (Lazy a) j k)"
  using assms
proof (induction "Lazy a" i k rule: matches.induct)
  case (lazy1 i j k)
  then have "i \<le> j \<and> j \<le> length s" using matches_bounds by blast
  then show ?case using lazy1 by (cases "j = i") auto
qed simp

lemma star_iff:
  "i \<le> length s \<Longrightarrow> matches s (Star a) i k \<longleftrightarrow> k = i \<or> (\<exists>j. i < j \<and> matches s a i j \<and> matches s (Star a) j k)"
  using star_proper by (blast intro: star0 star1)

lemma lazy_iff:
  "i \<le> length s \<Longrightarrow> matches s (Lazy a) i k \<longleftrightarrow> k = i \<or> (\<exists>j. i < j \<and> matches s a i j \<and> matches s (Lazy a) j k)"
  using lazy_proper by (blast intro: lazy0 lazy1)

lemma iterate_ends:
  assumes f: "\<And>st. fst st \<le> length s \<Longrightarrow> end_points (f st) = {j. m (fst st) j}"
    and b: "\<And>i j. m i j \<Longrightarrow> i \<le> length s \<Longrightarrow> i \<le> j \<and> j \<le> length s"
    and proper: "\<And>i k. i \<le> length s \<Longrightarrow> M i k \<longleftrightarrow> k = i \<or> (\<exists>j. i < j \<and> m i j \<and> M j k)"
  shows "fst st \<le> length s \<Longrightarrow> length s - fst st \<le> n \<Longrightarrow> end_points (iterate g f n st) = {k. M (fst st) k}"
proof (induction n arbitrary: st)
  case 0
  then have i: "fst st = length s" by simp
  have "\<not> (\<exists>j. length s < j \<and> m (length s) j)" using b by force
  then show ?case using proper [of "length s"] i by auto
next
  case (Suc n)
  let ?more = "concat (map (\<lambda>st'. if fst st' > fst st then iterate g f n st' else []) (f st))"
  have *: "end_points (if fst st' > fst st then iterate g f n st' else []) = {k. fst st < fst st' \<and> M (fst st') k}"
    if "st' \<in> set (f st)" for st'
  proof -
    have "m (fst st) (fst st')" using that f [OF Suc.prems(1)] by (auto simp: end_points_def)
    then have "fst st' \<le> length s" using b Suc.prems(1) by blast
    then show ?thesis using Suc.IH [of st'] Suc.prems(2) by auto
  qed
  have "end_points ?more = (\<Union>st' \<in> set (f st). {k. fst st < fst st' \<and> M (fst st') k})"
    unfolding end_points_concat using * by auto
  also have "\<dots> = {k. \<exists>j \<in> end_points (f st). fst st < j \<and> M j k}" by (auto simp: end_points_def)
  also have "\<dots> = {k. \<exists>j. fst st < j \<and> m (fst st) j \<and> M j k}" using f [OF Suc.prems(1)] by auto
  finally have "end_points ?more = {k. \<exists>j. fst st < j \<and> m (fst st) j \<and> M j k}" .
  then show ?case using proper [OF Suc.prems(1)] by (auto simp: Let_def)
qed

lemma reset_fst [simp]: "fst (reset ns st) = fst st"
  by (simp add: reset_def)

lemma run_ends: "fst st \<le> length s \<Longrightarrow> end_points (run s r st) = {j. matches s r (fst st) j}"
proof (induction r arbitrary: st)
  case (Seq a b)
  have "fst st' \<le> length s" if "st' \<in> set (run s a st)" for st'
  proof -
    have "matches s a (fst st) (fst st')" using that Seq.IH(1) [OF Seq.prems] by (auto simp: end_points_def)
    then show ?thesis using matches_bounds Seq.prems by blast
  qed
  then have "end_points (run s (Seq a b) st) = (\<Union>st' \<in> set (run s a st). {k. matches s b (fst st') k})"
    using Seq.IH(2) by (simp add: end_points_concat)
  also have "\<dots> = {k. \<exists>j \<in> end_points (run s a st). matches s b j k}" by (auto simp: end_points_def)
  also have "\<dots> = {k. matches s (Seq a b) (fst st) k}"
    using Seq.IH(1) [OF Seq.prems] by (auto simp: matches_simps)
  finally show ?case .
next
  case (Star a)
  show ?case
    unfolding run.simps
    by (rule iterate_ends [where m = "matches s a", OF _ matches_bounds star_iff]) (use Star in \<open>auto\<close>)
next
  case (Lazy a)
  show ?case
    unfolding run.simps
    by (rule iterate_ends [where m = "matches s a", OF _ matches_bounds lazy_iff]) (use Lazy in \<open>auto\<close>)
next
  case (Opt a)
  have b: "j \<ge> fst st" if "matches s a (fst st) j" for j using matches_bounds that Opt.prems by blast
  have e: "end_points (run s a (reset (groups a) st)) = {j. matches s a (fst st) j}" using Opt by simp
  have "end_points (run s (Opt a) st) = insert (fst st) {j \<in> end_points (run s a (reset (groups a) st)). fst st < j}"
    by (auto simp: end_points_def)
  also have "\<dots> = {j. matches s (Opt a) (fst st) j}" using b unfolding e matches_simps by force
  finally show ?case .
next
  case (Grp n a)
  then show ?case by (simp add: end_points_def image_image matches_simps)
next
  case (Alt a b)
  have "end_points (run s (Alt a b) st) = {j. matches s a (fst st) j} \<union> {j. matches s b (fst st) j}"
    using Alt by simp
  then show ?case by (auto simp: matches_simps)
qed (auto simp: matches_simps)

lemma find_match_None: "find_match r s n i = None \<longleftrightarrow> (\<forall>k \<in> {i..<i + n}. run s r (k, []) = [])"
proof (induction n arbitrary: i)
  case (Suc n)
  have "{i..<i + Suc n} = insert i {Suc i..<Suc i + n}" by auto
  then show ?case using Suc by (simp split: list.split)
qed simp

lemma find_match_Some:
  "find_match r s n i = Some (k, m) \<Longrightarrow> i \<le> k \<and> k < i + n \<and> m \<in> set (run s r (k, [])) \<and> (\<forall>j. i \<le> j \<and> j < k \<longrightarrow> run s r (j, []) = [])"
proof (induction n arbitrary: i)
  case (Suc n)
  show ?case
  proof (cases "run s r (i, [])")
    case Nil
    then have "find_match r s n (Suc i) = Some (k, m)" using Suc.prems by simp
    from Suc.IH [OF this] show ?thesis using Nil by (auto simp: Suc_le_eq) (metis le_neq_implies_less)
  next
    case (Cons x xs)
    then show ?thesis using Suc.prems by auto
  qed
qed simp

text \<open>
  Whether an expression is found in a text does not depend on the order in which the language tries its
  alternatives: \<open>exec\<close> finds a match exactly if some part of the text matches, one that begins as far left as any.
\<close>

lemma regex_exec_iff:
  "case regex_exec r s of
     None \<Rightarrow> \<not> (\<exists>i j. j \<le> length s \<and> matches s r i j)
   | Some (i, (j, c)) \<Rightarrow> i \<le> j \<and> j \<le> length s \<and> matches s r i j \<and> \<not> (\<exists>i' j'. i' < i \<and> matches s r i' j')"
proof -
  have *: "run s r (i, []) = [] \<longleftrightarrow> \<not> (\<exists>j. matches s r i j)" if "i \<le> length s" for i
  proof -
    have "run s r (i, []) = [] \<longleftrightarrow> end_points (run s r (i, [])) = {}" by (simp add: end_points_def)
    then show ?thesis using run_ends [of "(i, [])" s r] that by auto
  qed
  show ?thesis
  proof (cases "regex_exec r s")
    case None
    then have "run s r (i, []) = []" if "i \<le> length s" for i
      using that find_match_None [of r s "Suc (length s)" 0] by (simp add: regex_exec_def)
    moreover have "i \<le> length s" if "matches s r i j" "j \<le> length s" for i j
    proof (rule ccontr)
      assume "\<not> i \<le> length s"
      then show False using that matches_order by fastforce
    qed
    ultimately show ?thesis using None * by auto
  next
    case (Some m)
    obtain i j c where m: "m = (i, (j, c))" by (metis prod.exhaust)
    have f: "i \<le> length s" "(j, c) \<in> set (run s r (i, []))" "\<And>k. k < i \<Longrightarrow> run s r (k, []) = []"
      using find_match_Some [of r s "Suc (length s)" 0 i "(j, c)"] Some by (auto simp: regex_exec_def m)
    have "j \<in> end_points (run s r (i, []))" using f(2) by (force simp: end_points_def)
    then have "matches s r i j" using run_ends [of "(i, [])" s r] f(1) by simp
    moreover have "\<not> matches s r k j'" if "k < i" for k j' using f(3) [OF that] * that f(1) by auto
    ultimately show ?thesis using Some m matches_bounds f(1) by auto
  qed
qed

lemma regex_test_matches: "regex_test r s \<longleftrightarrow> (\<exists>i j. i \<le> j \<and> j \<le> length s \<and> matches s r i j)"
proof (cases "regex_exec r s")
  case None
  have "\<not> (\<exists>i j. j \<le> length s \<and> matches s r i j)" using regex_exec_iff [of s r] unfolding None by simp
  then show ?thesis using None by (auto simp: regex_test_def)
next
  case (Some m)
  obtain i j c where m: "m = (i, (j, c))" by (metis prod.exhaust)
  have "i \<le> j \<and> j \<le> length s \<and> matches s r i j" using regex_exec_iff [of s r] unfolding Some m by simp
  then show ?thesis using Some by (auto simp: regex_test_def)
qed

end
