(* ===== verification/Fancybox_Media.thy ===== *)
theory Fancybox_Media
  imports Js_Regex Fancybox_Hash
begin

section \<open>jquery.fancybox.js: options of items and addresses of media\<close>

text \<open>
  Values of options, \<open>$.extend\<close>, the regular expressions that guess the type of an item, and the module \<open>Media\<close>,
  which recognises addresses of video and map services and rewrites them.  An option that is a number is an
  integer here; \<open>OFun n\<close> is a function of the page, which the argument \<open>call\<close> of the operations interprets;
  an \<open>OQuery\<close> is a jQuery object, the list of its elements.  The services are those of the defaults; the
  option \<open>media\<close> may change their parameters, but adds no services.
\<close>

subsection \<open>Values and \<open>$.extend\<close>\<close>

datatype oval =
    OUndef
  | ONull
  | OBool bool
  | ONum int
  | OText jstext
  | OFun nat
  | OList "oval list"
  | OMap "(string \<times> oval) list"
  | OQuery "elem list"
and elem = Elem nat "(string \<times> jstext) list" "(string \<times> oval) list" "elem list"
  \<comment> \<open>a number, attributes, the data of jQuery, the images in the element\<close>

type_synonym oprops = "(string \<times> oval) list"

definition field :: "oprops \<Rightarrow> string \<Rightarrow> oval" where
  "field ps k = (case map_of ps k of None \<Rightarrow> OUndef | Some v \<Rightarrow> v)"

fun otruthy :: "oval \<Rightarrow> bool" where
  "otruthy OUndef = False"
| "otruthy ONull = False"
| "otruthy (OBool b) = b"
| "otruthy (ONum n) = (n \<noteq> 0)"
| "otruthy (OText t) = (t \<noteq> [])"
| "otruthy _ = True"

fun old_map :: "oval \<Rightarrow> oprops" where
  "old_map (OMap ps) = ps"
| "old_map _ = []"

fun old_list :: "oval \<Rightarrow> oval list" where
  "old_list (OList xs) = xs"
| "old_list _ = []"

fun extend_value :: "oval \<Rightarrow> oval \<Rightarrow> oval"
  and extend_props :: "oprops \<Rightarrow> oprops \<Rightarrow> oprops"
  and extend_list :: "oval list \<Rightarrow> oval list \<Rightarrow> oval list" where
  \<comment> \<open>\<open>$.extend(true, old, new)\<close>\<close>
  "extend_value old (OMap ps) = OMap (extend_props (old_map old) ps)"
| "extend_value old (OList xs) = OList (extend_list (old_list old) xs)"
| "extend_value old v = v"
| "extend_props qs [] = qs"
| "extend_props qs ((k, v) # ps) =
     extend_props (if v = OUndef then qs else AList.update k (extend_value (field qs k) v) qs) ps"
| "extend_list ys [] = ys"
| "extend_list [] (x # xs) = extend_value OUndef x # extend_list [] xs"
| "extend_list (y # ys) (x # xs) = (if x = OUndef then y else extend_value y x) # extend_list ys xs"

fun assign_props :: "oprops \<Rightarrow> oprops \<Rightarrow> oprops" where
  \<comment> \<open>\<open>$.extend(old, new)\<close>, without going into objects\<close>
  "assign_props qs [] = qs"
| "assign_props qs ((k, v) # ps) = assign_props (if v = OUndef then qs else AList.update k v qs) ps"

definition int_codes :: "int \<Rightarrow> jstext" where
  "int_codes n = (if n < 0 then 45 # dec_text (nat (- n)) else dec_text (nat n))"

fun shown_as :: "oval \<Rightarrow> jstext" where
  \<comment> \<open>\<open>v + ''\<close>; the text of a function is not used\<close>
  "shown_as OUndef = codes ''undefined''"
| "shown_as ONull = codes ''null''"
| "shown_as (OBool b) = codes (if b then ''true'' else ''false'')"
| "shown_as (ONum n) = int_codes n"
| "shown_as (OText t) = t"
| "shown_as (OList xs) = join_text [44] (map (\<lambda>x. if x = OUndef \<or> x = ONull then [] else shown_as x) xs)"
| "shown_as (OFun n) = []"
| "shown_as (OMap ps) = codes ''[object Object]''"
| "shown_as (OQuery es) = codes ''[object Object]''"

subsection \<open>Replacing in texts\<close>

fun starts :: "jstext \<Rightarrow> jstext \<Rightarrow> bool" where
  "starts [] s = True"
| "starts (c # cs) [] = False"
| "starts (c # cs) (d # ds) = (c = d \<and> starts cs ds)"

fun find_text :: "jstext \<Rightarrow> jstext \<Rightarrow> nat option" where
  \<comment> \<open>\<open>indexOf\<close>\<close>
  "find_text t [] = (if t = [] then Some 0 else None)"
| "find_text t (c # s) = (if starts t (c # s) then Some 0 else map_option Suc (find_text t s))"

fun expand :: "jstext \<Rightarrow> jstext \<Rightarrow> jstext \<Rightarrow> jstext \<Rightarrow> jstext" where
  \<comment> \<open>the replacement text: dollar, and \<open>&\<close>, the backquote or the apostrophe stand for parts of the text\<close>
  "expand ahead hit behind [] = []"
| "expand ahead hit behind [c] = [c]"
| "expand ahead hit behind (c # d # r) =
     (if c = 36 \<and> d = 36 then 36 # expand ahead hit behind r
      else if c = 36 \<and> d = 38 then hit @ expand ahead hit behind r
      else if c = 36 \<and> d = 96 then ahead @ expand ahead hit behind r
      else if c = 36 \<and> d = 39 then behind @ expand ahead hit behind r
      else c # expand ahead hit behind (d # r))"

definition replace_first :: "jstext \<Rightarrow> jstext \<Rightarrow> jstext \<Rightarrow> jstext" where
  \<comment> \<open>\<open>s.replace(t, r)\<close> for a text \<open>t\<close>\<close>
  "replace_first t r s =
     (case find_text t s of
        None \<Rightarrow> s
      | Some i \<Rightarrow> (let b = take i s; e = drop (i + length t) s in b @ expand b t e r @ e))"

definition or_empty :: "jstext option \<Rightarrow> jstext" where
  "or_empty v = (case v of None \<Rightarrow> [] | Some t \<Rightarrow> t)"

subsection \<open>\<open>$.param\<close> and \<open>format\<close>\<close>

fun param_pairs :: "(nat \<Rightarrow> oval) \<Rightarrow> oprops \<Rightarrow> (string \<times> jstext) list" where
  "param_pairs call [] = []"
| "param_pairs call ((k, v) # ps) =
     (let txt = (\<lambda>w. case w of OUndef \<Rightarrow> [] | ONull \<Rightarrow> [] | OFun n \<Rightarrow> shown_as (call n) | _ \<Rightarrow> shown_as w)
      in (case v of OList xs \<Rightarrow> map (\<lambda>x. (k, txt x)) xs | _ \<Rightarrow> [(k, txt v)]) @ param_pairs call ps)"

fun encode_pairs :: "(string \<times> jstext) list \<Rightarrow> jstext list res" where
  "encode_pairs [] = Inr []"
| "encode_pairs ((k, t) # ps) =
     andThen (encodeURIComponent (codes k)) (\<lambda>a. andThen (encodeURIComponent t) (\<lambda>b.
       andThen (encode_pairs ps) (\<lambda>r. Inr ((a @ 61 # b) # r))))"

fun spaces_plus :: "jstext \<Rightarrow> jstext" where
  \<comment> \<open>\<open>replace(/%20/g, "+")\<close>\<close>
  "spaces_plus (a # b # c # r) = (if a = 37 \<and> b = 50 \<and> c = 48 then 43 # spaces_plus r else a # spaces_plus (b # c # r))"
| "spaces_plus r = r"

definition param_text :: "(nat \<Rightarrow> oval) \<Rightarrow> oprops \<Rightarrow> jstext res" where
  "param_text call ps = andThen (encode_pairs (param_pairs call ps)) (\<lambda>ts. Inr (spaces_plus (join_text [38] ts)))"

fun fill_groups :: "nat \<Rightarrow> jstext option list \<Rightarrow> jstext \<Rightarrow> jstext" where
  "fill_groups n [] url = url"
| "fill_groups n (v # vs) url = fill_groups (Suc n) vs (replace_first (36 # dec_text n) (or_empty v) url)"

definition format :: "jstext \<Rightarrow> jstext option list \<Rightarrow> jstext \<Rightarrow> jstext" where
  \<comment> \<open>of an address that is not empty; \<open>params\<close> as text\<close>
  "format url rez params =
     (let url = fill_groups 0 rez url
      in if params \<noteq> []
         then url @ (case find_text [63] url of Some (Suc _) \<Rightarrow> [38] | _ \<Rightarrow> [63]) @ params else url)"

subsection \<open>The services\<close>

datatype address = Template jstext | Map_place | Map_search

record service =
  service_name :: string
  matcher :: rx
  group_count :: nat
  params :: oprops
  paramPlace :: nat
  media_type :: jstext
  address :: address
  thumb_of :: "jstext option"

abbreviation "icase \<equiv> \<lambda>t. lit True (codes t)"
abbreviation "exact \<equiv> \<lambda>t. lit False (codes t)"

definition youtube_rx :: rx where
  "youtube_rx = seqs
     [Grp 1 (alts [icase ''youtube.com'', icase ''youtu.be'', icase ''youtube-nocookie.com'']), icase ''/'',
      Opt (Grp 2 (alts [seqs [icase ''watch?'', Opt (Grp 3 (Seq (Star dot) (icase ''&''))), icase ''v=''], icase ''v/'', icase ''u/'',
                        Seq (icase ''embed'') (Opt (icase ''/''))])),
      Grp 4 (alts [Seq (icase ''videoseries?list='') (Grp 5 (Star dot)),
                   times 11 (Cls (nocase (\<lambda>c. word_char c \<or> c = 45))),
                   seqs [icase ''?listType='', Grp 6 (Star dot), icase ''&list='', Grp 7 (Star dot)]]),
      Grp 8 (Star dot)]"

definition vimeo_rx :: rx where
  "vimeo_rx = seqs
     [Bos, plus dot, exact ''vimeo'', dot, exact ''com/'', Opt (Grp 1 (Seq (Star dot) (exact ''/''))), Grp 2 (plus (Cls digit)),
      Opt (Grp 3 (Star dot))]"

definition metacafe_rx :: rx where
  "metacafe_rx = seqs [exact ''metacafe'', dot, exact ''com/watch/'', Grp 1 (plus (Cls digit)), exact ''/'', Opt (Grp 2 (Star dot))]"

definition dailymotion_rx :: rx where
  "dailymotion_rx = seqs [exact ''dailymotion'', dot, exact ''com/video/'', Grp 1 (Star dot), Opt (exact ''/''), Grp 2 (Star dot)]"

definition vine_rx :: rx where
  "vine_rx = seqs [exact ''vine'', dot, exact ''co/v/'',
     Grp 1 (plus (Cls (\<lambda>c. word_char c \<and> c \<noteq> 95 \<or> one_of (codes ''?=-'') c)))]"

definition instagram_rx :: rx where
  "instagram_rx = seqs [Grp 1 (Alt (icase ''instagr.am'') (icase ''instagram.com'')), icase ''/p/'',
     Grp 2 (plus (Cls (nocase (\<lambda>c. word_char c \<or> c = 45)))), Opt (icase ''/'')]"

definition google_rx :: "rx list" where
  \<comment> \<open>\<open>(maps\.)?google\.([a-z]{2,3}(\.[a-z]{2})?)\/\<close>\<close>
  "google_rx = (let az = Cls (nocase letter) in
     [Opt (Grp 1 (icase ''maps.'')), icase ''google.'',
      Grp 2 (seqs [times 2 az, Opt az, Opt (Grp 3 (Seq (icase ''.'') (times 2 az)))]), icase ''/''])"

definition gmap_place_rx :: rx where
  "gmap_place_rx = seqs (google_rx @
     [Grp 4 (Alt
        (Grp 5 (Grp 6 (seqs [icase ''maps/'', Opt (Grp 7 (seqs [icase ''place/'', Grp 8 (Star dot), icase ''/''])), icase ''@'',
           Grp 9 (Star dot), icase '','', Grp 10 (seqs [plus (Cls digit), Opt dot, plus_lazy (Cls digit)]), icase ''z''])))
        (Grp 11 (icase ''?ll=''))),
      Opt (Grp 12 (Star dot))])"

definition gmap_search_rx :: rx where
  "gmap_search_rx = seqs (google_rx @ [Grp 4 (icase ''maps/search/''), Grp 5 (Star dot)])"

definition services :: "service list" where
  "services =
    [\<lparr>service_name = ''youtube'', matcher = youtube_rx, group_count = 8,
      params = [(''autoplay'', ONum 1), (''autohide'', ONum 1), (''fs'', ONum 1), (''rel'', ONum 0), (''hd'', ONum 1),
        (''wmode'', OText (codes ''transparent'')), (''enablejsapi'', ONum 1), (''html5'', ONum 1)],
      paramPlace = 8, media_type = codes ''iframe'', address = Template (codes ''//www.youtube.com/embed/$4''),
      thumb_of = Some (codes ''//img.youtube.com/vi/$4/hqdefault.jpg'')\<rparr>,
     \<lparr>service_name = ''vimeo'', matcher = vimeo_rx, group_count = 3,
      params = [(''autoplay'', ONum 1), (''hd'', ONum 1), (''show_title'', ONum 1), (''show_byline'', ONum 1),
        (''show_portrait'', ONum 0), (''fullscreen'', ONum 1), (''api'', ONum 1)],
      paramPlace = 3, media_type = codes ''iframe'', address = Template (codes ''//player.vimeo.com/video/$2''),
      thumb_of = None\<rparr>,
     \<lparr>service_name = ''metacafe'', matcher = metacafe_rx, group_count = 2, params = [], paramPlace = 0,
      media_type = codes ''iframe'', address = Template (codes ''//www.metacafe.com/embed/$1/?ap=1''), thumb_of = None\<rparr>,
     \<lparr>service_name = ''dailymotion'', matcher = dailymotion_rx, group_count = 2,
      params = [(''additionalInfos'', ONum 0), (''autoStart'', ONum 1)], paramPlace = 0,
      media_type = codes ''iframe'', address = Template (codes ''//www.dailymotion.com/embed/video/$1''), thumb_of = None\<rparr>,
     \<lparr>service_name = ''vine'', matcher = vine_rx, group_count = 1, params = [], paramPlace = 0,
      media_type = codes ''iframe'', address = Template (codes ''//vine.co/v/$1/embed/simple''), thumb_of = None\<rparr>,
     \<lparr>service_name = ''instagram'', matcher = instagram_rx, group_count = 2, params = [], paramPlace = 0,
      media_type = codes ''image'', address = Template (codes ''//$1/p/$2/media/?size=l''), thumb_of = None\<rparr>,
     \<lparr>service_name = ''gmap_place'', matcher = gmap_place_rx, group_count = 12, params = [], paramPlace = 0,
      media_type = codes ''iframe'', address = Map_place, thumb_of = None\<rparr>,
     \<lparr>service_name = ''gmap_search'', matcher = gmap_search_rx, group_count = 5, params = [], paramPlace = 0,
      media_type = codes ''iframe'', address = Map_search, thumb_of = None\<rparr>]"

subsection \<open>Addresses of maps\<close>

fun radix_value :: "nat \<Rightarrow> jstext \<Rightarrow> nat" where
  "radix_value b s = foldl (\<lambda>n c. b * n + (c - 48)) 0 s"

definition floor_number :: "jstext \<Rightarrow> nat option" where
  \<comment> \<open>\<open>Math.floor(t)\<close> for a text of digits with at most one other character among them, which is not the first;
     \<open>None\<close> for \<open>NaN\<close>\<close>
  "floor_number t =
     (let a = takeWhile digit t; r = dropWhile digit t
      in case r of
           [] \<Rightarrow> Some (radix_value 10 a)
         | c # b \<Rightarrow>
             if c = 46 then Some (radix_value 10 a)
             else if (c = 101 \<or> c = 69) \<and> b \<noteq> [] then Some (radix_value 10 a * 10 ^ radix_value 10 b)
             else if a = [48] \<and> (c = 120 \<or> c = 88) \<and> b \<noteq> [] then Some (radix_value 16 b)
             else if a = [48] \<and> (c = 111 \<or> c = 79) \<and> b \<noteq> [] \<and> list_all (\<lambda>x. x < 56) b then Some (radix_value 8 b)
             else if a = [48] \<and> (c = 98 \<or> c = 66) \<and> b \<noteq> [] \<and> list_all (\<lambda>x. x < 50) b then Some (radix_value 2 b)
             else None)"

definition shown_text :: "jstext option \<Rightarrow> jstext" where
  \<comment> \<open>a group in a concatenation of texts\<close>
  "shown_text v = (case v of None \<Rightarrow> codes ''undefined'' | Some t \<Rightarrow> t)"

definition map_place_url :: "(nat \<Rightarrow> jstext option) \<Rightarrow> jstext" where
  "map_place_url rez =
     (let r12 = rez 12
      in codes ''//maps.google.'' @ shown_text (rez 2) @ codes ''/?ll='' @
         (if or_empty (rez 9) \<noteq> [] then
            or_empty (rez 9) @ codes ''&z='' @
            (case floor_number (or_empty (rez 10)) of None \<Rightarrow> codes ''NaN'' | Some n \<Rightarrow> dec_text n) @
            (case r12 of None \<Rightarrow> [] | Some t \<Rightarrow> (case t of c # r \<Rightarrow> if c = 47 then 38 # r else t | [] \<Rightarrow> []))
          else shown_text r12) @
         codes ''&output='' @
         (if (case find_text (codes ''layer=c'') (or_empty r12) of Some (Suc _) \<Rightarrow> True | _ \<Rightarrow> False)
          then codes ''svembed'' else codes ''embed''))"

definition map_search_url :: "(nat \<Rightarrow> jstext option) \<Rightarrow> jstext" where
  "map_search_url rez =
     codes ''//maps.google.'' @ shown_text (rez 2) @ codes ''/maps?q='' @
     replace_first (codes ''api=1'') [] (replace_first (codes ''query='') (codes ''q='') (or_empty (rez 5))) @
     codes ''&output=embed''"

subsection \<open>The parameters of an address\<close>

fun pluses_space :: "jstext \<Rightarrow> jstext" where
  "pluses_space s = map (\<lambda>c. if c = 43 then 32 else c) s"

fun chars_of :: "jstext \<Rightarrow> string" where
  "chars_of s = map char_of s"

fun read_params :: "jstext list \<Rightarrow> oprops \<Rightarrow> oprops res" where
  \<comment> \<open>the loop over \<open>urlParams\<close>\<close>
  "read_params [] obj = Inr obj"
| "read_params (q # qs) obj =
     (case take 2 (split_text [61] q) of
        [k, v] \<Rightarrow> andThen (decodeURIComponent (pluses_space v)) (\<lambda>t.
                   read_params qs (AList.update (chars_of k) (OText t) obj))
      | _ \<Rightarrow> read_params qs obj)"

definition url_params :: "service \<Rightarrow> (nat \<Rightarrow> jstext option) \<Rightarrow> oprops res" where
  "url_params p rez =
     (if paramPlace p \<noteq> 0 \<and> or_empty (rez (paramPlace p)) \<noteq> [] then
        (let t = or_empty (rez (paramPlace p));
             t = (if hd t = 63 then tl t else t)
         in read_params (split_text [38] t) [])
      else Inr [])"

subsection \<open>The handler of \<open>objectNeedsType\<close>\<close>

record gitem =
  \<comment> \<open>an item of a group\<close>
  g_src :: oval
  g_type :: oval
  g_opts :: oprops
  g_index :: nat

definition service_params :: "service \<Rightarrow> gitem \<Rightarrow> oprops \<Rightarrow> oprops" where
  "service_params p item paramObj =
     (let media = old_map (field (g_opts item) ''media'');
          own = old_map (field (old_map (field media (service_name p))) ''params'');
          defs = extend_props (params p) own
      in extend_props (extend_props defs (old_map (field (g_opts item) (service_name p)))) paramObj)"

definition service_urls ::
  "(nat \<Rightarrow> oval) \<Rightarrow> service \<Rightarrow> gitem \<Rightarrow> (nat \<Rightarrow> jstext option) \<Rightarrow> (jstext \<times> oval) res" where
  \<comment> \<open>the address and the thumbnail\<close>
  "service_urls call p item rez =
     andThen (url_params p rez) (\<lambda>paramObj.
       let rs = map rez [0..<Suc (group_count p)];
           thumb = (case thumb_of p of None \<Rightarrow> OUndef | Some t \<Rightarrow> OText (format t rs []))
       in andThen
            (case address p of
               Map_place \<Rightarrow> Inr (map_place_url rez)
             | Map_search \<Rightarrow> Inr (map_search_url rez)
             | Template t \<Rightarrow> andThen (param_text call (service_params p item paramObj)) (\<lambda>ps. Inr (format t rs ps)))
            (\<lambda>url. Inr (if service_name p = ''vimeo'' then replace_first (codes ''&%23'') [35] url else url, thumb)))"

fun find_service :: "service list \<Rightarrow> jstext \<Rightarrow> (service \<times> (nat \<Rightarrow> jstext option)) option" where
  \<comment> \<open>the loop over the services ends at the first that matches\<close>
  "find_service [] url = None"
| "find_service (p # ps) url =
     (case regex_exec (matcher p) url of
        None \<Rightarrow> find_service ps url
      | Some m \<Rightarrow> Some (p, group_text url m))"

definition jquery_length :: "oval \<Rightarrow> nat" where
  "jquery_length v = (case v of OQuery es \<Rightarrow> length es | _ \<Rightarrow> 0)"

definition media_item :: "jstext \<Rightarrow> jstext \<Rightarrow> oval \<Rightarrow> gitem \<Rightarrow> gitem" where
  "media_item url ty thumb item =
     (let opts = g_opts item;
          opts = (if \<not> otruthy (field opts ''thumb'') \<and> jquery_length (field opts ''$thumb'') = 0
                  then AList.update ''thumb'' thumb opts else opts);
          opts = (if ty = codes ''iframe'' then
                    (let opts = extend_props opts
                          [(''iframe'', OMap [(''preload'', OBool False), (''attr'', OMap [(''scrolling'', OText (codes ''no''))])])]
                     in AList.update ''slideClass''
                          (OText (shown_as (field opts ''slideClass'') @ codes '' fancybox-slide--video'')) opts)
                  else opts)
      in item\<lparr>g_src := OText url, g_type := OText ty, g_opts := opts\<rparr>)"

definition objectNeedsType :: "(nat \<Rightarrow> oval) \<Rightarrow> gitem \<Rightarrow> gitem res" where
  \<comment> \<open>\<open>match\<close> is not a function of another value than a text\<close>
  "objectNeedsType call item =
     (case (if otruthy (g_src item) then g_src item else OText []) of
        OText url \<Rightarrow>
          (case find_service services url of
             None \<Rightarrow> Inr (if url \<noteq> [] then item\<lparr>g_type := field (g_opts item) ''defaultType''\<rparr> else item)
           | Some (p, rez) \<Rightarrow>
               andThen (service_urls call p item rez) (\<lambda>(url, thumb). Inr (media_item url (media_type p) thumb item)))
      | _ \<Rightarrow> Inl TypeError)"

end
