(* ===== verification/Fancybox_Items.thy ===== *)
theory Fancybox_Items
  imports Fancybox_Media
begin

section \<open>jquery.fancybox.js: the items of a group\<close>

text \<open>
  \<open>createGroup\<close>: what the page gives, plain objects, elements and texts, becomes items with a type, an address
  and a full set of options.  A function that is given as a caption is called with the number of the item;
  what it answers is a parameter.  The plain objects of the page are taken to be different from each other:
  the code writes the options of an item into the object that it is given.
\<close>

datatype content = Plain oprops | Node elem | Other jstext
  \<comment> \<open>a plain object, an element or a jQuery object of one, the text of anything else\<close>

fun elem_data :: "elem \<Rightarrow> oprops" where
  "elem_data (Elem n attrs data imgs) = data"

fun elem_attr :: "elem \<Rightarrow> string \<Rightarrow> oval" where
  "elem_attr (Elem n attrs data imgs) k = (case map_of attrs k of None \<Rightarrow> OUndef | Some t \<Rightarrow> OText t)"

fun elem_imgs :: "elem \<Rightarrow> elem list" where
  "elem_imgs (Elem n attrs data imgs) = imgs"

subsection \<open>Step 1: an object and its options\<close>

definition raw_item :: "content \<Rightarrow> oval \<times> oval \<times> oprops" where
  \<comment> \<open>source, type and own options\<close>
  "raw_item item =
     (case item of
        Plain ps \<Rightarrow> (field ps ''src'', field ps ''type'',
          (let o1 = field ps ''opts'' in if otruthy o1 then old_map o1 else ps))
      | Node e \<Rightarrow>
          (let opts = elem_data e;
               opts = assign_props opts (old_map (field opts ''options''));
               opts = AList.update ''$orig'' (OQuery [e]) opts;
               src = (if otruthy (field opts ''src'') then field opts ''src'' else elem_attr e ''href'')
           in if \<not> otruthy src then (OQuery [e], OText (codes ''inline''), opts) else (src, OUndef, opts))
      | Other t \<Rightarrow> (OText t, OText (codes ''html''), []))"

definition full_opts :: "oprops \<Rightarrow> oprops \<Rightarrow> oprops" where
  "full_opts self_opts opts =
     (let all = extend_props (extend_props [] self_opts) opts
      in case field opts ''buttons'' of OList bs \<Rightarrow> AList.update ''buttons'' (OList bs) all | _ \<Rightarrow> all)"

subsection \<open>Step 2: the type\<close>

definition image_rx :: rx where
  "image_rx = Alt
     (Grp 1 (seqs [Bos, icase ''data:image/'', Star (Cls (nocase (\<lambda>c. letter c \<or> digit c \<or> one_of (codes ''+/='') c))), icase '','']))
     (Grp 2 (seqs [icase ''.'',
        Grp 3 (alts [Seq (icase ''jp'') (Grp 4 (alts [icase ''e'', icase ''g'', icase ''eg''])), icase ''gif'', icase ''png'', icase ''bmp'', icase ''webp'',
                     icase ''svg'', icase ''ico'']),
        Opt (Grp 5 (Seq (Grp 6 (Alt (icase ''?'') (icase ''#''))) (Star dot))), Eos]))"

definition pdf_rx :: rx where
  "pdf_rx = seqs [icase ''.'', Grp 1 (icase ''pdf''), Opt (Grp 2 (Seq (Grp 3 (Alt (icase ''?'') (icase ''#''))) (Star dot))), Eos]"

definition guess_type :: "jstext \<Rightarrow> oval" where
  "guess_type src =
     (if regex_test image_rx src then OText (codes ''image'')
      else if regex_test pdf_rx src then OText (codes ''pdf'')
      else if src \<noteq> [] \<and> hd src = 35 then OText (codes ''inline'')
      else OUndef)"

definition type_of_item :: "oval \<Rightarrow> oval \<Rightarrow> oval res" where
  \<comment> \<open>\<open>ty\<close>: the type that is given; \<open>match\<close> is not a function of another value than a text\<close>
  "type_of_item ty src =
     (if otruthy ty then Inr ty
      else if \<not> otruthy src then Inr ty
      else (case src of OText t \<Rightarrow> Inr (let g = guess_type t in if g = OUndef then ty else g) | _ \<Rightarrow> Inl TypeError))"

subsection \<open>Step 3: adjustments\<close>

text \<open>An option \<open>$orig\<close> or \<open>$thumb\<close> is a jQuery object, if it is given.\<close>

definition drop_empty :: "string \<Rightarrow> oprops \<Rightarrow> oprops" where
  "drop_empty k opts = (if otruthy (field opts k) \<and> jquery_length (field opts k) = 0 then AList.delete k opts else opts)"

definition thumb_opts :: "oprops \<Rightarrow> oprops" where
  "thumb_opts opts =
     (let opts = drop_empty ''$orig'' opts;
          opts = (if \<not> otruthy (field opts ''$thumb'') \<and> otruthy (field opts ''$orig'') then
                    AList.update ''$thumb''
                      (OQuery (case field opts ''$orig'' of OQuery (e # _) \<Rightarrow> take 1 (elem_imgs e) | _ \<Rightarrow> [])) opts
                  else opts)
      in drop_empty ''$thumb'' opts)"

definition caption_opts :: "(nat \<Rightarrow> nat \<Rightarrow> oval) \<Rightarrow> nat \<Rightarrow> oprops \<Rightarrow> oprops \<Rightarrow> oprops" where
  "caption_opts call i self_opts opts =
     (let opts = (case field opts ''caption'' of OFun n \<Rightarrow> AList.update ''caption'' (call n i) opts | _ \<Rightarrow> opts);
          opts = (case field self_opts ''caption'' of OFun n \<Rightarrow> AList.update ''caption'' (call n i) opts | _ \<Rightarrow> opts)
      in case field opts ''caption'' of
           OQuery es \<Rightarrow> opts
         | OUndef \<Rightarrow> AList.update ''caption'' (OText []) opts
         | v \<Rightarrow> AList.update ''caption'' (OText (shown_as v)) opts)"

definition space :: "nat \<Rightarrow> bool" where
  \<comment> \<open>\<open>\s\<close>\<close>
  "space n \<longleftrightarrow> 9 \<le> n \<and> n \<le> 13 \<or> 8192 \<le> n \<and> n \<le> 8202 \<or> n \<in> set [32, 160, 5760, 8232, 8233, 8239, 8287, 12288, 65279]"

definition split_spaces :: "jstext \<Rightarrow> jstext list" where
  \<comment> \<open>\<open>split(/\s+/, 2)\<close>\<close>
  "split_spaces s =
     (let a = takeWhile (\<lambda>c. \<not> space c) s; r = dropWhile space (dropWhile (\<lambda>c. \<not> space c) s)
      in if a = s then [s] else [a, takeWhile (\<lambda>c. \<not> space c) r])"

definition ajax_filter :: "oval \<Rightarrow> oval \<Rightarrow> gitem \<Rightarrow> gitem res" where
  \<comment> \<open>\<open>src\<close>: the source before step 2\<close>
  "ajax_filter ty src item =
     (if ty \<noteq> OText (codes ''ajax'') then Inr item
      else (case (if otruthy src then src else OText []) of
          OText s \<Rightarrow>
            (case split_spaces s of
               [a, b] \<Rightarrow> Inr (item\<lparr>g_src := OText a, g_opts := AList.update ''filter'' (OText b) (g_opts item)\<rparr>)
             | _ \<Rightarrow> Inr item)
        | _ \<Rightarrow> Inl TypeError))"

definition small_button :: "oval \<Rightarrow> oprops \<Rightarrow> oprops" where
  "small_button ty opts =
     (if field opts ''smallBtn'' = OText (codes ''auto'') then
        (if ty \<in> set (map (\<lambda>t. OText (codes t)) [''html'', ''inline'', ''ajax''])
         then AList.update ''smallBtn'' (OBool True) (AList.update ''toolbar'' (OBool False) opts)
         else AList.update ''smallBtn'' (OBool False) opts)
      else opts)"

definition pdf_item :: "oval \<Rightarrow> gitem \<Rightarrow> gitem res" where
  \<comment> \<open>the script is strict: a property of a primitive value cannot be set\<close>
  "pdf_item ty item =
     (if ty \<noteq> OText (codes ''pdf'') then Inr item
      else (let item = item\<lparr>g_type := OText (codes ''iframe'')\<rparr>
            in case field (g_opts item) ''iframe'' of
                 OMap ps \<Rightarrow> Inr (item\<lparr>g_opts := AList.update ''iframe'' (OMap (AList.update ''preload'' (OBool False) ps)) (g_opts item)\<rparr>)
               | OFun n \<Rightarrow> Inr item
               | OList xs \<Rightarrow> Inr item
               | OQuery es \<Rightarrow> Inr item
               | _ \<Rightarrow> Inl TypeError))"

definition modal_off :: oprops where
  "modal_off = [(''infobar'', ONum 0), (''toolbar'', ONum 0), (''smallBtn'', ONum 0), (''keyboard'', ONum 0),
     (''slideShow'', ONum 0), (''fullScreen'', ONum 0), (''thumbs'', ONum 0), (''touch'', ONum 0),
     (''clickContent'', OBool False), (''clickSlide'', OBool False), (''clickOutside'', OBool False),
     (''dblclickContent'', OBool False), (''dblclickSlide'', OBool False), (''dblclickOutside'', OBool False)]"

definition modal_opts :: "oprops \<Rightarrow> oprops" where
  "modal_opts opts = (if otruthy (field opts ''modal'') then extend_props opts modal_off else opts)"

subsection \<open>A group\<close>

definition make_item :: "(nat \<Rightarrow> nat \<Rightarrow> oval) \<Rightarrow> oprops \<Rightarrow> content \<Rightarrow> nat \<Rightarrow> gitem res" where
  "make_item call self_opts item i =
     (let (src, ty0, own) = raw_item item;
          opts = full_opts self_opts own;
          given = (if otruthy ty0 then ty0 else field opts ''type'')
      in andThen (type_of_item given src) (\<lambda>ty.
         let g = \<lparr>g_src = src, g_type = (if otruthy ty then ty else ty0), g_opts = opts, g_index = i\<rparr>
         in andThen (if otruthy ty then Inr g else objectNeedsType (\<lambda>n. call n i) g) (\<lambda>g.
            let g = g\<lparr>g_opts := caption_opts call i self_opts (thumb_opts (g_opts g))\<rparr>
            in andThen (ajax_filter ty src g) (\<lambda>g.
               andThen (pdf_item ty (g\<lparr>g_opts := small_button ty (g_opts g)\<rparr>)) (\<lambda>g.
                 Inr (g\<lparr>g_opts := modal_opts (g_opts g)\<rparr>))))))"

fun create_from :: "(nat \<Rightarrow> nat \<Rightarrow> oval) \<Rightarrow> oprops \<Rightarrow> nat \<Rightarrow> content list \<Rightarrow> gitem list res" where
  "create_from call self_opts i [] = Inr []"
| "create_from call self_opts i (c # cs) =
     andThen (make_item call self_opts c i) (\<lambda>g.
       andThen (create_from call self_opts (Suc i) cs) (\<lambda>gs. Inr (g # gs)))"

definition createGroup :: "(nat \<Rightarrow> nat \<Rightarrow> oval) \<Rightarrow> oprops \<Rightarrow> content list \<Rightarrow> gitem list res" where
  "createGroup call self_opts cs = create_from call self_opts 0 cs"

end
