(* ===== verification/Fancybox_Item_Props.thy ===== *)
theory Fancybox_Item_Props
  imports Fancybox_Items
begin

section \<open>jquery.fancybox.js: the items of a group, what holds\<close>

text \<open>
  The types that are guessed from addresses, by way of the languages of the parts of the regular expressions,
  and what \<open>createGroup\<close> makes of the options.
\<close>

subsection \<open>Languages of expressions without anchors\<close>

definition gap :: "nat list \<Rightarrow> nat \<Rightarrow> nat \<Rightarrow> nat list \<Rightarrow> bool" where
  \<comment> \<open>\<open>u\<close> stands between the positions \<open>i\<close> and \<open>j\<close>\<close>
  "gap s i j u \<longleftrightarrow> i + length u = j \<and> j \<le> length s \<and> drop i s = u @ drop j s"

definition conc :: "nat list set \<Rightarrow> nat list set \<Rightarrow> nat list set" where
  "conc A B = {u @ v | u v. u \<in> A \<and> v \<in> B}"

definition spells :: "nat list \<Rightarrow> rx \<Rightarrow> nat list set \<Rightarrow> bool" where
  "spells s r W \<longleftrightarrow> (\<forall>i j. i \<le> length s \<longrightarrow> matches s r i j = (\<exists>u \<in> W. gap s i j u))"

lemma gap_append: "gap s i k (u @ v) \<longleftrightarrow> (\<exists>j. gap s i j u \<and> gap s j k v)"
proof
  assume g: "gap s i k (u @ v)"
  then have d: "drop i s = u @ v @ drop k s" "i + length u + length v = k" "k \<le> length s" by (simp_all add: gap_def)
  have "drop (i + length u) s = drop (length u) (drop i s)" by (simp add: add.commute)
  then have e: "drop (i + length u) s = v @ drop k s" by (simp add: d(1))
  have "gap s i (i + length u) u" "gap s (i + length u) k v" using d e by (simp_all add: gap_def)
  then show "\<exists>j. gap s i j u \<and> gap s j k v" by blast
next
  assume "\<exists>j. gap s i j u \<and> gap s j k v"
  then show "gap s i k (u @ v)" by (auto simp: gap_def)
qed

lemma gap_Nil [simp]: "gap s i j [] \<longleftrightarrow> j = i \<and> i \<le> length s"
  by (auto simp: gap_def)

lemma gap_single: "gap s i j [c] \<longleftrightarrow> i < length s \<and> j = Suc i \<and> s ! i = c"
  by (auto simp: gap_def Cons_nth_drop_Suc [symmetric])

lemma gap_all: "(\<exists>i. i \<le> length s \<and> gap s i (length s) u) \<longleftrightarrow> (\<exists>a. s = a @ u)"
proof
  assume "\<exists>i. i \<le> length s \<and> gap s i (length s) u"
  then obtain i where "drop i s = u" by (auto simp: gap_def)
  then show "\<exists>a. s = a @ u" by (metis append_take_drop_id)
next
  assume "\<exists>a. s = a @ u"
  then obtain a where "s = a @ u" ..
  then have "gap s (length a) (length s) u \<and> length a \<le> length s" by (simp add: gap_def)
  then show "\<exists>i. i \<le> length s \<and> gap s i (length s) u" by blast
qed

lemma gap_first: "(\<exists>j. gap s 0 j u) \<longleftrightarrow> (\<exists>b. s = u @ b)"
proof
  assume "\<exists>j. gap s 0 j u"
  then show "\<exists>b. s = u @ b" by (auto simp: gap_def)
next
  assume "\<exists>b. s = u @ b"
  then obtain b where "s = u @ b" ..
  then have "gap s 0 (length u) u" by (simp add: gap_def)
  then show "\<exists>j. gap s 0 j u" ..
qed

lemma spells_eps: "spells s Eps {[]}"
  by (auto simp: spells_def matches_simps)

lemma spells_cls: "spells s (Cls p) {[c] | c. p c}"
  by (auto simp: spells_def matches_simps gap_single)

lemma spells_seq:
  assumes "spells s a A" "spells s b B"
  shows "spells s (Seq a b) (conc A B)"
  unfolding spells_def
proof (intro allI impI)
  fix i k assume i: "i \<le> length s"
  have "matches s (Seq a b) i k \<longleftrightarrow> (\<exists>j. (\<exists>u \<in> A. gap s i j u) \<and> matches s b j k)"
    using assms(1) i by (simp add: matches_simps spells_def)
  also have "\<dots> \<longleftrightarrow> (\<exists>j. (\<exists>u \<in> A. gap s i j u) \<and> (\<exists>v \<in> B. gap s j k v))"
    using assms(2) unfolding spells_def gap_def by blast
  also have "\<dots> \<longleftrightarrow> (\<exists>u \<in> conc A B. gap s i k u)"
  proof -
    have "(\<exists>u \<in> conc A B. gap s i k u) \<longleftrightarrow> (\<exists>u \<in> A. \<exists>v \<in> B. gap s i k (u @ v))" unfolding conc_def by blast
    then show ?thesis unfolding gap_append by blast
  qed
  finally show "matches s (Seq a b) i k = (\<exists>u \<in> conc A B. gap s i k u)" .
qed

lemma spells_alt: "spells s a A \<Longrightarrow> spells s b B \<Longrightarrow> spells s (Alt a b) (A \<union> B)"
  by (auto simp: spells_def matches_simps)

lemma spells_grp: "spells s a A \<Longrightarrow> spells s (Grp n a) A"
  by (simp add: spells_def matches_simps)

lemma spells_opt: "spells s a A \<Longrightarrow> spells s (Opt a) (insert [] A)"
  by (auto simp: spells_def matches_simps)

lemma ex_list: "(\<exists>u. P u) \<longleftrightarrow> P [] \<or> (\<exists>c u. P (c # u))"
  by (metis list.exhaust)

lemma spells_star: "spells s (Star (Cls p)) {u. list_all p u}"
  unfolding spells_def
proof (intro allI impI)
  fix i k assume "i \<le> length s"
  then show "matches s (Star (Cls p)) i k = (\<exists>u \<in> {u. list_all p u}. gap s i k u)"
  proof (induction "length s - i" arbitrary: i)
    case 0
    then have i: "i = length s" by simp
    have "matches s (Star (Cls p)) i k \<longleftrightarrow> k = i"
      using star_iff [OF 0(2), of "Cls p" k] by (auto simp: matches_simps i)
    moreover have "(\<exists>u \<in> {u. list_all p u}. gap s i k u) \<longleftrightarrow> k = i"
      by (auto simp: i gap_def intro: bexI [of _ "[]"])
    ultimately show ?case by simp
  next
    case (Suc n)
    then have lt: "i < length s" by simp
    have ih: "matches s (Star (Cls p)) (Suc i) k = (\<exists>u \<in> {u. list_all p u}. gap s (Suc i) k u)"
      using Suc.hyps(1) [of "Suc i"] Suc.hyps(2) lt by simp
    have "matches s (Star (Cls p)) i k \<longleftrightarrow> k = i \<or> p (s ! i) \<and> matches s (Star (Cls p)) (Suc i) k"
      using star_iff [OF Suc.prems, of "Cls p" k] lt by (auto simp: matches_simps)
    also have "\<dots> \<longleftrightarrow> (\<exists>u \<in> {u. list_all p u}. gap s i k u)"
    proof -
      have "gap s i k (c # u) \<longleftrightarrow> s ! i = c \<and> gap s (Suc i) k u" for c u
        using gap_append [of s i k "[c]" u] lt by (auto simp: gap_single)
      then have "(\<exists>u. list_all p u \<and> gap s i k u) \<longleftrightarrow> k = i \<or> (\<exists>c u. p c \<and> list_all p u \<and> s ! i = c \<and> gap s (Suc i) k u)"
        using Suc.prems ex_list [of "\<lambda>u. list_all p u \<and> gap s i k u"] by auto
      then show ?thesis using ih by auto
    qed
    finally show ?case .
  qed
qed

lemma nocase_eq: "nocase (\<lambda>x. x = c) d \<longleftrightarrow> fold_case d = fold_case c"
  by (auto simp: nocase_def fold_case_def)

definition caseless :: "nat list \<Rightarrow> nat list set" where
  "caseless t = {u. map fold_case u = map fold_case t}"

lemma conc_single: "x # u \<in> conc {[e] | e. P e} B \<longleftrightarrow> P x \<and> u \<in> B" "[] \<notin> conc {[e] | e. P e} B"
proof -
  have "x # u \<in> conc {[e] | e. P e} B" if "P x" "u \<in> B"
    unfolding conc_def by (rule CollectI, rule exI [of _ "[x]"], rule exI [of _ u]) (simp add: that)
  moreover have "P x \<and> u \<in> B" if "x # u \<in> conc {[e] | e. P e} B" using that by (auto simp: conc_def)
  ultimately show "x # u \<in> conc {[e] | e. P e} B \<longleftrightarrow> P x \<and> u \<in> B" by blast
  show "[] \<notin> conc {[e] | e. P e} B" by (auto simp: conc_def)
qed

lemma caseless_Cons: "caseless (c # t) = conc {[e] | e. nocase (\<lambda>x. x = c) e} (caseless t)"
proof -
  have "u \<in> caseless (c # t) \<longleftrightarrow> u \<in> conc {[e] | e. nocase (\<lambda>x. x = c) e} (caseless t)" for u
    by (cases u) (auto simp: caseless_def conc_single nocase_eq)
  then show ?thesis by blast
qed

lemma spells_lit: "spells s (lit True t) (caseless t)"
proof (induction True t rule: lit.induct)
  case 1
  have "caseless [] = {[]}" by (auto simp: caseless_def)
  then show ?case using spells_eps by simp
next
  case (2 c)
  have "caseless [c] = {[d] | d. nocase (\<lambda>x. x = c) d}" by (auto simp: caseless_def nocase_eq)
  then show ?case using spells_cls [of s "nocase (\<lambda>x. x = c)"] by simp
next
  case (3 c d ds)
  show ?case using caseless_Cons [of c "d # ds"] spells_seq [OF spells_cls [of s "nocase (\<lambda>x. x = c)"] 3] by simp
qed

lemma caseless_append: "caseless (t @ u) = conc (caseless t) (caseless u)"
proof
  show "conc (caseless t) (caseless u) \<subseteq> caseless (t @ u)" by (auto simp: caseless_def conc_def)
  show "caseless (t @ u) \<subseteq> conc (caseless t) (caseless u)"
  proof
    fix w assume "w \<in> caseless (t @ u)"
    then have "map fold_case w = map fold_case t @ map fold_case u" by (simp add: caseless_def)
    then obtain a b where "w = a @ b" "map fold_case a = map fold_case t" "map fold_case b = map fold_case u"
      by (auto simp: map_eq_append_conv)
    then show "w \<in> conc (caseless t) (caseless u)" by (auto simp: caseless_def conc_def)
  qed
qed

subsection \<open>The types of addresses\<close>

definition plain_char :: "nat \<Rightarrow> bool" where
  \<comment> \<open>not the end of a line\<close>
  "plain_char c \<longleftrightarrow> c \<noteq> 10 \<and> c \<noteq> 13 \<and> c \<noteq> 8232 \<and> c \<noteq> 8233"

definition has_ext :: "string list \<Rightarrow> jstext \<Rightarrow> bool" where
  \<comment> \<open>the text ends with one of the extensions, in any case, and possibly a query or a fragment\<close>
  "has_ext exts s \<longleftrightarrow> (\<exists>a e q. s = a @ 46 # e @ q \<and> list_ex (\<lambda>x. map fold_case e = map fold_case (codes x)) exts \<and>
     (q = [] \<or> hd q \<in> {35, 63} \<and> list_all plain_char (tl q)))"

definition plain_data :: "jstext \<Rightarrow> bool" where
  \<comment> \<open>between \<open>data:image/\<close> and the first comma only letters, digits and \<open>+ / =\<close>: no semicolon, so that this is not
    what addresses of the form \<open>data:image/png;base64,\<close> look like\<close>
  "plain_data s \<longleftrightarrow> (\<exists>d b r. s = d @ b @ 44 # r \<and> map fold_case d = map fold_case (codes ''data:image/'') \<and>
     list_all (\<lambda>c. letter c \<or> letter (c + 32) \<and> c < 91 \<or> digit c \<or> c \<in> {43, 47, 61}) b)"

definition image_exts :: "string list" where
  "image_exts = [''jpg'', ''jpe'', ''jpeg'', ''gif'', ''png'', ''bmp'', ''webp'', ''svg'', ''ico'']"

lemma caseless_sign: "fold_case c = c \<Longrightarrow> \<not> (97 \<le> c \<and> c \<le> 122) \<Longrightarrow> \<not> (65 \<le> c \<and> c \<le> 90) \<Longrightarrow> caseless [c] = {[c]}"
  by (auto simp: caseless_def fold_case_def split: if_splits)

definition tails :: "nat list set" where
  "tails = {q. q = [] \<or> hd q \<in> {35, 63} \<and> list_all plain_char (tl q)}"

lemma spells_tail: "spells s (Opt (Grp n (Seq (Grp m (Alt (icase ''?'') (icase ''#''))) (Star dot)))) tails"
proof -
  have c: "caseless (codes ''?'') = {[63]}" "caseless (codes ''#'') = {[35]}"
    by (simp_all add: codes_def caseless_sign fold_case_def)
  have a: "spells s (Alt (icase ''?'') (icase ''#'')) {[e] | e. e \<in> {35, 63}}"
    using spells_alt [OF spells_lit [of s "codes ''?''"] spells_lit [of s "codes ''#''"]] unfolding c
    by (rule back_subst [of "spells s _"]) auto
  have d: "spells s (Star dot) {u. list_all plain_char u}"
    using spells_star [of s plain_char] unfolding dot_def plain_char_def .
  have e: "insert [] (conc {[e] | e. e \<in> {35, 63}} {u. list_all plain_char u}) = tails"
  proof -
    have "q \<in> insert [] (conc {[e] | e. e \<in> {35, 63}} {u. list_all plain_char u}) \<longleftrightarrow> q \<in> tails" for q
      by (cases q) (auto simp: conc_single tails_def)
    then show ?thesis by blast
  qed
  show ?thesis using spells_opt [OF spells_grp [OF spells_seq [OF spells_grp [OF a] d]]] unfolding e .
qed

lemma suffix_match:
  assumes "spells s d {[46]}" "spells s e E" "spells s t T"
  shows "(\<exists>i j. j \<le> length s \<and> matches s (Seq d (Seq e (Seq t Eos))) i j) \<longleftrightarrow>
    (\<exists>a x q. s = a @ 46 # x @ q \<and> x \<in> E \<and> q \<in> T)"
proof -
  let ?W = "conc {[46]} (conc E T)"
  have w: "spells s (Seq d (Seq e t)) ?W" by (intro spells_seq assms)
  have "matches s (Seq d (Seq e (Seq t Eos))) i j \<longleftrightarrow> j = length s \<and> matches s (Seq d (Seq e t)) i (length s)" for i j
    by (auto simp: matches_simps)
  then have "(\<exists>i j. j \<le> length s \<and> matches s (Seq d (Seq e (Seq t Eos))) i j) \<longleftrightarrow>
    (\<exists>i. i \<le> length s \<and> matches s (Seq d (Seq e t)) i (length s))"
    using matches_order by blast
  also have "\<dots> \<longleftrightarrow> (\<exists>i. i \<le> length s \<and> (\<exists>u \<in> ?W. gap s i (length s) u))" using w by (auto simp: spells_def)
  also have "\<dots> \<longleftrightarrow> (\<exists>u \<in> ?W. \<exists>a. s = a @ u)" using gap_all by blast
  also have "\<dots> \<longleftrightarrow> (\<exists>a x q. s = a @ 46 # x @ q \<and> x \<in> E \<and> q \<in> T)" by (auto simp: conc_def)
  finally show ?thesis .
qed

lemma spells_dot_sign: "spells s (icase ''.'') {[46]}"
  using spells_lit [of s "codes ''.''"] by (simp add: codes_def caseless_sign fold_case_def)

lemma conc_Un: "conc A (X \<union> Y) = conc A X \<union> conc A Y"
  by (auto simp: conc_def)

lemma spells_images:
  "spells s (alts [Seq (icase ''jp'') (Grp 4 (alts [icase ''e'', icase ''g'', icase ''eg''])), icase ''gif'', icase ''png'', icase ''bmp'', icase ''webp'', icase ''svg'', icase ''ico''])
     {x. list_ex (\<lambda>t. map fold_case x = map fold_case (codes t)) image_exts}"
proof -
  let ?c = "\<lambda>t. caseless (codes t)"
  have jp: "conc (?c ''jp'') (?c ''e'' \<union> (?c ''g'' \<union> ?c ''eg'')) = ?c ''jpe'' \<union> (?c ''jpg'' \<union> ?c ''jpeg'')"
    by (simp add: conc_Un caseless_append [symmetric] codes_def)
  have e: "{x. list_ex (\<lambda>t. map fold_case x = map fold_case (codes t)) image_exts} =
      conc (?c ''jp'') (?c ''e'' \<union> (?c ''g'' \<union> ?c ''eg'')) \<union> (?c ''gif'' \<union> (?c ''png'' \<union> (?c ''bmp'' \<union> (?c ''webp'' \<union> (?c ''svg'' \<union> ?c ''ico'')))))"
    unfolding jp by (simp add: image_exts_def caseless_def) blast
  show ?thesis unfolding e alts.simps by (intro spells_alt spells_seq spells_grp spells_lit)
qed

lemma data_class:
  "nocase (\<lambda>c. letter c \<or> digit c \<or> one_of (codes ''+/='') c) c \<longleftrightarrow>
   letter c \<or> letter (c + 32) \<and> c < 91 \<or> digit c \<or> c \<in> {43, 47, 61}"
  by (auto simp: nocase_def letter_def digit_def one_of_def codes_def)

lemma conc_ex: "(\<exists>u \<in> conc A X. P u) \<longleftrightarrow> (\<exists>a \<in> A. \<exists>x \<in> X. P (a @ x))"
  unfolding conc_def by blast

lemma plain_data_matches:
  "(\<exists>i j. j \<le> length s \<and> matches s (seqs [Bos, icase ''data:image/'',
      Star (Cls (nocase (\<lambda>c. letter c \<or> digit c \<or> one_of (codes ''+/='') c))), icase '','']) i j) \<longleftrightarrow> plain_data s"
proof -
  let ?S = "Star (Cls (nocase (\<lambda>c. letter c \<or> digit c \<or> one_of (codes ''+/='') c)))"
  let ?W = "conc (caseless (codes ''data:image/'')) (conc {u. list_all (nocase (\<lambda>c. letter c \<or> digit c \<or> one_of (codes ''+/='') c)) u} {[44]})"
  have c: "spells s (icase '','') {[44]}"
    using spells_lit [of s "codes '',''"] by (simp add: codes_def caseless_sign fold_case_def)
  have w: "spells s (Seq (icase ''data:image/'') (Seq ?S (icase '',''))) ?W"
    by (intro spells_seq spells_lit spells_star c)
  have "(\<exists>i j. j \<le> length s \<and> matches s (seqs [Bos, icase ''data:image/'', ?S, icase '','']) i j) \<longleftrightarrow>
    (\<exists>j. j \<le> length s \<and> matches s (Seq (icase ''data:image/'') (Seq ?S (icase '',''))) 0 j)"
    by (simp only: seqs.simps matches_simps(3) matches_simps(7)) blast
  also have "\<dots> \<longleftrightarrow> (\<exists>u \<in> ?W. \<exists>j. gap s 0 j u)" using w unfolding spells_def gap_def by blast
  also have "\<dots> \<longleftrightarrow> (\<exists>u \<in> ?W. \<exists>r. s = u @ r)" unfolding gap_first ..
  also have "\<dots> \<longleftrightarrow> plain_data s"
    unfolding conc_ex plain_data_def caseless_def data_class by auto
  finally show ?thesis .
qed

lemma image_rx_iff: "regex_test image_rx s \<longleftrightarrow> plain_data s \<or> has_ext image_exts s"
proof -
  let ?D = "seqs [Bos, icase ''data:image/'', Star (Cls (nocase (\<lambda>c. letter c \<or> digit c \<or> one_of (codes ''+/='') c))), icase '','']"
  let ?E = "alts [Seq (icase ''jp'') (Grp 4 (alts [icase ''e'', icase ''g'', icase ''eg''])), icase ''gif'', icase ''png'', icase ''bmp'', icase ''webp'', icase ''svg'', icase ''ico'']"
  let ?T = "Opt (Grp 5 (Seq (Grp 6 (Alt (icase ''?'') (icase ''#''))) (Star dot)))"
  have "regex_test image_rx s \<longleftrightarrow> (\<exists>i j. j \<le> length s \<and> matches s image_rx i j)"
    unfolding regex_test_matches using matches_order by blast
  also have "\<dots> \<longleftrightarrow> (\<exists>i j. j \<le> length s \<and> matches s ?D i j) \<or>
      (\<exists>i j. j \<le> length s \<and> matches s (Seq (icase ''.'') (Seq (Grp 3 ?E) (Seq ?T Eos))) i j)"
    unfolding image_rx_def matches_simps(4) matches_simps(6) seqs.simps by blast
  also have "\<dots> \<longleftrightarrow> plain_data s \<or> has_ext image_exts s"
    unfolding plain_data_matches suffix_match [OF spells_dot_sign spells_grp [OF spells_images] spells_tail]
    unfolding has_ext_def tails_def by simp
  finally show ?thesis .
qed

lemma pdf_rx_iff: "regex_test pdf_rx s \<longleftrightarrow> has_ext [''pdf''] s"
proof -
  have "regex_test pdf_rx s \<longleftrightarrow> (\<exists>i j. j \<le> length s \<and> matches s pdf_rx i j)"
    unfolding regex_test_matches using matches_order by blast
  also have "\<dots> \<longleftrightarrow> has_ext [''pdf''] s"
    unfolding pdf_rx_def seqs.simps suffix_match [OF spells_dot_sign spells_grp [OF spells_lit] spells_tail]
    unfolding has_ext_def tails_def caseless_def by simp
  finally show ?thesis .
qed

lemma guess_type_step:
  "guess_type s =
     (if plain_data s \<or> has_ext image_exts s then OText (codes ''image'')
      else if has_ext [''pdf''] s then OText (codes ''pdf'')
      else if s \<noteq> [] \<and> hd s = 35 then OText (codes ''inline'') else OUndef)"
  by (simp add: guess_type_def image_rx_iff pdf_rx_iff)

text \<open>C36.  The type that \<open>createGroup\<close> guesses from an address: an image for the extensions of images in any case, with
  or without a query or a fragment, and for an address that begins with \<open>data:image/\<close> in any case and has only
  letters, digits and the signs \<open>+\<close>, \<open>/\<close> and \<open>=\<close> from there to the first comma; a document for the extension pdf;
  an element of the page for an address that begins with a number sign; otherwise none.\<close>
theorem guess_type_reference:
  "guess_type s =
     (if plain_data s \<or> has_ext image_exts s then OText (codes ''image'')
      else if has_ext [''pdf''] s then OText (codes ''pdf'')
      else if s \<noteq> [] \<and> hd s = 35 then OText (codes ''inline'')
      else OUndef)"
  by (rule guess_type_step)

text \<open>So an image whose data is given in base 64 is not recognised: its address has a semicolon before the comma.
  (The class of characters of the expression is that of base 64 itself.)\<close>
lemma base64_image_unknown: "guess_type (codes ''data:image/png;base64,iVBORw0KGgo='') = OUndef"
proof -
  let ?s = "codes ''data:image/png;base64,iVBORw0KGgo=''"
  have s: "?s = codes ''data:image/'' @ [112, 110, 103] @ 59 # codes ''base64,iVBORw0KGgo=''"
    by (simp add: codes_def)
  have "\<not> plain_data ?s"
  proof
    assume "plain_data ?s"
    then obtain d b r where e: "?s = d @ b @ 44 # r" and d: "map fold_case d = map fold_case (codes ''data:image/'')"
      and b: "list_all (\<lambda>c. letter c \<or> letter (c + 32) \<and> c < 91 \<or> digit c \<or> c \<in> {43, 47, 61}) b"
      by (auto simp: plain_data_def)
    have l: "length d = 11" using arg_cong [OF d, of length] by (simp add: codes_def)
    have "drop 11 ?s = b @ 44 # r" using e l by simp
    then have t: "112 # 110 # 103 # 59 # codes ''base64,iVBORw0KGgo='' = b @ 44 # r" by (simp add: codes_def)
    show False using t b
      by (cases b; cases "tl b"; cases "tl (tl b)"; cases "tl (tl (tl b))")
        (auto simp: letter_def digit_def)
  qed
  moreover have "46 \<notin> set ?s" by (simp add: codes_def)
  then have "\<not> has_ext exts ?s" for exts by (auto simp: has_ext_def)
  moreover have "hd ?s \<noteq> 35" by (simp add: codes_def)
  ultimately show ?thesis by (simp add: guess_type_step)
qed

subsection \<open>The options of an item\<close>

lemma field_update [simp]: "field (AList.update k v ps) k' = (if k' = k then v else field ps k')"
  by (simp add: field_def update_conv')

lemma field_delete [simp]: "field (AList.delete k ps) k' = (if k' = k then OUndef else field ps k')"
  by (simp add: field_def delete_conv')

lemma field_extend: "k \<notin> fst ` set ps \<Longrightarrow> field (extend_props qs ps) k = field qs k"
proof (induction ps arbitrary: qs)
  case (Cons p ps)
  then show ?case by (cases p) auto
qed simp

lemma field_extend_value:
  "distinct (map fst ps) \<Longrightarrow> map_of ps k = Some v \<Longrightarrow> v \<noteq> OUndef \<Longrightarrow>
   field (extend_props qs ps) k = extend_value (field qs k) v"
proof (induction ps arbitrary: qs)
  case (Cons p ps)
  obtain a b where p: "p = (a, b)" by fastforce
  show ?case
  proof (cases "k = a")
    case True
    then have "k \<notin> fst ` set ps" using Cons.prems(1) p by simp
    then show ?thesis using True Cons.prems(2,3) by (simp add: p field_extend)
  next
    case False
    then show ?thesis using Cons by (simp add: p)
  qed
qed simp

lemma field_extend_all:
  "distinct (map fst ps) \<Longrightarrow>
   field (extend_props qs ps) k = (if field ps k = OUndef then field qs k else extend_value (field qs k) (field ps k))"
proof (induction ps arbitrary: qs)
  case (Cons p ps)
  obtain a b where p: "p = (a, b)" by fastforce
  show ?case
  proof (cases "k = a")
    case True
    then have "k \<notin> fst ` set ps" using Cons.prems p by simp
    then show ?thesis using True by (simp add: p field_extend) (simp add: field_def)
  next
    case False
    then have "field ((a, b) # ps) k = field ps k" by (simp add: field_def)
    then show ?thesis using False Cons by (simp add: p)
  qed
qed (simp add: field_def)

definition touched :: "string list" where
  \<comment> \<open>the options that \<open>createGroup\<close> and \<open>Media\<close> may set themselves, besides those that a modal item has not\<close>
  "touched = [''thumb'', ''$thumb'', ''$orig'', ''caption'', ''filter'', ''smallBtn'', ''toolbar'', ''iframe'', ''slideClass'']"

definition kept :: "oprops \<Rightarrow> string \<Rightarrow> bool" where
  \<comment> \<open>an option that the code does not set itself, in an item with these options\<close>
  "kept opts k \<longleftrightarrow> k \<notin> set touched \<and> (otruthy (field opts ''modal'') \<longrightarrow> k \<notin> fst ` set modal_off)"

lemma touched_not:
  assumes "k \<notin> set touched"
  shows "k \<noteq> ''thumb''" "k \<noteq> ''$thumb''" "k \<noteq> ''$orig''" "k \<noteq> ''caption''" "k \<noteq> ''filter''" "k \<noteq> ''smallBtn''"
    "k \<noteq> ''toolbar''" "k \<noteq> ''iframe''" "k \<noteq> ''slideClass''"
  using assms by (auto simp: touched_def)

lemma thumb_opts_field: "k \<notin> set touched \<Longrightarrow> field (thumb_opts opts) k = field opts k"
  using touched_not [of k] by (simp add: thumb_opts_def drop_empty_def Let_def)

lemma caption_opts_field: "k \<notin> set touched \<Longrightarrow> field (caption_opts call i so opts) k = field opts k"
  using touched_not(4) [of k] by (simp add: caption_opts_def Let_def split: oval.split)

lemma small_button_field: "k \<notin> set touched \<Longrightarrow> field (small_button ty opts) k = field opts k"
  using touched_not(6,7) [of k] by (simp add: small_button_def)

lemma modal_unmoved: "field (modal_opts opts) ''modal'' = field opts ''modal''"
proof -
  have "''modal'' \<notin> fst ` set modal_off" by (simp add: modal_off_def)
  then show ?thesis by (simp add: modal_opts_def field_extend)
qed

lemma modal_opts_field: "kept (modal_opts opts) k \<Longrightarrow> field (modal_opts opts) k = field opts k"
  unfolding kept_def modal_unmoved by (simp add: modal_opts_def field_extend)

lemma ajax_filter_Inr:
  assumes "ajax_filter ty src g = Inr h"
  shows "g_type h = g_type g \<and> g_index h = g_index g \<and> (k \<notin> set touched \<longrightarrow> field (g_opts h) k = field (g_opts g) k)"
  using assms touched_not(5) [of k]
  by (auto simp: ajax_filter_def split: if_splits oval.splits list.splits)

lemma pdf_item_Inr:
  assumes "pdf_item ty g = Inr h"
  shows "g_type h = (if ty = OText (codes ''pdf'') then OText (codes ''iframe'') else g_type g) \<and> g_index h = g_index g \<and>
    (k \<notin> set touched \<longrightarrow> field (g_opts h) k = field (g_opts g) k)"
  using assms touched_not(8) [of k]
  by (auto simp: pdf_item_def Let_def split: if_splits oval.splits)

lemma media_item_field:
  "g_index (media_item url ty th g) = g_index g \<and> (k \<notin> set touched \<longrightarrow> field (g_opts (media_item url ty th g)) k = field (g_opts g) k)"
  using touched_not(1,8,9) [of k] by (auto simp: media_item_def Let_def)

lemma objectNeedsType_Inr:
  assumes "objectNeedsType call g = Inr h"
  shows "g_index h = g_index g \<and> (k \<notin> set touched \<longrightarrow> field (g_opts h) k = field (g_opts g) k)"
proof -
  obtain url where u: "(if otruthy (g_src g) then g_src g else OText []) = OText url"
    using assms by (auto simp: objectNeedsType_def split: oval.splits)
  show ?thesis
  proof (cases "find_service services url")
    case None
    then show ?thesis using assms by (auto simp: objectNeedsType_def u)
  next
    case (Some m)
    obtain p rez where m: "m = (p, rez)" by fastforce
    obtain x where x: "h = media_item (fst x) (media_type p) (snd x) g"
      using assms by (auto simp: objectNeedsType_def u Some m andThen_Inr_iff)
    show ?thesis unfolding x using media_item_field by blast
  qed
qed

lemma make_item_Inr:
  assumes "make_item call self_opts c i = Inr h" "raw_item c = (src, ty0, own)"
  shows "g_index h = i" "kept (g_opts h) k \<Longrightarrow> field (g_opts h) k = field (full_opts self_opts own) k"
    "otruthy ty0 \<Longrightarrow> g_type h = (if ty0 = OText (codes ''pdf'') then OText (codes ''iframe'') else ty0)"
    "\<exists>opts. g_opts h = modal_opts opts"
proof -
  let ?opts = "full_opts self_opts own"
  let ?given = "if otruthy ty0 then ty0 else field ?opts ''type''"
  obtain ty where ty: "type_of_item ?given src = Inr ty"
    and r: "(let g = \<lparr>g_src = src, g_type = (if otruthy ty then ty else ty0), g_opts = ?opts, g_index = i\<rparr>
         in andThen (if otruthy ty then Inr g else objectNeedsType (\<lambda>n. call n i) g) (\<lambda>g.
            let g = g\<lparr>g_opts := caption_opts call i self_opts (thumb_opts (g_opts g))\<rparr>
            in andThen (ajax_filter ty src g) (\<lambda>g.
               andThen (pdf_item ty (g\<lparr>g_opts := small_button ty (g_opts g)\<rparr>)) (\<lambda>g.
                 Inr (g\<lparr>g_opts := modal_opts (g_opts g)\<rparr>))))) = Inr h"
    using assms(1) unfolding make_item_def assms(2) by (auto simp: andThen_Inr_iff Let_def)
  let ?g0 = "\<lparr>g_src = src, g_type = (if otruthy ty then ty else ty0), g_opts = ?opts, g_index = i\<rparr>"
  obtain g1 g2 g3 where g1: "(if otruthy ty then Inr ?g0 else objectNeedsType (\<lambda>n. call n i) ?g0) = Inr g1"
    and g2: "ajax_filter ty src (g1\<lparr>g_opts := caption_opts call i self_opts (thumb_opts (g_opts g1))\<rparr>) = Inr g2"
    and g3: "pdf_item ty (g2\<lparr>g_opts := small_button ty (g_opts g2)\<rparr>) = Inr g3"
    and h: "h = g3\<lparr>g_opts := modal_opts (g_opts g3)\<rparr>"
    using r by (auto simp: andThen_Inr_iff Let_def)
  have f1: "g_index g1 = i \<and> (k \<notin> set touched \<longrightarrow> field (g_opts g1) k = field ?opts k)" for k
    using g1 objectNeedsType_Inr [of "\<lambda>n. call n i" ?g0 g1 k] by (auto split: if_splits)
  note f2 = ajax_filter_Inr [OF g2] and f3 = pdf_item_Inr [OF g3]
  show "g_index h = i" using f1 f2 f3 by (simp add: h)
  show "field (g_opts h) k = field ?opts k" if k: "kept (g_opts h) k"
  proof -
    have t: "k \<notin> set touched" using k by (simp add: kept_def)
    have "field (g_opts h) k = field (g_opts g3) k" using k by (simp add: h modal_opts_field)
    then show ?thesis using f1 [of k] f2 [of k] f3 [of k] t
      by (simp add: small_button_field caption_opts_field thumb_opts_field)
  qed
  show "\<exists>opts. g_opts h = modal_opts opts" by (auto simp: h)
  show "g_type h = (if ty0 = OText (codes ''pdf'') then OText (codes ''iframe'') else ty0)" if t: "otruthy ty0"
  proof -
    have "ty = ty0" using ty t by (simp add: type_of_item_def)
    then have "g_type g1 = ty0" "ty = ty0" using g1 t by auto
    then show ?thesis using f2 f3 by (simp add: h)
  qed
qed

lemma create_from_Inr:
  "create_from call self_opts i cs = Inr gs \<Longrightarrow>
   length gs = length cs \<and> (\<forall>j < length cs. make_item call self_opts (cs ! j) (i + j) = Inr (gs ! j))"
proof (induction cs arbitrary: i gs)
  case (Cons c cs)
  then obtain g hs where g: "make_item call self_opts c i = Inr g" "create_from call self_opts (Suc i) cs = Inr hs" "gs = g # hs"
    by (auto simp: andThen_Inr_iff)
  have ih: "length hs = length cs \<and> (\<forall>j < length cs. make_item call self_opts (cs ! j) (Suc i + j) = Inr (hs ! j))"
    by (rule Cons.IH [OF g(2)])
  have "make_item call self_opts ((c # cs) ! j) (i + j) = Inr ((g # hs) ! j)" if "j < length (c # cs)" for j
    using that ih g(1) by (cases j) auto
  then show ?case using ih g(3) by simp
qed simp

fun plain :: "oval \<Rightarrow> bool" where
  \<comment> \<open>a value that \<open>$.extend\<close> does not go into\<close>
  "plain (OMap ps) = False"
| "plain (OList xs) = False"
| "plain v = True"

lemma extend_plain: "plain v \<Longrightarrow> extend_value old v = v"
  by (cases v) auto

definition first_given :: "oval \<Rightarrow> oval \<Rightarrow> oval" where
  "first_given v w = (if v = OUndef then w else v)"

lemma extended_plain:
  assumes "distinct (map fst qs)" "distinct (map fst ps)" "plain (field ps k)" "plain (field qs k)"
  shows "field (extend_props (extend_props [] qs) ps) k = first_given (field ps k) (field qs k)"
  using assms by (simp add: field_extend_all extend_plain first_given_def) (simp add: field_def)

lemma extended_member:
  assumes "distinct (map fst qs)" "distinct (map fst ps)" "field ps k = OMap ps'" "field qs k = OMap qs'"
    "distinct (map fst ps')" "distinct (map fst qs')" "plain (field ps' m)" "plain (field qs' m)"
  shows "field (old_map (field (extend_props (extend_props [] qs) ps) k)) m = first_given (field ps' m) (field qs' m)"
proof -
  have "field (extend_props (extend_props [] qs) ps) k = OMap (extend_props (extend_props [] qs') ps')"
    using assms(1-4) by (simp add: field_extend_all) (simp add: field_def)
  then show ?thesis using extended_plain [OF assms(6,5,7,8)] by simp
qed

lemma full_opts_list: "field own ''buttons'' = OList bs \<Longrightarrow> field (full_opts self_opts own) ''buttons'' = OList bs"
  by (simp add: full_opts_def)

lemma full_opts_other:
  "k \<noteq> ''buttons'' \<or> (\<forall>bs. field own ''buttons'' \<noteq> OList bs) \<Longrightarrow>
   field (full_opts self_opts own) k = field (extend_props (extend_props [] self_opts) own) k"
  by (auto simp: full_opts_def Let_def split: oval.split)

text \<open>C2.  A group that is created has one item for each thing that the page gives, in this order and numbered; an
  item has the type it is given, except that a document is shown in a frame.  An option that is not an object or
  a list has the value that the item itself gives it, and if it gives none the gallery's; the same holds for
  the members of an option that is an object in both; the list of the buttons, if the item has one, is this
  one, not merged with the gallery's.  This is so for all options but the nine that the code sets itself and, in
  an item that is modal, the fourteen that are then off.  (No option is given twice.)\<close>
theorem group_items:
  assumes "createGroup call self_opts cs = Inr gs" "i < length cs" "raw_item (cs ! i) = (src, ty, own)"
    "distinct (map fst own)" "distinct (map fst self_opts)"
  shows "length gs = length cs \<and> g_index (gs ! i) = i \<and>
    (otruthy ty \<longrightarrow> g_type (gs ! i) = (if ty = OText (codes ''pdf'') then OText (codes ''iframe'') else ty)) \<and>
    (\<forall>k. kept (g_opts (gs ! i)) k \<longrightarrow>
       (plain (field own k) \<and> plain (field self_opts k) \<longrightarrow>
          field (g_opts (gs ! i)) k = first_given (field own k) (field self_opts k)) \<and>
       (\<forall>ps qs m. field own k = OMap ps \<and> field self_opts k = OMap qs \<and> distinct (map fst ps) \<and> distinct (map fst qs) \<and>
          plain (field ps m) \<and> plain (field qs m) \<longrightarrow>
          field (old_map (field (g_opts (gs ! i)) k)) m = first_given (field ps m) (field qs m))) \<and>
    (\<forall>bs. field own ''buttons'' = OList bs \<longrightarrow> field (g_opts (gs ! i)) ''buttons'' = OList bs)"
proof -
  have c: "length gs = length cs" "make_item call self_opts (cs ! i) i = Inr (gs ! i)"
    using create_from_Inr [of call self_opts 0 cs gs] assms(1,2) by (auto simp: createGroup_def)
  have "kept (g_opts (gs ! i)) ''buttons''" by (simp add: kept_def touched_def modal_off_def)
  note b = make_item_Inr(2) [OF c(2) assms(3) this]
  have o: "field (g_opts (gs ! i)) k = field (extend_props (extend_props [] self_opts) own) k"
    if "kept (g_opts (gs ! i)) k" "\<And>bs. field own k \<noteq> OList bs" for k
    using make_item_Inr(2) [OF c(2) assms(3) that(1)] full_opts_other [of k own self_opts] that(2) by auto
  have p: "field (g_opts (gs ! i)) k = first_given (field own k) (field self_opts k)"
    if "kept (g_opts (gs ! i)) k" "plain (field own k)" "plain (field self_opts k)" for k
    using o [OF that(1)] that(2,3) extended_plain [OF assms(5,4)] by fastforce
  have m: "field (old_map (field (g_opts (gs ! i)) k)) m = first_given (field ps m) (field qs m)"
    if "kept (g_opts (gs ! i)) k" "field own k = OMap ps" "field self_opts k = OMap qs" "distinct (map fst ps)"
      "distinct (map fst qs)" "plain (field ps m)" "plain (field qs m)" for k ps qs m
    using o [OF that(1)] that extended_member [OF assms(5,4)] by auto
  have r: "g_index (gs ! i) = i"
    "otruthy ty \<longrightarrow> g_type (gs ! i) = (if ty = OText (codes ''pdf'') then OText (codes ''iframe'') else ty)"
    using make_item_Inr(1,3) [OF c(2) assms(3)] by auto
  show ?thesis using c(1) r p m b full_opts_list [of own _ self_opts] by simp
qed

text \<open>C21.  An item with the option \<open>modal\<close> has no bars, buttons and thumbnails, no slide show and full screen, does not
  react to the keyboard, to touches and to clicks outside of its own elements, whatever the options of the
  gallery and its own say about these.\<close>
theorem modal_items:
  assumes "createGroup call self_opts cs = Inr gs" "g \<in> set gs" "otruthy (field (g_opts g) ''modal'')"
  shows "list_all (\<lambda>k. \<not> otruthy (field (g_opts g) k))
    [''infobar'', ''toolbar'', ''smallBtn'', ''keyboard'', ''slideShow'', ''fullScreen'', ''thumbs'', ''touch'', ''clickContent'',
     ''clickSlide'', ''clickOutside'', ''dblclickContent'', ''dblclickSlide'', ''dblclickOutside'']"
proof -
  obtain i where i: "i < length gs" "g = gs ! i" using assms(2) by (auto simp: in_set_conv_nth)
  have c: "length gs = length cs" "\<And>j. j < length cs \<Longrightarrow> make_item call self_opts (cs ! j) j = Inr (gs ! j)"
    using create_from_Inr [of call self_opts 0 cs gs] assms(1) by (auto simp: createGroup_def)
  obtain src ty own where raw: "raw_item (cs ! i) = (src, ty, own)" by (metis prod.exhaust)
  obtain opts where o: "g_opts g = modal_opts opts" using make_item_Inr(4) [OF c(2) raw] i c(1) by auto
  have "field (modal_opts opts) ''modal'' = field opts ''modal''" by (rule modal_unmoved)
  then have e: "g_opts g = extend_props opts modal_off" using assms(3) o by (simp add: modal_opts_def)
  have d: "distinct (map fst modal_off)" by (simp add: modal_off_def)
  have "field (extend_props opts modal_off) k = v" if kv: "(k, v) \<in> set modal_off" for k v
  proof -
    have mv: "map_of modal_off k = Some v" using d kv by simp
    have v: "v = ONum 0 \<or> v = OBool False" using kv by (auto simp: modal_off_def)
    show ?thesis using field_extend_value [OF d mv] v by auto
  qed
  then have "list_all (\<lambda>(k, v). field (g_opts g) k = v) modal_off" unfolding e list_all_iff by blast
  then show ?thesis by (simp add: modal_off_def)
qed

lemma make_item_given:
  assumes "raw_item c = (src, ty, own)" "otruthy ty" "ty \<noteq> OText (codes ''ajax'')" "ty \<noteq> OText (codes ''pdf'')"
  shows "\<exists>g. make_item call self_opts c i = Inr g"
  using assms by (simp add: make_item_def type_of_item_def ajax_filter_def pdf_item_def Let_def)

definition demo_contents :: "content list" where
  "demo_contents =
     [Plain [(''src'', OText (codes ''a.jpg'')), (''type'', OText (codes ''image'')),
        (''opts'', OMap [(''modal'', OBool True), (''keyboard'', OBool True)])],
      Other (codes ''<p>'')]"

definition demo_defaults :: oprops where
  "demo_defaults = [(''smallBtn'', OText (codes ''auto'')), (''keyboard'', OBool True), (''loop'', OBool True)]"

abbreviation "no_answer \<equiv> \<lambda>(n::nat) (i::nat). OUndef"

lemma demo_raw:
  "raw_item (demo_contents ! 0) = (OText (codes ''a.jpg''), OText (codes ''image''), [(''modal'', OBool True), (''keyboard'', OBool True)])"
  "raw_item (demo_contents ! 1) = (OText (codes ''<p>''), OText (codes ''html''), [])"
  by (simp_all add: demo_contents_def raw_item_def field_def)

lemma demo_group:
  "\<exists>g h. createGroup no_answer demo_defaults demo_contents = Inr [g, h] \<and> otruthy (field (g_opts g) ''modal'')"
proof -
  have t: "otruthy (OText (codes ''image''))" "OText (codes ''image'') \<noteq> OText (codes ''ajax'')" "OText (codes ''image'') \<noteq> OText (codes ''pdf'')"
    "otruthy (OText (codes ''html''))" "OText (codes ''html'') \<noteq> OText (codes ''ajax'')" "OText (codes ''html'') \<noteq> OText (codes ''pdf'')"
    by (simp_all add: codes_def)
  obtain g where g: "make_item no_answer demo_defaults (demo_contents ! 0) 0 = Inr g"
    using make_item_given [OF demo_raw(1) t(1,2,3)] by blast
  obtain h where h: "make_item no_answer demo_defaults (demo_contents ! 1) (Suc 0) = Inr h"
    using make_item_given [OF demo_raw(2) t(4,5,6)] by blast
  have e: "demo_contents = [demo_contents ! 0, demo_contents ! 1]" by (simp add: demo_contents_def)
  have "createGroup no_answer demo_defaults [demo_contents ! 0, demo_contents ! 1] = Inr [g, h]"
    unfolding createGroup_def create_from.simps g h by simp
  then have c: "createGroup no_answer demo_defaults demo_contents = Inr [g, h]" unfolding e [symmetric] .
  have "kept (g_opts g) ''modal''" by (simp add: kept_def touched_def modal_off_def)
  then have "field (g_opts g) ''modal'' = OBool True"
    using make_item_Inr(2) [OF g demo_raw(1)] by (simp add: full_opts_def demo_defaults_def field_def)
  then show ?thesis using c by simp
qed

text \<open>The theorem at a group of an image that is modal, whose own options and those of the gallery ask for the
  keyboard.\<close>
lemma modal_items_witness:
  "\<exists>g h. createGroup no_answer demo_defaults demo_contents = Inr [g, h] \<and> \<not> otruthy (field (g_opts g) ''keyboard'')"
proof -
  obtain g h where c: "createGroup no_answer demo_defaults demo_contents = Inr [g, h]"
    and m: "otruthy (field (g_opts g) ''modal'')" using demo_group by blast
  have "\<not> otruthy (field (g_opts g) ''keyboard'')" using modal_items [OF c _ m] by simp
  then show ?thesis using c by blast
qed

text \<open>The theorem at the second thing of the same group, a piece of HTML.\<close>
lemma group_items_witness:
  "\<exists>g h. createGroup no_answer demo_defaults demo_contents = Inr [g, h] \<and> g_index h = 1 \<and>
     g_type h = OText (codes ''html'') \<and> field (g_opts h) ''loop'' = OBool True"
proof -
  obtain g h where c: "createGroup no_answer demo_defaults demo_contents = Inr [g, h]" using demo_group by blast
  have t: "otruthy (OText (codes ''html''))" "OText (codes ''html'') \<noteq> OText (codes ''pdf'')" by (simp_all add: codes_def)
  have l: "1 < length demo_contents" "distinct (map fst ([] :: oprops))" "distinct (map fst demo_defaults)"
    by (simp_all add: demo_contents_def demo_defaults_def)
  have k: "kept (g_opts h) ''loop''" by (simp add: kept_def touched_def modal_off_def)
  have p: "plain (field ([] :: oprops) ''loop'')" "plain (field demo_defaults ''loop'')"
    "first_given (field [] ''loop'') (field demo_defaults ''loop'') = OBool True"
    by (simp_all add: field_def demo_defaults_def first_given_def)
  have "g_index h = 1 \<and> g_type h = OText (codes ''html'') \<and> field (g_opts h) ''loop'' = OBool True"
    using group_items [OF c l(1) demo_raw(2) l(2,3)] t k p by auto
  then show ?thesis using c by blast
qed

end
