(* ===== verification/Face.thy ===== *)
theory Face
  imports JsText
begin

section \<open>face.js: emoticons and times\<close>

text \<open>
  The list of emoticons, the panel that offers them, the replacement of their names in a message
  by HTML, and the formatting of times.
\<close>

subsection \<open>Emoticons\<close>

text \<open>The table of the script: the class of an emoticon and its title, in UTF-16 units.\<close>

definition face_titles :: "(string \<times> nat list) list" where
  "face_titles = [
     (''face0'', [24494, 31505]), (''face1'', [25735, 22068]), (''face2'', [33394]),
     (''face3'', [21457, 21574]), (''face4'', [24471, 24847]), (''face5'', [27969, 27882]),
     (''face6'', [23475, 32670]), (''face7'', [38381, 22068]), (''face8'', [30561]),
     (''face9'', [22823, 21741]), (''face10'', [23604, 23596]), (''face11'', [21457, 24594]),
     (''face12'', [35843, 30382]), (''face13'', [21618, 29273]), (''face14'', [24778, 35766]),
     (''face15'', [38590, 36807]), (''face16'', [37239]), (''face17'', [20919, 27735]),
     (''face18'', [25235, 29378]), (''face19'', [21520]), (''face20'', [20599, 31505]),
     (''face21'', [21487, 29233]), (''face22'', [30333, 30524]), (''face23'', [20658, 24930]),
     (''face24'', [39269, 39295]), (''face25'', [22256]), (''face26'', [24778, 24656]),
     (''face27'', [27969, 27735]), (''face28'', [25000, 31505]), (''face29'', [35013, 36924]),
     (''face30'', [22859, 26007]), (''face31'', [21650, 39554]), (''face32'', [30097, 38382]),
     (''face33'', [22040]), (''face34'', [26197]), (''face35'', [25240, 30952]),
     (''face36'', [34928]), (''face37'', [39607, 39621]), (''face38'', [25970, 25171]),
     (''face39'', [20877, 35265]), (''face40'', [25830, 27735]), (''face41'', [25248, 40763]),
     (''face42'', [40723, 25484]), (''face43'', [31959, 22823, 20102]),
     (''face44'', [22351, 31505]), (''face45'', [24038, 21756, 21756]),
     (''face46'', [21491, 21756, 21756]), (''face47'', [21704, 27424]),
     (''face48'', [37145, 35270]), (''face49'', [22996, 23624]),
     (''face50'', [24555, 21741, 20102]), (''face51'', [38452, 38505]),
     (''face52'', [20146, 20146]), (''face53'', [21523]), (''face54'', [21487, 24604]),
     (''face55'', [33756, 20992]), (''face56'', [35199, 29916]), (''face57'', [21860, 37202]),
     (''face58'', [31726, 29699]), (''face59'', [20050, 20051]), (''face60'', [21654, 21857]),
     (''face61'', [39277]), (''face62'', [29482, 22836]), (''face63'', [29611, 29808]),
     (''face64'', [20939, 35874]), (''face65'', [31034, 29233]), (''face66'', [29233, 24515]),
     (''face67'', [24515, 30862]), (''face68'', [34507, 31957]), (''face69'', [38378, 30005]),
     (''face70'', [28856, 24377]), (''face71'', [20992]), (''face72'', [36275, 29699]),
     (''face73'', [29922, 34411]), (''face74'', [20415, 20415]), (''face75'', [26376, 20142]),
     (''face76'', [22826, 38451]), (''face77'', [31036, 29289]), (''face78'', [25317, 25265]),
     (''face79'', [36190]), (''face80'', [36393]), (''face81'', [25569, 25163]),
     (''face82'', [32988, 21033]), (''face83'', [25265, 25331]), (''face84'', [21246, 24341]),
     (''face85'', [25331, 22836]), (''face86'', [24046, 21170]), (''face87'', [29233, 20320]),
     (''face88'', [78, 79]), (''face89'', [79, 75]), (''face90'', [29233, 24773]),
     (''face91'', [39134, 21563]), (''face92'', [36339, 36339]), (''face93'', [21457, 25238]),
     (''face94'', [24580, 28779]), (''face95'', [36716, 22280]), (''face96'', [30933, 22836]),
     (''face97'', [22238, 22836]), (''face98'', [36339, 32499]), (''face99'', [25381, 25163])]"

definition faceJson :: "(string \<times> units) list" where
  "faceJson = map (\<lambda>(f, t). (f, uni t)) face_titles"

definition face_name :: "units \<Rightarrow> units" where
  \<comment> \<open>the title in lenticular brackets\<close>
  "face_name title = uni [12304] @ title @ uni [12305]"

definition face_html :: "string \<Rightarrow> units \<Rightarrow> units" where
  "face_html faceID title =
     units_of ''<span class='' @ uni [39] @ units_of ''face '' @ units_of faceID @ uni [39] @
     units_of '' title='' @ uni [39] @ title @ uni [39] @ units_of ''></span>''"

definition replaceFace :: "units \<Rightarrow> units" where
  "replaceFace txt =
     fold (\<lambda>(faceID, title) txt. replace_all (face_name title) (face_html faceID title) txt) faceJson txt"

text \<open>Choosing an emoticon adds its name to the text typed so far (the callback of the pages).\<close>

definition chooseFace :: "units \<Rightarrow> units \<Rightarrow> units" where
  "chooseFace title txt = txt @ face_name title"

subsection \<open>The panel\<close>

text \<open>The value of \<open>style.display\<close>: unset, \<open>block\<close> or \<open>none\<close>.\<close>

datatype display = DispUnset | DispBlock | DispNone

datatype panel_click = ClickButton | ClickFace units | ClickDocument

fun panel_event :: "panel_click \<Rightarrow> display \<times> units \<Rightarrow> display \<times> units" where
  "panel_event ClickButton (d, txt) = (if d = DispBlock then DispNone else DispBlock, txt)"
| "panel_event (ClickFace title) (d, txt) = (d, chooseFace title txt)"
| "panel_event ClickDocument (d, txt) = (DispNone, txt)"

subsection \<open>Times\<close>

text \<open>
  A time is a number of milliseconds (or of seconds, when it has ten digits).  The calendar date of
  a time depends on the time zone: it is a parameter.
\<close>

record calendar =
  getFullYear :: nat
  getMonth :: nat
  getDate :: nat
  getHours :: nat
  getMinutes :: nat
  getSeconds :: nat

fun dec :: "nat \<Rightarrow> units" where
  "dec n = (if n < 10 then [of_nat (48 + n)] else dec (n div 10) @ [of_nat (48 + n mod 10)])"

declare dec.simps [simp del]

definition int_text :: "int \<Rightarrow> units" where
  "int_text z = (if z < 0 then 45 # dec (nat (- z)) else dec (nat z))"

definition unify :: "int \<Rightarrow> int" where
  "unify t = (if length (int_text t) = 10 then t * 1000 else t)"

definition two :: "nat \<Rightarrow> units" where
  "two n = (let s = dec n in if length s = 1 then 48 # s else s)"

definition getFullTime :: "(int \<Rightarrow> calendar) \<Rightarrow> int \<Rightarrow> (string \<times> units) list" where
  \<comment> \<open>with the keys of \<open>map\<close> in their order\<close>
  "getFullTime local_date t =
     (let d = local_date (unify t) in
      [(''%y'', dec (getFullYear d)), (''%M'', two (getMonth d + 1)), (''%d'', two (getDate d)),
       (''%h'', two (getHours d)), (''%m'', two (getMinutes d)), (''%s'', two (getSeconds d))])"

definition default_format :: units where
  "default_format = units_of ''%y-%M-%d %h:%m:%s''"

definition time_format :: "(int \<Rightarrow> calendar) \<Rightarrow> int \<Rightarrow> units \<Rightarrow> units" where
  "time_format local_date t format =
     fold (\<lambda>(src, dst) ret. replace_all (units_of src) dst ret) (getFullTime local_date t)
       (if format \<noteq> [] then format else default_format)"

definition just_now :: units where "just_now = uni [21018, 21018]"
definition minutes_ago :: units where "minutes_ago = uni [20998, 38047, 21069]"
definition hours_ago :: units where "hours_ago = uni [23567, 26102, 21069]"
definition days_ago :: units where "days_ago = uni [22825, 21069]"
definition months_ago :: units where "months_ago = uni [26376, 21069]"
definition years_ago :: units where "years_ago = uni [24180, 21069]"

definition time_human :: "int \<Rightarrow> int \<Rightarrow> units" where
  "time_human curTime t =
     (let diff = curTime - unify t in
      if 1000 * 60 > diff then just_now
      else if 1000 * 60 \<le> diff \<and> 1000 * 60 * 60 > diff
      then int_text (diff div (1000 * 60)) @ minutes_ago
      else if 1000 * 60 * 60 \<le> diff \<and> 1000 * 60 * 60 * 24 > diff
      then int_text (diff div (1000 * 60 * 60)) @ hours_ago
      else if 1000 * 60 * 60 * 24 \<le> diff \<and> 1000 * 60 * 60 * 24 * 30 > diff
      then int_text (diff div (1000 * 60 * 60 * 24)) @ days_ago
      else if 1000 * 60 * 60 * 24 * 30 \<le> diff \<and> 1000 * 60 * 60 * 24 * 30 * 12 > diff
      then int_text (diff div (1000 * 60 * 60 * 24 * 30)) @ months_ago
      else int_text (diff div (1000 * 60 * 60 * 24 * 30 * 12)) @ years_ago)"

subsection \<open>Replacing the names\<close>

lemma face_titles_ok:
  "\<forall>(f, t) \<in> set face_titles. list_all (\<lambda>n. n < 65536 \<and> n \<noteq> 60 \<and> n \<noteq> 12304 \<and> n \<noteq> 12305) t"
  by (simp add: face_titles_def)

lemma face_table:
  assumes "(f, t) \<in> set faceJson"
  shows "60 \<notin> set t \<and> 12304 \<notin> set t \<and> 12305 \<notin> set t"
proof -
  from assms obtain ns where t: "t = uni ns" "(f, ns) \<in> set face_titles"
    by (auto simp: faceJson_def)
  then have "list_all (\<lambda>n. n < 65536 \<and> n \<noteq> 60 \<and> n \<noteq> 12304 \<and> n \<noteq> 12305) ns"
    using face_titles_ok by auto
  then show ?thesis
    using uni_member [of ns 60] uni_member [of ns 12304] uni_member [of ns 12305]
    by (auto simp: t(1) list_all_iff)
qed

lemma face_html_facts:
  assumes "(f, t) \<in> set faceJson"
  shows "face_html f t \<noteq> [] \<and> hd (face_html f t) = 60 \<and> 12304 \<notin> set (face_html f t)"
proof -
  have u: "12304 \<notin> set (units_of s)" for s
    using units_of_small [of 12304 s] by auto
  have "units_of ''<span class='' = 60 # units_of ''span class=''"
    by (simp add: units_of_def)
  then show ?thesis using face_table [OF assms] u by (simp add: face_html_def uni_def)
qed

lemma fold_faces_occurs:
  assumes "set fs \<subseteq> set faceJson" and "60 \<notin> set t"
    and "occurs (face_name t) (fold (\<lambda>(f, t) s. replace_all (face_name t) (face_html f t) s) fs s)"
  shows "occurs (face_name t) s \<and> t \<notin> snd ` set fs"
  using assms(1,3)
proof (induction fs arbitrary: s)
  case (Cons ft fs)
  obtain f t' where ft: "ft = (f, t')" by (cases ft)
  let ?s = "replace_all (face_name t') (face_html f t') s"
  have IH: "occurs (face_name t) ?s \<and> t \<notin> snd ` set fs"
    using Cons.IH [of ?s] Cons.prems by (simp add: ft)
  have h: "face_html f t' \<noteq> [] \<and> hd (face_html f t') = 60 \<and> 12304 \<notin> set (face_html f t')"
    using Cons.prems(1) by (intro face_html_facts) (simp add: ft)
  have "occurs (face_name t) s \<and> face_name t \<noteq> face_name t'"
    by (rule replace_all_occurs [OF _ _ _ _ conjunct1 [OF IH]])
      (use h assms(2) in \<open>simp_all add: face_name_def uni_def\<close>)
  with IH show ?case by (auto simp: ft)
qed simp

lemma fold_faces_absent:
  "\<forall>(f, t) \<in> set fs. \<not> occurs (face_name t) s \<Longrightarrow>
   fold (\<lambda>(f, t) s. replace_all (face_name t) (face_html f t) s) fs s = s"
  by (induction fs) (auto simp: replace_all_absent)

subsection \<open>Numbers in a text\<close>

lemma dec_digits: "c \<in> set (dec n) \<Longrightarrow> 48 \<le> c \<and> c \<le> 57"
proof (induction n rule: dec.induct)
  case (1 n)
  have d: "48 \<le> (of_nat (48 + k) :: 16 word) \<and> (of_nat (48 + k) :: 16 word) \<le> 57" if "k < 10" for k
  proof -
    have "\<forall>k \<in> set [0..<10]. 48 \<le> (of_nat (48 + k) :: 16 word) \<and> (of_nat (48 + k) :: 16 word) \<le> 57"
      by code_simp
    with that show ?thesis by simp
  qed
  show ?case
  proof (cases "n < 10")
    case True
    with 1(2) d show ?thesis by (simp add: dec.simps [of n])
  next
    case False
    with 1(2) have "c \<in> set (dec (n div 10)) \<or> c = of_nat (48 + n mod 10)"
      by (auto simp: dec.simps [of n])
    with 1(1) [OF False] d [of "n mod 10"] show ?thesis by auto
  qed
qed

lemma two_digits: "c \<in> set (two n) \<Longrightarrow> 48 \<le> c \<and> c \<le> 57"
  using dec_digits [of c n] by (auto simp: two_def Let_def split: if_splits)

lemma digits_no_percent: "37 \<notin> set (dec n)" "37 \<notin> set (two n)"
  using dec_digits [of 37 n] two_digits [of 37 n] by (auto simp: word_le_nat_alt)

lemma replace_all_skip:
  "p \<notin> set a \<Longrightarrow> replace_all (p # pat) r (a @ b) = a @ replace_all (p # pat) r b"
  by (induction a) auto

subsection \<open>Properties\<close>

text \<open>
  After \<open>replaceFace\<close> no name of an emoticon is left in the text, whatever the text was; and a
  text without such names is not changed.
\<close>

theorem face_names_gone:
  shows "(\<forall>(f, t) \<in> set faceJson. \<not> occurs (face_name t) (replaceFace s)) \<and>
    ((\<forall>(f, t) \<in> set faceJson. \<not> occurs (face_name t) s) \<longrightarrow> replaceFace s = s)"
proof -
  have "\<not> occurs (face_name t) (replaceFace s)" if ft: "(f, t) \<in> set faceJson" for f t
  proof
    assume "occurs (face_name t) (replaceFace s)"
    then have "t \<notin> snd ` set faceJson"
      using fold_faces_occurs [of faceJson t s] face_table [OF ft] by (simp add: replaceFace_def)
    with ft show False by force
  qed
  then show ?thesis using fold_faces_absent [of faceJson s] by (auto simp: replaceFace_def)
qed

theorem face_names_gone_witness:
  "\<not> occurs (face_name (uni [24494, 31505])) (replaceFace (face_name (uni [24494, 31505])))"
proof -
  have "(''face0'', uni [24494, 31505]) \<in> set faceJson" by (simp add: faceJson_def face_titles_def)
  with face_names_gone [of "face_name (uni [24494, 31505])"] show ?thesis by fast
qed

text \<open>
  With the default format a time is shown as year, month, day, hour, minute and second in this
  order, joined by the separators of the format.
\<close>

theorem default_time:
  "time_format local_date t [] =
     (let d = local_date (unify t) in
      dec (getFullYear d) @ units_of ''-'' @ two (getMonth d + 1) @ units_of ''-'' @ two (getDate d) @
      units_of '' '' @ two (getHours d) @ units_of '':'' @ two (getMinutes d) @ units_of '':'' @
      two (getSeconds d))"
  using digits_no_percent
  by (simp add: time_format_def getFullTime_def default_format_def units_of_def replace_all_skip Let_def)

lemma unit_count:
  assumes "k \<le> d" "d < k * (m + 1)" "0 < (k :: int)"
  shows "1 \<le> d div k \<and> d div k \<le> m"
proof
  show "1 \<le> d div k" using zdiv_mono1 [OF assms(1,3)] assms(3) by simp
  have "k * (d div k) \<le> d" using assms(3) by (simp add: minus_mod_eq_mult_div [symmetric])
  then have "k * (d div k) < k * (m + 1)" using assms(2) by linarith
  then show "d div k \<le> m" using assms(3) by simp
qed

text \<open>
  The relative time counts in the right unit: less than a minute (or a time to come) is just
  now; minutes go from 1 to 59, hours from 1 to 23, days from 1 to 29, months from 1 to 11, and
  years from 1 on.
\<close>

theorem human_units:
  "time_human now t = just_now \<and> now - unify t < 60000 \<or>
   (\<exists>n u m. (u, m) \<in> {(minutes_ago, 59), (hours_ago, 23), (days_ago, 29), (months_ago, 11)} \<and>
      1 \<le> n \<and> n \<le> m \<and> time_human now t = int_text n @ u) \<or>
   (\<exists>n \<ge> 1. time_human now t = int_text n @ years_ago)"
proof -
  define d where "d = now - unify t"
  note r = unit_count [of _ d]
  consider "d < 60000" | "60000 \<le> d" "d < 60000 * (59 + 1)" | "3600000 \<le> d" "d < 3600000 * (23 + 1)"
    | "86400000 \<le> d" "d < 86400000 * (29 + 1)" | "2592000000 \<le> d" "d < 2592000000 * (11 + 1)"
    | "31104000000 \<le> d"
    by fastforce
  then show ?thesis
  proof cases
    case 1
    then show ?thesis by (simp add: time_human_def d_def)
  next
    case 2
    then have "time_human now t = int_text (d div 60000) @ minutes_ago"
      by (simp add: time_human_def d_def)
    with r [OF 2] show ?thesis by auto
  next
    case 3
    then have "time_human now t = int_text (d div 3600000) @ hours_ago"
      by (simp add: time_human_def d_def)
    with r [OF 3] show ?thesis by auto
  next
    case 4
    then have "time_human now t = int_text (d div 86400000) @ days_ago"
      by (simp add: time_human_def d_def)
    with r [OF 4] show ?thesis by auto
  next
    case 5
    then have "time_human now t = int_text (d div 2592000000) @ months_ago"
      by (simp add: time_human_def d_def)
    with r [OF 5] show ?thesis by auto
  next
    case 6
    then have "time_human now t = int_text (d div 31104000000) @ years_ago"
      by (simp add: time_human_def d_def)
    moreover have "1 \<le> d div 31104000000" using 6 by simp
    ultimately show ?thesis by blast
  qed
qed

end
