(* ===== verification/Chat_Store.thy ===== *)
theory Chat_Store
  imports Face
begin

section \<open>The chat pages: messages\<close>

text \<open>
  What \<open>chatRoom.js\<close> and \<open>im.js\<close> share: users, messages, the store of messages by channel, and the
  HTML of a robot's reply.  A list of messages is an array that is never replaced once it is in the
  store, so the reference \<open>msgList\<close> of a page is the name of its channel.
\<close>

record user =
  user_id :: string
  nickName :: units
  pic :: string

datatype msg_type = Sys | Send | User

record message =
  mtype :: msg_type
  sender :: "user option"
  content_msg :: units
  stamp :: "int option"

type_synonym store = "string \<Rightarrow> message list option"

definition robot :: user where
  "robot = \<lparr>user_id = ''a110'', nickName = uni [26426, 22120, 20154],
     pic = ''http://www.tuling123.com/resources/web/v4/img/personalCen/icon36.png''\<rparr>"

definition push_msg :: "string \<Rightarrow> message \<Rightarrow> store \<Rightarrow> store" where
  "push_msg i m st = (case st i of None \<Rightarrow> st | Some l \<Rightarrow> st(i \<mapsto> l @ [m]))"

definition open_channel :: "string \<Rightarrow> store \<Rightarrow> store" where
  \<comment> \<open>\<open>if(!store.state.msg[id]) store.state.msg[id] = []\<close>\<close>
  "open_channel i st = (case st i of None \<Rightarrow> st(i \<mapsto> []) | Some _ \<Rightarrow> st)"

definition getLastMsg :: "store \<Rightarrow> user \<Rightarrow> units" where
  "getLastMsg st u =
     (case st (user_id u) of
        None \<Rightarrow> []
      | Some l \<Rightarrow> if length l > 0 then content_msg (l ! (length l - 1)) else [])"

definition contains :: "units \<Rightarrow> units \<Rightarrow> bool" where
  \<comment> \<open>\<open>s.indexOf(p) != -1\<close>\<close>
  "contains s p = list_ex (\<lambda>n. take (length p) (drop n s) = p) [0..<Suc (length s)]"

lemma contains_occurs: "contains s p \<longleftrightarrow> occurs p s"
proof
  assume "contains s p"
  then obtain n where "take (length p) (drop n s) = p" by (auto simp: contains_def list_ex_iff)
  then have "s = take n s @ p @ drop (length p) (drop n s)" by (metis append_take_drop_id)
  then show "occurs p s" unfolding occurs_def by blast
next
  assume "occurs p s"
  then obtain us ws where s: "s = us @ p @ ws" by (auto simp: occurs_def)
  then have "take (length p) (drop (length us) s) = p" "length us < Suc (length s)" by auto
  then show "contains s p" unfolding contains_def list_ex_iff by (metis atLeastLessThan_iff le0 set_upt)
qed

subsection \<open>The robot's reply\<close>

record reply_item =
  detailurl :: units
  article :: units
  item_name :: units

record reply =
  code :: int
  reply_text :: units
  url :: units
  reply_list :: "reply_item list option"

definition link_item :: "units \<Rightarrow> units \<Rightarrow> units" where
  "link_item href label =
     units_of ''<li><a href='' @ uni [39] @ href @ uni [39] @ units_of '' target='' @ uni [39] @
     units_of ''page'' @ uni [39] @ units_of ''>'' @ label @ units_of ''</a></li>''"

definition list_html :: "(reply_item \<Rightarrow> units) \<Rightarrow> reply \<Rightarrow> units res" where
  \<comment> \<open>\<open>data.list.length\<close> throws when there is no list\<close>
  "list_html label data =
     (case reply_list data of
        None \<Rightarrow> Inl TypeError
      | Some items \<Rightarrow>
          (let len = (if length items < 3 then length items else 3) in
           Inr (reply_text data @ units_of ''<ul class='' @ uni [39] @ units_of ''res-list'' @ uni [39] @
                units_of ''>'' @ concat (map (\<lambda>i. link_item (detailurl (items ! i)) (label (items ! i))) [0..<len]) @
                units_of ''</li>'')))"

definition filterData :: "reply \<Rightarrow> units res" where
  "filterData data =
     (if code data = 100000 then Inr (reply_text data)
      else if code data = 200000 then
        Inr (reply_text data @ units_of ''<a href='' @ uni [39] @ url data @ uni [39] @
             units_of '' class='' @ uni [39] @ units_of ''res-link'' @ uni [39] @
             units_of '' target='' @ uni [39] @ units_of ''page'' @ uni [39] @ units_of ''>'' @
             uni [25171, 24320, 39029, 39029, 38754] @ units_of ''</a>'')
      else if code data = 302000 then list_html article data
      else if code data = 308000 then list_html item_name data
      else Inr (reply_text data))"

subsection \<open>The state of a page\<close>

text \<open>
  What the Vue instances of both pages hold.  \<open>shown\<close> is the key of the list in \<open>msgList\<close>; \<open>asked\<close>
  holds the requests to the robot that have no answer yet; \<open>console\<close> the exceptions that left an event
  handler.  An exception ends its handler and not the page.
\<close>

record page =
  curUser :: user
  onlineList :: "user list"
  channel :: user
  shown :: string
  msg_store :: store
  time :: "int option"
  asked :: "units list"
  console :: "js_error list"

definition remove_at :: "nat \<Rightarrow> 'a list \<Rightarrow> 'a list" where
  "remove_at i xs = take i xs @ drop (Suc i) xs"

definition show_channel :: "('a page_scheme) \<Rightarrow> 'a page_scheme" where
  \<comment> \<open>the watcher of \<open>channel\<close>\<close>
  "show_channel s =
     s\<lparr>msg_store := open_channel (user_id (channel s)) (msg_store s), shown := user_id (channel s)\<rparr>"

definition push_shown :: "message \<Rightarrow> 'a page_scheme \<Rightarrow> 'a page_scheme" where
  "push_shown m s = s\<lparr>msg_store := push_msg (shown s) m (msg_store s)\<rparr>"

text \<open>
  The invariant of a page: the list on the screen is the one of the channel, a message that was
  received is kept under the name of its sender, and a message that was sent is the user's own.
\<close>

definition filed :: "user \<Rightarrow> string \<Rightarrow> message \<Rightarrow> bool" where
  "filed me i m \<longleftrightarrow>
     (case mtype m of
        Sys \<Rightarrow> sender m = None
      | Send \<Rightarrow> sender m = Some me
      | User \<Rightarrow> (\<exists>u. sender m = Some u \<and> user_id u = i))"

definition page_ok :: "'a page_scheme \<Rightarrow> bool" where
  "page_ok s \<longleftrightarrow>
     shown s = user_id (channel s) \<and> msg_store s (shown s) \<noteq> None \<and>
     (\<forall>i l. msg_store s i = Some l \<longrightarrow> (\<forall>m \<in> set l. filed (curUser s) i m))"

lemma page_ok_push:
  assumes "page_ok s" and "filed (curUser s) (shown s) m"
  shows "page_ok (push_shown m s)"
  using assms by (auto simp: page_ok_def push_shown_def push_msg_def split: option.splits if_splits)

lemma page_ok_show:
  assumes "page_ok s"
  shows "page_ok (show_channel (s\<lparr>channel := u\<rparr>))"
  using assms
  by (auto simp: page_ok_def show_channel_def open_channel_def split: option.splits if_splits)

lemma page_ok_irrelevant:
  "page_ok (s\<lparr>time := t\<rparr>) = page_ok s" "page_ok (s\<lparr>asked := a\<rparr>) = page_ok s"
  "page_ok (s\<lparr>console := c\<rparr>) = page_ok s"
  by (simp_all add: page_ok_def)

lemma pushed_extends: "store' = store \<or> (\<exists>m. store' = push_msg v m store) \<or> (\<exists>i. store' = open_channel i store) \<Longrightarrow>
  i \<noteq> v \<Longrightarrow> store i = Some l \<Longrightarrow> store' i = Some l"
  by (auto simp: push_msg_def open_channel_def split: option.splits)

subsection \<open>What every page promises\<close>

definition extends :: "store \<Rightarrow> store \<Rightarrow> bool" where
  "extends st st' \<longleftrightarrow> (\<forall>i l. st i = Some l \<longrightarrow> (\<exists>l'. st' i = Some (l @ l')))"

lemma extends_refl [simp]: "extends st st"
  by (auto simp: extends_def)

lemma extends_trans: "extends a b \<Longrightarrow> extends b c \<Longrightarrow> extends a c"
  unfolding extends_def by (metis append_assoc)

lemma extends_push [simp]: "extends st (push_msg i m st)"
  by (auto simp: extends_def push_msg_def split: option.splits)

lemma extends_open [simp]: "extends st (open_channel i st)"
  by (auto simp: extends_def open_channel_def split: option.splits)

text \<open>
  The contract of a page that handles one event after the other: an invariant \<open>ok\<close>; the store
  \<open>log\<close> only grows, by appending; and only the list \<open>view\<close> on the screen grows.
\<close>

locale conversation =
  fixes step :: "'e \<Rightarrow> 's \<Rightarrow> 's" and ok :: "'s \<Rightarrow> bool" and log :: "'s \<Rightarrow> store" and view :: "'s \<Rightarrow> string"
  assumes step_ok: "ok s \<Longrightarrow> ok (step e s)"
    and step_extends: "ok s \<Longrightarrow> extends (log s) (log (step e s))"
    and step_other: "ok s \<Longrightarrow> i \<noteq> view s \<Longrightarrow> log s i = Some l \<Longrightarrow> log (step e s) i = Some l"
begin

lemma run_ok: "ok s \<Longrightarrow> ok (fold step es s)"
  by (induction es arbitrary: s) (auto intro: step_ok)

lemma run_extends: "ok s \<Longrightarrow> extends (log s) (log (fold step es s))"
  by (induction es arbitrary: s) (auto intro: extends_trans step_extends step_ok)

text \<open>A channel that is not looked at during a run keeps its messages.\<close>

lemma run_other:
  assumes "ok s" "log s i = Some l" and "\<And>n. n \<le> length es \<Longrightarrow> i \<noteq> view (fold step (take n es) s)"
  shows "log (fold step es s) i = Some l"
  using assms
proof (induction es arbitrary: s)
  case (Cons e es)
  have "i \<noteq> view s" using Cons.prems(3) [of 0] by simp
  then have "log (step e s) i = Some l" by (rule step_other [OF Cons.prems(1) _ Cons.prems(2)])
  moreover have "i \<noteq> view (fold step (take n es) (step e s))" if "n \<le> length es" for n
    using Cons.prems(3) [of "Suc n"] that by simp
  ultimately show ?case using Cons.IH step_ok [OF Cons.prems(1)] by simp
qed simp

end

subsection \<open>The HTML of a list\<close>

lemma no_close:
  assumes "60 \<notin> set s"
  shows "occurs (60 # p) (s @ t) \<longleftrightarrow> occurs (60 # p) t"
  using assms by (induction s) (auto simp: occurs_Cons)

end
