(* ===== verification/Chat_Room.thy ===== *)
theory Chat_Room
  imports Chat_Store
begin

section \<open>chatRoom.js: the page of the chat room\<close>

text \<open>
  The Vue instance of \<open>chatRoom.js\<close> as a step function on its events.  The clock, the texts typed and
  the answers of the robot's service are carried by the events.  A change of \<open>channel\<close> runs its
  watcher at the end of the handler.
\<close>

record room = page +
  typed :: units
  search_words :: units
  alter_show :: bool
  showMenu :: bool
  store_channel :: user

datatype room_event =
    ChangeChannel user
  | TypeText units
  | TypeKeywords units
  | ChooseFace units
  | SendMsg int
  | Reply nat reply int
  | HideAlter
  | DocumentClick

definition room_user :: user where
  "room_user = \<lparr>user_id = ''1'', nickName = uni [20284, 27700, 27969, 24180],
     pic = ''http://q.qlogo.cn/headimg_dl?dst_uin=705597001&spec=100''\<rparr>"

definition room_friend :: user where
  "room_friend = \<lparr>user_id = ''b11'', nickName = uni [28201, 26580, 30340, 33606, 26840],
     pic = ''http://cleverqin.oschina.io/site/IM/img/10.jpg''\<rparr>"

definition room_mounted :: "int \<Rightarrow> room" where
  "room_mounted now =
     (let sys = \<lparr>mtype = Sys, sender = None,
                 content_msg = uni [31995, 32479, 28040, 24687, 65306, 26426, 22120, 20154, 21152, 20837,
                   20102, 32842, 22825, 23460], stamp = Some now\<rparr> in
      \<lparr>curUser = room_user, onlineList = [robot, room_friend], channel = robot, shown = user_id robot,
       msg_store = [user_id robot \<mapsto> [sys]], time = None, asked = [], console = [],
       typed = [], search_words = [], alter_show = False, showMenu = False, store_channel = robot\<rparr>)"

definition room_changeChannel :: "user \<Rightarrow> room \<Rightarrow> room" where
  "room_changeChannel u s =
     (if u \<noteq> channel s
      then show_channel (s\<lparr>store_channel := u, channel := u\<rparr>)
      else s)"

definition room_postMsg :: "units \<Rightarrow> room \<Rightarrow> room" where
  "room_postMsg m s = s\<lparr>asked := asked s @ [m]\<rparr>"

definition room_sendMsg :: "int \<Rightarrow> room \<Rightarrow> room" where
  "room_sendMsg now s =
     (if trim_text (typed s) \<noteq> [] then
        let s = s\<lparr>time := Some now\<rparr>;
            item = \<lparr>mtype = Send, sender = Some (curUser s), content_msg = replaceFace (typed s),
                    stamp = time s\<rparr>;
            s = room_postMsg (typed s) (push_shown item s)
        in s\<lparr>typed := []\<rparr>
      else s)"

definition room_reply :: "reply \<Rightarrow> int \<Rightarrow> room \<Rightarrow> room" where
  \<comment> \<open>the callback of \<open>API.request('robot', \<dots>)\<close>\<close>
  "room_reply data now s =
     (if reply_text data \<noteq> [] then
        let s = s\<lparr>time := Some now\<rparr> in
        case filterData data of
          Inl e \<Rightarrow> s\<lparr>console := console s @ [e]\<rparr>
        | Inr html \<Rightarrow>
            push_shown \<lparr>mtype = User, sender = Some (channel s), content_msg = html, stamp = time s\<rparr> s
      else s)"

definition filterName :: "room \<Rightarrow> user list" where
  "filterName s = filter (\<lambda>item. contains (nickName item) (search_words s)) (onlineList s)"

fun room_step :: "room_event \<Rightarrow> room \<Rightarrow> room" where
  "room_step (ChangeChannel u) s = room_changeChannel u s"
| "room_step (TypeText t) s = s\<lparr>typed := t\<rparr>"
| "room_step (TypeKeywords t) s = s\<lparr>search_words := t\<rparr>"
| "room_step (ChooseFace title) s = s\<lparr>typed := chooseFace title (typed s)\<rparr>"
| "room_step (SendMsg now) s = room_sendMsg now s"
| "room_step (Reply i data now) s =
     (if i < length (asked s) then room_reply data now (s\<lparr>asked := remove_at i (asked s)\<rparr>) else s)"
| "room_step HideAlter s = s\<lparr>alter_show := False\<rparr>"
| "room_step DocumentClick s = s\<lparr>showMenu := False\<rparr>"

abbreviation room_run :: "int \<Rightarrow> room_event list \<Rightarrow> room" where
  "room_run now es \<equiv> fold room_step es (room_mounted now)"

subsection \<open>The contract of the page\<close>

lemma room_mounted_ok: "page_ok (room_mounted now)"
  by (auto simp: page_ok_def room_mounted_def filed_def)

lemma page_ok_room:
  fixes s :: room
  shows "page_ok (s\<lparr>typed := x\<rparr>) = page_ok s" "page_ok (s\<lparr>search_words := x\<rparr>) = page_ok s"
    "page_ok (s\<lparr>alter_show := b\<rparr>) = page_ok s" "page_ok (s\<lparr>showMenu := b\<rparr>) = page_ok s"
    "page_ok (s\<lparr>store_channel := u\<rparr>) = page_ok s"
  by (simp_all add: page_ok_def)

lemma room_step_ok: "page_ok s \<Longrightarrow> page_ok (room_step e s)"
proof (cases e)
  case (ChangeChannel u)
  assume "page_ok s"
  then have "page_ok (show_channel ((s\<lparr>store_channel := u\<rparr>)\<lparr>channel := u\<rparr>))"
    by (intro page_ok_show) (simp add: page_ok_room)
  with ChangeChannel \<open>page_ok s\<close> show ?thesis by (simp add: room_changeChannel_def)
next
  case (SendMsg now)
  assume "page_ok s"
  then show ?thesis
    using page_ok_push [of "s\<lparr>time := Some now\<rparr>"]
    by (simp add: SendMsg room_sendMsg_def room_postMsg_def Let_def page_ok_irrelevant page_ok_room filed_def)
next
  case (Reply i data now)
  assume ok: "page_ok s"
  let ?s = "s\<lparr>asked := remove_at i (asked s), time := Some now\<rparr>"
  from ok have "page_ok ?s" by (simp add: page_ok_irrelevant)
  moreover from ok have "shown s = user_id (channel s)" by (simp add: page_ok_def)
  ultimately show ?thesis
    using ok page_ok_push [of ?s]
    by (auto simp: Reply room_reply_def Let_def page_ok_irrelevant filed_def split: sum.splits)
qed (simp_all add: page_ok_room)

lemma room_step_store:
  "msg_store (room_step e s) = msg_store s \<or>
   (\<exists>m. msg_store (room_step e s) = push_msg (shown s) m (msg_store s)) \<or>
   (\<exists>i. msg_store (room_step e s) = open_channel i (msg_store s))"
  by (cases e) (auto simp: room_changeChannel_def show_channel_def room_sendMsg_def room_postMsg_def
      push_shown_def room_reply_def Let_def split: sum.splits)

interpretation room_page: conversation room_step page_ok msg_store shown
proof
  fix s :: room and e i l
  assume "page_ok s"
  then show "page_ok (room_step e s)" by (rule room_step_ok)
  show "extends (msg_store s) (msg_store (room_step e s))"
    using room_step_store [of e s] by auto
  assume "i \<noteq> shown s" "msg_store s i = Some l"
  then show "msg_store (room_step e s) i = Some l"
    by (rule pushed_extends [OF room_step_store])
qed

end
