(* ===== verification/Im.thy ===== *)
theory Im
  imports Chat_Store
begin

section \<open>im.js: the page of the messenger\<close>

text \<open>
  The Vue instance of \<open>im.js\<close>.  It differs from the chat room in its watcher, which runs for every
  change, in the order of a message's effects and in that messages carry no time.
\<close>

record messenger = page +
  content :: units
  list_show :: bool

datatype im_event =
    ImChangeChannel user
  | ImType units
  | ImChooseFace units
  | ImSendMsg int
  | ImReply nat reply int

definition im_user :: user where
  "im_user = \<lparr>user_id = ''c111'', nickName = uni [20284, 27700, 27969, 24180], pic = ''img/img.jpg''\<rparr>"

definition im_friend :: user where
  "im_friend = \<lparr>user_id = ''b110'', nickName = uni [28201, 26580, 30340, 33606, 26840], pic = ''img/10.jpg''\<rparr>"

definition im_mounted :: "int \<Rightarrow> messenger" where
  "im_mounted now =
     (let sys = \<lparr>mtype = Sys, sender = None,
                 content_msg = uni [31995, 32479, 28040, 24687, 65306, 26426, 22120, 20154, 19978, 32447, 20102],
                 stamp = None\<rparr> in
      \<lparr>curUser = im_user, onlineList = [robot, im_friend], channel = robot, shown = user_id robot,
       msg_store = [user_id robot \<mapsto> [sys]], time = Some now, asked = [], console = [],
       content = [], list_show = False\<rparr>)"

definition im_changeChannel :: "user \<Rightarrow> messenger \<Rightarrow> messenger" where
  "im_changeChannel u s =
     (let s' = s\<lparr>list_show := False, channel := u\<rparr> in
      if u \<noteq> channel s then show_channel s' else s')"

definition im_getMsg :: "units \<Rightarrow> messenger \<Rightarrow> messenger" where
  "im_getMsg m s = s\<lparr>asked := asked s @ [m]\<rparr>"

definition im_sendMsg :: "int \<Rightarrow> messenger \<Rightarrow> messenger" where
  "im_sendMsg now s =
     (if trim_text (content s) \<noteq> [] then
        let item = \<lparr>mtype = Send, sender = Some (curUser s), content_msg = replaceFace (content s),
                    stamp = None\<rparr>;
            s = im_getMsg (content s) (push_shown item s);
            s = s\<lparr>content := []\<rparr>
        in s\<lparr>time := Some now\<rparr>
      else s)"

definition im_reply :: "reply \<Rightarrow> int \<Rightarrow> messenger \<Rightarrow> messenger" where
  \<comment> \<open>the callback of \<open>this.$http.get\<close>\<close>
  "im_reply data now s =
     (if reply_text data \<noteq> [] then
        case filterData data of
          Inl e \<Rightarrow> s\<lparr>console := console s @ [e]\<rparr>
        | Inr html \<Rightarrow>
            (push_shown \<lparr>mtype = User, sender = Some (channel s), content_msg = html, stamp = None\<rparr> s)
              \<lparr>time := Some now\<rparr>
      else s)"

fun im_step :: "im_event \<Rightarrow> messenger \<Rightarrow> messenger" where
  "im_step (ImChangeChannel u) s = im_changeChannel u s"
| "im_step (ImType t) s = s\<lparr>content := t\<rparr>"
| "im_step (ImChooseFace title) s = s\<lparr>content := chooseFace title (content s)\<rparr>"
| "im_step (ImSendMsg now) s = im_sendMsg now s"
| "im_step (ImReply i data now) s =
     (if i < length (asked s) then im_reply data now (s\<lparr>asked := remove_at i (asked s)\<rparr>) else s)"

abbreviation im_run :: "int \<Rightarrow> im_event list \<Rightarrow> messenger" where
  "im_run now es \<equiv> fold im_step es (im_mounted now)"

subsection \<open>The contract of the page\<close>

lemma im_mounted_ok: "page_ok (im_mounted now)"
  by (auto simp: page_ok_def im_mounted_def filed_def)

lemma page_ok_im:
  fixes s :: messenger
  shows "page_ok (s\<lparr>content := x\<rparr>) = page_ok s" "page_ok (s\<lparr>list_show := b\<rparr>) = page_ok s"
  by (simp_all add: page_ok_def)

lemma page_ok_same_channel: "page_ok s \<Longrightarrow> page_ok (s\<lparr>channel := channel s\<rparr>)"
  by (auto simp: page_ok_def)

lemma im_step_ok: "page_ok s \<Longrightarrow> page_ok (im_step e s)"
proof (cases e)
  case (ImChangeChannel u)
  assume "page_ok s"
  then have "page_ok (s\<lparr>list_show := False\<rparr>)" by (simp add: page_ok_im)
  with ImChangeChannel show ?thesis
    using page_ok_show [of "s\<lparr>list_show := False\<rparr>"] page_ok_same_channel [of "s\<lparr>list_show := False\<rparr>"]
    by (simp add: im_changeChannel_def Let_def)
next
  case (ImSendMsg now)
  assume "page_ok s"
  then show ?thesis
    using page_ok_push [of s]
    by (simp add: ImSendMsg im_sendMsg_def im_getMsg_def Let_def page_ok_irrelevant page_ok_im filed_def)
next
  case (ImReply i data now)
  assume ok: "page_ok s"
  let ?s = "s\<lparr>asked := remove_at i (asked s)\<rparr>"
  from ok have "page_ok ?s" by (simp add: page_ok_irrelevant)
  moreover from ok have "shown s = user_id (channel s)" by (simp add: page_ok_def)
  ultimately show ?thesis
    using ok page_ok_push [of ?s]
    by (auto simp: ImReply im_reply_def Let_def page_ok_irrelevant filed_def split: sum.splits)
qed (simp_all add: page_ok_im)

lemma im_step_store:
  "msg_store (im_step e s) = msg_store s \<or>
   (\<exists>m. msg_store (im_step e s) = push_msg (shown s) m (msg_store s)) \<or>
   (\<exists>i. msg_store (im_step e s) = open_channel i (msg_store s))"
  by (cases e) (auto simp: im_changeChannel_def show_channel_def im_sendMsg_def im_getMsg_def
      push_shown_def im_reply_def Let_def split: sum.splits)

interpretation im_page: conversation im_step page_ok msg_store shown
proof
  fix s :: messenger and e i l
  assume "page_ok s"
  then show "page_ok (im_step e s)" by (rule im_step_ok)
  show "extends (msg_store s) (msg_store (im_step e s))"
    using im_step_store [of e s] by auto
  assume "i \<noteq> shown s" "msg_store s i = Some l"
  then show "msg_store (im_step e s) i = Some l"
    by (rule pushed_extends [OF im_step_store])
qed

end
