(* ===== verification/Chat.thy ===== *)
theory Chat
  imports Chat_Room Im
begin

section \<open>Properties of the chat pages\<close>

text \<open>
  The messages of both pages over whole runs, and the HTML of the robot's replies.
\<close>

lemma remove_head: "remove_at 0 (x # xs) = xs"
  by (simp add: remove_at_def)

text \<open>
  C23.  Whatever happens on a page, no message is ever lost, changed or reordered: at any later moment
  the list of a channel is the list it had, followed by new messages; and a channel that was not on
  the screen in between has exactly the list it had.  This holds for both pages.
\<close>

theorem history_append_only:
  "extends (msg_store (room_run t es)) (msg_store (room_run t (es @ fs))) \<and>
   extends (msg_store (im_run t es')) (msg_store (im_run t (es' @ fs'))) \<and>
   ((\<forall>n \<le> length fs. i \<noteq> shown (room_run t (es @ take n fs))) \<longrightarrow>
    msg_store (room_run t es) i = Some l \<longrightarrow> msg_store (room_run t (es @ fs)) i = Some l) \<and>
   ((\<forall>n \<le> length fs'. i \<noteq> shown (im_run t (es' @ take n fs'))) \<longrightarrow>
    msg_store (im_run t es') i = Some l \<longrightarrow> msg_store (im_run t (es' @ fs')) i = Some l)"
proof -
  have r: "page_ok (room_run t es)" by (rule room_page.run_ok [OF room_mounted_ok])
  have m: "page_ok (im_run t es')" by (rule im_page.run_ok [OF im_mounted_ok])
  show ?thesis
    using room_page.run_extends [OF r] im_page.run_extends [OF m]
      room_page.run_other [OF r] im_page.run_other [OF m] by simp
qed

lemmas room_exec = room_mounted_def room_changeChannel_def show_channel_def open_channel_def
  room_sendMsg_def room_postMsg_def push_shown_def push_msg_def room_reply_def room_user_def
  room_friend_def robot_def Let_def

theorem history_append_only_witness:
  "msg_store (room_run 0 ([ChangeChannel room_friend] @ [TypeText (uni [97]), SendMsg 1])) ''a110''
   = msg_store (room_mounted 0) ''a110''"
proof -
  have "\<forall>n \<le> length [TypeText (uni [97]), SendMsg 1].
      ''a110'' \<noteq> shown (room_run 0 ([ChangeChannel room_friend] @ take n [TypeText (uni [97]), SendMsg 1]))"
    by (simp add: le_Suc_eq room_exec uni_def numeral_2_eq_2 all_conj_distrib)
  moreover obtain l where l: "msg_store (room_run 0 [ChangeChannel room_friend]) ''a110'' = Some l"
    by (simp add: room_exec)
  ultimately have "msg_store (room_run 0 ([ChangeChannel room_friend] @ [TypeText (uni [97]), SendMsg 1])) ''a110'' = Some l"
    using history_append_only [where t = 0 and es = "[ChangeChannel room_friend]"
        and fs = "[TypeText (uni [97]), SendMsg 1]" and i = "''a110''" and l = l] by blast
  moreover have "msg_store (room_mounted 0) ''a110'' = Some l" using l by (simp add: room_exec)
  ultimately show ?thesis by (simp only:)
qed




text \<open>
  A text of white space sends nothing; any other text adds one message with the emoticons
  replaced to the list on the screen, asks the robot once for the text as typed, and empties the
  field.  The same holds in both pages.
\<close>

theorem send_message:
  "(if list_all white (typed s) then room_step (SendMsg now) s = s
    else asked (room_step (SendMsg now) s) = asked s @ [typed s] \<and> typed (room_step (SendMsg now) s) = [] \<and>
      msg_store (room_step (SendMsg now) s) = push_msg (shown s)
        \<lparr>mtype = Send, sender = Some (curUser s), content_msg = replaceFace (typed s), stamp = Some now\<rparr>
        (msg_store s)) \<and>
   (if list_all white (content m) then im_step (ImSendMsg now) m = m
    else asked (im_step (ImSendMsg now) m) = asked m @ [content m] \<and> content (im_step (ImSendMsg now) m) = [] \<and>
      msg_store (im_step (ImSendMsg now) m) = push_msg (shown m)
        \<lparr>mtype = Send, sender = Some (curUser m), content_msg = replaceFace (content m), stamp = None\<rparr>
        (msg_store m))"
  by (simp add: room_sendMsg_def im_sendMsg_def room_postMsg_def im_getMsg_def push_shown_def Let_def
      trim_text_Nil list_all_iff)

lemma close_link:
  assumes "60 \<notin> set href" "60 \<notin> set label"
  shows "occurs (units_of ''</ul>'') (link_item href label @ t) \<longleftrightarrow> occurs (units_of ''</ul>'') t"
  using no_close [OF assms(1)] no_close [OF assms(2)]
  by (simp add: link_item_def units_of_def uni_def occurs_Cons)

lemma close_links:
  assumes "\<And>i. i \<in> set xs \<Longrightarrow> 60 \<notin> set (f i) \<and> 60 \<notin> set (g i)"
  shows "occurs (units_of ''</ul>'') (concat (map (\<lambda>i. link_item (f i) (g i)) xs) @ t) \<longleftrightarrow>
    occurs (units_of ''</ul>'') t"
  using assms by (induction xs) (auto simp: close_link)

text \<open>
  The answer of the class \<open>news\<close> or \<open>recipe\<close> lists the first three items at most.  Its list is
  opened and never closed (the text ends with the tag of a list item), and an answer of these classes
  without a list is an exception.
\<close>

theorem reply_list_html:
  assumes "code data \<in> {302000, 308000}"
    and "60 \<notin> set (reply_text data)"
    and "\<And>i. i \<in> set (case reply_list data of None \<Rightarrow> [] | Some items \<Rightarrow> items) \<Longrightarrow>
          60 \<notin> set (detailurl i) \<union> set (article i) \<union> set (item_name i)"
  shows "(case reply_list data of
       None \<Rightarrow> filterData data = Inl TypeError
     | Some items \<Rightarrow> \<exists>html. filterData data = Inr html \<and>
          occurs (units_of ''<ul'') html \<and> \<not> occurs (units_of ''</ul>'') html)"
proof (cases "reply_list data")
  case (Some items)
  define xs where "xs = [0..<(if length items < 3 then length items else 3)]"
  define label :: "reply_item \<Rightarrow> units" where "label = (if code data = 302000 then article else item_name)"
  define links where "links = concat (map (\<lambda>i. link_item (detailurl (items ! i)) (label (items ! i))) xs)"
  define html where "html = reply_text data @ (units_of ''<ul class='' @ uni [39] @ units_of ''res-list'' @
    uni [39] @ units_of ''>'' @ links @ units_of ''</li>'')"
  have "60 \<notin> set (detailurl (items ! i)) \<and> 60 \<notin> set (label (items ! i))" if "i \<in> set xs" for i
    using that assms(3) [of "items ! i"] nth_mem [of i items]
    by (auto simp: Some xs_def label_def split: if_splits)
  then have links: "occurs (units_of ''</ul>'') (links @ t) \<longleftrightarrow> occurs (units_of ''</ul>'') t" for t
    unfolding links_def by (rule close_links)
  have u: "units_of ''</ul>'' = 60 # units_of ''/ul>''" by (simp add: units_of_def)
  have "filterData data = Inr html"
    using assms(1) Some by (auto simp: filterData_def list_html_def html_def links_def xs_def label_def)
  moreover have "\<not> occurs (units_of ''</ul>'') html"
    unfolding html_def u no_close [OF assms(2)]
    using links by (simp add: units_of_def uni_def occurs_Cons) (simp add: occurs_def)
  moreover have "occurs (units_of ''<ul'') html"
    unfolding html_def by (rule occurs_append) (simp add: units_of_def occurs_Cons)
  ultimately show ?thesis using Some by auto
qed (use assms(1) in \<open>auto simp: filterData_def list_html_def\<close>)

theorem reply_list_html_witness:
  "\<exists>html. filterData \<lparr>code = 302000, reply_text = uni [97], url = [],
       reply_list = Some [\<lparr>detailurl = uni [98], article = uni [99], item_name = []\<rparr>]\<rparr> = Inr html \<and>
     \<not> occurs (units_of ''</ul>'') html"
  using reply_list_html [of "\<lparr>code = 302000, reply_text = uni [97], url = [],
       reply_list = Some [\<lparr>detailurl = uni [98], article = uni [99], item_name = []\<rparr>]\<rparr>"]
  by (auto simp: uni_def)

end
