(* ===== verification/Next_Utils.thy ===== *)
theory Next_Utils
  imports JsPrelude
begin

section \<open>utils.js: helpers of the blog's pages\<close>

text \<open>
  \<open>NexT.utils\<close>.  A function that reads the document takes what it reads as an argument, a record
  of the elements it selects; a function that changes elements returns them.
\<close>

subsection \<open>Images\<close>

record image =
  hidden :: bool
  in_gallery :: bool
  title :: string
  data_original :: string
  src :: string

record image_link =
  href :: string
  link_classes :: "string list"
  rel :: string
  captions :: "string list"
  link_title :: string

definition addClass :: "string \<Rightarrow> string list \<Rightarrow> string list" where
  "addClass c cs = (if c \<in> set cs then cs else cs @ [c])"

definition wrap_image :: "image \<times> image_link option \<Rightarrow> image \<times> image_link option" where
  \<comment> \<open>an image with the link it is in, if it is in one; a missing attribute is the empty text\<close>
  "wrap_image il =
     (let (im, parent) = il in
      if hidden im \<or> in_gallery im then il
      else
        let l = (case parent of
                   Some l \<Rightarrow> l
                 | None \<Rightarrow> \<lparr>href = (if data_original im \<noteq> [] then data_original im else src im),
                             link_classes = [], rel = [], captions = [], link_title = []\<rparr>);
            l = l\<lparr>link_classes := addClass ''fancybox.image'' (addClass ''fancybox'' (link_classes l)),
                  rel := ''group''\<rparr>;
            l = (if title im \<noteq> [] then l\<lparr>captions := captions l @ [title im], link_title := title im\<rparr> else l)
        in (im, Some l))"

definition wrapImageWithFancyBox :: "(image \<times> image_link option) list \<Rightarrow> (image \<times> image_link option) list" where
  "wrapImageWithFancyBox ims = map wrap_image ims"

subsection \<open>Tabs\<close>

text \<open>
  One group of tabs: for each tab the hash of its permalink, and whether its \<open>li\<close> and its panel have
  the class \<open>active\<close>.
\<close>

record tab =
  tab_hash :: string
  nav_active :: bool
  pane_active :: bool

record tabs_page =
  tabs :: "tab list"
  loc_hash :: string

definition select_nav :: "string \<Rightarrow> tab list \<Rightarrow> tab list" where
  \<comment> \<open>\<open>addClass('active').siblings().removeClass('active')\<close>; nothing if no tab has the hash\<close>
  "select_nav h ts =
     (if h \<in> tab_hash ` set ts then map (\<lambda>t. t\<lparr>nav_active := (tab_hash t = h)\<rparr>) ts else ts)"

definition select_pane :: "string \<Rightarrow> tab list \<Rightarrow> tab list" where
  "select_pane h ts =
     (if h \<in> tab_hash ` set ts then map (\<lambda>t. t\<lparr>pane_active := (tab_hash t = h)\<rparr>) ts else ts)"

definition click_nav :: "nat \<Rightarrow> tab list \<Rightarrow> tab list" where
  "click_nav i ts = map (\<lambda>(j, t). t\<lparr>nav_active := (j = i)\<rparr>) (enumerate 0 ts)"

datatype tab_event = HashChange string | ClickTab nat

fun tab_step :: "tab_event \<Rightarrow> tabs_page \<Rightarrow> tabs_page" where
  "tab_step (HashChange h) p =
     (let p = p\<lparr>loc_hash := h\<rparr> in
      if h \<noteq> [] then p\<lparr>tabs := select_pane h (select_nav h (tabs p))\<rparr> else p)"
| "tab_step (ClickTab i) p =
     (if i < length (tabs p) \<and> \<not> nav_active (tabs p ! i) then
        let h = tab_hash (tabs p ! i) in
        p\<lparr>tabs := select_pane h (click_nav i (tabs p)), loc_hash := []\<rparr>
      else p)"

subsection \<open>Keys, scrolling\<close>

record popup_page =
  popup_visible :: bool
  overlays :: nat
  body_overflow :: string

definition esc_key :: "nat \<Rightarrow> popup_page \<Rightarrow> popup_page" where
  "esc_key which p =
     (if which = 27 \<and> popup_visible p
      then p\<lparr>popup_visible := False, overlays := 0, body_overflow := []\<rparr>
      else p)"

record page_sizes =
  content_height :: jsnum
  window_height :: jsnum
  document_height :: jsnum

definition getContentVisibilityHeight :: "page_sizes \<Rightarrow> jsnum" where
  "getContentVisibilityHeight p =
     (if content_height p > window_height p then content_height p - window_height p
      else document_height p - window_height p)"

record back_to_top =
  button_on :: bool
  percent_shown :: jsnum

definition on_scroll :: "page_sizes \<Rightarrow> jsnum \<Rightarrow> back_to_top" where
  "on_scroll p scrollTop =
     (let scrollPercent = scrollTop / getContentVisibilityHeight p;
          scrollPercentRounded = Math_round (scrollPercent * Num 100);
          scrollPercentMaxed = (if scrollPercentRounded > Num 100 then Num 100 else scrollPercentRounded) in
      \<lparr>button_on = (scrollTop > Num 50), percent_shown = scrollPercentMaxed\<rparr>)"

subsection \<open>Embedded videos\<close>

definition SUPPORTED_PLAYERS :: "string list" where
  "SUPPORTED_PLAYERS =
     [''www.youtube.com'', ''player.vimeo.com'', ''player.youku.com'', ''music.163.com'', ''www.tudou.com'']"

definition dot_match :: "string \<Rightarrow> string \<Rightarrow> bool" where
  \<comment> \<open>the text starts with a match of the pattern, whose dots stand for any character but a line end\<close>
  "dot_match pat s \<longleftrightarrow>
     length pat \<le> length s \<and>
     list_all2 (\<lambda>p c. if p = CHR ''.'' then c \<noteq> CHR 10 \<and> c \<noteq> CHR 13 else p = c) pat (take (length pat) s)"

fun search :: "string list \<Rightarrow> string \<Rightarrow> int" where
  "search pats [] = (if list_ex (\<lambda>p. dot_match p []) pats then 0 else - 1)"
| "search pats (c # s) =
     (if list_ex (\<lambda>p. dot_match p (c # s)) pats then 0
      else if search pats s = - 1 then - 1 else search pats s + 1)"

definition getAspectRadio :: "jsnum \<Rightarrow> jsnum \<Rightarrow> jsnum" where
  "getAspectRadio width height = height / width * Num 100"

definition set_padding :: "jsnum \<Rightarrow> real option \<Rightarrow> real option" where
  \<comment> \<open>a percentage that is not a number from 0 on is no value of \<open>padding-top\<close> and is not set\<close>
  "set_padding x old = (case x of Num r \<Rightarrow> if r \<ge> 0 then Some r else old | _ \<Rightarrow> old)"

record frame =
  frame_src :: string
  frame_width :: jsnum
  frame_height :: jsnum
  new_width :: jsnum
  new_height :: jsnum

definition embed_video :: "frame \<Rightarrow> real option" where
  \<comment> \<open>the padding of the wrapper in percent; \<open>None\<close> if the frame is not wrapped\<close>
  "embed_video f =
     (if search SUPPORTED_PLAYERS (frame_src f) > 0 then
        let padding = set_padding (getAspectRadio (frame_width f) (frame_height f)) None;
            padding = (if padding = None then Some 50 else padding) in
        if search [''music.163.com''] (frame_src f) > 0 \<and>
           (new_width f > frame_width f \<or> new_height f < frame_height f)
        then set_padding (getAspectRadio (new_width f) (frame_height f)) padding
        else padding
      else None)"

definition embeddedVideoTransformer :: "frame list \<Rightarrow> real option list" where
  "embeddedVideoTransformer fs = map embed_video fs"

subsection \<open>Menu, devices, schemes\<close>

definition starts_with :: "string \<Rightarrow> string \<Rightarrow> bool" where
  "starts_with s p = (take (length p) s = p)"

definition menu_path :: "string \<Rightarrow> string" where
  \<comment> \<open>\<open>path.substring(0, path.length - 1)\<close>\<close>
  "menu_path path = (if path = ''/'' then path else take (length path - 1) path)"

definition addActiveClassToMenuItem :: "string \<Rightarrow> string list \<Rightarrow> nat option" where
  \<comment> \<open>the index of the menu item that becomes active\<close>
  "addActiveClassToMenuItem path hrefs =
     (if path = [] \<or> menu_path path = [] then None
      else case filter (\<lambda>i. starts_with (hrefs ! i) (menu_path path)) [0..<length hrefs] of
             [] \<Rightarrow> None
           | i # _ \<Rightarrow> Some i)"

definition mobile_agents :: "string list" where
  "mobile_agents = [''iPad'', ''iPhone'', ''Android'', ''Opera Mini'', ''BlackBerry'', ''webOS'', ''UCWEB'',
     ''Blazer'', ''PSP'', ''IEMobile'', ''Symbian'']"

definition hasMobileUA :: "string \<Rightarrow> bool" where
  "hasMobileUA ua = list_ex (\<lambda>a. str_indexOf ua a > - 1) mobile_agents"

definition isTablet :: "real \<Rightarrow> string \<Rightarrow> bool" where
  "isTablet width ua \<longleftrightarrow> width < 992 \<and> width > 767 \<and> hasMobileUA ua"

definition isMobile :: "real \<Rightarrow> string \<Rightarrow> bool" where
  "isMobile width ua \<longleftrightarrow> width < 767 \<and> hasMobileUA ua"

definition isDesktop :: "real \<Rightarrow> string \<Rightarrow> bool" where
  "isDesktop width ua \<longleftrightarrow> \<not> isTablet width ua \<and> \<not> isMobile width ua"

definition selector_meta :: "char set" where
  "selector_meta = set ([CHR ''!'', CHR 34, CHR ''$'', CHR ''%'', CHR ''&'', CHR 39, CHR ''('', CHR '')'',
     CHR ''*'', CHR ''+'', CHR '','', CHR ''.'', CHR ''/'', CHR '':'', CHR '';'', CHR ''<'', CHR ''='',
     CHR ''>'', CHR ''?'', CHR ''@'', CHR ''['', CHR 92, CHR '']'', CHR ''^'', CHR 96, CHR ''{'',
     CHR ''|'', CHR ''}'', CHR ''~''])"

definition escapeSelector :: "string \<Rightarrow> string" where
  "escapeSelector s = concat (map (\<lambda>c. if c \<in> selector_meta then [CHR 92, c] else [c]) s)"

datatype scheme = Muse | Mist | Pisces | Gemini

record config =
  scheme_of :: scheme
  sidebar_display :: string
  sidebar_offset :: real
  sidebar_b2t :: bool

definition isMist :: "config \<Rightarrow> bool" where "isMist c \<longleftrightarrow> scheme_of c = Mist"
definition isPisces :: "config \<Rightarrow> bool" where "isPisces c \<longleftrightarrow> scheme_of c = Pisces"
definition isGemini :: "config \<Rightarrow> bool" where "isGemini c \<longleftrightarrow> scheme_of c = Gemini"

definition displaySidebar :: "config \<Rightarrow> real \<Rightarrow> string \<Rightarrow> bool" where
  \<comment> \<open>whether the toggle of the sidebar is clicked\<close>
  "displaySidebar c width ua \<longleftrightarrow> \<not> (\<not> isDesktop width ua \<or> isPisces c \<or> isGemini c)"

subsection \<open>The sidebar's dimensions\<close>

record sidebar_sizes =
  b2t_height :: real
  nav_block :: bool
  nav_outer_height :: real
  inner_width :: real
  inner_content_width :: real
  overview_height :: real
  toc_height :: real
  client_height :: real
  scroll_offset_width :: real
  scroll_client_width :: real

definition getScrollbarWidth :: "sidebar_sizes \<Rightarrow> real" where
  "getScrollbarWidth d = scroll_offset_width d - scroll_client_width d"

definition getSidebarb2tHeight :: "config \<Rightarrow> sidebar_sizes \<Rightarrow> real" where
  "getSidebarb2tHeight c d = (if sidebar_b2t c then b2t_height d else 0)"

definition getSidebarSchemePadding :: "config \<Rightarrow> sidebar_sizes \<Rightarrow> real" where
  "getSidebarSchemePadding c d =
     (let sidebarNavHeight = (if nav_block d then nav_outer_height d else 0);
          sidebarPadding = inner_width d - inner_content_width d in
      if isPisces c \<or> isGemini c
      then sidebarPadding * 2 + sidebarNavHeight + sidebar_offset c * 2 + getSidebarb2tHeight c d
      else sidebarPadding * 2 + sidebarNavHeight / 2)"

text \<open>The widths and the maximal height that the script sets; \<open>None\<close> is \<open>auto\<close> for the height.\<close>

record sidebar_css =
  overview_extra :: "real option"
  toc_extra :: "real option"
  max_height :: "real option"

definition updateSidebarHeight :: "real \<Rightarrow> sidebar_css \<Rightarrow> sidebar_css" where
  "updateSidebarHeight h css = css\<lparr>max_height := (if h = 0 then None else Some h)\<rparr>"

definition initSidebarDimension :: "config \<Rightarrow> sidebar_sizes \<Rightarrow> sidebar_css \<Rightarrow> sidebar_css" where
  "initSidebarDimension c d css =
     (let w = getScrollbarWidth d;
          h = client_height d - getSidebarSchemePadding c d;
          css = (if overview_height d > h then css\<lparr>overview_extra := Some w\<rparr> else css);
          css = (if toc_height d > h then css\<lparr>toc_extra := Some w\<rparr> else css) in
      updateSidebarHeight h css)"

text \<open>A resize restarts a timer of no delay; when it ends the height is set for the new sizes.\<close>

datatype resize_event = Resized | ResizeTimer sidebar_sizes

fun sidebar_resize :: "config \<Rightarrow> resize_event \<Rightarrow> bool \<times> sidebar_css \<Rightarrow> bool \<times> sidebar_css" where
  "sidebar_resize c Resized (timer, css) = (True, css)"
| "sidebar_resize c (ResizeTimer d) (timer, css) =
     (if timer then (False, updateSidebarHeight (client_height d - getSidebarSchemePadding c d) css)
      else (timer, css))"

subsection \<open>Properties\<close>

definition tabs_ok :: "tabs_page \<Rightarrow> bool" where
  \<comment> \<open>the tab that is marked is the one whose panel is shown, and there is exactly one\<close>
  "tabs_ok p \<longleftrightarrow>
     distinct (map tab_hash (tabs p)) \<and>
     (\<exists>i < length (tabs p). \<forall>j < length (tabs p).
        nav_active (tabs p ! j) = (j = i) \<and> pane_active (tabs p ! j) = (j = i))"

lemma click_nav_facts:
  "length (click_nav i ts) = length ts"
  "j < length ts \<Longrightarrow> click_nav i ts ! j = (ts ! j)\<lparr>nav_active := (j = i)\<rparr>"
  "map tab_hash (click_nav i ts) = map tab_hash ts"
  by (auto simp: click_nav_def nth_enumerate_eq intro!: nth_equalityI)

lemma tabs_ok_select:
  assumes "distinct (map tab_hash ts)" "i < length ts"
    and "length us = length ts" "map tab_hash us = map tab_hash ts"
    and "\<And>j. j < length ts \<Longrightarrow> nav_active (us ! j) = (j = i)"
  shows "tabs_ok \<lparr>tabs = select_pane (tab_hash (ts ! i)) us, loc_hash = h\<rparr>"
proof -
  have eq: "tab_hash (us ! j) = tab_hash (ts ! j)" if "j < length ts" for j
    using assms(3,4) that by (metis nth_map)
  have mem: "tab_hash (ts ! i) \<in> tab_hash ` set us"
    using assms(2,3) eq [of i] by (metis image_eqI nth_mem)
  have "tab_hash (us ! j) = tab_hash (ts ! i) \<longleftrightarrow> j = i" if "j < length ts" for j
    using assms(1,2) that by (simp add: eq distinct_conv_nth) metis
  then show ?thesis
    using assms mem by (auto simp: tabs_ok_def select_pane_def o_def)
qed

lemma tab_step_ok: "tabs_ok p \<Longrightarrow> tabs_ok (tab_step e p)"
proof (cases e)
  case (HashChange h)
  assume ok: "tabs_ok p"
  show ?thesis
  proof (cases "h \<noteq> [] \<and> h \<in> tab_hash ` set (tabs p)")
    case True
    then obtain i where i: "i < length (tabs p)" "h = tab_hash (tabs p ! i)"
      by (auto simp: in_set_conv_nth)
    let ?us = "select_nav h (tabs p)"
    have "nav_active (?us ! j) = (j = i)" if "j < length (tabs p)" for j
      using ok True i that by (auto simp: select_nav_def tabs_ok_def distinct_conv_nth)
    then have "tabs_ok \<lparr>tabs = select_pane (tab_hash (tabs p ! i)) ?us, loc_hash = h\<rparr>"
      using ok i by (intro tabs_ok_select) (auto simp: tabs_ok_def select_nav_def)
    with True i HashChange show ?thesis
      by (cases p) (simp add: tabs_page.defs Let_def)
  next
    case False
    with ok HashChange show ?thesis
      by (auto simp: tabs_ok_def select_nav_def select_pane_def Let_def)
  qed
next
  case (ClickTab i)
  assume ok: "tabs_ok p"
  show ?thesis
  proof (cases "i < length (tabs p) \<and> \<not> nav_active (tabs p ! i)")
    case True
    then have "tabs_ok \<lparr>tabs = select_pane (tab_hash (tabs p ! i)) (click_nav i (tabs p)), loc_hash = []\<rparr>"
      using ok by (intro tabs_ok_select) (auto simp: tabs_ok_def click_nav_facts)
    with True ClickTab show ?thesis
      by (cases p) (simp add: tabs_page.defs Let_def)
  next
    case False
    with ok ClickTab show ?thesis by auto
  qed
qed

text \<open>
  In a group of tabs with one permalink each, exactly one tab is marked and exactly its panel is
  shown, after any clicks and changes of the hash, known hashes and unknown ones.
\<close>

theorem tabs_agree:
  assumes "tabs_ok p"
  shows "tabs_ok (fold tab_step es p)"
  using assms by (induction es arbitrary: p) (auto intro: tab_step_ok)

theorem tabs_agree_witness:
  "tabs_ok (fold tab_step [ClickTab 1, HashChange ''#a'', HashChange ''#x'']
     \<lparr>tabs = [\<lparr>tab_hash = ''#a'', nav_active = True, pane_active = True\<rparr>,
              \<lparr>tab_hash = ''#b'', nav_active = False, pane_active = False\<rparr>], loc_hash = []\<rparr>)"
  by (rule tabs_agree) (auto simp: tabs_ok_def less_Suc_eq)

text \<open>
  C30.  The scroll percentage is an integer from 0 to 100 and reaches 100 at the end of the content.
  There is one exception: on a page with nothing to scroll it is not a number.
\<close>

theorem scroll_percent:
  assumes "getContentVisibilityHeight p = Num h" "0 \<le> h" "0 \<le> t"
  shows "if h = 0 \<and> t = 0 then percent_shown (on_scroll p (Num t)) = NaN
    else \<exists>k :: int. percent_shown (on_scroll p (Num t)) = Num (of_int k) \<and> 0 \<le> k \<and> k \<le> 100 \<and>
           (h \<le> t \<longrightarrow> k = 100)"
proof -
  consider "h = 0" "t = 0" | "h = 0" "t > 0" | "h > 0" using assms by linarith
  then show ?thesis
  proof cases
    case 1
    then show ?thesis using assms by (simp add: on_scroll_def js_num Math_round_def)
  next
    case 2
    then have "percent_shown (on_scroll p (Num t)) = Num (of_int 100)"
      using assms by (simp add: on_scroll_def js_num Math_round_def Let_def
          times_jsnum_def plus_jsnum_def)
    with 2 show ?thesis by (metis order_refl zero_le_numeral less_irrefl)
  next
    case 3
    define k where "k = \<lfloor>t / h * 100 + 1 / 2\<rfloor>"
    have "0 \<le> k" using 3 assms by (simp add: k_def)
    moreover have "100 \<le> k" if "h \<le> t"
    proof -
      have "1 \<le> t / h" using that 3 by simp
      then have "of_int 100 \<le> t / h * 100 + 1 / 2" by simp
      then show ?thesis unfolding k_def by (simp only: le_floor_iff)
    qed
    moreover have "percent_shown (on_scroll p (Num t)) = Num (of_int (min k 100))"
      using 3 assms by (simp add: on_scroll_def Math_round_def Let_def k_def min_def)
    ultimately have "\<exists>k :: int. percent_shown (on_scroll p (Num t)) = Num (of_int k) \<and> 0 \<le> k \<and> k \<le> 100 \<and>
        (h \<le> t \<longrightarrow> k = 100)"
      by (intro exI [of _ "min k 100"]) auto
    with 3 show ?thesis by simp
  qed
qed

theorem scroll_percent_witness:
  "\<exists>k :: int. percent_shown (on_scroll \<lparr>content_height = Num 3000, window_height = Num 1000,
      document_height = Num 3200\<rparr> (Num 2500)) = Num (of_int k) \<and> k = 100"
  using scroll_percent [of "\<lparr>content_height = Num 3000, window_height = Num 1000, document_height = Num 3200\<rparr>" 2000 2500]
  by (auto simp: getContentVisibilityHeight_def)

text \<open>Escaping a selector can be undone, and leaves no meta character without a backslash.\<close>

fun unescape_selector :: "string \<Rightarrow> string" where
  "unescape_selector (c # d # s) =
     (if c = CHR 92 then d # unescape_selector s else c # unescape_selector (d # s))"
| "unescape_selector s = s"

lemma backslash_meta: "CHR 92 \<in> selector_meta"
  by (simp add: selector_meta_def)

lemma unescape_selector_plain: "c \<noteq> CHR 92 \<Longrightarrow> unescape_selector (c # s) = c # unescape_selector s"
  by (cases "c # s" rule: unescape_selector.cases) auto

lemma escape_selector_inverse: "unescape_selector (escapeSelector s) = s"
proof (induction s)
  case (Cons c s)
  show ?case
  proof (cases "c \<in> selector_meta")
    case False
    then have "c \<noteq> CHR 92" using backslash_meta by metis
    with False Cons show ?thesis by (simp add: escapeSelector_def unescape_selector_plain)
  qed (use Cons in \<open>simp add: escapeSelector_def\<close>)
qed (simp add: escapeSelector_def)

end
