(* ===== verification/Scrollspy.thy ===== *)
theory Scrollspy
  imports Next_Utils
begin

section \<open>scrollspy.js: the entry of the table of contents that is read\<close>

text \<open>
  The class \<open>ScrollSpy\<close> of the table of contents.  What a method reads of the document is in a
  \<open>view\<close>: sizes, the links of the table, and the position of the heading that a selector finds.
\<close>

record nav_link =
  data_target :: string
  link_href :: string

record view =
  scroll_top :: real
  own_scroll_height :: "real option"
  body_scroll_height :: real
  root_scroll_height :: real
  view_height :: real
  nav_links :: "nav_link list"
  heading :: "string \<Rightarrow> (real \<times> bool) option"

record spy =
  spy_offset :: real
  offsets :: "real list"
  targets :: "string list"
  activeTarget :: "string option"
  spy_height :: real
  marked :: "string option"
  clears :: nat

definition getScrollHeight :: "view \<Rightarrow> real" where
  \<comment> \<open>the window has no \<open>scrollHeight\<close> of its own\<close>
  "getScrollHeight d =
     (case own_scroll_height d of
        Some h \<Rightarrow> if h \<noteq> 0 then h else max (body_scroll_height d) (root_scroll_height d)
      | None \<Rightarrow> max (body_scroll_height d) (root_scroll_height d))"

definition is_hash :: "string \<Rightarrow> bool" where
  \<comment> \<open>\<open>/^#./\<close>\<close>
  "is_hash s = (case s of c # d # _ \<Rightarrow> c = CHR ''#'' \<and> d \<noteq> CHR 10 \<and> d \<noteq> CHR 13 | _ \<Rightarrow> False)"

definition spy_entry :: "view \<Rightarrow> nav_link \<Rightarrow> (real \<times> string) option" where
  "spy_entry d l =
     (let h = (if data_target l \<noteq> [] then data_target l else link_href l) in
      if is_hash h then
        (case heading d (escapeSelector h) of
           Some (y, visible) \<Rightarrow>
             if visible
             then Some (y + (case own_scroll_height d of None \<Rightarrow> 0 | Some _ \<Rightarrow> scroll_top d), h)
             else None
         | None \<Rightarrow> None)
      else None)"

definition refresh :: "view \<Rightarrow> spy \<Rightarrow> spy" where
  "refresh d s =
     (let es = sort_key fst (List.map_filter (spy_entry d) (nav_links d)) in
      s\<lparr>offsets := map fst es, targets := map snd es, spy_height := getScrollHeight d\<rparr>)"

definition activate :: "string option \<Rightarrow> spy \<Rightarrow> spy" where
  \<comment> \<open>\<open>clear\<close>, then the links to the target are marked\<close>
  "activate target s = s\<lparr>activeTarget := target, marked := target\<rparr>"

definition spy_clear :: "spy \<Rightarrow> spy" where
  "spy_clear s = s\<lparr>marked := None\<rparr>"

definition spy_loop :: "real \<Rightarrow> real list \<Rightarrow> string list \<Rightarrow> string option \<Rightarrow> nat list \<Rightarrow> spy \<Rightarrow> spy" where
  "spy_loop scrollTop offs targs active is s =
     fold (\<lambda>i s.
       if active \<noteq> Some (targs ! i) \<and> scrollTop \<ge> offs ! i \<and>
          (Suc i \<ge> length offs \<or> offs ! Suc i = 0 \<or> scrollTop \<le> offs ! Suc i)
       then activate (Some (targs ! i)) s else s) is s"

definition process :: "view \<Rightarrow> spy \<Rightarrow> spy" where
  \<comment> \<open>the lists of the instance are read before \<open>refresh\<close> replaces them\<close>
  "process d s =
     (let scrollTop = scroll_top d + spy_offset s;
          scrollHeight = getScrollHeight d;
          maxScroll = spy_offset s + scrollHeight - view_height d;
          offs = offsets s; targs = targets s; active = activeTarget s;
          s = (if spy_height s \<noteq> scrollHeight then refresh d s else s) in
      if scrollTop \<ge> maxScroll then
        (let i = (if targs = [] then None else Some (last targs)) in
         if active \<noteq> i then activate i s else s)
      else if active \<noteq> None \<and> offs \<noteq> [] \<and> scrollTop < hd offs then
        spy_clear (s\<lparr>activeTarget := None, clears := Suc (clears s)\<rparr>)
      else spy_loop scrollTop offs targs active (rev [0..<length offs]) s)"

definition new_spy :: "view \<Rightarrow> real \<Rightarrow> spy" where
  "new_spy d off =
     process d (refresh d \<lparr>spy_offset = off, offsets = [], targets = [], activeTarget = None,
       spy_height = 0, marked = None, clears = 0\<rparr>)"

text \<open>\<open>ScrollSpy.DEFAULTS.offset\<close>, which the page keeps.\<close>

definition default_offset :: real where "default_offset = 10"

subsection \<open>The invariant\<close>

definition spy_ok :: "spy \<Rightarrow> bool" where
  "spy_ok s \<longleftrightarrow> sorted (offsets s) \<and> length (targets s) = length (offsets s) \<and> marked s = activeTarget s"

lemma spy_loop_ok: "spy_ok s \<Longrightarrow> spy_ok (spy_loop t offs targs a is s)"
  unfolding spy_loop_def by (induction "is" arbitrary: s) (auto simp: spy_ok_def activate_def)

lemma refresh_ok: "marked s = activeTarget s \<Longrightarrow> spy_ok (refresh d s)"
  by (simp add: spy_ok_def refresh_def Let_def)

lemma process_ok: "spy_ok s \<Longrightarrow> spy_ok (process d s)"
proof -
  assume ok: "spy_ok s"
  define r where "r = (if spy_height s \<noteq> getScrollHeight d then refresh d s else s)"
  have r: "spy_ok r" using ok refresh_ok by (auto simp: r_def spy_ok_def)
  show ?thesis
    using r spy_loop_ok [OF r]
    by (auto simp: process_def Let_def activate_def spy_clear_def spy_ok_def simp flip: r_def)
qed

subsection \<open>Which entry is active\<close>

text \<open>The reference: the last entry whose heading is not below the scroll position.\<close>

definition entry_at :: "spy \<Rightarrow> real \<Rightarrow> string option" where
  "entry_at s t =
     (let es = filter (\<lambda>(off, _). off \<le> t) (zip (offsets s) (targets s)) in
      if es = [] then None else Some (snd (last es)))"

definition scrolled :: "view \<Rightarrow> spy \<Rightarrow> real" where
  "scrolled d s = scroll_top d + spy_offset s"

definition inside :: "view \<Rightarrow> spy \<Rightarrow> bool" where
  \<comment> \<open>the document has its height and is not scrolled to its end\<close>
  "inside d s \<longleftrightarrow>
     spy_height s = getScrollHeight d \<and> scroll_top d < getScrollHeight d - view_height d \<and>
     offsets s \<noteq> [] \<and> 0 \<notin> set (offsets s)"

lemma filter_sorted:
  assumes "sorted xs" "length ys = length xs" "k \<le> length xs"
    and "\<And>i. i < length xs \<Longrightarrow> xs ! i \<le> t \<longleftrightarrow> i < k"
  shows "filter (\<lambda>(x, _). x \<le> t) (zip xs ys) = zip (take k xs) (take k ys)"
proof -
  have "zip xs ys = zip (take k xs) (take k ys) @ zip (drop k xs) (drop k ys)"
    using assms(2) by (metis append_take_drop_id length_take zip_append)
  moreover have "filter (\<lambda>(x, _). x \<le> t) (zip (take k xs) (take k ys)) = zip (take k xs) (take k ys)"
    using assms by (intro filter_True) (auto simp: set_zip)
  moreover have "filter (\<lambda>(x, _). x \<le> t) (zip (drop k xs) (drop k ys)) = []"
    using assms by (intro filter_False) (auto simp: set_zip)
  ultimately show ?thesis by simp
qed

lemma sorted_cut:
  assumes "sorted (xs :: real list)"
  obtains k where "k \<le> length xs" "\<And>i. i < length xs \<Longrightarrow> xs ! i \<le> t \<longleftrightarrow> i < k"
proof
  let ?k = "length (takeWhile (\<lambda>x. x \<le> t) xs)"
  show "?k \<le> length xs" by (rule length_takeWhile_le)
  fix i assume i: "i < length xs"
  show "xs ! i \<le> t \<longleftrightarrow> i < ?k"
  proof
    assume le: "xs ! i \<le> t"
    show "i < ?k"
    proof (rule ccontr)
      assume "\<not> i < ?k"
      then have "xs ! ?k \<le> xs ! i" using assms i by (intro sorted_nth_mono) auto
      moreover have "\<not> xs ! ?k \<le> t" using \<open>\<not> i < ?k\<close> i by (intro nth_length_takeWhile) auto
      ultimately show False using le by simp
    qed
  next
    assume "i < ?k"
    then show "xs ! i \<le> t" using nth_mem [of i "takeWhile (\<lambda>x. x \<le> t) xs"]
      by (auto simp: takeWhile_nth dest: set_takeWhileD)
  qed
qed

text \<open>Away from a boundary the loop takes at most one of its steps.\<close>

lemma spy_loop_none:
  assumes "\<And>i. i \<in> set is \<Longrightarrow> \<not> (active \<noteq> Some (targs ! i) \<and> t \<ge> offs ! i \<and>
      (Suc i \<ge> length offs \<or> offs ! Suc i = 0 \<or> t \<le> offs ! Suc i))"
  shows "spy_loop t offs targs active is s = s"
  using assms unfolding spy_loop_def by (induction "is" arbitrary: s) auto

lemma spy_loop_append: "spy_loop t os ts a (is @ js) s = spy_loop t os ts a js (spy_loop t os ts a is s)"
  by (simp add: spy_loop_def)

lemma rev_upt_split: "i < n \<Longrightarrow> rev [0..<n] = rev [Suc i..<n] @ [i] @ rev [0..<i]"
  by (metis Suc_leI append.assoc le0 rev.simps(2) rev_append upt_Suc upt_add_eq_append le_add_diff_inverse
      less_imp_le_nat rev_singleton_conv upt_conv_Cons)

lemma spy_loop_single:
  assumes "i < length offs" "active \<noteq> Some (targs ! i) \<Longrightarrow> t \<ge> offs ! i \<and>
      (Suc i \<ge> length offs \<or> offs ! Suc i = 0 \<or> t \<le> offs ! Suc i)"
    and "\<And>j. j < length offs \<Longrightarrow> j \<noteq> i \<Longrightarrow> \<not> (active \<noteq> Some (targs ! j) \<and> t \<ge> offs ! j \<and>
      (Suc j \<ge> length offs \<or> offs ! Suc j = 0 \<or> t \<le> offs ! Suc j))"
    and "active = activeTarget s"
  shows "activeTarget (spy_loop t offs targs active (rev [0..<length offs]) s) = Some (targs ! i)"
proof -
  have "spy_loop t offs targs active (rev [Suc i..<length offs]) s' = s'"
    and "spy_loop t offs targs active (rev [0..<i]) s' = s'" for s'
    by (rule spy_loop_none, rule assms(3), use assms(1) in auto)+
  then show ?thesis
    using assms(2,4) unfolding rev_upt_split [OF assms(1)] spy_loop_append
    by (auto simp: spy_loop_def activate_def)
qed

lemma process_inside:
  assumes "inside d s" "hd (offsets s) \<le> scrolled d s"
  shows "process d s = spy_loop (scrolled d s) (offsets s) (targets s) (activeTarget s) (rev [0..<length (offsets s)]) s"
  using assms by (auto simp: process_def inside_def scrolled_def Let_def)

lemma process_cut:
  assumes "inside d s" "scrolled d s \<notin> set (offsets s)" "0 < k"
    and k: "k \<le> length (offsets s)" "\<And>i. i < length (offsets s) \<Longrightarrow> offsets s ! i \<le> scrolled d s \<longleftrightarrow> i < k"
  shows "activeTarget (process d s) = Some (targets s ! (k - 1))"
proof -
  let ?t = "scrolled d s"
  have hd: "hd (offsets s) = offsets s ! 0"
    using assms(1) by (auto simp: inside_def hd_conv_nth)
  have i: "k - 1 < length (offsets s)" using k(1) assms(3) by simp
  have above: "?t < offsets s ! j" if "j < length (offsets s)" "k \<le> j" for j
    using k(2) [OF that(1)] that(2) by simp
  have below: "offsets s ! j < ?t" if "j < k" for j
    using k(2) [of j] k(1) that assms(2) by (metis less_le_trans nth_mem order_le_less)
  have nz: "offsets s ! j \<noteq> 0" if "j < length (offsets s)" for j
    using assms(1) nth_mem [OF that] by (auto simp: inside_def)
  have "activeTarget (spy_loop ?t (offsets s) (targets s) (activeTarget s) (rev [0..<length (offsets s)]) s)
      = Some (targets s ! (k - 1))"
  proof (rule spy_loop_single [OF i])
    show "offsets s ! (k - 1) \<le> ?t \<and> (length (offsets s) \<le> Suc (k - 1) \<or> offsets s ! Suc (k - 1) = 0 \<or>
        ?t \<le> offsets s ! Suc (k - 1))"
      using below [of "k - 1"] above [of k] assms(3) by (auto simp: not_le)
    fix j assume j: "j < length (offsets s)" "j \<noteq> k - 1"
    show "\<not> (activeTarget s \<noteq> Some (targets s ! j) \<and> offsets s ! j \<le> ?t \<and>
        (length (offsets s) \<le> Suc j \<or> offsets s ! Suc j = 0 \<or> ?t \<le> offsets s ! Suc j))"
    proof (cases "j < k")
      case True
      then have "Suc j < k" using j by simp
      then show ?thesis using below [of "Suc j"] nz [of "Suc j"] k(1) by auto
    next
      case False
      then show ?thesis using above [OF j(1)] by simp
    qed
  qed simp
  moreover have "hd (offsets s) \<le> ?t" using below [of 0] assms(3) hd by simp
  ultimately show ?thesis using process_inside [OF assms(1)] by simp
qed

text \<open>
  C31.  Away from the exact position of a heading, and before the end of the document, the active entry
  after a scroll event is the last one whose heading is not below the scroll position, whatever was
  active before; above the first heading no entry is active.
\<close>

theorem spy_follows:
  assumes "spy_ok s" and "inside d s" and "scrolled d s \<notin> set (offsets s)"
  shows "activeTarget (process d s) = entry_at s (scrolled d s) \<and> marked (process d s) = entry_at s (scrolled d s)"
proof -
  let ?t = "scrolled d s"
  have so: "sorted (offsets s)" "length (targets s) = length (offsets s)" using assms(1) by (auto simp: spy_ok_def)
  obtain k where k: "k \<le> length (offsets s)" "\<And>i. i < length (offsets s) \<Longrightarrow> offsets s ! i \<le> ?t \<longleftrightarrow> i < k"
    using sorted_cut [OF so(1)] by blast
  have entry: "entry_at s ?t =
      (if k = 0 then None else Some (targets s ! (k - 1)))"
    using filter_sorted [OF so k] k(1) so(2)
    by (auto simp: entry_at_def last_conv_nth Let_def)
  have hd: "hd (offsets s) = offsets s ! 0" "0 < length (offsets s)"
    using assms(2) by (auto simp: inside_def hd_conv_nth)
  have "activeTarget (process d s) = entry_at s ?t"
  proof (cases "k = 0")
    case True
    then have lt: "?t < offsets s ! i" if "i < length (offsets s)" for i using k(2) [OF that] by simp
    have "spy_loop ?t (offsets s) (targets s) None (rev [0..<length (offsets s)]) s = s"
      using lt by (intro spy_loop_none) (auto simp: not_le)
    then show ?thesis
      using assms(2) lt [OF hd(2)] hd True entry
      by (auto simp: process_def inside_def scrolled_def Let_def spy_clear_def)
  next
    case False
    then show ?thesis using process_cut [OF assms(2,3) _ k] entry by simp
  qed
  then show ?thesis using process_ok [OF assms(1), of d] by (simp add: spy_ok_def)
qed

definition demo_view :: "real \<Rightarrow> view" where
  "demo_view y = \<lparr>scroll_top = y, own_scroll_height = None, body_scroll_height = 2000,
     root_scroll_height = 2000, view_height = 500,
     nav_links = [\<lparr>data_target = [], link_href = ''#b''\<rparr>, \<lparr>data_target = [], link_href = ''#a''\<rparr>],
     heading = (\<lambda>h. if h = ''#a'' then Some (100, True) else if h = ''#b'' then Some (600, True) else None)\<rparr>"

definition demo_spy :: spy where
  "demo_spy = \<lparr>spy_offset = 10, offsets = [100, 600], targets = [''#a'', ''#b''], activeTarget = None,
     spy_height = 2000, marked = None, clears = 0\<rparr>"

lemma demo_inside: "spy_ok demo_spy" "y < 1500 \<Longrightarrow> inside (demo_view y) demo_spy"
  by (simp_all add: spy_ok_def demo_spy_def inside_def demo_view_def getScrollHeight_def)

theorem spy_follows_witness: "activeTarget (process (demo_view 700) demo_spy) = Some ''#b''"
proof -
  have "scrolled (demo_view 700) demo_spy \<notin> set (offsets demo_spy)"
    by (simp add: scrolled_def demo_view_def demo_spy_def)
  with spy_follows [OF demo_inside(1) demo_inside(2)] have
    "activeTarget (process (demo_view 700) demo_spy) = entry_at demo_spy (scrolled (demo_view 700) demo_spy)"
    by simp
  then show ?thesis by (simp add: entry_at_def scrolled_def demo_view_def demo_spy_def)
qed

text \<open>
  At the exact position of a heading the class does not settle: if the entry of this heading is
  active, a scroll event that changes nothing activates the one before it, and the next such event
  activates it again.
\<close>

lemma spy_flip_to:
  assumes "spy_ok s" "inside d s" "sorted_wrt (<) (offsets s)" "distinct (targets s)"
    and "Suc i < length (offsets s)" "scrolled d s = offsets s ! Suc i"
    and "a = i \<and> b = Suc i \<or> a = Suc i \<and> b = i" and "activeTarget s = Some (targets s ! a)"
  shows "activeTarget (process d s) = Some (targets s ! b)"
proof -
  let ?t = "scrolled d s" and ?n = "length (offsets s)"
  have less: "offsets s ! j < offsets s ! k" if "j < k" "k < ?n" for j k
    using assms(3) that by (simp add: sorted_wrt_iff_nth_less)
  have nz: "offsets s ! j \<noteq> 0" if "j < ?n" for j
    using assms(2) nth_mem [OF that] by (auto simp: inside_def)
  have len: "length (targets s) = ?n" using assms(1) by (simp add: spy_ok_def)
  have hd: "hd (offsets s) \<le> ?t"
    using assms(2,5,6) less [of 0 "Suc i"] by (simp add: inside_def hd_conv_nth)
  have b: "b < ?n" using assms(5,7) by auto
  have "activeTarget (spy_loop ?t (offsets s) (targets s) (activeTarget s) (rev [0..<?n]) s) = Some (targets s ! b)"
  proof (rule spy_loop_single [OF b])
    show "offsets s ! b \<le> ?t \<and> (?n \<le> Suc b \<or> offsets s ! Suc b = 0 \<or> ?t \<le> offsets s ! Suc b)"
      using assms(5,6,7) less [of i "Suc i"] less [of "Suc i" "Suc (Suc i)"] by force
    fix j assume j: "j < ?n" "j \<noteq> b"
    show "\<not> (activeTarget s \<noteq> Some (targets s ! j) \<and> offsets s ! j \<le> ?t \<and>
        (?n \<le> Suc j \<or> offsets s ! Suc j = 0 \<or> ?t \<le> offsets s ! Suc j))"
    proof (cases "j = a")
      case False
      then consider "j < i" | "Suc i < j" using j(2) assms(7) by fastforce
      then show ?thesis
      proof cases
        case 1
        then show ?thesis using less [of "Suc j" "Suc i"] nz [of "Suc j"] assms(5,6) by auto
      next
        case 2
        then show ?thesis using less [of "Suc i" j] j(1) assms(6) by auto
      qed
    qed (use assms(8) in simp)
  qed simp
  then show ?thesis using process_inside [OF assms(2) hd] by simp
qed

theorem spy_flips:
  assumes "spy_ok s" "inside d s" "sorted_wrt (<) (offsets s)" "distinct (targets s)"
    and "Suc i < length (offsets s)" "scrolled d s = offsets s ! Suc i"
  shows "(activeTarget s = Some (targets s ! Suc i) \<longrightarrow> activeTarget (process d s) = Some (targets s ! i)) \<and>
    (activeTarget s = Some (targets s ! i) \<longrightarrow> activeTarget (process d s) = Some (targets s ! Suc i))"
  using spy_flip_to [OF assms] by blast

theorem spy_flips_witness:
  "activeTarget (process (demo_view 590) (demo_spy\<lparr>activeTarget := Some ''#b'', marked := Some ''#b''\<rparr>)) = Some ''#a''"
proof -
  let ?s = "demo_spy\<lparr>activeTarget := Some ''#b'', marked := Some ''#b''\<rparr>"
  have "(activeTarget ?s = Some (targets ?s ! Suc 0) \<longrightarrow> activeTarget (process (demo_view 590) ?s) = Some (targets ?s ! 0)) \<and>
    (activeTarget ?s = Some (targets ?s ! 0) \<longrightarrow> activeTarget (process (demo_view 590) ?s) = Some (targets ?s ! Suc 0))"
    by (rule spy_flips) (simp_all add: spy_ok_def demo_spy_def inside_def demo_view_def getScrollHeight_def scrolled_def)
  then show ?thesis by (simp add: demo_spy_def)
qed

end
