(* ===== verification/Affix.thy ===== *)
theory Affix
  imports Next_Utils
begin

section \<open>affix.js and pisces.js: the pinned sidebar\<close>

text \<open>
  The class \<open>Affix\<close> with the state it keeps between scroll events, and the code of the scheme
  Pisces that attaches it to the sidebar.
\<close>

datatype affixed = AfNull | AfFalse | AfTop | AfBottom

datatype affix_class = CAffix | CTop | CBottom

text \<open>What an event reads: sizes, the offset of the element, also once it has only the class
  \<open>affix\<close>, and whether a handler prevents the default of the event that the class triggers.\<close>

record affix_view =
  af_scroll_top :: real
  af_target_height :: real
  af_document_height :: real
  af_body_height :: real
  af_visible :: bool
  af_height :: real
  af_position :: real
  af_position_fixed :: real
  af_prevented :: bool

datatype dim = Fixed real | Computed "affix_view \<Rightarrow> real"

datatype affix_offset = Both real | Each "dim option" "dim option"

record affix =
  affix_offset :: affix_offset
  affixed :: affixed
  unpin :: "real option"
  pinnedOffset :: "real option"
  classes :: "affix_class set"
  css_top :: "real option"
  triggered :: "affix_class list"

fun dim_value :: "affix_view \<Rightarrow> dim \<Rightarrow> real" where
  "dim_value v (Fixed r) = r"
| "dim_value v (Computed f) = f v"

fun offset_top :: "affix_view \<Rightarrow> affix_offset \<Rightarrow> real option" where
  "offset_top v (Both r) = Some r"
| "offset_top v (Each t b) = map_option (dim_value v) t"

fun offset_bottom :: "affix_view \<Rightarrow> affix_offset \<Rightarrow> real option" where
  "offset_bottom v (Both r) = Some r"
| "offset_bottom v (Each t b) = map_option (dim_value v) b"

definition getState :: "affix_view \<Rightarrow> affix \<Rightarrow> real \<Rightarrow> real option \<Rightarrow> real option \<Rightarrow> affixed" where
  \<comment> \<open>a missing offset makes the sum with it \<open>NaN\<close>, and a comparison with that is false\<close>
  "getState v s scrollHeight offsetTop offsetBottom =
     (let scrollTop = af_scroll_top v; targetHeight = af_target_height v in
      if offsetTop \<noteq> None \<and> affixed s = AfTop
      then (if scrollTop < the offsetTop then AfTop else AfFalse)
      else if affixed s = AfBottom then
        (if offsetTop \<noteq> None
         then (case unpin s of
                 Some u \<Rightarrow> if scrollTop + u \<le> af_position v then AfFalse else AfBottom
               | None \<Rightarrow> if scrollTop \<le> af_position v then AfFalse else AfBottom)
         else (case offsetBottom of
                 Some b \<Rightarrow> if scrollTop + targetHeight \<le> scrollHeight - b then AfFalse else AfBottom
               | None \<Rightarrow> AfBottom))
      else
        let initializing = (affixed s = AfNull);
            colliderTop = (if initializing then scrollTop else af_position v);
            colliderHeight = (if initializing then targetHeight else af_height v) in
        if offsetTop \<noteq> None \<and> scrollTop \<le> the offsetTop then AfTop
        else if offsetBottom \<noteq> None \<and> colliderTop + colliderHeight \<ge> scrollHeight - the offsetBottom
        then AfBottom
        else AfFalse)"

definition getPinnedOffset :: "affix_view \<Rightarrow> affix \<Rightarrow> real \<times> affix" where
  "getPinnedOffset v s =
     (case pinnedOffset s of
        Some r \<Rightarrow>
          if r \<noteq> 0 then (r, s)
          else let p = af_position_fixed v - af_scroll_top v in (p, s\<lparr>classes := {CAffix}, pinnedOffset := Some p\<rparr>)
      | None \<Rightarrow>
          let p = af_position_fixed v - af_scroll_top v in (p, s\<lparr>classes := {CAffix}, pinnedOffset := Some p\<rparr>))"

fun affix_type :: "affixed \<Rightarrow> affix_class" where
  "affix_type AfTop = CTop"
| "affix_type AfBottom = CBottom"
| "affix_type _ = CAffix"

definition scroll_height :: "affix_view \<Rightarrow> real" where
  "scroll_height v = max (af_document_height v) (af_body_height v)"

definition place_bottom :: "affix_view \<Rightarrow> affixed \<Rightarrow> affix \<Rightarrow> affix" where
  \<comment> \<open>a missing bottom offset gives \<open>NaN\<close>, which is not set\<close>
  "place_bottom v af s =
     (if af = AfBottom then
        (case offset_bottom v (affix_offset s) of
           Some b \<Rightarrow> s\<lparr>css_top := Some (scroll_height v - af_height v - b)\<rparr>
         | None \<Rightarrow> s)
      else s)"

definition checkPosition :: "affix_view \<Rightarrow> affix \<Rightarrow> affix" where
  "checkPosition v s =
     (if \<not> af_visible v then s
      else
        let af = getState v s (scroll_height v) (offset_top v (affix_offset s)) (offset_bottom v (affix_offset s)) in
        if affixed s \<noteq> af then
          let s = (if unpin s \<noteq> None then s\<lparr>css_top := None\<rparr> else s) in
          if af_prevented v then s\<lparr>triggered := triggered s @ [affix_type af]\<rparr>
          else
            let s = s\<lparr>triggered := triggered s @ [affix_type af], affixed := af\<rparr>;
                s = (if af = AfBottom
                     then (let (p, s') = getPinnedOffset v s in s'\<lparr>unpin := Some p\<rparr>)
                     else s\<lparr>unpin := None\<rparr>);
                s = s\<lparr>classes := {affix_type af}\<rparr>
            in place_bottom v af s
        else place_bottom v af s)"

definition new_affix :: "affix_view \<Rightarrow> affix_offset \<Rightarrow> affix" where
  "new_affix v off =
     checkPosition v \<lparr>affix_offset = off, affixed = AfNull, unpin = None, pinnedOffset = None,
       classes = {}, css_top = None, triggered = []\<rparr>"

text \<open>A scroll is handled at once, a click by a timer of one millisecond.\<close>

datatype affix_event = AffixScroll affix_view | AffixClick | AffixTimer affix_view

fun affix_step :: "affix_event \<Rightarrow> nat \<times> affix \<Rightarrow> nat \<times> affix" where
  "affix_step (AffixScroll v) (timers, s) = (timers, checkPosition v s)"
| "affix_step AffixClick (timers, s) = (Suc timers, s)"
| "affix_step (AffixTimer v) (timers, s) =
     (if timers > 0 then (timers - 1, checkPosition v s) else (timers, s))"

subsection \<open>pisces.js\<close>

record pisces_view =
  header_height :: real
  footer_outer :: real
  footer_outer_margin :: real
  sidebar_height :: real
  pisces_content_height :: real
  pisces_sizes :: sidebar_sizes

record pisces =
  side_affix :: "affix option"
  margin_top :: real

definition getHeaderOffset :: "config \<Rightarrow> pisces_view \<Rightarrow> real" where
  "getHeaderOffset c d = header_height d + sidebar_offset c"

definition getFooterOffset :: "pisces_view \<Rightarrow> real" where
  "getFooterOffset d =
     (let footerMargin = footer_outer_margin d - footer_outer d in footer_outer_margin d + footerMargin)"

definition initAffix :: "config \<Rightarrow> pisces_view \<Rightarrow> affix_view \<Rightarrow> pisces \<Rightarrow> pisces" where
  \<comment> \<open>an element that has the class keeps its instance\<close>
  "initAffix c d v p =
     (let headerOffset = getHeaderOffset c d;
          footerOffset = getFooterOffset d;
          sidebarHeight = sidebar_height d + getSidebarb2tHeight c (pisces_sizes d);
          p = (if headerOffset + sidebarHeight < pisces_content_height d
               then p\<lparr>side_affix :=
                      (case side_affix p of
                         Some a \<Rightarrow> Some a
                       | None \<Rightarrow> Some (new_affix v (Each (Some (Fixed (headerOffset - sidebar_offset c)))
                                                         (Some (Fixed footerOffset)))))\<rparr>
               else p)
      in p\<lparr>margin_top := headerOffset\<rparr>)"

definition recalculateAffixPosition :: "config \<Rightarrow> pisces_view \<Rightarrow> affix_view \<Rightarrow> pisces \<Rightarrow> pisces" where
  \<comment> \<open>the old instance is detached from the window and forgotten\<close>
  "recalculateAffixPosition c d v p = initAffix c d v (p\<lparr>side_affix := None\<rparr>)"

subsection \<open>The invariant\<close>

definition affix_ok :: "affix \<Rightarrow> bool" where
  "affix_ok s \<longleftrightarrow>
     (unpin s \<noteq> None \<longleftrightarrow> affixed s = AfBottom) \<and>
     classes s = (if affixed s = AfNull then {} else {affix_type (affixed s)})"

lemma getState_not_null: "getState v s h t b \<noteq> AfNull"
  by (auto simp: getState_def Let_def split: option.splits)

lemma place_bottom_fields [simp]:
  "affixed (place_bottom v af s) = affixed s" "unpin (place_bottom v af s) = unpin s"
  "classes (place_bottom v af s) = classes s"
  by (simp_all add: place_bottom_def split: option.splits)

lemma pinned_fields [simp]: "affixed (snd (getPinnedOffset v s)) = affixed s"
  by (simp add: getPinnedOffset_def Let_def split: option.splits)

lemma affix_ok_place [simp]: "affix_ok (place_bottom v af s) = affix_ok s"
  by (simp add: affix_ok_def)

lemma checkPosition_ok: "affix_ok s \<Longrightarrow> affix_ok (checkPosition v s)"
proof -
  assume ok: "affix_ok s"
  define af where "af = getState v s (scroll_height v) (offset_top v (affix_offset s)) (offset_bottom v (affix_offset s))"
  have nn: "af \<noteq> AfNull" by (simp add: af_def getState_not_null)
  show ?thesis
  proof (cases "af_visible v \<and> affixed s \<noteq> af \<and> \<not> af_prevented v")
    case True
    then show ?thesis
      using nn by (simp add: checkPosition_def Let_def case_prod_unfold flip: af_def) (simp add: affix_ok_def)
  next
    case False
    then show ?thesis
      using ok by (auto simp: checkPosition_def Let_def simp flip: af_def) (auto simp: affix_ok_def)
  qed
qed

text \<open>
  After any scrolls and clicks the element has exactly the class of its state, and it has a
  pinned offset exactly when it rests at the bottom.
\<close>

theorem affix_classes:
  "affix_ok (snd (fold affix_step es (0, new_affix v off)))"
proof -
  have "affix_ok (new_affix v off)"
    unfolding new_affix_def by (rule checkPosition_ok) (simp add: affix_ok_def)
  moreover have "affix_ok (snd p) \<Longrightarrow> affix_ok (snd (fold affix_step es p))" for p
  proof (induction es arbitrary: p)
    case (Cons e es)
    then show ?case by (cases "(e, p)" rule: affix_step.cases) (auto simp: checkPosition_ok)
  qed simp
  ultimately show ?thesis by simp
qed

text \<open>
  With a top offset only, the element is at the top exactly when the page is scrolled by less
  than the offset, and pinned when it is scrolled by more, whatever happened before.  When it is
  scrolled by exactly the offset, each event changes the state from the one to the other.
\<close>

theorem affix_top_rule:
  assumes "affix_offset s = Each (Some (Fixed t)) None" and "affixed s \<noteq> AfBottom"
    and "af_visible v" "\<not> af_prevented v"
  shows "affixed (checkPosition v s) =
    (if af_scroll_top v < t then AfTop
     else if af_scroll_top v > t then AfFalse
     else if affixed s = AfTop then AfFalse else AfTop)"
proof -
  let ?af = "getState v s (scroll_height v) (Some t) None"
  have "?af = (if af_scroll_top v < t then AfTop else if af_scroll_top v > t then AfFalse
      else if affixed s = AfTop then AfFalse else AfTop)"
    using assms(2) by (auto simp: getState_def Let_def)
  moreover have "affixed (checkPosition v s) = ?af"
    using assms by (auto simp: checkPosition_def Let_def case_prod_unfold)
  ultimately show ?thesis by simp
qed

definition demo_affix_view :: affix_view where
  "demo_affix_view = \<lparr>af_scroll_top = 0, af_target_height = 500, af_document_height = 2000, af_body_height = 2000,
     af_visible = True, af_height = 300, af_position = 0, af_position_fixed = 0, af_prevented = False\<rparr>"

theorem affix_top_rule_witness:
  "affixed (checkPosition demo_affix_view
     \<lparr>affix_offset = Each (Some (Fixed 0)) None, affixed = AfTop, unpin = None, pinnedOffset = None,
      classes = {CTop}, css_top = None, triggered = []\<rparr>) = AfFalse"
  by (subst affix_top_rule [where t = 0]) (simp_all add: demo_affix_view_def)

end
