(* ===== verification/Motion.thy ===== *)
theory Motion
  imports Next_Utils
begin

section \<open>motion.js: the sidebar and the sequence of animations\<close>

text \<open>
  The sidebar's handlers emit commands for the animation library; the library calls back when an
  animation ends, which is an event of its own.  The integrator runs the stages of the page's entrance
  one after the other.
\<close>

subsection \<open>The three lines of the toggle\<close>

datatype line_status = LInit | LArrow | LClose

record line_css =
  width :: "string option"
  opacity :: "nat option"
  left :: "nat option"
  rotateZ :: "string option"
  top_css :: "string option"

definition no_css :: line_css where
  "no_css = \<lparr>width = None, opacity = None, left = None, rotateZ = None, top_css = None\<rparr>"

definition line_init :: line_css where
  \<comment> \<open>the default that \<open>SidebarToggleLine\<close> adds\<close>
  "line_init = \<lparr>width = Some ''100%'', opacity = Some 1, left = Some 0, rotateZ = Some ''0'', top_css = Some ''0''\<rparr>"

definition toggle_line :: "nat \<Rightarrow> line_status \<Rightarrow> line_css" where
  "toggle_line n st =
     (case st of
        LInit \<Rightarrow> line_init
      | LArrow \<Rightarrow>
          if n = 0 then no_css\<lparr>width := Some ''50%'', rotateZ := Some ''-45deg'', top_css := Some ''2px''\<rparr>
          else if n = 1 then no_css\<lparr>width := Some ''90%''\<rparr>
          else no_css\<lparr>width := Some ''50%'', rotateZ := Some ''45deg'', top_css := Some ''-2px''\<rparr>
      | LClose \<Rightarrow>
          if n = 0 then no_css\<lparr>width := Some ''100%'', rotateZ := Some ''-45deg'', top_css := Some ''5px''\<rparr>
          else if n = 1 then no_css\<lparr>opacity := Some 0\<rparr>
          else no_css\<lparr>width := Some ''100%'', rotateZ := Some ''45deg'', top_css := Some ''-5px''\<rparr>)"

subsection \<open>The sidebar\<close>

datatype command =
    AnimateLine nat line_css
  | AnimateSidebar bool
  | StopMotionElements
  | MotionElementsIn
  | BodyPadding bool

datatype side_event =
    ClickToggle
  | MouseEnter
  | MouseLeave
  | TouchStart real real
  | TouchEnd real real
  | SidebarBegins
  | SidebarShown

record sidebar =
  isSidebarVisible :: bool
  touch_pos :: "(real \<times> real) option"
  sidebar_active :: bool
  toc_motion :: bool
  showing :: bool
  commands :: "command list"

text \<open>What the handlers read of the page: a desktop, and whether the overview panel is selected.\<close>

record side_page =
  desktop :: bool
  overview_block :: bool

definition emit :: "command list \<Rightarrow> sidebar \<Rightarrow> sidebar" where
  "emit cs s = s\<lparr>commands := commands s @ cs\<rparr>"

definition all_lines :: "line_status \<Rightarrow> sidebar \<Rightarrow> sidebar" where
  "all_lines st s = emit (map (\<lambda>n. AnimateLine n (toggle_line n st)) [0, 1, 2]) s"

definition showSidebar :: "side_page \<Rightarrow> sidebar \<Rightarrow> sidebar" where
  \<comment> \<open>\<open>sidebar.isShowing\<close> moves the body on a desktop\<close>
  "showSidebar d s =
     (let s = (emit [AnimateSidebar True] (all_lines LClose s))\<lparr>showing := True\<rparr> in
      if desktop d then emit [BodyPadding True] s else s)"

definition hideSidebar :: "side_page \<Rightarrow> sidebar \<Rightarrow> sidebar" where
  \<comment> \<open>\<open>velocity('stop')\<close> ends the animation that would have called back\<close>
  "hideSidebar d s =
     (let s = (if desktop d then emit [BodyPadding False] s else s);
          s = (emit [StopMotionElements, AnimateSidebar False] s)\<lparr>showing := False\<rparr>;
          s = all_lines LInit s
      in s\<lparr>sidebar_active := False, toc_motion := \<not> overview_block d\<rparr>)"

definition clickHandler :: "side_page \<Rightarrow> sidebar \<Rightarrow> sidebar" where
  "clickHandler d s =
     (let s = (if isSidebarVisible s then hideSidebar d s else showSidebar d s) in
      s\<lparr>isSidebarVisible := \<not> isSidebarVisible s\<rparr>)"

fun side_step :: "side_page \<times> side_event \<Rightarrow> sidebar \<Rightarrow> sidebar" where
  "side_step (d, ClickToggle) s = clickHandler d s"
| "side_step (d, MouseEnter) s = (if isSidebarVisible s then s else all_lines LArrow s)"
| "side_step (d, MouseLeave) s = (if isSidebarVisible s then s else all_lines LInit s)"
| "side_step (d, TouchStart x y) s = s\<lparr>touch_pos := Some (x, y)\<rparr>"
| "side_step (d, TouchEnd x y) s =
     (case touch_pos s of
        Some (x0, y0) \<Rightarrow> if x - x0 > 30 \<and> \<bar>y - y0\<bar> < 20 then clickHandler d s else s
      | None \<Rightarrow> s)"
| "side_step (d, SidebarBegins) s = (if showing s then emit [MotionElementsIn] s else s)"
| "side_step (d, SidebarShown) s =
     (if showing s then s\<lparr>showing := False, sidebar_active := True\<rparr> else s)"

definition new_sidebar :: sidebar where
  "new_sidebar = \<lparr>isSidebarVisible = False, touch_pos = None, sidebar_active = False, toc_motion = True,
     showing = False, commands = []\<rparr>"

subsection \<open>The integrator\<close>

text \<open>
  The configuration of the page: which elements exist, and which transitions are configured.  A stage
  either calls \<open>integrator.next\<close> itself or starts animations that call it when they end; a transition
  of an empty selection never ends.
\<close>

record motion_config =
  motion_async :: bool
  has_brand :: bool
  mist_lines :: bool
  has_title :: bool
  has_subtitle :: bool
  has_menu :: bool
  has_posts :: bool
  block_transitions :: "(string \<times> bool) list"
  sidebar_always :: bool

datatype stage = Logo | Menu | PostList | SidebarStage

definition logo_sequence :: "motion_config \<Rightarrow> string list" where
  "logo_sequence c =
     (if has_brand c then [''brand''] else []) @
     (if mist_lines c then [''top line'', ''bottom line''] else []) @
     (if has_title c then [''title''] else []) @
     (if has_subtitle c then [''subtitle''] else [])"

definition post_transitions :: "motion_config \<Rightarrow> string list" where
  \<comment> \<open>the configured transitions whose selection is not empty\<close>
  "post_transitions c = map fst (filter snd (block_transitions c))"

record integrator =
  queue :: "stage list"
  cursor :: int
  started :: "stage list"
  awaited :: nat
  sidebar_clicked :: bool

text \<open>
  The calls of \<open>next\<close> that a stage makes at once, and the number of animations that will call it.
\<close>

definition stage_nexts :: "motion_config \<Rightarrow> stage \<Rightarrow> nat" where
  "stage_nexts c st =
     (case st of
        Logo \<Rightarrow> (if motion_async c then 1 else 0) + (if logo_sequence c = [] then 1 else 0)
      | Menu \<Rightarrow> (if motion_async c then 1 else 0)
      | PostList \<Rightarrow> (if has_posts c then 0 else 1) + (if motion_async c then 1 else 0)
      | SidebarStage \<Rightarrow> 1)"

definition stage_awaits :: "motion_config \<Rightarrow> stage \<Rightarrow> nat" where
  "stage_awaits c st =
     (case st of
        Logo \<Rightarrow> if logo_sequence c = [] then 0 else 1
      | Menu \<Rightarrow> if has_menu c then 1 else 0
      | PostList \<Rightarrow> if has_posts c then length (post_transitions c) else 0
      | SidebarStage \<Rightarrow> 0)"

text \<open>
  \<open>next\<close> with the stages it starts, which call it again.  The first argument bounds the depth of these
  calls; a depth of the length of the queue is never exceeded, since every call moves the cursor.
\<close>

definition start_stage :: "motion_config \<Rightarrow> stage \<Rightarrow> integrator \<Rightarrow> integrator" where
  "start_stage c st s =
     s\<lparr>started := started s @ [st], awaited := awaited s + stage_awaits c st,
       sidebar_clicked := sidebar_clicked s \<or> (st = SidebarStage \<and> sidebar_always c)\<rparr>"

fun next_stage :: "nat \<Rightarrow> motion_config \<Rightarrow> integrator \<Rightarrow> integrator" where
  "next_stage 0 c s = s\<lparr>cursor := cursor s + 1\<rparr>"
| "next_stage (Suc depth) c s =
     (let s = s\<lparr>cursor := cursor s + 1\<rparr> in
      if 0 \<le> cursor s \<and> cursor s < int (length (queue s)) then
        let st = queue s ! nat (cursor s) in
        (next_stage depth c ^^ stage_nexts c st) (start_stage c st s)
      else s)"

definition integrator_next :: "motion_config \<Rightarrow> integrator \<Rightarrow> integrator" where
  "integrator_next c s = next_stage (length (queue s)) c s"

definition add_stage :: "stage \<Rightarrow> integrator \<Rightarrow> integrator" where
  "add_stage st s = s\<lparr>queue := queue s @ [st]\<rparr>"

definition new_integrator :: integrator where
  "new_integrator = \<lparr>queue = [], cursor = - 1, started = [], awaited = 0, sidebar_clicked = False\<rparr>"

definition animation_ends :: "motion_config \<Rightarrow> integrator \<Rightarrow> integrator" where
  "animation_ends c s =
     (if awaited s > 0 then integrator_next c (s\<lparr>awaited := awaited s - 1\<rparr>) else s)"

text \<open>The motion sequence that \<open>bootstrap.js\<close> defines and starts.\<close>

definition motion_bootstrap :: "motion_config \<Rightarrow> integrator" where
  "motion_bootstrap c =
     integrator_next c (fold add_stage [Logo, Menu, PostList, SidebarStage] new_integrator)"

subsection \<open>The stages run in order\<close>

definition in_order :: "integrator \<Rightarrow> bool" where
  "in_order s \<longleftrightarrow> - 1 \<le> cursor s \<and> started s = take (nat (cursor s + 1)) (queue s)"

definition balance :: "motion_config \<Rightarrow> integrator \<Rightarrow> int" where
  "balance c s = cursor s + int (awaited s) -
     (\<Sum>st \<leftarrow> started s. int (stage_nexts c st + stage_awaits c st))"

definition deep_enough :: "nat \<Rightarrow> integrator \<Rightarrow> bool" where
  "deep_enough n s \<longleftrightarrow> int (length (queue s)) \<le> int n + cursor s + 1"

lemma start_stage_fields [simp]:
  "cursor (start_stage c st s) = cursor s" "queue (start_stage c st s) = queue s"
  "started (start_stage c st s) = started s @ [st]" "awaited (start_stage c st s) = awaited s + stage_awaits c st"
  by (simp_all add: start_stage_def)

lemma next_stage_facts:
  assumes "in_order s" "deep_enough n s"
  shows "in_order (next_stage n c s) \<and> queue (next_stage n c s) = queue s \<and>
    cursor s < cursor (next_stage n c s) \<and> balance c (next_stage n c s) = balance c s + 1"
  using assms
proof (induction n arbitrary: s)
  case 0
  then have "take (nat (cursor s + 1)) (queue s) = queue s"
    "take (nat (cursor s + 1 + 1)) (queue s) = queue s"
    by (auto simp: deep_enough_def)
  with 0 show ?case by (simp add: in_order_def balance_def)
next
  case (Suc n)
  note deeper = Suc.IH
  define t where "t = s\<lparr>cursor := cursor s + 1\<rparr>"
  show ?case
  proof (cases "cursor t < int (length (queue t))")
    case False
    then have "take (nat (cursor s + 1)) (queue s) = queue s"
      "take (nat (cursor s + 1 + 1)) (queue s) = queue s"
      using Suc.prems(1) by (auto simp: t_def in_order_def)
    with False Suc.prems show ?thesis
      by (simp add: t_def in_order_def balance_def Let_def)
  next
    case True
    define st where "st = queue t ! nat (cursor t)"
    define u where "u = start_stage c st t"
    have k: "nat (cursor s + 1 + 1) = Suc (nat (cursor s + 1))" "0 \<le> cursor t"
      using Suc.prems(1) by (auto simp: in_order_def t_def)
    have u: "in_order u" "queue u = queue s" "cursor u = cursor s + 1"
      "balance c u = balance c s + 1 - int (stage_nexts c st)" "deep_enough n u"
      using Suc.prems True k
      by (auto simp: u_def in_order_def balance_def t_def st_def take_Suc_conv_app_nth deep_enough_def)
    have "in_order ((next_stage n c ^^ m) u) \<and> queue ((next_stage n c ^^ m) u) = queue s \<and>
        cursor u \<le> cursor ((next_stage n c ^^ m) u) \<and> balance c ((next_stage n c ^^ m) u) = balance c u + int m" for m
    proof (induction m)
      case (Suc m)
      let ?v = "(next_stage n c ^^ m) u"
      have "deep_enough n ?v" using u Suc by (simp add: deep_enough_def)
      with Suc.IH deeper [of ?v] show ?case by auto
    qed (use u in simp)
    from this [of "stage_nexts c st"] show ?thesis
      using True k u(3,4) by (simp add: Let_def flip: t_def st_def u_def)
  qed
qed

lemma integrator_next_facts:
  assumes "in_order s"
  shows "in_order (integrator_next c s) \<and> queue (integrator_next c s) = queue s \<and>
    cursor s < cursor (integrator_next c s) \<and> balance c (integrator_next c s) = balance c s + 1"
  unfolding integrator_next_def
  using assms by (intro next_stage_facts) (auto simp: deep_enough_def in_order_def)

text \<open>What holds between two callbacks.\<close>

definition settled :: "motion_config \<Rightarrow> integrator \<Rightarrow> bool" where
  "settled c s \<longleftrightarrow> in_order s \<and> queue s = [Logo, Menu, PostList, SidebarStage] \<and> balance c s = 0"

lemma bootstrap_settled: "settled c (motion_bootstrap c)"
proof -
  let ?s = "fold add_stage [Logo, Menu, PostList, SidebarStage] new_integrator"
  have "in_order ?s" by (simp add: in_order_def add_stage_def new_integrator_def)
  from integrator_next_facts [OF this, of c] show ?thesis
    by (simp add: settled_def motion_bootstrap_def balance_def add_stage_def new_integrator_def)
qed

lemma ends_settled:
  assumes "settled c s"
  shows "settled c (animation_ends c s) \<and> (awaited s > 0 \<longrightarrow> cursor s < cursor (animation_ends c s))"
proof (cases "awaited s > 0")
  case True
  let ?s = "s\<lparr>awaited := awaited s - 1\<rparr>"
  have "in_order ?s" using assms by (simp add: settled_def in_order_def)
  from integrator_next_facts [OF this, of c] True assms show ?thesis
    by (simp add: animation_ends_def settled_def balance_def)
qed (use assms in \<open>simp add: animation_ends_def\<close>)

lemma run_settled: "settled c ((animation_ends c ^^ m) (motion_bootstrap c))"
  by (induction m) (auto simp: bootstrap_settled ends_settled)

lemma sum_prefix: "(\<Sum>x \<leftarrow> take n xs. int (f x)) \<le> (\<Sum>x \<leftarrow> xs. int (f x))"
proof -
  have "0 \<le> (\<Sum>x \<leftarrow> drop n xs. int (f x))" by (rule sum_list_nonneg) auto
  moreover have "(\<Sum>x \<leftarrow> xs. int (f x)) = (\<Sum>x \<leftarrow> take n xs. int (f x)) + (\<Sum>x \<leftarrow> drop n xs. int (f x))"
    by (metis append_take_drop_id map_append sum_list_append)
  ultimately show ?thesis by simp
qed

lemma callbacks_end: "\<exists>m. awaited ((animation_ends c ^^ m) (motion_bootstrap c)) = 0"
proof (rule ccontr)
  assume never: "\<not> ?thesis"
  let ?s = "\<lambda>m. (animation_ends c ^^ m) (motion_bootstrap c)"
  let ?f = "\<lambda>st. stage_nexts c st + stage_awaits c st"
  define K where "K = (\<Sum>st \<leftarrow> [Logo, Menu, PostList, SidebarStage]. int (?f st))"
  have up: "int m - 1 \<le> cursor (?s m)" for m
  proof (induction m)
    case 0
    then show ?case using bootstrap_settled [of c] by (simp add: settled_def in_order_def)
  next
    case (Suc m)
    then show ?case
      using ends_settled [OF run_settled [of c m]] never by (auto simp: algebra_simps)
  qed
  have "int (awaited (?s m)) \<le> K - cursor (?s m)" for m
  proof -
    have "started (?s m) = take (nat (cursor (?s m) + 1)) [Logo, Menu, PostList, SidebarStage]"
      and "balance c (?s m) = 0"
      using run_settled [of c m] by (auto simp: settled_def in_order_def)
    then show ?thesis
      using sum_prefix [of ?f "nat (cursor (?s m) + 1)" "[Logo, Menu, PostList, SidebarStage]"]
      by (simp only: balance_def K_def)
  qed
  moreover have "0 \<le> K" by (simp add: K_def)
  ultimately have "int (awaited (?s (nat (K + 2)))) \<le> - 1" using up [of "nat (K + 2)"]
    by (smt (verit) int_nat_eq)
  then show False by simp
qed

lemma all_started:
  assumes "settled c s" "awaited s = 0" "motion_async c \<or> has_menu c \<and> (has_posts c \<longrightarrow> post_transitions c \<noteq> [])"
  shows "started s = [Logo, Menu, PostList, SidebarStage]"
proof -
  let ?f = "\<lambda>st. int (stage_nexts c st + stage_awaits c st)"
  have one: "1 \<le> ?f st" for st
    using assms(3) by (cases st) (auto simp: stage_nexts_def stage_awaits_def Suc_le_eq)
  have "int (length xs) \<le> (\<Sum>st \<leftarrow> xs. ?f st)" for xs
  proof (induction xs)
    case (Cons x xs)
    then show ?case using one [of x] by simp
  qed simp
  from this [of "started s"] have "int (length (started s)) \<le> cursor s"
    using assms(1,2) by (simp add: settled_def balance_def)
  then have "4 \<le> nat (cursor s + 1)"
    using assms(1) by (auto simp: settled_def in_order_def split: if_splits)
  with assms(1) show ?thesis by (simp add: settled_def in_order_def)
qed

definition stuck_config :: motion_config where
  "stuck_config = \<lparr>motion_async = False, has_brand = True, mist_lines = False, has_title = True,
     has_subtitle = True, has_menu = True, has_posts = True, block_transitions = [], sidebar_always = True\<rparr>"

text \<open>
  C35.  The stages of the page's entrance start at most once each and in their order, synchronously or
  not; the animations come to an end; and then every stage has run, if \<open>motion.async\<close> is on, or else if the page has
  items of a menu and, if it has posts, a transition for them.  Otherwise it stops: without a menu at that stage,
  and without a transition a page with posts before the sidebar.
\<close>

theorem motion_runs:
  "(\<exists>n. started ((animation_ends c ^^ m) (motion_bootstrap c)) = take n [Logo, Menu, PostList, SidebarStage]) \<and>
   (\<exists>m. awaited ((animation_ends c ^^ m) (motion_bootstrap c)) = 0 \<and>
        (motion_async c \<or> has_menu c \<and> (has_posts c \<longrightarrow> post_transitions c \<noteq> []) \<longrightarrow>
         started ((animation_ends c ^^ m) (motion_bootstrap c)) = [Logo, Menu, PostList, SidebarStage])) \<and>
   (let s = (animation_ends stuck_config ^^ 2) (motion_bootstrap stuck_config) in
    awaited s = 0 \<and> started s = [Logo, Menu, PostList]) \<and>
   (let c' = stuck_config\<lparr>has_menu := False\<rparr>; s = (animation_ends c' ^^ 1) (motion_bootstrap c') in
    awaited s = 0 \<and> started s = [Logo, Menu])"
proof -
  have "\<exists>n. started ((animation_ends c ^^ m) (motion_bootstrap c)) = take n [Logo, Menu, PostList, SidebarStage]"
    using run_settled [of c m] unfolding settled_def in_order_def by metis
  moreover obtain k where k: "awaited ((animation_ends c ^^ k) (motion_bootstrap c)) = 0"
    using callbacks_end by blast
  moreover have "(animation_ends stuck_config ^^ 2) (motion_bootstrap stuck_config) =
      \<lparr>queue = [Logo, Menu, PostList, SidebarStage], cursor = 2, started = [Logo, Menu, PostList], awaited = 0,
       sidebar_clicked = False\<rparr>"
    by (simp add: motion_bootstrap_def stuck_config_def add_stage_def new_integrator_def
        integrator_next_def start_stage_def stage_nexts_def stage_awaits_def logo_sequence_def
        post_transitions_def animation_ends_def numeral_2_eq_2 Let_def)
  moreover have "(animation_ends (stuck_config\<lparr>has_menu := False\<rparr>) ^^ 1) (motion_bootstrap (stuck_config\<lparr>has_menu := False\<rparr>)) =
      \<lparr>queue = [Logo, Menu, PostList, SidebarStage], cursor = 1, started = [Logo, Menu], awaited = 0,
       sidebar_clicked = False\<rparr>"
    by (simp add: motion_bootstrap_def stuck_config_def add_stage_def new_integrator_def
        integrator_next_def start_stage_def stage_nexts_def stage_awaits_def logo_sequence_def
        post_transitions_def animation_ends_def Let_def)
  ultimately show ?thesis using all_started [OF run_settled k] by auto
qed

theorem motion_runs_witness:
  "\<exists>m. started ((animation_ends (stuck_config\<lparr>block_transitions := [(''fadeIn'', True)]\<rparr>) ^^ m)
      (motion_bootstrap (stuck_config\<lparr>block_transitions := [(''fadeIn'', True)]\<rparr>)))
    = [Logo, Menu, PostList, SidebarStage]"
  using motion_runs [where c = "stuck_config\<lparr>block_transitions := [(''fadeIn'', True)]\<rparr>" and m = 0]
  by (auto simp: post_transitions_def) (auto simp: stuck_config_def)

subsection \<open>The sidebar follows its flag\<close>

text \<open>The state that the last animation of the sidebar leads to.\<close>

definition sidebar_opened :: "command list \<Rightarrow> bool" where
  "sidebar_opened cs = fold (\<lambda>c b. case c of AnimateSidebar b' \<Rightarrow> b' | _ \<Rightarrow> b) cs False"

definition side_ok :: "sidebar \<Rightarrow> bool" where
  "side_ok s \<longleftrightarrow>
     (showing s \<or> sidebar_active s \<longrightarrow> isSidebarVisible s) \<and> \<not> (showing s \<and> sidebar_active s) \<and>
     (isSidebarVisible s \<longrightarrow> showing s \<or> sidebar_active s) \<and>
     sidebar_opened (commands s) = isSidebarVisible s"

lemma emit_fields [simp]:
  "isSidebarVisible (emit cs s) = isSidebarVisible s" "showing (emit cs s) = showing s"
  "sidebar_active (emit cs s) = sidebar_active s" "commands (emit cs s) = commands s @ cs"
  "touch_pos (emit cs s) = touch_pos s" "toc_motion (emit cs s) = toc_motion s"
  by (simp_all add: emit_def)

lemma side_step_ok: "side_ok s \<Longrightarrow> side_ok (side_step de s)"
  by (cases "(de, s)" rule: side_step.cases)
    (auto simp: side_ok_def clickHandler_def showSidebar_def hideSidebar_def all_lines_def Let_def
      sidebar_opened_def split: option.splits)

text \<open>
  After any clicks, swipes and callbacks the last animation of the sidebar opens it exactly when
  its flag says that it is visible; then it is either still opening or marked as active, never both, and
  a hidden sidebar is neither.
\<close>

theorem sidebar_consistent: "side_ok (fold side_step es new_sidebar)"
proof -
  have "side_ok new_sidebar" by (simp add: side_ok_def new_sidebar_def sidebar_opened_def)
  then show ?thesis by (induction es rule: rev_induct) (auto intro: side_step_ok)
qed

end
