(* ===== verification/Site.thy ===== *)
theory Site
  imports Scrollspy Affix Motion
begin

section \<open>bootstrap.js, post-details.js, algolia-search.js: the page of the blog\<close>

text \<open>
  What the three scripts do when the document is ready, in their order, and their event handlers.
\<close>

subsection \<open>bootstrap.js\<close>

record boot_config =
  cf_fastclick :: bool
  cf_lazyload :: bool
  cf_fancybox :: bool
  cf_tabs :: bool
  cf_motion_enable :: bool

datatype boot_action =
    TriggerBefore
  | AttachFastClick
  | LazyLoad
  | RegisterEsc
  | RegisterBackToTop
  | RegisterNavToggle
  | WrapImages
  | RegisterTabs
  | TransformVideos
  | MarkMenuItem "nat option"
  | AddStage stage
  | TriggerMotionBefore
  | StartMotion
  | TriggerAfter

definition boot_actions :: "boot_config \<Rightarrow> real \<Rightarrow> string \<Rightarrow> string \<Rightarrow> string list \<Rightarrow> boot_action list" where
  "boot_actions c screen_width ua path hrefs =
     [TriggerBefore] @
     (if cf_fastclick c \<and> isMobile screen_width ua then [AttachFastClick] else []) @
     (if cf_lazyload c then [LazyLoad] else []) @
     [RegisterEsc, RegisterBackToTop, RegisterNavToggle] @
     (if cf_fancybox c then [WrapImages] else []) @
     (if cf_tabs c then [RegisterTabs] else []) @
     [TransformVideos, MarkMenuItem (addActiveClassToMenuItem path hrefs)] @
     map AddStage [Logo, Menu, PostList, SidebarStage] @
     [TriggerMotionBefore] @
     (if cf_motion_enable c then [StartMotion] else []) @
     [TriggerAfter]"

text \<open>
  The navigation of small screens: a click stops the running slide, whose callback is then lost, and
  starts the one that the class calls for; the class changes when the slide has ended.
\<close>

record site_nav =
  nav_on :: bool
  slide :: "bool option"

datatype nav_event = NavClick | SlideEnds

fun nav_step :: "nav_event \<Rightarrow> site_nav \<Rightarrow> site_nav" where
  "nav_step NavClick s = s\<lparr>slide := Some (\<not> nav_on s)\<rparr>"
| "nav_step SlideEnds s = (case slide s of None \<Rightarrow> s | Some b \<Rightarrow> s\<lparr>nav_on := b, slide := None\<rparr>)"

subsection \<open>post-details.js\<close>

text \<open>
  The table of contents: the marked entries of the scroll spy, in document order, and the one that is
  shown as current.  The list is scrolled so that the current entry is in its middle.
\<close>

record toc =
  toc_current :: "string option"
  toc_scroll :: real

definition on_activate :: "string list \<Rightarrow> real \<Rightarrow> real \<Rightarrow> real \<Rightarrow> toc \<Rightarrow> toc" where
  "on_activate active entry_top toc_top list_height t =
     (if active = [] then t\<lparr>toc_current := None\<rparr>
      else t\<lparr>toc_current := Some (last active),
             toc_scroll := entry_top - toc_top + toc_scroll t - list_height / 2\<rparr>)"

definition on_clear :: "toc \<Rightarrow> toc" where
  "on_clear t = t\<lparr>toc_current := None\<rparr>"

text \<open>The tabs of the sidebar, with the animation library and without it.\<close>

record side_tabs =
  active_tab :: nat
  active_panels :: "nat set"
  hiding :: "(nat set \<times> nat) option"
  fading :: "(nat set \<times> nat) option"

datatype side_tab_event = TabClick nat | HideEnds | FadeEnds

fun side_tab_step :: "bool \<Rightarrow> side_tab_event \<Rightarrow> side_tabs \<Rightarrow> side_tabs" where
  "side_tab_step hasVelocity (TabClick i) s =
     (if active_tab s = i then s
      else s\<lparr>hiding := Some (active_panels s, i), active_tab := i\<rparr>)"
| "side_tab_step hasVelocity HideEnds s =
     (case hiding s of
        None \<Rightarrow> s
      | Some (current, target) \<Rightarrow>
          if hasVelocity then s\<lparr>hiding := None, active_panels := insert target (active_panels s)\<rparr>
          else s\<lparr>hiding := None, fading := Some (current, target)\<rparr>)"
| "side_tab_step hasVelocity FadeEnds s =
     (case fading s of
        None \<Rightarrow> s
      | Some (current, target) \<Rightarrow>
          s\<lparr>fading := None, active_panels := insert target (active_panels s - current)\<rparr>)"

definition toc_click :: "(string \<Rightarrow> (real \<times> bool) option) \<Rightarrow> string \<Rightarrow> real res" where
  \<comment> \<open>where the page scrolls to; \<open>offset()\<close> of an empty selection is \<open>undefined\<close>\<close>
  "toc_click find_heading target =
     (case find_heading (escapeSelector target) of Some (y, _) \<Rightarrow> Inr y | None \<Rightarrow> Inl TypeError)"

datatype page_sidebar = SidebarFlag bool | SidebarUnset

definition sidebar_displayed :: "config \<Rightarrow> page_sidebar \<Rightarrow> string \<Rightarrow> bool" where
  \<comment> \<open>the text is the trimmed content of the table of contents, empty if there is none\<close>
  "sidebar_displayed c p toc_text =
     (case p of
        SidebarFlag b \<Rightarrow> b
      | SidebarUnset \<Rightarrow>
          (sidebar_display c = ''post'' \<or> sidebar_display c = ''always'') \<and> toc_text \<noteq> [])"

datatype sidebar_start = ReplaceStage | DisplayNow | LeaveSidebar

definition sidebar_on_ready :: "config \<Rightarrow> bool \<Rightarrow> page_sidebar \<Rightarrow> string \<Rightarrow> sidebar_start" where
  "sidebar_on_ready c motion_enable p toc_text =
     (if sidebar_displayed c p toc_text
      then (if motion_enable then ReplaceStage else DisplayNow)
      else LeaveSidebar)"

subsection \<open>algolia-search.js\<close>

record algolia =
  applicationID :: string
  apiKey :: string
  indexName :: string
  per_page :: nat
  hits_empty :: string
  hits_stats :: string
  site_root :: string

definition algolia_valid :: "algolia \<Rightarrow> bool" where
  "algolia_valid a \<longleftrightarrow> applicationID a \<noteq> [] \<and> apiKey a \<noteq> [] \<and> indexName a \<noteq> []"

definition searchFunction :: "string \<Rightarrow> bool" where
  \<comment> \<open>whether the search is run for the text of the input\<close>
  "searchFunction input = (input \<noteq> [])"

definition hits_per_page :: "algolia \<Rightarrow> nat" where
  "hits_per_page a = (if per_page a \<noteq> 0 then per_page a else 10)"

fun expand_dollar :: "string \<Rightarrow> string \<Rightarrow> string \<Rightarrow> string \<Rightarrow> string" where
  \<comment> \<open>the patterns that \<open>replace\<close> knows in a replacement: the match, what is before and after it, a dollar\<close>
  "expand_dollar pat before after (c # d # s) =
     (if c \<noteq> CHR ''$'' then c # expand_dollar pat before after (d # s)
      else if d = CHR ''$'' then d # expand_dollar pat before after s
      else if d = CHR ''&'' then pat @ expand_dollar pat before after s
      else if d = CHR 96 then before @ expand_dollar pat before after s
      else if d = CHR 39 then after @ expand_dollar pat before after s
      else c # expand_dollar pat before after (d # s))"
| "expand_dollar pat before after s = s"

fun replace_from :: "string \<Rightarrow> string \<Rightarrow> string \<Rightarrow> string \<Rightarrow> string" where
  "replace_from pat r before [] = before"
| "replace_from pat r before (c # s) =
     (if take (length pat) (c # s) = pat
      then before @ expand_dollar pat before (drop (length pat) (c # s)) r @ drop (length pat) (c # s)
      else replace_from pat r (before @ [c]) s)"

definition replace_once :: "string \<Rightarrow> string \<Rightarrow> string \<Rightarrow> string" where
  \<comment> \<open>\<open>replace\<close> of a literal pattern without the flag \<open>g\<close>\<close>
  "replace_once pat r s = replace_from pat r [] s"

definition hit_item :: "algolia \<Rightarrow> string \<Rightarrow> string \<Rightarrow> string \<Rightarrow> string" where
  "hit_item a permalink path caption =
     (let link = (if permalink \<noteq> [] then permalink else site_root a @ path) in
      ''<a href=\"'' @ link @ ''\" class=\"algolia-hit-item-link\">'' @ caption @ ''</a>'')"

definition empty_item :: "algolia \<Rightarrow> string \<Rightarrow> string" where
  "empty_item a query =
     ''<div id=\"algolia-hits-empty\">'' @ replace_once ''${query}'' query (hits_empty a) @ ''</div>''"

definition stats_body :: "algolia \<Rightarrow> string \<Rightarrow> string \<Rightarrow> string" where
  "stats_body a nbHits processingTimeMS =
     (let stats = replace_once ''${time}'' processingTimeMS (replace_once ''${hits}'' nbHits (hits_stats a)) in
      stats @ ''<span class=\"algolia-powered\">'' @ ''  <img src=\"'' @ site_root a @
      ''images/algolia_logo.svg\" alt=\"Algolia\" />'' @ ''</span>'' @ ''<hr />'')"

text \<open>The popup: its trigger toggles it and adds an overlay each time, closing removes them all.\<close>

datatype popup_event = PopupTrigger | PopupClose | PopupKey nat

fun popup_step :: "popup_event \<Rightarrow> popup_page \<Rightarrow> popup_page" where
  "popup_step PopupTrigger p =
     p\<lparr>popup_visible := \<not> popup_visible p, overlays := Suc (overlays p), body_overflow := ''hidden''\<rparr>"
| "popup_step PopupClose p = p\<lparr>popup_visible := False, overlays := 0, body_overflow := []\<rparr>"
| "popup_step (PopupKey which) p = esc_key which p"

subsection \<open>Facts\<close>

text \<open>A click on the navigation and the end of its slide toggle the class; two clicks toggle it once.\<close>

lemma nav_toggles: "nav_on (fold nav_step [NavClick, SlideEnds] s) = (\<not> nav_on s)"
  "nav_on (fold nav_step [NavClick, NavClick, SlideEnds] s) = (\<not> nav_on s)"
  by simp_all

text \<open>With the animation library the class of a panel is never removed.\<close>

lemma velocity_panels_grow: "active_panels s \<subseteq> active_panels (side_tab_step True e s)
  \<or> (\<exists>x. fading s = Some x \<and> e = FadeEnds)"
  by (cases e) (auto split: option.splits)

text \<open>The scroll lock is on while the popup is shown, unless the trigger closes it.\<close>

lemma popup_locks: "popup_visible p \<longrightarrow> body_overflow p = ''hidden'' \<and> overlays p > 0 \<Longrightarrow>
  popup_visible (popup_step e p) \<longrightarrow> body_overflow (popup_step e p) = ''hidden'' \<and> overlays (popup_step e p) > 0"
  by (cases e) (auto simp: esc_key_def)

end
