(* ===== verification/Velocity_Queue.thy ===== *)
theory Velocity_Queue
  imports JsPrelude
begin

section \<open>velocity.js: queues, calls and ticks\<close>

text \<open>
  The scheduling of the animation library: \<open>$.queue\<close> and \<open>$.dequeue\<close> keep a queue of entries per
  element, a call is built on each of its elements when the element's queue reaches it, a call that is
  built on all of them is pushed to \<open>Velocity.State.calls\<close>, \<open>tick\<close> completes the calls whose time is
  over, and \<open>stop\<close> completes them before.  Calls are numbered in the order they are made.  The model
  has the default queue and \<open>queue: false\<close>, calls without delay and without loop; the values of the
  properties that are animated are another matter.
\<close>

subsection \<open>The state\<close>

record vcall =
  elems :: "nat list"
  queued :: bool
  duration :: real

datatype qitem = InProgress | Entry nat

datatype vlog = Began nat | Completed nat | Stopped nat

text \<open>
  \<open>specs\<close>: the calls made so far; \<open>ran\<close>: for each element the entries its queue has run, which is a
  record of the model only; \<open>built\<close>: for each call the elements on which it was built (\<open>call\<close> and
  \<open>elementsIndex\<close> in the code); \<open>slots\<close>: the array \<open>Velocity.State.calls\<close>, each entry \<open>false\<close> or a call
  with its \<open>timeStart\<close>.
\<close>

record velocity =
  specs :: "vcall list"
  queues :: "nat \<Rightarrow> qitem list"
  ran :: "nat \<Rightarrow> nat list"
  built :: "nat \<Rightarrow> nat list"
  slots :: "(nat \<times> real option) option list"
  isTicking :: bool
  vlogs :: "vlog list"

definition new_velocity :: velocity where
  "new_velocity = \<lparr>specs = [], queues = (\<lambda>_. []), ran = (\<lambda>_. []), built = (\<lambda>_. []), slots = [],
     isTicking = False, vlogs = []\<rparr>"

subsection \<open>Queues\<close>

definition buildQueue :: "nat \<Rightarrow> nat \<Rightarrow> velocity \<Rightarrow> velocity" where
  "buildQueue c e s =
     (let s = (if built s c = [] then s\<lparr>vlogs := vlogs s @ [Began c]\<rparr> else s);
          s = s\<lparr>built := (built s)(c := built s c @ [e])\<rparr> in
      if length (built s c) = length (elems (specs s ! c))
      then s\<lparr>slots := slots s @ [Some (c, None)], isTicking := True\<rparr>
      else s)"

definition shift_entry :: "qitem list \<Rightarrow> qitem list" where
  \<comment> \<open>\<open>queue.shift()\<close>, twice if the first item is \<open>inprogress\<close>; the entry to run stays first\<close>
  "shift_entry q = (case q of InProgress # q' \<Rightarrow> q' | _ \<Rightarrow> q)"

definition dequeue :: "nat \<Rightarrow> velocity \<Rightarrow> velocity" where
  "dequeue e s =
     (case shift_entry (queues s e) of
        Entry c # q \<Rightarrow>
          buildQueue c e (s\<lparr>queues := (queues s)(e := InProgress # q), ran := (ran s)(e := ran s e @ [c])\<rparr>)
      | InProgress # q \<Rightarrow> s\<lparr>queues := (queues s)(e := q)\<rparr>
      | [] \<Rightarrow> s\<lparr>queues := (queues s)(e := [])\<rparr>)"

definition enqueue :: "nat \<Rightarrow> nat \<Rightarrow> velocity \<Rightarrow> velocity" where
  \<comment> \<open>\<open>$.queue(element, opts.queue, \<dots>)\<close> and the automatic dequeuing\<close>
  "enqueue c e s =
     (let s = s\<lparr>queues := (queues s)(e := queues s e @ [Entry c])\<rparr> in
      if hd (queues s e) \<noteq> InProgress then dequeue e s else s)"

definition animate :: "vcall \<Rightarrow> velocity \<Rightarrow> velocity" where
  "animate v s =
     (let v = (if duration v = 0 then v\<lparr>duration := 1\<rparr> else v);
          c = length (specs s); s = s\<lparr>specs := specs s @ [v]\<rparr> in
      if queued v then fold (enqueue c) (elems v) s
      else fold (buildQueue c) (elems v) s)"

subsection \<open>Completion, ticks, stop\<close>

definition clean_slots :: "nat \<Rightarrow> velocity \<Rightarrow> velocity" where
  "clean_slots i s =
     (let s = s\<lparr>slots := (slots s)[i := None]\<rparr> in
      if list_all (\<lambda>x. x = None) (slots s) then s\<lparr>isTicking := False, slots := []\<rparr> else s)"

text \<open>The callback of a call that was not stopped is called before the queue of its last element goes on.\<close>

definition completeCall :: "bool \<Rightarrow> nat \<Rightarrow> velocity \<Rightarrow> velocity" where
  "completeCall isStopped i s =
     (if i < length (slots s) then
        (case slots s ! i of
           None \<Rightarrow> s
         | Some (c, _) \<Rightarrow>
             let es = (if queued (specs s ! c) then built s c else []);
                 s = fold dequeue (butlast es) s;
                 s = s\<lparr>vlogs := vlogs s @ [if isStopped then Stopped c else Completed c]\<rparr>;
                 s = (if es \<noteq> [] then dequeue (last es) s else s)
             in clean_slots i s)
      else s)"

definition tick_call :: "real \<Rightarrow> nat \<Rightarrow> velocity \<Rightarrow> velocity" where
  "tick_call timeCurrent i s =
     (if i < length (slots s) then
        (case slots s ! i of
           None \<Rightarrow> s
         | Some (c, start) \<Rightarrow>
             let timeStart = (case start of Some t \<Rightarrow> if t = 0 then timeCurrent - 16 else t | None \<Rightarrow> timeCurrent - 16);
                 s = s\<lparr>slots := (slots s)[i := Some (c, Some timeStart)]\<rparr>;
                 percentComplete = min ((timeCurrent - timeStart) / duration (specs s ! c)) 1
             in if percentComplete = 1 then completeCall False i s else s)
      else s)"

definition compactSparseArray :: "'a option list \<Rightarrow> 'a option list" where
  "compactSparseArray xs = filter (\<lambda>x. x \<noteq> None) xs"

definition tick :: "real \<Rightarrow> velocity \<Rightarrow> velocity" where
  \<comment> \<open>the length is read before the array is compacted\<close>
  "tick timeCurrent s =
     (let callsLength = length (slots s);
          s = (if callsLength > 10000 then s\<lparr>slots := compactSparseArray (slots s)\<rparr> else s) in
      fold (tick_call timeCurrent) [0..<callsLength] s)"

definition calls_to_stop :: "nat list \<Rightarrow> velocity \<Rightarrow> nat list" where
  \<comment> \<open>once for every element that is asked for and belongs to the call\<close>
  "calls_to_stop es s =
     concat (map (\<lambda>i. case slots s ! i of
                None \<Rightarrow> []
              | Some (c, _) \<Rightarrow>
                  concat (map (\<lambda>e. map (\<lambda>_. i) (filter (\<lambda>x. x = e) es)) (elems (specs s ! c))))
       [0..<length (slots s)])"

definition stop :: "nat list \<Rightarrow> velocity \<Rightarrow> velocity" where
  "stop es s = fold (completeCall True) (calls_to_stop es s) s"

text \<open>The events that the page causes: a call on distinct elements, a tick at some time, a stop.\<close>

datatype vevent = Animate vcall | Tick real | Stop "nat list"

fun vstep :: "vevent \<Rightarrow> velocity \<Rightarrow> velocity" where
  "vstep (Animate v) s = (if elems v \<noteq> [] \<and> distinct (elems v) then animate v s else s)"
| "vstep (Tick t) s = tick t s"
| "vstep (Stop es) s = stop es s"

subsection \<open>The invariant\<close>

fun entries :: "qitem list \<Rightarrow> nat list" where
  "entries [] = []"
| "entries (InProgress # q) = entries q"
| "entries (Entry c # q) = c # entries q"

lemma entries_map [simp]: "entries (map Entry es) = es"
  by (induction es) auto

lemma entries_append [simp]: "entries (p @ q) = entries p @ entries q"
  by (induction p rule: entries.induct) auto

definition ends :: "vlog list \<Rightarrow> nat list" where
  "ends l = concat (map (\<lambda>x. case x of Began _ \<Rightarrow> [] | Completed c \<Rightarrow> [c] | Stopped c \<Rightarrow> [c]) l)"

definition ended :: "velocity \<Rightarrow> nat set" where
  "ended s = set (ends (vlogs s))"

definition full :: "velocity \<Rightarrow> nat \<Rightarrow> bool" where
  "full s c \<longleftrightarrow> length (built s c) = length (elems (specs s ! c))"

definition act :: "velocity \<Rightarrow> nat list" where
  "act s = concat (map (\<lambda>x. case x of None \<Rightarrow> [] | Some (c, _) \<Rightarrow> [c]) (slots s))"

text \<open>
  An element: either its queue is empty and all it ran is over (\<open>D\<close>), or the last call it ran is in
  progress.  \<open>M c\<close> are the elements on which call \<open>c\<close> has been queued so far.
\<close>

definition elem_ok :: "(nat \<Rightarrow> nat set) \<Rightarrow> velocity \<Rightarrow> nat \<Rightarrow> bool" where
  "elem_ok D s e \<longleftrightarrow>
     queues s e = [] \<and> set (ran s e) \<subseteq> D e \<or>
     (\<exists>es. queues s e = InProgress # map Entry es \<and> ran s e \<noteq> [] \<and>
        set (butlast (ran s e)) \<subseteq> D e \<and> last (ran s e) \<notin> D e \<and> set es \<inter> D e = {})"

definition elem_inv :: "(nat \<Rightarrow> nat set) \<Rightarrow> (nat \<Rightarrow> nat set) \<Rightarrow> velocity \<Rightarrow> nat \<Rightarrow> bool" where
  "elem_inv D M s e \<longleftrightarrow>
     elem_ok D s e \<and> ran s e @ entries (queues s e) = filter (\<lambda>c. e \<in> M c) [0..<length (specs s)]"

definition call_ok :: "(nat \<Rightarrow> nat set) \<Rightarrow> velocity \<Rightarrow> nat \<Rightarrow> bool" where
  "call_ok M s c \<longleftrightarrow>
     distinct (elems (specs s ! c)) \<and> elems (specs s ! c) \<noteq> [] \<and> distinct (built s c) \<and>
     set (built s c) \<subseteq> set (elems (specs s ! c)) \<and> M c \<subseteq> set (elems (specs s ! c)) \<and>
     (queued (specs s ! c) \<longrightarrow> set (built s c) = {e \<in> M c. c \<in> set (ran s e)})"

definition call_inv :: "(nat \<Rightarrow> nat set) \<Rightarrow> velocity \<Rightarrow> bool" where
  "call_inv M s \<longleftrightarrow> (\<forall>c < length (specs s). call_ok M s c) \<and> (\<forall>c \<ge> length (specs s). built s c = [])"

definition slot_inv :: "nat set \<Rightarrow> velocity \<Rightarrow> bool" where
  "slot_inv E s \<longleftrightarrow>
     distinct (act s) \<and> set (act s) = {c. c < length (specs s) \<and> full s c \<and> c \<notin> E} \<and>
     (isTicking s \<longleftrightarrow> act s \<noteq> [])"

lemma inv_vlogs [simp]:
  "elem_inv D M (s\<lparr>vlogs := l\<rparr>) e = elem_inv D M s e" "call_inv M (s\<lparr>vlogs := l\<rparr>) = call_inv M s"
  "slot_inv E (s\<lparr>vlogs := l\<rparr>) = slot_inv E s"
  by (simp_all add: elem_inv_def elem_ok_def call_inv_def call_ok_def slot_inv_def act_def full_def)

lemma full_set:
  assumes "call_inv M s" "c < length (specs s)"
  shows "full s c \<longleftrightarrow> set (built s c) = set (elems (specs s ! c))"
proof -
  have d: "distinct (built s c)" "distinct (elems (specs s ! c))" "set (built s c) \<subseteq> set (elems (specs s ! c))"
    using assms by (auto simp: call_inv_def call_ok_def)
  then show ?thesis
    unfolding full_def by (metis List.finite_set card_subset_eq distinct_card)
qed

subsection \<open>Building a call on an element\<close>

lemma build_fields [simp]:
  "specs (buildQueue c e s) = specs s" "queues (buildQueue c e s) = queues s"
  "ran (buildQueue c e s) = ran s" "built (buildQueue c e s) = (built s)(c := built s c @ [e])"
  "ends (vlogs (buildQueue c e s)) = ends (vlogs s)"
  by (auto simp: buildQueue_def Let_def ends_def)

lemma build_act:
  "act (buildQueue c e s) =
     act s @ (if Suc (length (built s c)) = length (elems (specs s ! c)) then [c] else [])"
  "Suc (length (built s c)) = length (elems (specs s ! c)) \<Longrightarrow> isTicking (buildQueue c e s)"
  "Suc (length (built s c)) \<noteq> length (elems (specs s ! c)) \<Longrightarrow> isTicking (buildQueue c e s) = isTicking s"
  by (auto simp: buildQueue_def Let_def act_def)

lemma build_slots: "\<exists>ys. slots (buildQueue c e s) = slots s @ ys"
  by (auto simp: buildQueue_def Let_def)

lemma build_slot_inv:
  assumes "slot_inv E s" and "c < length (specs s)" and "c \<notin> E" and "\<not> full s c"
  shows "slot_inv E (buildQueue c e s)"
proof -
  have f: "full (buildQueue c e s) d \<longleftrightarrow>
      (if d = c then Suc (length (built s c)) = length (elems (specs s ! c)) else full s d)" for d
    by (simp add: full_def)
  show ?thesis
    using assms build_act(2,3)
    unfolding slot_inv_def f build_act(1) by (auto split: if_splits)
qed

definition start_entry :: "nat \<Rightarrow> nat \<Rightarrow> qitem list \<Rightarrow> velocity \<Rightarrow> velocity" where
  "start_entry e c q s =
     buildQueue c e (s\<lparr>queues := (queues s)(e := InProgress # q), ran := (ran s)(e := ran s e @ [c])\<rparr>)"

lemma start_inv:
  assumes others: "\<And>e'. e' \<noteq> e \<Longrightarrow> elem_inv D M s e'" and calls: "call_inv M s" and sl: "slot_inv E s"
    and over: "set (ran s e) \<subseteq> D e" "c \<notin> D e" "set es \<inter> D e = {}" "E \<subseteq> D e"
    and order: "ran s e @ c # es = filter (\<lambda>c. e \<in> M c) [0..<length (specs s)]"
    and q: "queued (specs s ! c)"
  shows "(\<forall>e'. elem_inv D M (start_entry e c (map Entry es) s) e') \<and>
    call_inv M (start_entry e c (map Entry es) s) \<and> slot_inv E (start_entry e c (map Entry es) s)"
proof -
  let ?t = "s\<lparr>queues := (queues s)(e := InProgress # map Entry es), ran := (ran s)(e := ran s e @ [c])\<rparr>"
  have "c \<in> set (filter (\<lambda>c. e \<in> M c) [0..<length (specs s)])"
    unfolding order [symmetric] by simp
  then have c: "c < length (specs s)" "e \<in> M c" by auto
  have fresh: "c \<notin> set (ran s e)"
    using distinct_filter [of "[0..<length (specs s)]" "\<lambda>c. e \<in> M c"] unfolding order [symmetric] by simp
  have mem: "e \<in> set (elems (specs s ! c))" using calls c by (auto simp: call_inv_def call_ok_def)
  have nb: "e \<notin> set (built s c)" using calls c q fresh by (auto simp: call_inv_def call_ok_def)
  have "elem_inv D M (start_entry e c (map Entry es) s) e'" for e'
    using others [of e'] over order
    by (auto simp: start_entry_def elem_inv_def elem_ok_def)
  moreover have "call_inv M (start_entry e c (map Entry es) s)"
    using calls c fresh mem nb q
    by (auto simp: start_entry_def call_inv_def call_ok_def)
  moreover have "slot_inv E (start_entry e c (map Entry es) s)"
    unfolding start_entry_def
  proof (rule build_slot_inv)
    show "slot_inv E ?t" using sl by (simp add: slot_inv_def act_def full_def)
    show "\<not> full ?t c" using mem nb full_set [OF calls c(1)] by (auto simp: full_def)
  qed (use c over in auto)
  ultimately show ?thesis by blast
qed

subsection \<open>Going on with a queue\<close>

lemma dequeue_next:
  "queues s e = InProgress # map Entry (c # es) \<Longrightarrow> dequeue e s = start_entry e c (map Entry es) s"
  by (simp add: dequeue_def shift_entry_def start_entry_def)

lemma dequeue_last:
  "queues s e = [InProgress] \<Longrightarrow> dequeue e s = s\<lparr>queues := (queues s)(e := [])\<rparr>"
  by (simp add: dequeue_def shift_entry_def)

lemma dequeue_fields [simp]:
  "specs (dequeue e s) = specs s" "ends (vlogs (dequeue e s)) = ends (vlogs s)"
  by (auto simp: dequeue_def split: list.splits qitem.splits)

lemma dequeue_slots: "\<exists>ys. slots (dequeue e s) = slots s @ ys"
  by (auto simp: dequeue_def buildQueue_def Let_def split: list.splits qitem.splits)

lemma order_distinct:
  assumes "elem_inv D M s e"
  shows "distinct (ran s e @ entries (queues s e))"
  using assms unfolding elem_inv_def by (metis distinct_filter distinct_upt)

lemma dequeue_inv:
  assumes elems: "\<And>e. elem_inv D M s e" and calls: "call_inv M s" and sl: "slot_inv E s"
    and "E \<subseteq> D e" and q: "queues s e \<noteq> []"
    and M: "\<And>c. c < length (specs s) \<Longrightarrow> M c \<noteq> {} \<Longrightarrow> queued (specs s ! c)"
    and D': "D' = D(e := insert (last (ran s e)) (D e))"
  shows "(\<forall>e'. elem_inv D' M (dequeue e s) e') \<and> call_inv M (dequeue e s) \<and> slot_inv E (dequeue e s)"
proof -
  obtain es where es: "queues s e = InProgress # map Entry es" "ran s e \<noteq> []"
      "set (butlast (ran s e)) \<subseteq> D e" "last (ran s e) \<notin> D e" "set es \<inter> D e = {}"
    using elems [of e] q by (auto simp: elem_inv_def elem_ok_def)
  have others: "elem_inv D' M s e'" if "e' \<noteq> e" for e'
    using elems [of e'] that by (simp add: D' elem_inv_def elem_ok_def)
  have split: "ran s e = butlast (ran s e) @ [last (ran s e)]" using es(2) by simp
  have over: "set (ran s e) \<subseteq> D' e" using es(3) by (subst split) (auto simp: D')
  show ?thesis
  proof (cases es)
    case Nil
    have "elem_inv D' M (dequeue e s) e'" for e'
      using others [of e'] elems [of e] over es(1) Nil
      by (cases "e' = e") (auto simp: dequeue_last elem_inv_def elem_ok_def)
    with calls sl es(1) Nil show ?thesis
      by (simp add: dequeue_last call_inv_def call_ok_def slot_inv_def act_def full_def)
  next
    case (Cons c cs)
    have order: "ran s e @ c # cs = filter (\<lambda>c. e \<in> M c) [0..<length (specs s)]"
      using elems [of e] es(1) Cons by (simp add: elem_inv_def)
    have "distinct (ran s e @ c # cs)" using order_distinct [OF elems [of e]] es(1) Cons by simp
    moreover have "last (ran s e) \<in> set (ran s e)" using es(2) by simp
    ultimately have new: "last (ran s e) \<notin> set (c # cs)" by auto
    have "c \<in> set (filter (\<lambda>c. e \<in> M c) [0..<length (specs s)])" unfolding order [symmetric] by simp
    then have "queued (specs s ! c)" using M by auto
    moreover have "c \<notin> D' e" "set cs \<inter> D' e = {}" "E \<subseteq> D' e" using es(5) Cons new assms(4) by (auto simp: D')
    moreover have "dequeue e s = start_entry e c (map Entry cs) s"
      using es(1) Cons by (intro dequeue_next) simp
    ultimately show ?thesis
      using start_inv [OF others calls sl over _ _ _ order] by simp
  qed
qed

subsection \<open>Completing a call\<close>

definition Mem :: "velocity \<Rightarrow> nat \<Rightarrow> nat set" where
  "Mem s c = (if c < length (specs s) \<and> queued (specs s ! c) then set (elems (specs s ! c)) else {})"

definition velocity_ok :: "velocity \<Rightarrow> bool" where
  "velocity_ok s \<longleftrightarrow>
     (\<forall>e. elem_inv (\<lambda>_. ended s) (Mem s) s e) \<and> call_inv (Mem s) s \<and> slot_inv (ended s) s \<and>
     (\<forall>c \<in> ended s. c < length (specs s)) \<and> distinct (ends (vlogs s)) \<and>
     (\<forall>c < length (specs s). \<not> queued (specs s ! c) \<longrightarrow> full s c)"

definition releasing :: "nat \<Rightarrow> nat set \<Rightarrow> velocity \<Rightarrow> nat list \<Rightarrow> velocity \<Rightarrow> bool" where
  \<comment> \<open>while call \<open>c\<close> of the state \<open>s\<close> is completed: the elements \<open>xs\<close> have gone on\<close>
  "releasing c E s xs t \<longleftrightarrow>
     (\<forall>e. elem_inv (\<lambda>e. if e \<in> set xs then insert c E else E) (Mem s) t e) \<and>
     call_inv (Mem s) t \<and> slot_inv E t \<and> specs t = specs s \<and> (\<exists>ys. slots t = slots s @ ys) \<and>
     (\<forall>d < length (specs s). \<not> queued (specs s ! d) \<longrightarrow> built t d = built s d)"

lemma dequeue_built:
  assumes inv: "elem_inv D (Mem s) t e" and t: "specs t = specs s" and "\<not> queued (specs s ! d)"
  shows "built (dequeue e t) d = built t d"
proof -
  have "d \<notin> set (filter (\<lambda>c. e \<in> Mem s c) [0..<length (specs t)])" using assms(3) by (simp add: Mem_def)
  then have "d \<notin> set (ran t e @ entries (queues t e))" using inv unfolding elem_inv_def by metis
  then have d: "d \<notin> set (entries (queues t e))" by simp
  from inv consider "queues t e = []" | es where "queues t e = InProgress # map Entry es"
    by (auto simp: elem_inv_def elem_ok_def)
  then show ?thesis
  proof cases
    case 1
    then show ?thesis by (simp add: dequeue_def shift_entry_def)
  next
    case (2 es)
    with d show ?thesis by (cases es) (auto simp: dequeue_last dequeue_next start_entry_def)
  qed
qed

lemma releasing_step:
  assumes r: "releasing c E s xs t" and c: "c \<in> set (act s)" "c \<notin> E" "queued (specs s ! c)"
    and e: "e \<in> set (elems (specs s ! c))" "e \<notin> set xs"
  shows "releasing c E s (xs @ [e]) (dequeue e t)"
proof -
  let ?D = "\<lambda>e. if e \<in> set xs then insert c E else E"
  have inv: "elem_inv ?D (Mem s) t e'" "call_inv (Mem s) t" "slot_inv E t" "specs t = specs s" for e'
    using r by (auto simp: releasing_def)
  obtain ys where ys: "slots t = slots s @ ys" using r by (auto simp: releasing_def)
  then have "c \<in> set (act t)" using c(1) by (auto simp: act_def)
  then have c': "c < length (specs s)" "full t c" using inv(3,4) by (auto simp: slot_inv_def)
  then have "e \<in> set (built t c)" using full_set [OF inv(2)] inv(4) e(1) by auto
  then have ran: "c \<in> set (ran t e)" using inv(2,4) c' c(3) by (auto simp: call_inv_def call_ok_def)
  have D: "?D e = E" using e(2) by simp
  have q: "queues t e \<noteq> []" using inv(1) [of e] ran c(2) D by (auto simp: elem_inv_def elem_ok_def)
  then have last: "last (ran t e) = c"
    using inv(1) [of e] ran c(2) D
    by (auto simp: elem_inv_def elem_ok_def) (metis append_butlast_last_id in_set_conv_decomp_first insertE
        rotate1.simps(2) set_ConsD set_rotate1 subsetD)
  have "(\<forall>e'. elem_inv (\<lambda>e'. if e' \<in> set (xs @ [e]) then insert c E else E) (Mem s) (dequeue e t) e') \<and>
      call_inv (Mem s) (dequeue e t) \<and> slot_inv E (dequeue e t)"
    by (rule dequeue_inv [OF inv(1-3), where e = e])
      (use q last e(2) inv(4) in \<open>auto simp: Mem_def split: if_splits\<close>)
  moreover have "\<exists>ys. slots (dequeue e t) = slots s @ ys"
    using dequeue_slots [of e t] ys by auto
  moreover have "\<forall>d < length (specs s). \<not> queued (specs s ! d) \<longrightarrow> built (dequeue e t) d = built s d"
    using r dequeue_built [OF inv(1,4)] by (simp add: releasing_def)
  ultimately show ?thesis by (simp add: releasing_def inv(4))
qed

lemma releasing_fold:
  assumes "releasing c E s xs t" "c \<in> set (act s)" "c \<notin> E" "queued (specs s ! c)"
    and "set ys \<subseteq> set (elems (specs s ! c))" "distinct (xs @ ys)"
  shows "releasing c E s (xs @ ys) (fold dequeue ys t) \<and>
    ends (vlogs (fold dequeue ys t)) = ends (vlogs t)"
  using assms
proof (induction ys arbitrary: xs t)
  case (Cons y ys)
  have "releasing c E s (xs @ [y]) (dequeue y t)"
    using Cons.prems by (intro releasing_step) auto
  from Cons.IH [OF this] Cons.prems show ?case by simp
qed simp

lemma release_all:
  assumes "elem_inv (\<lambda>e. if e \<in> X then insert c E else E) M t e" and "e \<notin> X \<Longrightarrow> e \<notin> M c"
  shows "elem_inv (\<lambda>_. insert c E) M t e"
proof (cases "e \<in> X")
  case False
  then have "c \<notin> set (filter (\<lambda>c. e \<in> M c) [0..<length (specs t)])" using assms(2) by auto
  moreover have "ran t e @ entries (queues t e) = filter (\<lambda>c. e \<in> M c) [0..<length (specs t)]"
    using assms(1) by (simp add: elem_inv_def)
  ultimately have c: "c \<notin> set (ran t e)" "c \<notin> set (entries (queues t e))" by (metis Un_iff set_append)+
  then have "ran t e \<noteq> [] \<Longrightarrow> last (ran t e) \<noteq> c" by (metis last_in_set)
  with c assms(1) False show ?thesis by (auto simp: elem_inv_def elem_ok_def)
qed (use assms in \<open>simp add: elem_inv_def elem_ok_def\<close>)

lemma act_remove:
  assumes "i < length xs" "xs ! i = Some (c, st)" "distinct (act (s\<lparr>slots := xs\<rparr>))"
  shows "distinct (act (s\<lparr>slots := xs[i := None]\<rparr>)) \<and>
    set (act (s\<lparr>slots := xs[i := None]\<rparr>)) = set (act (s\<lparr>slots := xs\<rparr>)) - {c}"
proof -
  have "xs = take i xs @ Some (c, st) # drop (Suc i) xs" using assms(1,2) id_take_nth_drop by metis
  then obtain p q where "xs = p @ Some (c, st) # q" "xs[i := None] = p @ None # q"
    using assms(1) upd_conv_take_nth_drop by metis
  with assms(3) show ?thesis by (auto simp: act_def)
qed

lemma clean_slots_fields [simp]:
  "specs (clean_slots i s) = specs s" "queues (clean_slots i s) = queues s" "ran (clean_slots i s) = ran s"
  "built (clean_slots i s) = built s" "vlogs (clean_slots i s) = vlogs s"
  by (simp_all add: clean_slots_def Let_def)

lemma act_empty: "act (s\<lparr>slots := xs\<rparr>) = [] \<longleftrightarrow> list_all (\<lambda>x. x = None) xs"
  by (induction xs) (auto simp: act_def split: option.splits)

lemma clean_slots_act:
  "act (clean_slots i s) = act (s\<lparr>slots := (slots s)[i := None]\<rparr>)"
  "isTicking (clean_slots i s) \<longleftrightarrow> act (clean_slots i s) \<noteq> [] \<and> isTicking s"
  using act_empty [where s = s and xs = "(slots s)[i := None]"]
  by (auto simp: clean_slots_def Let_def act_def)

lemma clean_inv:
  assumes "call_inv M s" "slot_inv E s" "i < length (slots s)" "slots s ! i = Some (c, st)"
  shows "call_inv M (clean_slots i s) \<and> slot_inv (insert c E) (clean_slots i s)"
proof -
  have "distinct (act (s\<lparr>slots := (slots s)[i := None]\<rparr>)) \<and>
    set (act (s\<lparr>slots := (slots s)[i := None]\<rparr>)) = set (act s) - {c}"
    using act_remove [OF assms(3,4), of s] assms(2) by (simp add: slot_inv_def)
  moreover have "act s \<noteq> []" using assms(3,4) by (force simp: act_def intro: nth_mem)
  ultimately show ?thesis
    using assms(1,2) clean_slots_act(2) [of i s]
    by (auto simp: call_inv_def call_ok_def slot_inv_def clean_slots_act(1) full_def)
qed

lemma in_act:
  assumes "i < length (slots s)" "slots s ! i = Some (c, st)"
  shows "c \<in> set (act s)"
proof -
  have "Some (c, st) \<in> set (slots s)" using assms nth_mem by metis
  then show ?thesis by (force simp: act_def)
qed

definition release :: "bool \<Rightarrow> nat \<Rightarrow> velocity \<Rightarrow> velocity" where
  "release isStopped c s =
     (let es = (if queued (specs s ! c) then built s c else []);
          s = fold dequeue (butlast es) s;
          s = s\<lparr>vlogs := vlogs s @ [if isStopped then Stopped c else Completed c]\<rparr>
      in if es \<noteq> [] then dequeue (last es) s else s)"

lemma completeCall_release:
  "i < length (slots s) \<Longrightarrow> slots s ! i = Some (c, st) \<Longrightarrow>
    completeCall isStopped i s = clean_slots i (release isStopped c s)"
  by (simp add: completeCall_def release_def Let_def)

lemma release_releasing:
  assumes ok: "velocity_ok s" and c: "c \<in> set (act s)"
  shows "releasing c (ended s) s (if queued (specs s ! c) then built s c else []) (release b c s) \<and>
    ends (vlogs (release b c s)) = ends (vlogs s) @ [c]"
proof -
  let ?log = "if b then Stopped c else Completed c"
  have inv: "call_inv (Mem s) s" "slot_inv (ended s) s" "\<And>e. elem_inv (\<lambda>_. ended s) (Mem s) s e"
    using ok by (simp_all add: velocity_ok_def)
  have cn: "c \<notin> ended s" "c < length (specs s)" "full s c" using c inv(2) by (auto simp: slot_inv_def)
  have start: "releasing c (ended s) s [] s" using inv by (simp add: releasing_def)
  have logged: "releasing c (ended s) s xs (t\<lparr>vlogs := l\<rparr>) = releasing c (ended s) s xs t" for xs t l
    by (simp add: releasing_def)
  have log: "ends (l @ [?log]) = ends l @ [c]" for l by (simp add: ends_def)
  show ?thesis
  proof (cases "queued (specs s ! c)")
    case True
    have "elems (specs s ! c) \<noteq> []" using inv(1) cn by (simp add: call_inv_def call_ok_def)
    then have ne: "built s c \<noteq> []" using cn(3) by (auto simp: full_def)
    have d: "distinct (built s c)" "set (built s c) \<subseteq> set (elems (specs s ! c))"
      using inv(1) cn by (simp_all add: call_inv_def call_ok_def)
    then have split: "set (butlast (built s c)) \<subseteq> set (elems (specs s ! c))" "distinct (butlast (built s c))"
        "last (built s c) \<in> set (elems (specs s ! c))" "last (built s c) \<notin> set (butlast (built s c))"
      using ne distinct_butlast [of "built s c"] in_set_butlastD [of _ "built s c"] last_in_set [OF ne]
      by (auto simp: subset_iff) (metis append_butlast_last_id distinct_append disjoint_iff list.set_intros(1))
    have "releasing c (ended s) s (butlast (built s c)) (fold dequeue (butlast (built s c)) s) \<and>
        ends (vlogs (fold dequeue (butlast (built s c)) s)) = ends (vlogs s)"
      using releasing_fold [OF start c cn(1) True split(1)] split(2) by simp
    then show ?thesis
      using releasing_step [of c "ended s" s "butlast (built s c)", OF _ c cn(1) True split(3,4)] ne True
      by (auto simp: release_def Let_def logged log)
  next
    case False
    then show ?thesis using start by (simp add: release_def Let_def logged log)
  qed
qed

lemma release_inv:
  assumes ok: "velocity_ok s" and c: "c \<in> set (act s)"
  shows "elem_inv (\<lambda>_. insert c (ended s)) (Mem s) (release b c s) e"
proof (rule release_all)
  have inv: "call_inv (Mem s) s" "slot_inv (ended s) s" using ok by (simp_all add: velocity_ok_def)
  have "c < length (specs s)" "full s c" using c inv(2) by (auto simp: slot_inv_def)
  then show "e \<notin> set (if queued (specs s ! c) then built s c else []) \<Longrightarrow> e \<notin> Mem s c"
    using full_set [OF inv(1)] by (auto simp: Mem_def split: if_splits)
qed (use release_releasing [OF ok c, of b] in \<open>simp add: releasing_def\<close>)

lemma completeCall_none:
  "\<not> (i < length (slots s) \<and> slots s ! i \<noteq> None) \<Longrightarrow> completeCall b i s = s"
  by (auto simp: completeCall_def split: option.splits)

lemma clean_elem [simp]: "elem_inv D M (clean_slots i s) e = elem_inv D M s e"
  by (simp add: elem_inv_def elem_ok_def)

lemma full_clean [simp]: "full (clean_slots i s) c = full s c"
  by (simp add: full_def)

lemma releasing_full:
  assumes "releasing c E s xs t" "full s d" "d < length (specs s)" "\<not> queued (specs s ! d)"
  shows "full t d"
  using assms by (simp add: releasing_def full_def)

lemma completeCall_ok:
  assumes ok: "velocity_ok s"
  shows "velocity_ok (completeCall b i s)"
proof (cases "i < length (slots s) \<and> slots s ! i \<noteq> None")
  case True
  then obtain c st where i: "i < length (slots s)" "slots s ! i = Some (c, st)" by auto
  note c = in_act [OF this]
  let ?t = "release b c s"
  have inv: "slot_inv (ended s) s" "\<forall>c \<in> ended s. c < length (specs s)" "distinct (ends (vlogs s))"
    "\<forall>c < length (specs s). \<not> queued (specs s ! c) \<longrightarrow> full s c"
    using ok by (simp_all add: velocity_ok_def)
  have cn: "c \<notin> ended s" "c < length (specs s)" using c inv(1) by (auto simp: slot_inv_def)
  have r: "releasing c (ended s) s (if queued (specs s ! c) then built s c else []) ?t"
      "ends (vlogs ?t) = ends (vlogs s) @ [c]"
    using release_releasing [OF ok c] by auto
  then have t: "call_inv (Mem s) ?t" "slot_inv (ended s) ?t" "specs ?t = specs s"
    "\<exists>ys. slots ?t = slots s @ ys" by (simp_all add: releasing_def)
  have "call_inv (Mem s) (clean_slots i ?t) \<and> slot_inv (insert c (ended s)) (clean_slots i ?t)"
    using clean_inv [OF t(1,2), of i c st] i t(4) by (auto simp: nth_append)
  moreover have "ended (clean_slots i ?t) = insert c (ended s)" by (simp add: ended_def r(2))
  moreover have "Mem (clean_slots i ?t) = Mem s" by (simp add: Mem_def fun_eq_iff t(3))
  moreover have "distinct (ends (vlogs (clean_slots i ?t)))"
    using inv(3) cn(1) by (simp add: r(2) ended_def)
  ultimately have "velocity_ok (clean_slots i ?t)"
    using release_inv [OF ok c, of b] inv(2,4) cn releasing_full [OF r(1)] t(3)
    unfolding velocity_ok_def by (intro conjI allI) simp_all
  then show ?thesis by (simp add: completeCall_release [OF i])
next
  case False
  then show ?thesis using ok by (simp add: completeCall_none)
qed

subsection \<open>Ticks, stops and new calls\<close>

lemma velocity_ok_slots:
  assumes "act (s\<lparr>slots := xs\<rparr>) = act s"
  shows "velocity_ok (s\<lparr>slots := xs\<rparr>) = velocity_ok s"
proof -
  have "Mem (s\<lparr>slots := xs\<rparr>) = Mem s" by (simp add: Mem_def fun_eq_iff)
  then show ?thesis
    by (simp add: velocity_ok_def elem_inv_def elem_ok_def call_inv_def call_ok_def slot_inv_def assms full_def ended_def)
qed

lemma act_start:
  assumes "i < length (slots s)" "slots s ! i = Some (c, st)"
  shows "act (s\<lparr>slots := (slots s)[i := Some (c, st')]\<rparr>) = act s"
proof -
  have "map (\<lambda>x. case x of None \<Rightarrow> [] | Some (c, _) \<Rightarrow> [c]) ((slots s)[i := Some (c, st')]) =
      map (\<lambda>x. case x of None \<Rightarrow> [] | Some (c, _) \<Rightarrow> [c]) (slots s)"
    using assms by (intro nth_equalityI) (auto simp: nth_list_update)
  then show ?thesis by (simp add: act_def)
qed

lemma act_compact: "act (s\<lparr>slots := compactSparseArray (slots s)\<rparr>) = act s"
proof -
  have "concat (map (\<lambda>x. case x of None \<Rightarrow> [] | Some (c, _) \<Rightarrow> [c]) (filter (\<lambda>x. x \<noteq> None) xs)) =
      concat (map (\<lambda>x. case x of None \<Rightarrow> [] | Some (c, _) \<Rightarrow> [c]) (xs :: (nat \<times> real option) option list))" for xs
    by (induction xs) (auto split: option.splits)
  then show ?thesis by (simp add: act_def compactSparseArray_def)
qed

lemma tick_call_ok: "velocity_ok s \<Longrightarrow> velocity_ok (tick_call t i s)"
  by (auto simp: tick_call_def Let_def velocity_ok_slots act_start completeCall_ok split: option.splits)

lemma fold_ok:
  assumes "velocity_ok s" and "\<And>i s. velocity_ok s \<Longrightarrow> velocity_ok (f i s)"
  shows "velocity_ok (fold f xs s)"
  using assms(1) by (induction xs arbitrary: s) (auto intro: assms(2))

lemma tick_ok: "velocity_ok s \<Longrightarrow> velocity_ok (tick t s)"
  by (auto simp: tick_def Let_def velocity_ok_slots act_compact intro!: fold_ok tick_call_ok)

lemma stop_ok: "velocity_ok s \<Longrightarrow> velocity_ok (stop es s)"
  by (auto simp: stop_def intro!: fold_ok completeCall_ok)

text \<open>While a call \<open>c\<close> is queued on its elements, \<open>xs\<close> have it in their queues.\<close>

definition queuing :: "nat \<Rightarrow> nat set \<Rightarrow> (nat \<Rightarrow> nat set) \<Rightarrow> velocity \<Rightarrow> nat list \<Rightarrow> velocity \<Rightarrow> bool" where
  "queuing c E M s xs t \<longleftrightarrow>
     (\<forall>e. elem_inv (\<lambda>_. E) (M(c := set xs)) t e) \<and> call_inv (M(c := set xs)) t \<and> slot_inv E t \<and>
     specs t = specs s \<and> ends (vlogs t) = ends (vlogs s) \<and> (\<forall>d. d \<noteq> c \<longrightarrow> built t d = built s d)"

lemma enqueue_cases:
  assumes "elem_inv D M t e"
  shows "queues t e = [] \<and> enqueue c e t = start_entry e c [] t \<or>
    queues t e \<noteq> [] \<and> enqueue c e t = t\<lparr>queues := (queues t)(e := queues t e @ [Entry c])\<rparr>"
  using assms
  by (auto simp: elem_inv_def elem_ok_def enqueue_def Let_def dequeue_def shift_entry_def start_entry_def)

lemma queuing_step:
  assumes qu: "queuing c E M s xs t" and c: "Suc c = length (specs s)" "queued (specs s ! c)" "c \<notin> E"
    and e: "e \<in> set (elems (specs s ! c))" "e \<notin> set xs"
  shows "queuing c E M s (xs @ [e]) (enqueue c e t)"
proof -
  let ?M = "M(c := set xs)" and ?M' = "M(c := set (xs @ [e]))"
  have inv: "elem_inv (\<lambda>_. E) ?M t e'" "call_inv ?M t" "slot_inv E t" "specs t = specs s"
      "ends (vlogs t) = ends (vlogs s)" for e'
    using qu by (auto simp: queuing_def)
  have len: "[0..<length (specs t)] = [0..<c] @ [c]" using inv(4) c(1) by (metis upt_Suc_append zero_le)
  have flt: "filter (\<lambda>d. e' \<in> ?M' d) [0..<length (specs t)] =
      filter (\<lambda>d. e' \<in> ?M d) [0..<length (specs t)] @ (if e' = e then [c] else [])" for e'
    unfolding len using e(2) by (auto intro!: filter_cong)
  have others: "elem_inv (\<lambda>_. E) ?M' t e'" if "e' \<noteq> e" for e'
    using inv(1) [of e'] flt [of e'] that unfolding elem_inv_def elem_ok_def by simp
  have order: "ran t e @ entries (queues t e) @ [c] = filter (\<lambda>d. e \<in> ?M' d) [0..<length (specs t)]"
    using inv(1) [of e] flt [of e] by (simp add: elem_inv_def)
  have "distinct (ran t e @ entries (queues t e) @ [c])"
    unfolding order by (rule distinct_filter) simp
  then have fresh: "c \<notin> set (ran t e)" by simp
  have "call_ok ?M' t d" if "d < length (specs t)" for d
  proof (cases "d = c")
    case True
    have "call_ok ?M t c" using inv(2) that True by (simp add: call_inv_def)
    then show ?thesis using e(1) fresh True inv(4) unfolding call_ok_def by auto
  next
    case False
    have "call_ok ?M t d" using inv(2) that by (simp add: call_inv_def)
    then show ?thesis using False by (simp add: call_ok_def)
  qed
  then have calls: "call_inv ?M' t" using inv(2) by (simp add: call_inv_def)
  have "(\<forall>e'. elem_inv (\<lambda>_. E) ?M' (enqueue c e t) e') \<and> call_inv ?M' (enqueue c e t) \<and>
      slot_inv E (enqueue c e t) \<and> specs (enqueue c e t) = specs s \<and>
      ends (vlogs (enqueue c e t)) = ends (vlogs s) \<and> (\<forall>d. d \<noteq> c \<longrightarrow> built (enqueue c e t) d = built t d)"
    using enqueue_cases [OF inv(1) [of e], of c]
  proof (elim disjE conjE)
    assume q: "queues t e = []" and f: "enqueue c e t = start_entry e c [] t"
    have "elem_ok (\<lambda>_. E) t e" using inv(1) [of e] unfolding elem_inv_def by blast
    then have "set (ran t e) \<subseteq> E" using q by (simp add: elem_ok_def)
    then have "(\<forall>e'. elem_inv (\<lambda>_. E) ?M' (start_entry e c (map Entry []) t) e') \<and>
        call_inv ?M' (start_entry e c (map Entry []) t) \<and> slot_inv E (start_entry e c (map Entry []) t)"
      using c inv(4) q order
      by (intro start_inv others calls inv(3)) auto
    then show ?thesis using inv(4,5) f by (simp add: start_entry_def)
  next
    assume q: "queues t e \<noteq> []" and f: "enqueue c e t = t\<lparr>queues := (queues t)(e := queues t e @ [Entry c])\<rparr>"
    then obtain es where es: "queues t e = InProgress # map Entry es" "ran t e \<noteq> []"
        "set (butlast (ran t e)) \<subseteq> E" "last (ran t e) \<notin> E" "set es \<inter> E = {}"
      using inv(1) [of e] by (auto simp: elem_inv_def elem_ok_def)
    have "elem_inv (\<lambda>_. E) ?M' (enqueue c e t) e'" for e'
    proof (cases "e' = e")
      case True
      have "queues (enqueue c e t) e = InProgress # map Entry (es @ [c])" using es(1) f by simp
      then show ?thesis using True es c(3) order f by (auto simp: elem_inv_def elem_ok_def intro!: exI [of _ "es @ [c]"])
    next
      case False
      then show ?thesis using others [OF False] f by (simp add: elem_inv_def elem_ok_def)
    qed
    then show ?thesis using calls inv(3-5) f by (simp add: call_inv_def call_ok_def slot_inv_def act_def full_def)
  qed
  then show ?thesis using qu by (simp add: queuing_def)
qed

lemma queuing_fold:
  assumes "queuing c E M s xs t" "Suc c = length (specs s)" "queued (specs s ! c)" "c \<notin> E"
    and "set ys \<subseteq> set (elems (specs s ! c))" "distinct (xs @ ys)"
  shows "queuing c E M s (xs @ ys) (fold (enqueue c) ys t)"
  using assms
proof (induction ys arbitrary: xs t)
  case (Cons y ys)
  have "queuing c E M s (xs @ [y]) (enqueue c y t)" using Cons.prems by (intro queuing_step) auto
  from Cons.IH [OF this] Cons.prems show ?case by simp
qed simp

text \<open>A call that is not queued is built on its elements at once.\<close>

definition building :: "nat \<Rightarrow> nat set \<Rightarrow> (nat \<Rightarrow> nat set) \<Rightarrow> velocity \<Rightarrow> nat list \<Rightarrow> velocity \<Rightarrow> bool" where
  "building c E M s xs t \<longleftrightarrow>
     (\<forall>e. elem_inv (\<lambda>_. E) M t e) \<and> call_inv M t \<and> slot_inv E t \<and>
     specs t = specs s \<and> ends (vlogs t) = ends (vlogs s) \<and> built t = (built s)(c := xs)"

lemma building_step:
  assumes b: "building c E M s xs t" and c: "c < length (specs s)" "\<not> queued (specs s ! c)" "c \<notin> E"
    and e: "e \<in> set (elems (specs s ! c))" "e \<notin> set xs"
  shows "building c E M s (xs @ [e]) (buildQueue c e t)"
proof -
  have inv: "elem_inv (\<lambda>_. E) M t e'" "call_inv M t" "slot_inv E t" "specs t = specs s" "built t c = xs" for e'
    using b by (auto simp: building_def)
  have "elem_inv (\<lambda>_. E) M (buildQueue c e t) e'" for e'
    using inv(1) [of e'] by (simp add: elem_inv_def elem_ok_def)
  moreover have "call_ok M (buildQueue c e t) d" if "d < length (specs t)" for d
  proof -
    have "call_ok M t d" using inv(2) that by (simp add: call_inv_def)
    then show ?thesis using c e inv(4,5) by (auto simp: call_ok_def)
  qed
  then have "call_inv M (buildQueue c e t)" using inv(2,4) c(1) by (auto simp: call_inv_def)
  moreover have "slot_inv E (buildQueue c e t)"
    using full_set [OF inv(2), of c] inv(3-5) c e by (intro build_slot_inv) auto
  ultimately show ?thesis using b by (simp add: building_def)
qed

lemma building_fold:
  assumes "building c E M s xs t" "c < length (specs s)" "\<not> queued (specs s ! c)" "c \<notin> E"
    and "set ys \<subseteq> set (elems (specs s ! c))" "distinct (xs @ ys)"
  shows "building c E M s (xs @ ys) (fold (buildQueue c) ys t)"
  using assms
proof (induction ys arbitrary: xs t)
  case (Cons y ys)
  have "building c E M s (xs @ [y]) (buildQueue c y t)" using Cons.prems by (intro building_step) auto
  from Cons.IH [OF this] Cons.prems show ?case by simp
qed simp

lemma new_call:
  assumes ok: "velocity_ok s" and v: "elems v \<noteq> []" "distinct (elems v)"
  defines "s' \<equiv> s\<lparr>specs := specs s @ [v]\<rparr>" and "c \<equiv> length (specs s)"
  shows "queuing c (ended s) (Mem s) s' [] s' \<and> building c (ended s) (Mem s) s' [] s'"
proof -
  have inv: "\<And>e. elem_inv (\<lambda>_. ended s) (Mem s) s e" "call_inv (Mem s) s" "slot_inv (ended s) s"
    using ok by (simp_all add: velocity_ok_def)
  have M: "(Mem s)(c := {}) = Mem s" by (rule fun_upd_idem) (simp add: Mem_def c_def)
  have built: "built s c = []" using inv(2) by (simp add: call_inv_def c_def)
  then have built': "(built s)(c := []) = built s" by auto
  have "filter (\<lambda>d. e \<in> Mem s d) [0..<length (specs s')] = filter (\<lambda>d. e \<in> Mem s d) [0..<length (specs s)]" for e
    by (simp add: s'_def Mem_def)
  then have 1: "elem_inv (\<lambda>_. ended s) (Mem s) s' e" for e
    using inv(1) [of e] by (simp add: elem_inv_def elem_ok_def) (simp add: s'_def)
  have "call_ok (Mem s) s' d" if d: "d < length (specs s')" for d
  proof (cases "d = c")
    case True
    then show ?thesis using v built by (simp add: call_ok_def s'_def c_def Mem_def)
  next
    case False
    then have "call_ok (Mem s) s d" using d inv(2) by (simp add: call_inv_def s'_def c_def)
    then show ?thesis using False d by (simp add: call_ok_def s'_def c_def nth_append)
  qed
  then have 2: "call_inv (Mem s) s'" using inv(2) by (simp add: call_inv_def s'_def)
  have f: "full s' d \<longleftrightarrow> full s d" if "d < c" for d
    using that by (simp add: full_def s'_def c_def nth_append)
  have "\<not> full s' c" using v(1) built by (simp add: full_def s'_def c_def)
  then have "{d. d < length (specs s') \<and> full s' d \<and> d \<notin> ended s} = {d. d < length (specs s) \<and> full s d \<and> d \<notin> ended s}"
    using f by (auto simp: s'_def c_def less_Suc_eq)
  then have 3: "slot_inv (ended s) s'"
    using inv(3) by (simp add: slot_inv_def act_def) (simp add: s'_def)
  show ?thesis using 1 2 3 M built' by (simp add: queuing_def building_def) (simp add: s'_def)
qed

lemma Mem_new:
  "specs t = specs s @ [w] \<Longrightarrow>
    Mem t = (Mem s)(length (specs s) := if queued w then set (elems w) else {})"
  by (auto simp: fun_eq_iff Mem_def nth_append less_Suc_eq)

lemma animate_ok:
  assumes ok: "velocity_ok s" and v: "elems v \<noteq> []" "distinct (elems v)"
  shows "velocity_ok (animate v s)"
proof -
  define w where "w = (if duration v = 0 then v\<lparr>duration := 1\<rparr> else v)"
  have w: "elems w \<noteq> []" "distinct (elems w)" "elems w = elems v" "queued w = queued v"
    using v by (simp_all add: w_def)
  let ?c = "length (specs s)"
  define s' where "s' = s\<lparr>specs := specs s @ [w]\<rparr>"
  have new: "queuing ?c (ended s) (Mem s) s' [] s'" "building ?c (ended s) (Mem s) s' [] s'"
    using new_call [OF ok w(1,2)] by (simp_all add: s'_def)
  have s': "Suc ?c = length (specs s')" "specs s' ! ?c = w" "ends (vlogs s') = ends (vlogs s)"
    "\<And>d. d < ?c \<Longrightarrow> specs s' ! d = specs s ! d" "built s' = built s"
    by (simp_all add: s'_def nth_append)
  have E: "?c \<notin> ended s" "\<forall>d \<in> ended s. d < length (specs s')" "distinct (ends (vlogs s))"
      "\<And>d. d < ?c \<Longrightarrow> \<not> queued (specs s ! d) \<Longrightarrow> length (built s d) = length (elems (specs s ! d))"
    using ok by (auto simp: velocity_ok_def full_def s'_def)
  have animate: "animate v s = (if queued w then fold (enqueue ?c) (elems w) s' else fold (buildQueue ?c) (elems w) s')"
    by (simp add: animate_def w_def s'_def Let_def)
  show ?thesis
  proof (cases "queued w")
    case True
    let ?t = "fold (enqueue ?c) (elems w) s'"
    have "queuing ?c (ended s) (Mem s) s' (elems w) ?t"
      using queuing_fold [OF new(1) s'(1), of "elems w"] True s'(2) E(1) w(2) by simp
    then have q: "\<And>e. elem_inv (\<lambda>_. ended s) ((Mem s)(?c := set (elems w))) ?t e"
        "call_inv ((Mem s)(?c := set (elems w))) ?t" "slot_inv (ended s) ?t" "specs ?t = specs s'"
        "ends (vlogs ?t) = ends (vlogs s)" "\<And>d. d \<noteq> ?c \<Longrightarrow> built ?t d = built s d"
      using s'(3,5) by (auto simp: queuing_def)
    have M: "Mem ?t = (Mem s)(?c := set (elems w))"
      using Mem_new [of ?t s w] True q(4) s'_def by simp
    have "full ?t d" if "d < length (specs ?t)" "\<not> queued (specs ?t ! d)" for d
    proof -
      have "d < ?c" using that True s'(1,2) q(4) by (metis less_Suc_eq)
      then show ?thesis using that E(4) [of d] q(4) q(6) [of d] s'(4) by (simp add: full_def)
    qed
    then have "velocity_ok ?t"
      using q E(2,3) unfolding velocity_ok_def M ended_def q(5) by (intro conjI allI) simp_all
    then show ?thesis using True animate by simp
  next
    case False
    let ?t = "fold (buildQueue ?c) (elems w) s'"
    have "building ?c (ended s) (Mem s) s' (elems w) ?t"
      using building_fold [OF new(2), of "elems w"] False s'(1,2) E(1) w(2) by simp
    then have q: "\<And>e. elem_inv (\<lambda>_. ended s) (Mem s) ?t e" "call_inv (Mem s) ?t" "slot_inv (ended s) ?t"
        "specs ?t = specs s'" "ends (vlogs ?t) = ends (vlogs s)" "built ?t = (built s)(?c := elems w)"
      using s'(3,5) by (auto simp: building_def)
    have M: "Mem ?t = Mem s"
    proof -
      have "Mem ?t = (Mem s)(?c := {})" using Mem_new [of ?t s w] False q(4) s'_def by simp
      moreover have "(Mem s)(?c := {}) = Mem s" by (rule fun_upd_idem) (simp add: Mem_def)
      ultimately show ?thesis by simp
    qed
    have "full ?t d" if "d < length (specs ?t)" "\<not> queued (specs ?t ! d)" for d
    proof (cases "d = ?c")
      case True
      then show ?thesis using s'(2) q(4,6) by (simp add: full_def)
    next
      case False
      then have "d < ?c" using that s'(1) q(4) by simp
      then show ?thesis using that E(4) [of d] q(4,6) s'(4) by (simp add: full_def)
    qed
    then have "velocity_ok ?t"
      using q E(2,3) unfolding velocity_ok_def M ended_def q(5) by (intro conjI allI) simp_all
    then show ?thesis using False animate by simp
  qed
qed

lemma new_velocity_ok: "velocity_ok new_velocity"
  by (simp add: velocity_ok_def new_velocity_def elem_inv_def elem_ok_def call_inv_def slot_inv_def act_def ended_def ends_def)

lemma vstep_ok: "velocity_ok s \<Longrightarrow> velocity_ok (vstep v s)"
  by (cases v) (auto simp: animate_ok tick_ok stop_ok)

definition velocity_run :: "vevent list \<Rightarrow> velocity" where
  "velocity_run evs = fold vstep evs new_velocity"

lemma velocity_run_ok: "velocity_ok (velocity_run evs)"
  unfolding velocity_run_def by (intro fold_ok new_velocity_ok vstep_ok)

subsection \<open>Calls make progress\<close>

lemma first_is_active:
  assumes ok: "velocity_ok s" and c: "c < length (specs s)" "c \<notin> ended s" and "\<And>d. d < c \<Longrightarrow> d \<in> ended s"
  shows "c \<in> set (act s)"
proof -
  have inv: "call_inv (Mem s) s" "slot_inv (ended s) s" "\<And>e. elem_inv (\<lambda>_. ended s) (Mem s) s e"
    using ok by (simp_all add: velocity_ok_def)
  have "full s c"
  proof (cases "queued (specs s ! c)")
    case True
    have "c \<in> set (ran s e)" if e: "e \<in> set (elems (specs s ! c))" for e
    proof (rule ccontr)
      assume nr: "c \<notin> set (ran s e)"
      have order: "ran s e @ entries (queues s e) = filter (\<lambda>c. e \<in> Mem s c) [0..<length (specs s)]"
        using inv(3) by (simp add: elem_inv_def)
      have "c \<in> set (filter (\<lambda>c. e \<in> Mem s c) [0..<length (specs s)])"
        using c True e by (simp add: Mem_def)
      then have cq: "c \<in> set (entries (queues s e))" unfolding order [symmetric] using nr by simp
      then have ne: "queues s e \<noteq> []" by auto
      then have r: "ran s e \<noteq> []" "last (ran s e) \<notin> ended s"
        using inv(3) [of e] by (auto simp: elem_inv_def elem_ok_def)
      have "sorted_wrt (<) (ran s e @ entries (queues s e))"
        unfolding order by (rule sorted_wrt_filter) simp
      then have "last (ran s e) < c" using cq r(1) by (auto simp: sorted_wrt_append)
      then show False using assms(4) r(2) by blast
    qed
    then have "set (built s c) = set (elems (specs s ! c))"
      using inv(1) c True by (auto simp: call_inv_def call_ok_def Mem_def)
    then show ?thesis using full_set [OF inv(1) c(1)] by simp
  next
    case False
    then show ?thesis using ok c by (simp add: velocity_ok_def)
  qed
  then show ?thesis using inv(2) c by (simp add: slot_inv_def)
qed

lemma ticking_iff:
  assumes ok: "velocity_ok s"
  shows "isTicking s \<longleftrightarrow> ended s \<noteq> {..<length (specs s)}"
proof
  assume "isTicking s"
  then have "act s \<noteq> []" using ok by (simp add: velocity_ok_def slot_inv_def)
  then have "hd (act s) \<in> set (act s)" by simp
  then have "hd (act s) < length (specs s) \<and> hd (act s) \<notin> ended s"
    using ok by (simp add: velocity_ok_def slot_inv_def)
  then show "ended s \<noteq> {..<length (specs s)}" by blast
next
  assume "ended s \<noteq> {..<length (specs s)}"
  then obtain c where "c < length (specs s) \<and> c \<notin> ended s" using ok by (auto simp: velocity_ok_def)
  then have l: "(LEAST c. c < length (specs s) \<and> c \<notin> ended s) < length (specs s) \<and>
      (LEAST c. c < length (specs s) \<and> c \<notin> ended s) \<notin> ended s" by (rule LeastI)
  have "d \<in> ended s" if "d < (LEAST c. c < length (specs s) \<and> c \<notin> ended s)" for d
    using not_less_Least [OF that] l that by auto
  from first_is_active [OF ok _ _ this] l have "act s \<noteq> []" by force
  then show "isTicking s" using ok by (simp add: velocity_ok_def slot_inv_def)
qed

lemma completeCall_specs [simp]: "specs (completeCall b i s) = specs s"
proof -
  have "specs (fold dequeue es s) = specs s" for es s by (induction es arbitrary: s) auto
  then show ?thesis by (auto simp: completeCall_def Let_def split: option.splits)
qed

lemma tick_call_specs [simp]: "specs (tick_call t i s) = specs s"
  by (auto simp: tick_call_def Let_def split: option.splits)

lemma completeCall_effect:
  assumes ok: "velocity_ok s"
  shows "ended s \<subseteq> ended (completeCall b i s)"
    and "i < length (slots s) \<Longrightarrow> slots s ! i = Some (c, st) \<Longrightarrow> c \<in> ended (completeCall b i s)"
    and "j \<noteq> i \<Longrightarrow> j < length (slots s) \<Longrightarrow> slots s ! j = Some x \<Longrightarrow>
      j < length (slots (completeCall b i s)) \<and> slots (completeCall b i s) ! j = Some x"
proof -
  have r: "ends (vlogs (release b c s)) = ends (vlogs s) @ [c] \<and> (\<exists>ys. slots (release b c s) = slots s @ ys)"
    if "i < length (slots s)" "slots s ! i = Some (c, st)" for c st
    using release_releasing [OF ok in_act [OF that]] by (auto simp: releasing_def)
  show "ended s \<subseteq> ended (completeCall b i s)"
    using r completeCall_release [of i s _ _ b] completeCall_none [of i s b]
    by (cases "i < length (slots s) \<and> slots s ! i \<noteq> None") (auto simp: ended_def)
  show "i < length (slots s) \<Longrightarrow> slots s ! i = Some (c, st) \<Longrightarrow> c \<in> ended (completeCall b i s)"
    using r completeCall_release [of i s c st b] by (auto simp: ended_def)
  have clean: "j < length (slots (clean_slots i t)) \<and> slots (clean_slots i t) ! j = Some x"
    if "j \<noteq> i" "j < length (slots t)" "slots t ! j = Some x" for t
    using that by (auto simp: clean_slots_def Let_def list_all_length)
  show "j \<noteq> i \<Longrightarrow> j < length (slots s) \<Longrightarrow> slots s ! j = Some x \<Longrightarrow>
      j < length (slots (completeCall b i s)) \<and> slots (completeCall b i s) ! j = Some x"
  proof (cases "i < length (slots s) \<and> slots s ! i \<noteq> None")
    case True
    assume j: "j \<noteq> i" "j < length (slots s)" "slots s ! j = Some x"
    from True obtain c st where i: "i < length (slots s)" "slots s ! i = Some (c, st)" by auto
    obtain ys where ys: "slots (release b c s) = slots s @ ys" using r [OF i] by blast
    show ?thesis unfolding completeCall_release [OF i]
      by (rule clean [OF j(1)]) (use ys j in \<open>simp_all add: nth_append\<close>)
  qed (simp add: completeCall_none)
qed

end
