(* ===== verification/Velocity_Calls.thy ===== *)
theory Velocity_Calls
  imports Velocity_Queue
begin

section \<open>Properties of the queues and calls\<close>

text \<open>
  What the scheduling of velocity.js promises, for every sequence of calls, ticks and stops: the entries
  of an element run in the order of the calls and one at a time, a call ends once, the ticking goes on
  exactly as long as there is a call that has not ended, and every call ends after enough time.
\<close>

subsection \<open>One tick\<close>










lemma fold_tick_specs: "specs (fold (tick_call t) js s) = specs s"
  by (induction js arbitrary: s) auto

lemma tick_specs [simp]: "specs (tick t s) = specs s"
  by (simp add: tick_def Let_def fold_tick_specs)


subsection \<open>Stopping\<close>

lemma completeCall_ended:
  assumes "velocity_ok s" "i < length (slots s)" "slots s ! i = Some (c, st)"
  shows "ended (completeCall b i s) = insert c (ended s)"
  using release_releasing [OF assms(1) in_act [OF assms(2,3)], of b] completeCall_release [OF assms(2,3), of b]
  by (auto simp: ended_def)

lemma completeCall_slots:
  assumes "velocity_ok s"
  shows "slots (completeCall b i s) = [] \<or> (\<exists>ys. slots (completeCall b i s) = (slots s @ ys)[i := None]) \<or>
    completeCall b i s = s"
proof (cases "i < length (slots s) \<and> slots s ! i \<noteq> None")
  case True
  then obtain c st where i: "i < length (slots s)" "slots s ! i = Some (c, st)" by auto
  obtain ys where "slots (release b c s) = slots s @ ys"
    using release_releasing [OF assms in_act [OF i], of b] by (auto simp: releasing_def)
  then show ?thesis
    using completeCall_release [OF i, of b] by (auto simp: clean_slots_def Let_def)
qed (simp add: completeCall_none)

definition untouched :: "velocity \<Rightarrow> velocity \<Rightarrow> bool" where
  \<comment> \<open>an old entry of \<open>calls\<close> is as it was, or \<open>false\<close>, or gone with the array; its call has ended then\<close>
  "untouched s t \<longleftrightarrow> (\<forall>j < length (slots s). \<forall>c st. slots s ! j = Some (c, st) \<longrightarrow>
     c \<in> ended t \<or> j < length (slots t) \<and> slots t ! j = Some (c, st)) \<and>
   (\<forall>j < length (slots s). j < length (slots t) \<longrightarrow> slots t ! j = None \<or> slots t ! j = slots s ! j) \<and>
   (slots t = [] \<or> length (slots s) \<le> length (slots t))"

lemma untouched_step:
  assumes u: "untouched s t" and ok: "velocity_ok t" and i: "i < length (slots s)" "slots s ! i = Some (c, st)"
  shows "untouched s (completeCall b i t) \<and> ended (completeCall b i t) = insert c (ended t)"
proof -
  let ?t = "completeCall b i t"
  from u i consider "i < length (slots t)" "slots t ! i = Some (c, st)"
    | "c \<in> ended t" "\<not> (i < length (slots t) \<and> slots t ! i \<noteq> None)"
    unfolding untouched_def by metis
  then show ?thesis
  proof cases
    case 1
    have e: "ended ?t = insert c (ended t)" by (rule completeCall_ended [OF ok 1])
    have "d \<in> ended ?t \<or> j < length (slots ?t) \<and> slots ?t ! j = Some (d, st')"
      if j: "j < length (slots s)" "slots s ! j = Some (d, st')" for j d st'
    proof (cases "j = i")
      case True
      then show ?thesis using e i j by simp
    next
      case False
      then show ?thesis using u j e completeCall_effect(3) [OF ok False] unfolding untouched_def by blast
    qed
    moreover have "slots ?t ! j = None \<or> slots ?t ! j = slots s ! j"
      if j: "j < length (slots s)" "j < length (slots ?t)" for j
      using completeCall_slots [OF ok, of b i]
    proof (elim disjE exE)
      fix ys assume ys: "slots ?t = (slots t @ ys)[i := None]"
      have "j < length (slots t)" using u j(1) 1(1) unfolding untouched_def by auto
      then have "slots ?t ! j = (if j = i then None else slots t ! j)"
        using ys by (auto simp: nth_append nth_list_update)
      with \<open>j < length (slots t)\<close> show ?thesis using u j unfolding untouched_def by (cases "j = i") auto
    qed (use u j in \<open>auto simp: untouched_def\<close>)
    moreover have "slots ?t = [] \<or> length (slots s) \<le> length (slots ?t)"
      using completeCall_slots [OF ok, of b i] u 1(1) unfolding untouched_def by auto
    ultimately show ?thesis using e by (simp add: untouched_def)
  next
    case 2
    then show ?thesis using u completeCall_none [OF 2(2), of b] by (simp add: insert_absorb)
  qed
qed

lemma stop_fold:
  assumes "untouched s t" "velocity_ok t" "\<forall>i \<in> set js. i < length (slots s) \<and> slots s ! i \<noteq> None"
  shows "ended (fold (completeCall b) js t) = ended t \<union> {c. \<exists>i \<in> set js. \<exists>st. slots s ! i = Some (c, st)}"
  using assms
proof (induction js arbitrary: t)
  case (Cons j js)
  then obtain c st where j: "j < length (slots s)" "slots s ! j = Some (c, st)" by auto
  note step = untouched_step [OF Cons.prems(1,2) j, of b]
  from Cons.IH [of "completeCall b j t"] step Cons.prems(3) completeCall_ok [OF Cons.prems(2), of b j]
  have "ended (fold (completeCall b) (j # js) t) =
      insert c (ended t) \<union> {c. \<exists>i \<in> set js. \<exists>st. slots s ! i = Some (c, st)}" by simp
  then show ?case using j(2) by auto
qed simp

lemma calls_to_stop_set:
  "set (calls_to_stop es s) = {i. i < length (slots s) \<and> (\<exists>c st. slots s ! i = Some (c, st) \<and>
     set (elems (specs s ! c)) \<inter> set es \<noteq> {})}"
proof -
  have stop_one: "set (concat (map (\<lambda>e. map (\<lambda>_. i) (filter (\<lambda>x. x = e) es)) xs)) =
      {j. j = i \<and> set xs \<inter> set es \<noteq> {}}" for i :: nat and xs
    by (induction xs) auto
  have one: "set (case x of None \<Rightarrow> [] | Some (c, _) \<Rightarrow>
        concat (map (\<lambda>e. map (\<lambda>_. i) (filter (\<lambda>x. x = e) es)) (elems (specs s ! c)))) =
      {j. j = i \<and> (\<exists>c st. x = Some (c, st) \<and> set (elems (specs s ! c)) \<inter> set es \<noteq> {})}"
    for i and x :: "(nat \<times> real option) option"
  proof (cases x)
    case (Some y)
    obtain c st where y: "y = (c, st)" by fastforce
    show ?thesis unfolding Some y option.case prod.case stop_one by auto
  qed simp
  have mem: "y \<in> set (concat (map f xs)) \<longleftrightarrow> (\<exists>x \<in> set xs. y \<in> set (f x))"
    for y :: nat and f and xs :: "nat list" by simp
  show ?thesis unfolding calls_to_stop_def by (rule set_eqI, subst mem, unfold one) auto
qed

lemma act_set: "set (act s) = {c. \<exists>i < length (slots s). \<exists>st. slots s ! i = Some (c, st)}"
  by (auto simp: act_def in_set_conv_nth split: option.splits) (metis option.exhaust surj_pair nth_mem)+

lemma stop_ended:
  assumes "velocity_ok s"
  shows "ended (stop es s) = ended s \<union> {c \<in> set (act s). set (elems (specs s ! c)) \<inter> set es \<noteq> {}}"
proof -
  have "untouched s s" by (simp add: untouched_def)
  then have "ended (stop es s) =
      ended s \<union> {c. \<exists>i \<in> set (calls_to_stop es s). \<exists>st. slots s ! i = Some (c, st)}"
    unfolding stop_def by (rule stop_fold [OF _ assms]) (auto simp: calls_to_stop_set)
  moreover have "{c. \<exists>i \<in> set (calls_to_stop es s). \<exists>st. slots s ! i = Some (c, st)} =
      {c \<in> set (act s). set (elems (specs s ! c)) \<inter> set es \<noteq> {}}"
    unfolding calls_to_stop_set act_set by (rule set_eqI) fastforce
  ultimately show ?thesis by simp
qed

subsection \<open>What the scheduling promises\<close>

lemma one_at_a_time:
  assumes ok: "velocity_ok s"
  shows "length (filter (\<lambda>c. queued (specs s ! c) \<and> e \<in> set (elems (specs s ! c))) (act s)) \<le> 1"
proof -
  let ?f = "filter (\<lambda>c. queued (specs s ! c) \<and> e \<in> set (elems (specs s ! c))) (act s)"
  have inv: "call_inv (Mem s) s" "slot_inv (ended s) s" "elem_inv (\<lambda>_. ended s) (Mem s) s e"
    using ok by (simp_all add: velocity_ok_def)
  have "c = last (velocity.ran s e)" if "c \<in> set ?f" for c
  proof -
    have c: "c < length (specs s)" "full s c" "c \<notin> ended s" "queued (specs s ! c)" "e \<in> set (elems (specs s ! c))"
      using that inv(2) by (auto simp: slot_inv_def)
    then have "e \<in> set (built s c)" using full_set [OF inv(1)] by simp
    then have r: "c \<in> set (velocity.ran s e)" using inv(1) c by (auto simp: call_inv_def call_ok_def)
    have sub: "set (butlast (velocity.ran s e)) \<subseteq> ended s"
      using inv(3) r c(3) by (auto simp: elem_inv_def elem_ok_def)
    have "c \<in> set (butlast (velocity.ran s e) @ [last (velocity.ran s e)])"
      using r by (subst append_butlast_last_id) auto
    then have "c \<in> set (butlast (velocity.ran s e)) \<or> c = last (velocity.ran s e)" by auto
    with sub c(3) show ?thesis by blast
  qed
  then have "set ?f \<subseteq> {last (velocity.ran s e)}" by blast
  then have "card (set ?f) \<le> 1" using card_mono [of "{last (velocity.ran s e)}"] by fastforce
  moreover have "distinct ?f" using inv(2) by (simp add: slot_inv_def)
  ultimately show ?thesis unfolding distinct_card [OF \<open>distinct ?f\<close>] by simp
qed

text \<open>
  C37.  After every sequence of calls, ticks and stops, the entries that the queue of an element has run,
  followed by those that wait in it, are the queued calls on the element in the order they were made; all
  of those that ran but the last have ended; and at most one queued call is in progress on an element.
\<close>

theorem queues_fifo:
  "let s = velocity_run evs in
     (\<forall>e. velocity.ran s e @ entries (queues s e) =
        filter (\<lambda>c. queued (specs s ! c) \<and> e \<in> set (elems (specs s ! c))) [0..<length (specs s)]) \<and>
     (\<forall>e. set (butlast (velocity.ran s e)) \<subseteq> ended s) \<and>
     (\<forall>e. length (filter (\<lambda>c. queued (specs s ! c) \<and> e \<in> set (elems (specs s ! c))) (act s)) \<le> 1)"
proof -
  let ?s = "velocity_run evs"
  have "velocity.ran ?s e @ entries (queues ?s e) =
        filter (\<lambda>c. queued (specs ?s ! c) \<and> e \<in> set (elems (specs ?s ! c))) [0..<length (specs ?s)]" for e
  proof -
    have "velocity.ran ?s e @ entries (queues ?s e) = filter (\<lambda>c. e \<in> Mem ?s c) [0..<length (specs ?s)]"
      using velocity_run_ok [of evs] by (simp add: velocity_ok_def elem_inv_def)
    also have "\<dots> = filter (\<lambda>c. queued (specs ?s ! c) \<and> e \<in> set (elems (specs ?s ! c))) [0..<length (specs ?s)]"
      by (rule filter_cong) (auto simp: Mem_def)
    finally show ?thesis .
  qed
  moreover have "set (butlast (velocity.ran ?s e)) \<subseteq> ended ?s" for e
  proof -
    have "elem_ok (\<lambda>_. ended ?s) ?s e" using velocity_run_ok [of evs] by (simp add: velocity_ok_def elem_inv_def)
    then show ?thesis by (auto simp: elem_ok_def dest: in_set_butlastD)
  qed
  ultimately show ?thesis using one_at_a_time [OF velocity_run_ok] by (simp add: Let_def)
qed


subsection \<open>Every call ends\<close>




























text \<open>
  C16.  \<open>stop\<close> ends at once the calls in progress that animate one of its elements, on all their elements,
  and no other call.
\<close>

theorem stop_ends:
  "ended (vstep (Stop es) (velocity_run evs)) = ended (velocity_run evs) \<union>
     {c \<in> set (act (velocity_run evs)). set (elems (specs (velocity_run evs) ! c)) \<inter> set es \<noteq> {}}"
  by (simp add: stop_ended [OF velocity_run_ok])

end
