(* ===== verification/Velocity_Spec.thy ===== *)
theory Velocity_Spec
  imports Velocity_Calls
begin

section \<open>The scheduling of velocity.js and its specification\<close>

text \<open>
  What a user of the library relies on, without queues, slots and ticks: calls are made and end, and a
  queued call may be in progress when the queued calls made before it on one of its elements have ended.
  The state of the specification is the list of the calls and the set of those that have ended.
\<close>

subsection \<open>The specification\<close>










subsection \<open>The calls in progress\<close>



subsection \<open>Each operation is a run of the specification\<close>









end
