(* ===== verification/Velocity_Easing.thy ===== *)
theory Velocity_Easing
  imports JsPrelude
begin

section \<open>velocity.js: easings\<close>

text \<open>
  The functions that map the share of the time that has passed to the share of the way: steps, Bezier
  curves that are inverted by a table, Newton's method and bisection, springs that are integrated by a
  Runge-Kutta method, the registered easings and the choice of an easing for an option.  The rounding
  that storing a number in a \<open>Float32Array\<close> has is the argument \<open>fround\<close> (the identity in a browser
  without such arrays).  Options are texts, arrays of numbers, or anything else.
\<close>

subsection \<open>Steps and Bezier curves\<close>

definition generateStep :: "jsnum \<Rightarrow> jsnum \<Rightarrow> jsnum" where
  "generateStep steps p = Math_round (p * steps) * (Num 1 / steps)"

record bezier =
  mX1 :: jsnum
  mY1 :: jsnum
  mX2 :: jsnum
  mY2 :: jsnum

definition generateBezier :: "jsnum list \<Rightarrow> bezier option" where
  \<comment> \<open>\<open>false\<close> (\<open>None\<close>) unless there are four arguments, all of them finite numbers\<close>
  "generateBezier args =
     (if length args \<noteq> 4 then None
      else if \<not> list_all is_Num args then None
      else Some \<lparr>mX1 = Math_max (Math_min (args ! 0) (Num 1)) (Num 0), mY1 = args ! 1,
        mX2 = Math_max (Math_min (args ! 2) (Num 1)) (Num 0), mY2 = args ! 3\<rparr>)"

definition kSplineTableSize :: nat where
  "kSplineTableSize = 11"

definition kSampleStepSize :: jsnum where
  "kSampleStepSize = Num 1 / (Num (real kSplineTableSize) - Num 1)"

definition bezierA :: "jsnum \<Rightarrow> jsnum \<Rightarrow> jsnum" where
  "bezierA aA1 aA2 = Num 1 - Num 3 * aA2 + Num 3 * aA1"

definition bezierB :: "jsnum \<Rightarrow> jsnum \<Rightarrow> jsnum" where
  "bezierB aA1 aA2 = Num 3 * aA2 - Num 6 * aA1"

definition bezierC :: "jsnum \<Rightarrow> jsnum" where
  "bezierC aA1 = Num 3 * aA1"

definition calcBezier :: "jsnum \<Rightarrow> jsnum \<Rightarrow> jsnum \<Rightarrow> jsnum" where
  "calcBezier aT aA1 aA2 = ((bezierA aA1 aA2 * aT + bezierB aA1 aA2) * aT + bezierC aA1) * aT"

definition getSlope :: "jsnum \<Rightarrow> jsnum \<Rightarrow> jsnum \<Rightarrow> jsnum" where
  "getSlope aT aA1 aA2 =
     Num 3 * bezierA aA1 aA2 * aT * aT + Num 2 * bezierB aA1 aA2 * aT + bezierC aA1"

fun newton_loop :: "bezier \<Rightarrow> nat \<Rightarrow> jsnum \<Rightarrow> jsnum \<Rightarrow> jsnum" where
  "newton_loop b 0 aX aGuessT = aGuessT"
| "newton_loop b (Suc n) aX aGuessT =
     (let currentSlope = getSlope aGuessT (mX1 b) (mX2 b) in
      if js_eq currentSlope (Num 0) then aGuessT
      else let currentX = calcBezier aGuessT (mX1 b) (mX2 b) - aX in
        newton_loop b n aX (aGuessT - currentX / currentSlope))"

definition newtonRaphsonIterate :: "bezier \<Rightarrow> jsnum \<Rightarrow> jsnum \<Rightarrow> jsnum" where
  "newtonRaphsonIterate b aX aGuessT = newton_loop b 4 aX aGuessT"

definition calcSampleValues :: "(jsnum \<Rightarrow> jsnum) \<Rightarrow> bezier \<Rightarrow> jsnum list" where
  "calcSampleValues fround b =
     map (\<lambda>i. fround (calcBezier (Num (real i) * kSampleStepSize) (mX1 b) (mX2 b))) [0..<kSplineTableSize]"

fun subdivide_loop :: "bezier \<Rightarrow> nat \<Rightarrow> jsnum \<Rightarrow> jsnum \<Rightarrow> jsnum \<Rightarrow> jsnum" where
  \<comment> \<open>the number is of the iterations that are left, of \<open>SUBDIVISION_MAX_ITERATIONS\<close>\<close>
  "subdivide_loop b n aX aA aB =
     (let currentT = aA + (aB - aA) / Num 2;
          currentX = calcBezier currentT (mX1 b) (mX2 b) - aX;
          aB' = (if Num 0 < currentX then currentT else aB);
          aA' = (if Num 0 < currentX then aA else currentT)
      in if Num 0.0000001 < Math_abs currentX \<and> n > 1 then subdivide_loop b (n - 1) aX aA' aB' else currentT)"

declare subdivide_loop.simps [simp del]

definition binarySubdivide :: "bezier \<Rightarrow> jsnum \<Rightarrow> jsnum \<Rightarrow> jsnum \<Rightarrow> jsnum" where
  "binarySubdivide b aX aA aB = subdivide_loop b 10 aX aA aB"

function sample_loop :: "jsnum list \<Rightarrow> jsnum \<Rightarrow> nat \<Rightarrow> jsnum \<Rightarrow> nat \<times> jsnum" where
  "sample_loop samples aX currentSample intervalStart =
     (if currentSample < kSplineTableSize - 1 \<and> samples ! currentSample \<le> aX
      then sample_loop samples aX (currentSample + 1) (intervalStart + kSampleStepSize)
      else (currentSample, intervalStart))"
  by auto
termination by (relation "measure (\<lambda>(_, _, i, _). kSplineTableSize - i)") auto

declare sample_loop.simps [simp del]

definition getTForX :: "bezier \<Rightarrow> jsnum list \<Rightarrow> jsnum \<Rightarrow> jsnum" where
  "getTForX b samples aX =
     (let (i, intervalStart) = sample_loop samples aX 1 (Num 0);
          currentSample = i - 1;
          dist = (aX - samples ! currentSample) / (samples ! (currentSample + 1) - samples ! currentSample);
          guessForT = intervalStart + dist * kSampleStepSize;
          initialSlope = getSlope guessForT (mX1 b) (mX2 b)
      in if Num 0.001 \<le> initialSlope then newtonRaphsonIterate b aX guessForT
         else if js_eq initialSlope (Num 0) then guessForT
         else binarySubdivide b aX intervalStart (intervalStart + kSampleStepSize))"

definition bezier_at :: "(jsnum \<Rightarrow> jsnum) \<Rightarrow> bezier \<Rightarrow> jsnum \<Rightarrow> jsnum" where
  \<comment> \<open>the function that \<open>generateBezier\<close> returns; the table is the same whenever it is computed\<close>
  "bezier_at fround b aX =
     (if js_eq (mX1 b) (mY1 b) \<and> js_eq (mX2 b) (mY2 b) then aX
      else if js_eq aX (Num 0) then Num 0
      else if js_eq aX (Num 1) then Num 1
      else calcBezier (getTForX b (calcSampleValues fround b) aX) (mY1 b) (mY2 b))"

subsection \<open>Springs\<close>

record spring =
  spring_x :: jsnum
  spring_v :: jsnum
  tension :: jsnum
  friction :: jsnum

definition springAccelerationForState :: "spring \<Rightarrow> jsnum" where
  "springAccelerationForState s = (- tension s) * spring_x s - friction s * spring_v s"

definition springEvaluateStateWithDerivative :: "spring \<Rightarrow> jsnum \<Rightarrow> jsnum \<times> jsnum \<Rightarrow> jsnum \<times> jsnum" where
  "springEvaluateStateWithDerivative initialState dt derivative =
     (let s = \<lparr>spring_x = spring_x initialState + fst derivative * dt,
                spring_v = spring_v initialState + snd derivative * dt,
                tension = tension initialState, friction = friction initialState\<rparr>
      in (spring_v s, springAccelerationForState s))"

definition springIntegrateState :: "spring \<Rightarrow> jsnum \<Rightarrow> spring" where
  "springIntegrateState s dt =
     (let a = (spring_v s, springAccelerationForState s);
          b = springEvaluateStateWithDerivative s (dt * Num 0.5) a;
          c = springEvaluateStateWithDerivative s (dt * Num 0.5) b;
          d = springEvaluateStateWithDerivative s dt c;
          dxdt = Num 1 / Num 6 * (fst a + Num 2 * (fst b + fst c) + fst d);
          dvdt = Num 1 / Num 6 * (snd a + Num 2 * (snd b + snd c) + snd d)
      in s\<lparr>spring_x := spring_x s + dxdt * dt, spring_v := spring_v s + dvdt * dt\<rparr>)"

definition spring_tolerance :: jsnum where
  "spring_tolerance = Num 1 / Num 10000"

definition spring_moves :: "spring \<Rightarrow> bool" where
  "spring_moves s \<longleftrightarrow> spring_tolerance < Math_abs (spring_x s) \<and> spring_tolerance < Math_abs (spring_v s)"

text \<open>The simulation, with the path and the time so far; \<open>None\<close> is a simulation that does not end.\<close>

partial_function (option) spring_loop ::
    "jsnum \<Rightarrow> spring \<Rightarrow> jsnum list \<Rightarrow> jsnum \<Rightarrow> (jsnum list \<times> jsnum) option" where
  "spring_loop dt s path time_lapsed =
     (let last_state = springIntegrateState s dt;
          path = path @ [Num 1 + spring_x last_state];
          time_lapsed = time_lapsed + Num 16
      in if spring_moves last_state then spring_loop dt last_state path time_lapsed
         else Some (path, time_lapsed))"

definition spring_DT :: jsnum where
  "spring_DT = Num 16 / Num 1000"

definition spring_init :: "jsnum \<Rightarrow> jsnum \<Rightarrow> spring" where
  "spring_init ten fric =
     \<lparr>spring_x = Num (- 1), spring_v = Num 0,
      tension = (if num_truthy ten then ten else Num 500),
      friction = (if num_truthy fric then fric else Num 20)\<rparr>"

fun to_int32 :: "jsnum \<Rightarrow> int" where
  "to_int32 (Num r) = ((if r < 0 then \<lceil>r\<rceil> else \<lfloor>r\<rfloor>) + 2 ^ 31) mod 2 ^ 32 - 2 ^ 31"
| "to_int32 _ = 0"

definition spring_at :: "jsnum list \<Rightarrow> jsnum \<Rightarrow> jsnum option" where
  "spring_at path percentComplete =
     (let i = to_int32 (percentComplete * (Num (real (length path)) - Num 1)) in
      if 0 \<le> i \<and> nat i < length path then Some (path ! nat i) else None)"

subsection \<open>The registered easings\<close>

datatype easing =
    Linear
  | Swing
  | Spring
  | Step jsnum
  | Bezier bezier
  | SpringPath "jsnum list"
  | SpringTime jsnum

definition springRK4Factory :: "jsnum \<Rightarrow> jsnum \<Rightarrow> jsnum \<Rightarrow> easing option" where
  \<comment> \<open>the simulation without a duration gives the time that it takes; with one a second simulation, with another
    step, gives the path.  \<open>None\<close>: a simulation does not end\<close>
  "springRK4Factory ten fric duration =
     Option.bind (spring_loop spring_DT (spring_init ten fric) [Num 0] (Num 0)) (\<lambda>(_, time_lapsed).
       if \<not> num_truthy duration then Some (SpringTime time_lapsed)
       else map_option (\<lambda>(path, _). SpringPath path)
              (spring_loop (time_lapsed / duration * spring_DT) (spring_init ten fric) [Num 0] time_lapsed))"

fun Math_exp :: "jsnum \<Rightarrow> jsnum" where
  "Math_exp (Num a) = Num (exp a)"
| "Math_exp NegInfinity = Num 0"
| "Math_exp x = x"

text \<open>
  What an easing gives for a share of the time: \<open>None\<close> is \<open>undefined\<close>, or the exception if the easing is
  the number that \<open>springRK4Factory\<close> returns when the duration is 0 or \<open>NaN\<close>.
\<close>

fun ease :: "(jsnum \<Rightarrow> jsnum) \<Rightarrow> easing \<Rightarrow> jsnum \<Rightarrow> jsnum option" where
  "ease fround Linear p = Some p"
| "ease fround Swing p = Some (Num 0.5 - Math_cos (p * Num pi) / Num 2)"
| "ease fround Spring p = Some (Num 1 - (Math_cos (p * Num 4.5 * Num pi) * Math_exp ((- p) * Num 6)))"
| "ease fround (Step n) p = Some (generateStep n p)"
| "ease fround (Bezier b) p = Some (bezier_at fround b p)"
| "ease fround (SpringPath path) p = spring_at path p"
| "ease fround (SpringTime _) p = None"

definition bezier_table :: "(string \<times> real list) list" where
  "bezier_table =
    [(''ease'', [0.25, 0.1, 0.25, 1.0]),
     (''ease-in'', [0.42, 0.0, 1.00, 1.0]),
     (''ease-out'', [0.00, 0.0, 0.58, 1.0]),
     (''ease-in-out'', [0.42, 0.0, 0.58, 1.0]),
     (''easeInSine'', [0.47, 0, 0.745, 0.715]),
     (''easeOutSine'', [0.39, 0.575, 0.565, 1]),
     (''easeInOutSine'', [0.445, 0.05, 0.55, 0.95]),
     (''easeInQuad'', [0.55, 0.085, 0.68, 0.53]),
     (''easeOutQuad'', [0.25, 0.46, 0.45, 0.94]),
     (''easeInOutQuad'', [0.455, 0.03, 0.515, 0.955]),
     (''easeInCubic'', [0.55, 0.055, 0.675, 0.19]),
     (''easeOutCubic'', [0.215, 0.61, 0.355, 1]),
     (''easeInOutCubic'', [0.645, 0.045, 0.355, 1]),
     (''easeInQuart'', [0.895, 0.03, 0.685, 0.22]),
     (''easeOutQuart'', [0.165, 0.84, 0.44, 1]),
     (''easeInOutQuart'', [0.77, 0, 0.175, 1]),
     (''easeInQuint'', [0.755, 0.05, 0.855, 0.06]),
     (''easeOutQuint'', [0.23, 1, 0.32, 1]),
     (''easeInOutQuint'', [0.86, 0, 0.07, 1]),
     (''easeInExpo'', [0.95, 0.05, 0.795, 0.035]),
     (''easeOutExpo'', [0.19, 1, 0.22, 1]),
     (''easeInOutExpo'', [1, 0, 0, 1]),
     (''easeInCirc'', [0.6, 0.04, 0.98, 0.335]),
     (''easeOutCirc'', [0.075, 0.82, 0.165, 1]),
     (''easeInOutCirc'', [0.785, 0.135, 0.15, 0.86])]"

definition Easings :: "(string \<times> easing) list" where
  "Easings =
     [(''linear'', Linear), (''swing'', Swing), (''spring'', Spring)] @
     concat (map (\<lambda>(name, args). case generateBezier (map Num args) of None \<Rightarrow> [] | Some b \<Rightarrow> [(name, Bezier b)])
       bezier_table)"

datatype easing_option = EString string | EArray "jsnum list" | EOther

datatype chosen = Name string | Function easing

definition default_easing :: "string \<Rightarrow> chosen" where
  \<comment> \<open>\<open>Velocity.defaults.easing\<close>, and \<open>EASING_DEFAULT\<close> if that is no registered easing\<close>
  "default_easing dflt = Name (if map_of Easings dflt \<noteq> None then dflt else ''swing'')"

definition getEasing :: "string \<Rightarrow> easing_option \<Rightarrow> jsnum \<Rightarrow> chosen option" where
  \<comment> \<open>\<open>None\<close> only if the simulation of a spring does not end\<close>
  "getEasing dflt v duration =
     (case v of
        EString name \<Rightarrow> Some (if map_of Easings name \<noteq> None then Name name else default_easing dflt)
      | EArray [n] \<Rightarrow> Some (Function (Step n))
      | EArray [ten, fric] \<Rightarrow> map_option Function (springRK4Factory ten fric duration)
      | EArray args \<Rightarrow>
          Some (case generateBezier args of Some b \<Rightarrow> Function (Bezier b) | None \<Rightarrow> default_easing dflt)
      | EOther \<Rightarrow> Some (default_easing dflt))"

end
