(* ===== verification/Velocity_Curves.thy ===== *)
theory Velocity_Curves
  imports Velocity_Easing
begin

section \<open>Properties of the easings\<close>

text \<open>
  All registered easings and all Bezier curves start at 0 and end at 1, the choice of an easing ends in a
  registered name or a function, the bisection finds the parameter of a Bezier curve up to its
  precision, and the first simulation of the default spring ends.
\<close>

subsection \<open>Ends of the curves\<close>

lemma cos_spring: "cos (9 * pi / 2) = 0"
proof -
  have "cos (9 * pi / 2) = cos (pi / 2 + 2 * pi + 2 * pi)" by (rule arg_cong [where f = cos]) simp
  also have "\<dots> = 0" by (simp only: cos_periodic cos_pi_half)
  finally show ?thesis .
qed

lemma bezier_ends: "is_Num (mX1 b) \<Longrightarrow> bezier_at fround b (Num 0) = Num 0 \<and> bezier_at fround b (Num 1) = Num 1"
  by (simp add: bezier_at_def)

definition starts_and_ends :: "(jsnum \<Rightarrow> jsnum) \<Rightarrow> easing \<Rightarrow> bool" where
  "starts_and_ends fround e \<longleftrightarrow> ease fround e (Num 0) = Some (Num 0) \<and> ease fround e (Num 1) = Some (Num 1)"

lemma ends_table: "list_all (\<lambda>(name, e). starts_and_ends fround e) Easings"
  by (auto simp: Easings_def list_all_iff starts_and_ends_def bezier_at_def cos_spring split: option.splits)

text \<open>The names are those of the table: no Bezier array of the table is refused.\<close>

lemma easing_names: "map fst Easings = [''linear'', ''swing'', ''spring''] @ map fst bezier_table"
  by (simp add: Easings_def bezier_table_def generateBezier_def)

subsection \<open>Bisection\<close>

definition bez :: "real \<Rightarrow> real \<Rightarrow> real \<Rightarrow> real" where
  "bez x1 x2 t = ((1 - 3 * x2 + 3 * x1) * t + (3 * x2 - 6 * x1)) * t * t + 3 * x1 * t"

lemma calcBezier_bez: "calcBezier (Num t) (Num x1) (Num x2) = Num (bez x1 x2 t)"
  by (simp add: calcBezier_def bezierA_def bezierB_def bezierC_def bez_def algebra_simps)

lemma bez_root:
  assumes "bez x1 x2 a \<le> y" "y \<le> bez x1 x2 c" "a \<le> c"
  shows "\<exists>t \<ge> a. t \<le> c \<and> bez x1 x2 t = y"
proof -
  have "continuous_on {a..c} (bez x1 x2)" unfolding bez_def by (intro continuous_intros)
  with IVT' [of "bez x1 x2" a y c] assms show ?thesis by blast
qed

lemma subdivide_found:
  assumes "mX1 b = Num x1" "mX2 b = Num x2" and "bez x1 x2 a \<le> y" "y \<le> bez x1 x2 c" "a \<le> c" "n > 0"
  shows "\<exists>t. subdivide_loop b n (Num y) (Num a) (Num c) = Num t \<and> a \<le> t \<and> t \<le> c \<and>
    (\<bar>bez x1 x2 t - y\<bar> \<le> 0.0000001 \<or> (\<exists>r. bez x1 x2 r = y \<and> \<bar>t - r\<bar> \<le> (c - a) / 2 ^ n))"
  using assms(3-)
proof (induction n arbitrary: a c)
  case (Suc n)
  let ?t = "a + (c - a) / 2"
  have mid: "a \<le> ?t" "?t \<le> c" using Suc.prems(3) by (auto simp: field_simps)
  have half: "(c - a) / 2 / 2 ^ n = (c - a) / 2 ^ Suc n" by simp
  have step: "subdivide_loop b (Suc n) (Num y) (Num a) (Num c) =
      (if 0.0000001 < \<bar>bez x1 x2 ?t - y\<bar> \<and> n > 0
       then if y < bez x1 x2 ?t then subdivide_loop b n (Num y) (Num a) (Num ?t)
            else subdivide_loop b n (Num y) (Num ?t) (Num c)
       else Num ?t)"
    by (subst subdivide_loop.simps) (simp add: Let_def assms(1,2) calcBezier_bez)
  show ?case
  proof (cases "0.0000001 < \<bar>bez x1 x2 ?t - y\<bar> \<and> n > 0")
    case True
    show ?thesis
    proof (cases "y < bez x1 x2 ?t")
      case less: True
      have "subdivide_loop b (Suc n) (Num y) (Num a) (Num c) = subdivide_loop b n (Num y) (Num a) (Num ?t)"
        using step True less by simp
      moreover have "(?t - a) / 2 ^ n = (c - a) / 2 ^ Suc n" by simp
      moreover note Suc.IH [of a ?t, OF Suc.prems(1) less_imp_le [OF less] mid(1)]
      ultimately show ?thesis using True mid(2) by (auto intro: order_trans)
    next
      case False
      have "subdivide_loop b (Suc n) (Num y) (Num a) (Num c) = subdivide_loop b n (Num y) (Num ?t) (Num c)"
        using step True False by simp
      moreover have "(c - ?t) / 2 ^ n = (c - a) / 2 ^ Suc n" by (simp add: field_simps)
      moreover note Suc.IH [of ?t c, OF _ Suc.prems(2) mid(2)]
      moreover have "?t \<le> t \<Longrightarrow> a \<le> t" for t using mid(1) by (rule order_trans)
      ultimately show ?thesis using True False by (auto simp: not_less)
    qed
  next
    case False
    have r: "subdivide_loop b (Suc n) (Num y) (Num a) (Num c) = Num ?t" using step unfolding if_not_P [OF False] .
    obtain r where root: "a \<le> r" "r \<le> c" "bez x1 x2 r = y" using bez_root [OF Suc.prems(1-3)] by blast
    have "n = 0 \<Longrightarrow> \<bar>?t - r\<bar> \<le> (c - a) / 2 ^ Suc n" using root mid by (auto simp: abs_le_iff field_simps)
    then have "\<bar>bez x1 x2 ?t - y\<bar> \<le> 0.0000001 \<or> (\<exists>r. bez x1 x2 r = y \<and> \<bar>?t - r\<bar> \<le> (c - a) / 2 ^ Suc n)"
      using False root(3) by (cases "n = 0") (blast, simp)
    with r mid show ?thesis by blast
  qed
qed simp

subsection \<open>The default spring\<close>

text \<open>
  One step of the simulation is linear, and it multiplies the energy \<open>v^2 + f x v + t x^2\<close> by a factor
  that is below 1 for the default tension and friction; so the position comes under the tolerance.
\<close>

definition energy :: "real \<Rightarrow> real \<Rightarrow> real" where
  "energy x v = v * v + 20 * x * v + 500 * x * x"

definition spring_state :: "real \<Rightarrow> real \<Rightarrow> spring" where
  "spring_state x v = \<lparr>spring_x = Num x, spring_v = Num v, tension = Num 500, friction = Num 20\<rparr>"

lemma spring_step:
  "springIntegrateState (spring_state x v) spring_DT =
     spring_state (73669 / 78125 * x + 78542 / 5859375 * v) (790867 / 1171875 * v - 314168 / 46875 * x)"
  by (simp add: springIntegrateState_def spring_state_def springEvaluateStateWithDerivative_def
      springAccelerationForState_def spring_DT_def Let_def) (simp add: field_simps)

lemma energy_step:
  "energy (73669 / 78125 * x + 78542 / 5859375 * v) (790867 / 1171875 * v - 314168 / 46875 * x) =
     1595700209 / 2197265625 * energy x v"
  by (simp add: energy_def field_simps)

lemma energy_pos: "energy x v = (v + 10 * x) * (v + 10 * x) + 400 * x * x"
  by (simp add: energy_def algebra_simps)

lemma spring_stops: "energy x v \<le> 1 / 250000 \<Longrightarrow> \<not> spring_moves (springIntegrateState (spring_state x v) spring_DT)"
proof -
  assume e: "energy x v \<le> 1 / 250000"
  let ?x = "73669 / 78125 * x + 78542 / 5859375 * v" and ?v = "790867 / 1171875 * v - 314168 / 46875 * x"
  have "energy ?x ?v \<le> 1 / 250000"
    unfolding energy_step using e energy_pos [of x v] zero_le_square [of "v + 10 * x"] zero_le_square [of x] by linarith
  then have "?x * ?x \<le> (1 / 10000) * (1 / 10000)"
    using energy_pos [of ?x ?v] zero_le_square [of "?v + 10 * ?x"] by linarith
  then have "\<bar>?x\<bar> \<le> 1 / 10000" using abs_le_square_iff [of ?x "1 / 10000"] by (simp add: power2_eq_square)
  then show ?thesis by (simp only: spring_step) (simp add: spring_moves_def spring_tolerance_def spring_state_def)
qed

lemma spring_ends:
  assumes "energy x v \<le> (4 / 3) ^ n * (1 / 250000)"
  shows "\<exists>p. spring_loop spring_DT (spring_state x v) path (Num t) = Some (path @ p, Num (t + 16 * real (length p))) \<and>
    p \<noteq> [] \<and> length p \<le> Suc n"
  using assms
proof (induction n arbitrary: x v path t)
  case 0
  then have "\<not> spring_moves (springIntegrateState (spring_state x v) spring_DT)" by (intro spring_stops) simp
  then show ?case by (subst spring_loop.simps) (simp add: Let_def)
next
  case (Suc n)
  let ?x = "73669 / 78125 * x + 78542 / 5859375 * v" and ?v = "790867 / 1171875 * v - 314168 / 46875 * x"
  have pos: "energy x v \<ge> 0" using energy_pos [of x v] zero_le_square [of "v + 10 * x"] zero_le_square [of x] by linarith
  have "energy ?x ?v \<le> (3 / 4) * energy x v" unfolding energy_step using pos by simp
  also have "\<dots> \<le> (4 / 3) ^ n * (1 / 250000)" using Suc.prems by simp
  finally obtain p where p:
    "spring_loop spring_DT (spring_state ?x ?v) (path @ [Num (1 + ?x)]) (Num (t + 16)) =
      Some ((path @ [Num (1 + ?x)]) @ p, Num (t + 16 + 16 * real (length p)))" "length p \<le> Suc n"
    using Suc.IH by blast
  show ?case
  proof (cases "spring_moves (spring_state ?x ?v)")
    case True
    then have "spring_loop spring_DT (spring_state x v) path (Num t) =
        spring_loop spring_DT (spring_state ?x ?v) (path @ [Num (1 + ?x)]) (Num (t + 16))"
      by (subst spring_loop.simps) (simp only: spring_step Let_def if_True, simp add: spring_state_def)
    with p show ?thesis by (intro exI [of _ "Num (1 + ?x) # p"]) simp
  next
    case False
    then have "spring_loop spring_DT (spring_state x v) path (Num t) = Some (path @ [Num (1 + ?x)], Num (t + 16))"
      by (subst spring_loop.simps) (simp only: spring_step Let_def if_False, simp add: spring_state_def)
    then show ?thesis by (intro exI [of _ "[Num (1 + ?x)]"]) simp
  qed
qed

text \<open>
  The first simulation of a spring with the default tension and friction ends, after at most 66 steps of
  16 milliseconds.  (Whether the second one, whose step depends on the duration, ends too is not shown.)
\<close>

lemma default_spring_returns:
  "\<exists>k. 0 < k \<and> k \<le> 66 \<and> springRK4Factory (Num 0) (Num 0) (Num 0) = Some (SpringTime (Num (16 * real k)))"
proof -
  have "energy (- 1) 0 \<le> (4 / 3) ^ 65 * (1 / 250000)" by (simp add: energy_def power_divide)
  from spring_ends [OF this, of "[Num 0]" 0] show ?thesis
    by (auto simp: springRK4Factory_def spring_init_def spring_state_def num_truthy_def)
qed

lemma generateBezier_clamped:
  assumes "generateBezier args = Some b"
  shows "\<exists>x1 y1 x2 y2. b = \<lparr>mX1 = Num x1, mY1 = Num y1, mX2 = Num x2, mY2 = Num y2\<rparr> \<and>
    0 \<le> x1 \<and> x1 \<le> 1 \<and> 0 \<le> x2 \<and> x2 \<le> 1"
proof -
  from assms have len: "length args = 4" and num: "list_all is_Num args"
    by (auto simp: generateBezier_def split: if_splits)
  from len obtain x1 y1 x2 y2 where args: "args = [x1, y1, x2, y2]"
    by (auto simp: numeral_eq_Suc length_Suc_conv)
  from num args obtain r1 s1 r2 s2 where "x1 = Num r1" "y1 = Num s1" "x2 = Num r2" "y2 = Num s2"
    by (auto elim!: is_NumE)
  with assms args show ?thesis
    by (auto simp: generateBezier_def)
qed

text \<open>
  Every registered easing maps 0 to 0 and 1 to 1, and so does every Bezier curve that a page asks for,
  however the table of its samples is rounded.
\<close>

theorem easing_ends:
  "list_all (\<lambda>(name, e). starts_and_ends fround e) Easings \<and>
   (case generateBezier args of None \<Rightarrow> True | Some b \<Rightarrow> starts_and_ends fround (Bezier b))"
  using ends_table generateBezier_clamped [of args]
  by (auto simp: starts_and_ends_def bezier_at_def split: option.splits)

text \<open>
  Where the x coordinates of an interval's ends lie around \<open>y\<close>, \<open>binarySubdivide\<close> returns a
  parameter of the interval whose x coordinate is as close as \<open>SUBDIVISION_PRECISION\<close>, or which is within
  a 1024th of the interval of one with the x coordinate \<open>y\<close>.
\<close>

lemma bisection_bound:
  assumes "mX1 b = Num x1" and "mX2 b = Num x2"
    and "calcBezier (Num a) (Num x1) (Num x2) \<le> Num y" and "Num y \<le> calcBezier (Num c) (Num x1) (Num x2)" and "a \<le> c"
  shows "\<exists>t. binarySubdivide b (Num y) (Num a) (Num c) = Num t \<and> a \<le> t \<and> t \<le> c \<and>
    (\<bar>bez x1 x2 t - y\<bar> \<le> 1 / 10000000 \<or> (\<exists>r. bez x1 x2 r = y \<and> \<bar>t - r\<bar> \<le> (c - a) / 1024))"
  using subdivide_found [OF assms(1,2), of a y c 10] assms(3-)
  by (simp add: binarySubdivide_def calcBezier_bez)

lemma bisection_bound_witness:
  "\<exists>t. binarySubdivide \<lparr>mX1 = Num 0.42, mY1 = Num 0, mX2 = Num 1, mY2 = Num 1\<rparr> (Num 0.1) (Num 0) (Num 0.1) = Num t \<and>
    0 \<le> t \<and> t \<le> 0.1"
  using bisection_bound [where b = "\<lparr>mX1 = Num 0.42, mY1 = Num 0, mX2 = Num 1, mY2 = Num 1\<rparr>"
    and ?x1.0 = "0.42" and ?x2.0 = 1 and a = 0 and c = "0.1" and y = "0.1"]
  by (auto simp: calcBezier_bez bez_def)

text \<open>
  The choice of an easing: a name is a registered one if the default is, and only an array of two numbers,
  a spring, can make the choice run forever.
\<close>

lemma getEasing_registered:
  "(case getEasing dflt v duration of
      Some (Name n) \<Rightarrow> n \<in> set (map fst Easings)
    | Some (Function _) \<Rightarrow> True
    | None \<Rightarrow> (\<exists>ten fric. v = EArray [ten, fric]))"
proof -
  have names: "map_of Easings n \<noteq> None \<Longrightarrow> n \<in> set (map fst Easings)" for n
    by (simp add: map_of_eq_None_iff)
  obtain n0 where d: "default_easing dflt = Name n0" "n0 \<in> set (map fst Easings)"
    using names [of dflt] by (auto simp: default_easing_def easing_names)
  show ?thesis
  proof (cases v)
    case (EString n)
    then show ?thesis using d(2) names [of n] by (cases "map_of Easings n") (simp_all add: getEasing_def d(1))
  next
    case (EArray args)
    consider "args = []" | n where "args = [n]" | ten fric where "args = [ten, fric]" | n m k ks where "args = n # m # k # ks"
      by (metis list.exhaust)
    then show ?thesis using d(2) EArray by cases (simp_all add: getEasing_def d(1) split: option.split)
  next
    case EOther
    then show ?thesis using d(2) by (simp add: getEasing_def d(1))
  qed
qed

end
