(* ===== verification/Velocity_Tween.thy ===== *)
theory Velocity_Tween
  imports JsText Velocity_Easing "HOL-Library.AList"
begin

section \<open>velocity.js: the values of an animation\<close>

text \<open>
  How a call turns the values of its property map into tweens, the values that a tick writes, and
  \<open>reverse\<close>.  The unit of a value, its operator and its number are read from its text; start values come
  from the call, from the call before or from the page; units are converted over pixels with ratios that
  the page measures.  Left out: properties that are part of another one (hooks) are treated as properties
  of their own, and so are colours given by their components.
\<close>

subsection \<open>Values\<close>

text \<open>
  A value of a property map, or one that the page returns: a number, a text, a number with a unit (which
  is the text of the two), the parameters of an easing, or a function, replaced by what it returns.
  Parameters of an easing stand only where the code expects an easing, and a function returns a number or a
  text.
\<close>

datatype pval = Number jsnum | Text string | Joined jsnum string | Params "jsnum list" | Callback pval

datatype pdata = One pval | Many "pval list"

definition is_digit :: "char \<Rightarrow> bool" where
  "is_digit c \<longleftrightarrow> (let n = of_char c :: nat in 48 \<le> n \<and> n \<le> 57)"

definition is_upper :: "char \<Rightarrow> bool" where
  "is_upper c \<longleftrightarrow> (let n = of_char c :: nat in 65 \<le> n \<and> n \<le> 90)"

definition is_lower :: "char \<Rightarrow> bool" where
  "is_lower c \<longleftrightarrow> (let n = of_char c :: nat in 97 \<le> n \<and> n \<le> 122)"

text \<open>Property names and values of the scripts are ASCII texts.\<close>

definition lower_char :: "char \<Rightarrow> char" where
  "lower_char c = (if is_upper c then char_of (of_char c + 32 :: nat) else c)"

definition upper_char :: "char \<Rightarrow> char" where
  "upper_char c = (if is_lower c then char_of (of_char c - 32 :: nat) else c)"

definition toLowerCase :: "string \<Rightarrow> string" where
  "toLowerCase s = map lower_char s"

fun camelCase :: "string \<Rightarrow> string" where
  "camelCase (c # d # s) =
     (if c = CHR ''-'' \<and> (is_digit d \<or> is_upper d \<or> is_lower d \<or> d = CHR ''_'') then upper_char d # camelCase s
      else c # camelCase (d # s))"
| "camelCase s = s"

definition unit_char :: "char \<Rightarrow> bool" where
  \<comment> \<open>\<open>[%A-z]\<close>, which has some marks between the letters\<close>
  "unit_char c \<longleftrightarrow> c = CHR ''%'' \<or> (let n = of_char c :: nat in 65 \<le> n \<and> n \<le> 122)"

definition digits_value :: "string \<Rightarrow> real" where
  "digits_value ds = foldl (\<lambda>n d. 10 * n + (of_char d - 48)) 0 ds"

definition exponent_of :: "string \<Rightarrow> real" where
  \<comment> \<open>the factor of the exponent at the beginning of a text\<close>
  "exponent_of s =
     (case s of
        [] \<Rightarrow> 1
      | e # t \<Rightarrow>
          if e \<noteq> CHR ''e'' \<and> e \<noteq> CHR ''E'' then 1
          else
            let neg = (t \<noteq> [] \<and> hd t = CHR ''-'');
                ds = takeWhile is_digit (if t \<noteq> [] \<and> hd t \<in> set ''+-'' then tl t else t);
                k = nat \<lfloor>digits_value ds\<rfloor>
            in if neg then 1 / 10 ^ k else 10 ^ k)"

definition parseFloat :: "string \<Rightarrow> jsnum" where
  "parseFloat s =
     (let s = dropWhile (\<lambda>c. c = CHR '' '' \<or> (9 \<le> (of_char c :: nat) \<and> (of_char c :: nat) \<le> 13)) s;
          sign = (if s \<noteq> [] \<and> hd s = CHR ''-'' then - 1 else 1 :: real);
          s = (if s \<noteq> [] \<and> hd s \<in> set ''+-'' then tl s else s);
          ds = takeWhile is_digit s;
          r = dropWhile is_digit s;
          dot = (r \<noteq> [] \<and> hd r = CHR ''.'');
          fs = (if dot then takeWhile is_digit (tl r) else []);
          r = (if dot then dropWhile is_digit (tl r) else r)
      in if take 8 s = ''Infinity'' then inf_of sign
         else if ds = [] \<and> fs = [] then NaN
         else Num (sign * (digits_value (ds @ fs) / 10 ^ length fs) * exponent_of r))"

definition or_zero :: "jsnum \<Rightarrow> jsnum" where
  "or_zero x = (if num_truthy x then x else Num 0)"

fun is_falsy :: "pval \<Rightarrow> bool" where
  "is_falsy (Number x) = (\<not> num_truthy x)"
| "is_falsy (Text s) = (s = [])"
| "is_falsy _ = False"

subsection \<open>parsePropertyValue\<close>

definition isHex :: "string \<Rightarrow> bool" where
  \<comment> \<open>\<open>/^#([A-f\d]{3}){1,2}$/i\<close>: the class has all letters, and the marks between \<open>Z\<close> and \<open>a\<close>\<close>
  "isHex s \<longleftrightarrow>
     s \<noteq> [] \<and> hd s = CHR ''#'' \<and> length s \<in> {4, 7} \<and>
     list_all (\<lambda>c. is_digit c \<or> (let n = of_char c :: nat in 65 \<le> n \<and> n \<le> 122)) (tl s)"

fun starts_numeric :: "pval \<Rightarrow> bool" where
  \<comment> \<open>\<open>/^[\d-]/\<close> on the text of a value\<close>
  "starts_numeric (Number x) = (is_Num x \<or> x = NegInfinity)"
| "starts_numeric (Joined x u) = (is_Num x \<or> x = NegInfinity)"
| "starts_numeric (Text s) = (s \<noteq> [] \<and> (is_digit (hd s) \<or> hd s = CHR ''-''))"
| "starts_numeric _ = False"

fun call_back :: "pval \<Rightarrow> pval" where
  "call_back (Callback v) = v"
| "call_back v = v"

text \<open>
  The end value, the easing as it is given and the start value, if there are.
\<close>

definition parsePropertyValue :: "pdata \<Rightarrow> pval \<times> pval option \<times> pval option" where
  "parsePropertyValue data =
     (let (endValue, easing, startValue) =
        (case data of
           One v \<Rightarrow> (v, None, None)
         | Many [] \<Rightarrow> (Number NaN, None, None)
         | Many [v] \<Rightarrow> (v, None, None)
         | Many (v # w # vs) \<Rightarrow>
             if starts_numeric w \<or> (case w of Callback _ \<Rightarrow> True | Text s \<Rightarrow> isHex s | _ \<Rightarrow> False)
             then (v, None, Some w)
             else case w of
                Text s \<Rightarrow> (v, Some w, case vs of [] \<Rightarrow> None | x # _ \<Rightarrow> Some x)
              | Params ns \<Rightarrow> (v, Some w, case vs of [] \<Rightarrow> None | x # _ \<Rightarrow> Some x)
              | _ \<Rightarrow> (v, None, None));
          endValue = call_back endValue
      in (if is_falsy endValue then Number (Num 0) else endValue, easing, map_option call_back startValue))"

subsection \<open>separateValue\<close>

text \<open>The suffix of a text, which is the unit, and what is before it.\<close>

definition split_unit :: "string \<Rightarrow> string \<times> string" where
  "split_unit s = (rev (dropWhile unit_char (rev s)), rev (takeWhile unit_char (rev s)))"

definition ends_with :: "string \<Rightarrow> string \<Rightarrow> bool" where
  "ends_with s p \<longleftrightarrow> length p \<le> length s \<and> drop (length s - length p) s = p"

definition getUnitType :: "string \<Rightarrow> string" where
  "getUnitType property =
     (let p = toLowerCase property in
      if take 6 p = ''rotate'' \<or> take 4 p = ''skew'' then ''deg''
      else if p \<in> set [''scale'', ''scalex'', ''scaley'', ''scalez'', ''alpha'', ''flexgrow'', ''flexheight'', ''zindex'', ''fontweight'']
        \<or> list_ex (ends_with p) [''opacity'', ''red'', ''green'', ''blue'', ''alpha'']
      then [] else ''px'')"

text \<open>
  The number of a value as a text, or as a number where the value is one and its text is that of the number.
\<close>

datatype numeral = Digits string | Known jsnum

definition separate_number :: "jsnum \<Rightarrow> string \<Rightarrow> numeral \<times> string" where
  \<comment> \<open>the text of a number, followed by a unit\<close>
  "separate_number x u =
     (case x of
        Num a \<Rightarrow> (Known x, toLowerCase u)
      | Infinity \<Rightarrow> (Digits [], ''infinity'' @ toLowerCase u)
      | NegInfinity \<Rightarrow> (Digits ''-'', ''infinity'' @ toLowerCase u)
      | NaN \<Rightarrow> (Digits [], ''nan'' @ toLowerCase u))"

definition separateValue :: "string \<Rightarrow> pval \<Rightarrow> numeral \<times> string" where
  "separateValue property v =
     (let (n, u) =
        (case (if is_falsy v then Text ''0'' else v) of
           Number x \<Rightarrow> separate_number x []
         | Joined x u \<Rightarrow> separate_number x u
         | Text s \<Rightarrow> (let (n, u) = split_unit (toLowerCase s) in (Digits n, u))
         | _ \<Rightarrow> (Digits [], []))
      in (n, if u = [] then getUnitType property else u))"


text \<open>\<open>/^([+-\/*])=/\<close>: the class has the marks from plus to slash, and the star.\<close>

definition split_operator :: "numeral \<Rightarrow> char option \<times> numeral" where
  "split_operator n =
     (case n of
        Digits (c # d # s) \<Rightarrow>
          if d = CHR ''='' \<and> c \<in> set ''+,-./*'' then (Some c, Digits s) else (None, n)
      | _ \<Rightarrow> (None, n))"

definition number_of :: "numeral \<Rightarrow> jsnum" where
  \<comment> \<open>\<open>parseFloat(\<dots>) || 0\<close>\<close>
  "number_of n = or_zero (case n of Digits s \<Rightarrow> parseFloat s | Known x \<Rightarrow> x)"

subsection \<open>Units\<close>

record ratios =
  percentToPxWidth :: jsnum
  percentToPxHeight :: jsnum
  emToPx :: jsnum
  remToPx :: jsnum
  vwToPx :: jsnum
  vhToPx :: jsnum

text \<open>The values that are percentages where the property takes another unit.\<close>

definition percent_value :: "string \<Rightarrow> jsnum \<times> string \<Rightarrow> jsnum \<times> string" where
  "percent_value property vu =
     (let (v, u) = vu in
      if u = ''%'' then
        if property \<in> set [''fontSize'', ''lineHeight''] then (v / Num 100, ''em'')
        else if take 5 property = ''scale'' then (v / Num 100, [])
        else if list_ex (ends_with (toLowerCase property)) [''red'', ''green'', ''blue''] then (v / Num 100 * Num 255, [])
        else vu
      else vu)"

definition horizontal :: "string \<Rightarrow> bool" where
  "horizontal property \<longleftrightarrow>
     list_ex (\<lambda>w. occurs w (toLowerCase property)) [''margin'', ''padding'', ''left'', ''right'', ''width'', ''text'', ''word'', ''letter'']
     \<or> ends_with property ''X'' \<or> property = ''x''"

definition unit_ratio :: "bool \<Rightarrow> ratios \<Rightarrow> string \<Rightarrow> jsnum" where
  \<comment> \<open>pixels of a unit; a unit that the code does not know has \<open>undefined\<close>\<close>
  "unit_ratio x_axis r u =
     (if u = ''%'' then (if x_axis then percentToPxWidth r else percentToPxHeight r)
      else if u = ''px'' then Num 1
      else if u = ''em'' then emToPx r else if u = ''rem'' then remToPx r
      else if u = ''vw'' then vwToPx r else if u = ''vh'' then vhToPx r
      else NaN)"

definition to_unit :: "bool \<Rightarrow> ratios \<Rightarrow> string \<Rightarrow> string \<Rightarrow> jsnum \<Rightarrow> jsnum" where
  "to_unit x_axis r u u' v =
     (let v = (if u = ''px'' then v else v * unit_ratio x_axis r u)
      in if u' = ''px'' then v else v * (Num 1 / unit_ratio x_axis r u'))"

text \<open>The start value in the unit of the tween, and that unit.\<close>

definition convert :: "bool \<Rightarrow> ratios \<Rightarrow> char option \<Rightarrow> jsnum \<times> string \<Rightarrow> jsnum \<times> string \<Rightarrow> jsnum \<times> string" where
  "convert x_axis r operator start goal =
     (let (v, u) = start; (w, u') = goal in
      if operator \<in> {Some CHR ''/'', Some CHR ''*''} then (v, u)
      else if u \<noteq> u' \<and> \<not> js_eq v (Num 0) then
        if js_eq w (Num 0) then (v, u) else (to_unit x_axis r u u' v, u')
      else (v, u'))"

definition operate :: "char option \<Rightarrow> jsnum \<Rightarrow> jsnum \<Rightarrow> jsnum" where
  "operate operator v w =
     (if operator = Some CHR ''+'' then v + w
      else if operator = Some CHR ''-'' then v - w
      else if operator = Some CHR ''*'' then v * w
      else if operator = Some CHR ''/'' then v / w
      else w)"

text \<open>
  \<open>calculateUnitRatios\<close> measures a new element beside the animated one, unless the one that was measured
  before in the call had the same parent, position and size of font.
\<close>

record measures =
  widthOf100 :: jsnum
  heightOf100 :: jsnum
  emOf100 :: jsnum

record unit_cache =
  lastParent :: "nat option"
  lastPosition :: "string option"
  lastFontSize :: "string option"
  lastPercentToPxWidth :: jsnum
  lastPercentToPxHeight :: jsnum
  lastEmToPx :: jsnum

definition new_cache :: unit_cache where
  "new_cache = \<lparr>lastParent = None, lastPosition = None, lastFontSize = None, lastPercentToPxWidth = NaN,
     lastPercentToPxHeight = NaN, lastEmToPx = NaN\<rparr>"

definition or_one :: "jsnum \<Rightarrow> jsnum" where
  "or_one x = (if num_truthy x then x else Num 1)"

definition calculateUnitRatios ::
  "(nat \<Rightarrow> string \<Rightarrow> string \<Rightarrow> measures) \<Rightarrow> jsnum \<Rightarrow> jsnum \<times> jsnum \<Rightarrow> nat \<times> string \<times> string \<Rightarrow> unit_cache
    \<Rightarrow> ratios \<times> unit_cache" where
  "calculateUnitRatios taken rootSize window e c =
     (let (parent, position, fontSize) = e;
          samePercentRatio = (lastPosition c = Some position \<and> lastParent c = Some parent);
          sameEmRatio = (lastFontSize c = Some fontSize);
          c = c\<lparr>lastParent := Some parent, lastPosition := Some position, lastFontSize := Some fontSize\<rparr>;
          m = taken parent position fontSize;
          c = (if \<not> sameEmRatio \<or> \<not> samePercentRatio
               then c\<lparr>lastPercentToPxWidth := or_one (widthOf100 m) / Num 100,
                      lastPercentToPxHeight := or_one (heightOf100 m) / Num 100,
                      lastEmToPx := or_one (emOf100 m) / Num 100\<rparr>
               else c)
      in (\<lparr>percentToPxWidth = lastPercentToPxWidth c, percentToPxHeight = lastPercentToPxHeight c,
           emToPx = lastEmToPx c, remToPx = (if num_truthy rootSize then rootSize else Num 16),
           vwToPx = fst window / Num 100, vhToPx = snd window / Num 100\<rparr>, c))"


subsection \<open>Tweens\<close>

record tween =
  start_value :: jsnum
  current_value :: jsnum
  end_value :: jsnum
  unit_type :: string
  curve :: chosen

datatype keyword = Undefined | Null | Word string

definition reveals :: "keyword \<Rightarrow> keyword \<Rightarrow> bool" where
  \<comment> \<open>the options \<open>display\<close> and \<open>visibility\<close> of a call make its elements visible\<close>
  "reveals display visibility \<longleftrightarrow>
     display \<notin> {Undefined, Null, Word ''none''} \<or> visibility \<notin> {Undefined, Word ''hidden''}"

text \<open>
  What a call on an element depends on: its options, the tweens of the call before if the element was being
  animated, the values that the page returns and the ratios of its units.
\<close>

record call_env =
  display_opt :: keyword
  visibility_opt :: keyword
  cacheValues :: bool
  last_tweens :: "string \<Rightarrow> tween option"
  page_value :: "string \<Rightarrow> pval"
  unit_ratios :: ratios
  call_curve :: chosen
  call_duration :: jsnum
  default_curve :: string

fun easing_arg :: "pval \<Rightarrow> easing_option" where
  "easing_arg (Text s) = EString s"
| "easing_arg (Params ns) = EArray ns"
| "easing_arg _ = EOther"

definition start_source :: "call_env \<Rightarrow> string \<Rightarrow> pval \<Rightarrow> pval option \<Rightarrow> pval" where
  "start_source k property endValue startValue =
     (let startValue =
        (if reveals (display_opt k) (visibility_opt k)
            \<and> (occurs ''opacity'' property \<or> occurs ''filter'' property)
            \<and> (case startValue of None \<Rightarrow> True | Some v \<Rightarrow> is_falsy v) \<and> endValue \<noteq> Number (Num 0)
         then Some (Number (Num 0)) else startValue)
      in case startValue of
           Some v \<Rightarrow> v
         | None \<Rightarrow>
             (case (if cacheValues k then last_tweens k property else None) of
                Some t \<Rightarrow> Joined (end_value t) (unit_type t)
              | None \<Rightarrow> page_value k property))"

text \<open>The tween of a property; \<open>None\<close> if the simulation of its easing does not end.\<close>

definition tween_values :: "call_env \<Rightarrow> string \<Rightarrow> pval \<Rightarrow> pval \<Rightarrow> chosen \<Rightarrow> tween" where
  "tween_values k property endValue startValue easing =
     (let (n, u) = separateValue property startValue;
          (m, w) = separateValue property endValue;
          (operator, m) = split_operator m;
          goal = percent_value property (number_of m, w);
          (v, w') = convert (horizontal property) (unit_ratios k) operator (number_of n, u) goal
      in \<lparr>start_value = v, current_value = v, end_value = operate operator v (fst goal), unit_type = w', curve = easing\<rparr>)"

definition tween_of :: "call_env \<Rightarrow> string \<Rightarrow> pdata \<Rightarrow> tween option" where
  "tween_of k name data =
     (let (endValue, easing, startValue) = parsePropertyValue data;
          property = camelCase name
      in map_option (tween_values k property endValue (start_source k property endValue startValue))
           (case easing of None \<Rightarrow> Some (call_curve k)
            | Some e \<Rightarrow> getEasing (default_curve k) (easing_arg e) (call_duration k)))"

text \<open>\<open>tweensContainer\<close>: properties that the browser does not support are skipped.\<close>

fun tweens_of :: "(string \<Rightarrow> bool) \<Rightarrow> call_env \<Rightarrow> (string \<times> pdata) list \<Rightarrow> (string \<times> tween) list \<Rightarrow> (string \<times> tween) list option" where
  "tweens_of supported k [] ts = Some ts"
| "tweens_of supported k ((name, data) # ps) ts =
     (if supported (camelCase name) then
        (case tween_of k name data of
           None \<Rightarrow> None
         | Some t \<Rightarrow> tweens_of supported k ps (AList.update (camelCase name) t ts))
      else tweens_of supported k ps ts)"

subsection \<open>Ticks\<close>

definition eased :: "(jsnum \<Rightarrow> jsnum) \<Rightarrow> chosen \<Rightarrow> jsnum \<Rightarrow> jsnum res" where
  "eased fround e p =
     (case (case e of Name n \<Rightarrow> map_of Easings n | Function f \<Rightarrow> Some f) of
        None \<Rightarrow> Inl TypeError
      | Some (SpringTime _) \<Rightarrow> Inl TypeError
      | Some f \<Rightarrow> Inr (case ease fround f p of None \<Rightarrow> NaN | Some y \<Rightarrow> y))"

text \<open>
  The value of a tween at a share of the time, and whether it is written to the page.  (The variable
  \<open>firstTick\<close> of the code is true in all ticks of a call but the first.)
\<close>

definition tick_tween :: "(jsnum \<Rightarrow> jsnum) \<Rightarrow> bool \<Rightarrow> jsnum \<Rightarrow> tween \<Rightarrow> (tween \<times> bool) res" where
  "tick_tween fround firstTick percentComplete t =
     (if js_eq percentComplete (Num 1) then Inr (t\<lparr>current_value := end_value t\<rparr>, True)
      else
        andThen (eased fround (curve t) percentComplete) (\<lambda>y.
          let v = start_value t + (end_value t - start_value t) * y in
          if \<not> firstTick \<and> js_eq v (current_value t) then Inr (t, False)
          else Inr (t\<lparr>current_value := v\<rparr>, True)))"

definition written :: "tween \<Rightarrow> pval" where
  "written t = Joined (current_value t) (if js_eq (current_value t) (Num 0) then [] else unit_type t)"

fun tick_tweens ::
  "(jsnum \<Rightarrow> jsnum) \<Rightarrow> bool \<Rightarrow> jsnum \<Rightarrow> (string \<times> tween) list \<Rightarrow> (string \<Rightarrow> pval) \<Rightarrow>
    ((string \<times> tween) list \<times> (string \<Rightarrow> pval)) res" where
  "tick_tweens fround firstTick p [] page = Inr ([], page)"
| "tick_tweens fround firstTick p ((property, t) # ts) page =
     andThen (tick_tween fround firstTick p t) (\<lambda>(t, w).
     andThen (tick_tweens fround firstTick p ts
                (if w \<and> property \<noteq> ''tween'' then page(property := written t) else page)) (\<lambda>(ts, page).
     Inr ((property, t) # ts, page)))"

subsection \<open>Reverse and loop\<close>

text \<open>\<open>given\<close>: the reverse call has options of its own, and the easing that results from them.\<close>

definition reverse_tween :: "chosen option \<Rightarrow> tween \<Rightarrow> tween" where
  "reverse_tween given t =
     t\<lparr>start_value := end_value t, current_value := end_value t, end_value := start_value t,
       curve := (case given of None \<Rightarrow> curve t | Some e \<Rightarrow> e)\<rparr>"

definition reverse_tweens :: "chosen option \<Rightarrow> (string \<times> tween) list \<Rightarrow> (string \<times> tween) list" where
  "reverse_tweens given ts = map (\<lambda>(p, t). (p, reverse_tween given t)) ts"

definition reverse_calls :: "int \<Rightarrow> nat" where
  \<comment> \<open>the reverse calls that the option \<open>loop\<close> adds\<close>
  "reverse_calls loop = (if loop = 0 then 0 else nat (loop * 2 - 1))"

end
