(* ===== verification/Velocity_Styles.thy ===== *)
theory Velocity_Styles
  imports Velocity_Tween
begin

section \<open>velocity.js: hooks, colours and transforms\<close>

text \<open>
  A value that is one of several in a CSS property is animated through a hook: the name of the property
  and the position in its value.  Colours are brought to four numbers for that, and back; transforms are
  kept in a cache of the element and written together.  The branches for Internet Explorer before version
  10 are left out, and texts are ASCII.
\<close>

subsection \<open>Texts\<close>

definition blank :: "char \<Rightarrow> bool" where
  "blank c \<longleftrightarrow> (let n = of_char c :: nat in n = 32 \<or> 9 \<le> n \<and> n \<le> 13)"

definition az :: "char \<Rightarrow> bool" where
  \<comment> \<open>\<open>[A-z]\<close>\<close>
  "az c \<longleftrightarrow> (let n = of_char c :: nat in 65 \<le> n \<and> n \<le> 122)"

fun split_on :: "char \<Rightarrow> string \<Rightarrow> string list" where
  \<comment> \<open>\<open>split\<close> at a character\<close>
  "split_on d [] = [[]]"
| "split_on d (c # s) = (if c = d then [] # split_on d s else (case split_on d s of w # ws \<Rightarrow> (c # w) # ws | [] \<Rightarrow> [[c]]))"

fun show_nat :: "nat \<Rightarrow> string" where
  "show_nat n = (if n < 10 then [char_of (48 + n)] else show_nat (n div 10) @ [char_of (48 + n mod 10)])"

declare show_nat.simps [simp del]

subsection \<open>Hooks\<close>

definition colors :: "string list" where
  "colors = [''fill'', ''stroke'', ''stopColor'', ''color'', ''backgroundColor'', ''borderColor'', ''borderTopColor'',
     ''borderRightColor'', ''borderBottomColor'', ''borderLeftColor'', ''outlineColor'']"

text \<open>The names of the values of a property, and their defaults.\<close>

definition hook_templates :: "(string \<times> string \<times> string) list" where
  "hook_templates =
     [(''textShadow'', ''Color X Y Blur'', ''black 0px 0px 0px''),
      (''boxShadow'', ''Color X Y Blur Spread'', ''black 0px 0px 0px 0px''),
      (''clip'', ''Top Right Bottom Left'', ''0px 0px 0px 0px''),
      (''backgroundPosition'', ''X Y'', ''0% 0%''),
      (''transformOrigin'', ''X Y Z'', ''50% 50% 0px''),
      (''perspectiveOrigin'', ''X Y'', ''50% 50%'')] @
     map (\<lambda>c. (c, ''Red Green Blue Alpha'', if c = ''color'' then ''0 0 0 1'' else ''255 255 255 1'')) colors"

definition hooks :: "(string \<times> string \<times> nat) list" where
  "hooks =
     concat (map (\<lambda>(rt, names, _).
       (let ns = split_on CHR '' '' names in map (\<lambda>i. (rt @ ns ! i, rt, i)) [0..<length ns])) hook_templates)"

definition hook :: "string \<Rightarrow> (string \<times> nat) option" where
  "hook property = map_of hooks property"

definition getRoot :: "string \<Rightarrow> string" where
  "getRoot property = (case hook property of Some (rt, _) \<Rightarrow> rt | None \<Rightarrow> property)"

text \<open>\<open>valueUnwrap\<close> is \<open>/^[A-z]+\((.*)\)$/i\<close>.\<close>

definition unwrap :: "string \<Rightarrow> string option" where
  "unwrap s =
     (let r = dropWhile az s in
      if takeWhile az s \<noteq> [] \<and> length r \<ge> 2 \<and> hd r = CHR ''('' \<and> last r = CHR '')'' \<and> list_all (\<lambda>c. of_char c \<noteq> (10::nat)) r
      then Some (butlast (tl r)) else None)"

text \<open>
  A text that is zero as a number (in decimal digits, without an exponent), and the texts for no value.
\<close>

definition is_zero_text :: "string \<Rightarrow> bool" where
  "is_zero_text s \<longleftrightarrow>
     (let t = (if s \<noteq> [] \<and> hd s \<in> set ''+-'' then tl s else s) in
      s = [] \<or> list_all (\<lambda>c. c \<in> set ''0.'') t \<and> CHR ''0'' \<in> set t \<and> length (filter (\<lambda>c. c = CHR ''.'') t) \<le> 1)"

definition null_texts :: "string list" where
  \<comment> \<open>\<open>/^(none|auto|transparent|(rgba\(0, ?0, ?0, ?0\)))$/i\<close>\<close>
  "null_texts = [''none'', ''auto'', ''transparent'', ''rgba(0,0,0,0)'', ''rgba(0, 0,0,0)'', ''rgba(0,0, 0,0)'',
     ''rgba(0,0,0, 0)'', ''rgba(0, 0, 0,0)'', ''rgba(0, 0,0, 0)'', ''rgba(0,0, 0, 0)'', ''rgba(0, 0, 0, 0)'']"

definition isCSSNullValue :: "string \<Rightarrow> bool" where
  "isCSSNullValue s \<longleftrightarrow> is_zero_text s \<or> toLowerCase s \<in> set null_texts"

definition cleanRootPropertyValue :: "string \<Rightarrow> string \<Rightarrow> string" where
  "cleanRootPropertyValue rt v =
     (let v = (case unwrap v of Some w \<Rightarrow> w | None \<Rightarrow> v)
      in if isCSSNullValue v then (case map_of hook_templates rt of Some (_, d) \<Rightarrow> d | None \<Rightarrow> v) else v)"

text \<open>
  \<open>valueSplit\<close> is \<open>/([A-z]+\(.+\))|(([A-z0-9#-.]+?)(?=\s|$))/ig\<close>: a function with its arguments up to the
  last parenthesis of the line, or the characters up to the next blank (the class has the marks from the
  hash to the dot, the parentheses among them).
\<close>

definition value_char :: "char \<Rightarrow> bool" where
  "value_char c \<longleftrightarrow> az c \<or> is_digit c \<or> (let n = of_char c :: nat in 35 \<le> n \<and> n \<le> 46)"

definition call_length :: "string \<Rightarrow> nat" where
  \<comment> \<open>the length of the function at the beginning of a text, 0 if there is none\<close>
  "call_length s =
     (let n = length (takeWhile az s);
          r = takeWhile (\<lambda>c. of_char c \<noteq> (10::nat)) (drop n s);
          k = length (dropWhile (\<lambda>c. c \<noteq> CHR '')'') (rev r))
      in if n > 0 \<and> r \<noteq> [] \<and> hd r = CHR ''('' \<and> k \<ge> 3 then n + k else 0)"

definition word_length :: "string \<Rightarrow> nat" where
  "word_length s =
     (let n = length (takeWhile value_char s) in
      if n < length s \<and> \<not> blank (s ! n) then 0 else n)"

function split_values :: "string \<Rightarrow> string list" where
  "split_values s =
     (if s = [] then []
      else if call_length s > 0 then take (call_length s) s # split_values (drop (call_length s) s)
      else if word_length s > 0 then take (word_length s) s # split_values (drop (word_length s) s)
      else split_values (tl s))"
  by pat_completeness auto
termination by (relation "measure length") auto

declare split_values.simps [simp del]

text \<open>\<open>match\<close> gives \<open>null\<close> if there is nothing to match.\<close>

definition extractValue :: "string \<Rightarrow> string \<Rightarrow> string option res" where
  "extractValue name rootValue =
     (case hook name of
        Some (rt, i) \<Rightarrow>
          (let ws = split_values (cleanRootPropertyValue rt rootValue) in
           if ws = [] then Inl TypeError else Inr (if i < length ws then Some (ws ! i) else None))
      | None \<Rightarrow> Inr (Some rootValue))"

definition injectValue :: "string \<Rightarrow> string \<Rightarrow> string \<Rightarrow> string res" where
  "injectValue name v rootValue =
     (case hook name of
        Some (rt, i) \<Rightarrow>
          (let ws = split_values (cleanRootPropertyValue rt rootValue) in
           if ws = [] then Inl TypeError
           else Inr (str_join '' '' (if i < length ws then ws[i := v] else ws @ replicate (i - length ws) [] @ [v])))
      | None \<Rightarrow> Inr rootValue)"

subsection \<open>Colours\<close>

definition hex_value :: "char \<Rightarrow> nat" where
  "hex_value c = (let n = of_char c :: nat in if n \<ge> 97 then n - 87 else if n \<ge> 65 then n - 55 else n - 48)"

definition is_hex_digit :: "char \<Rightarrow> bool" where
  "is_hex_digit c \<longleftrightarrow> is_digit c \<or> (let n = of_char (lower_char c) :: nat in 97 \<le> n \<and> n \<le> 102)"

definition hex_to_rgb :: "string \<Rightarrow> nat list" where
  \<comment> \<open>\<open>hexToRgb\<close>\<close>
  "hex_to_rgb hex =
     (let body = (if hex \<noteq> [] \<and> hd hex = CHR ''#'' then tl hex else hex);
          hex = (if length body = 3 \<and> list_all is_hex_digit body
                 then concat (map (\<lambda>c. [c, c]) body) else hex);
          body = (if hex \<noteq> [] \<and> hd hex = CHR ''#'' then tl hex else hex)
      in if length body = 6 \<and> list_all is_hex_digit body
         then map (\<lambda>i. 16 * hex_value (body ! (2 * i)) + hex_value (body ! (2 * i + 1))) [0, 1, 2]
         else [0, 0, 0])"

definition color_names :: "(string \<times> string) list" where
  "color_names = [(''black'', ''rgb(0, 0, 0)''), (''blue'', ''rgb(0, 0, 255)''), (''gray'', ''rgb(128, 128, 128)''),
     (''green'', ''rgb(0, 128, 0)''), (''red'', ''rgb(255, 0, 0)''), (''white'', ''rgb(255, 255, 255)'')]"

text \<open>\<open>wrappedValueAlreadyExtracted\<close>: somewhere three groups of digits and dots with single spaces between.\<close>

definition num_char :: "char \<Rightarrow> bool" where
  "num_char c \<longleftrightarrow> is_digit c \<or> c = CHR ''.''"

fun groups_at :: "nat \<Rightarrow> string \<Rightarrow> bool" where
  \<comment> \<open>a group, and \<open>k\<close> more of them behind spaces\<close>
  "groups_at 0 s = (s \<noteq> [] \<and> num_char (hd s))"
| "groups_at (Suc k) s =
     (let r = dropWhile num_char s in
      s \<noteq> [] \<and> num_char (hd s) \<and> r \<noteq> [] \<and> hd r = CHR '' '' \<and> groups_at k (tl r))"

fun already_extracted :: "string \<Rightarrow> bool" where
  "already_extracted [] = False"
| "already_extracted (c # s) = (groups_at 2 (c # s) \<or> already_extracted s)"

function commas_to_spaces :: "string \<Rightarrow> string" where
  "commas_to_spaces [] = []"
| "commas_to_spaces (c # s) =
     (if c = CHR '','' then CHR '' '' # commas_to_spaces (dropWhile blank s) else c # commas_to_spaces s)"
  by pat_completeness auto
termination by (relation "measure length") (auto simp: le_imp_less_Suc length_dropWhile_le)

definition add_alpha :: "string \<Rightarrow> string" where
  "add_alpha s = (if length (split_on CHR '' '' s) = 3 then s @ '' 1'' else s)"

definition color_extract :: "string \<Rightarrow> string res" where
  "color_extract v =
     (if already_extracted v then Inr (add_alpha v)
      else
        let converted =
          (if v \<noteq> [] \<and> list_all az v then
             (case map_of color_names v of Some c \<Rightarrow> c | None \<Rightarrow> ''rgb(0, 0, 0)'')
           else if isHex v then ''rgb('' @ str_join '' '' (map show_nat (hex_to_rgb v)) @ '')''
           else if \<not> (take 4 (toLowerCase v) = ''rgb('' \<or> take 5 (toLowerCase v) = ''rgba('') then ''rgb(0, 0, 0)''
           else v)
        in case unwrap converted of None \<Rightarrow> Inl TypeError | Some w \<Rightarrow> Inr (add_alpha (commas_to_spaces w)))"

function spaces_to_commas :: "string \<Rightarrow> string" where
  "spaces_to_commas [] = []"
| "spaces_to_commas (c # s) =
     (if blank c then CHR '','' # spaces_to_commas (dropWhile blank s) else c # spaces_to_commas s)"
  by pat_completeness auto
termination by (relation "measure length") (auto simp: le_imp_less_Suc length_dropWhile_le)

function strip_decimals :: "string \<Rightarrow> string" where
  \<comment> \<open>\<open>replace(/\.(\d)+(?=,)/g, "")\<close>\<close>
  "strip_decimals [] = []"
| "strip_decimals (c # s) =
     (if c = CHR ''.'' \<and> takeWhile is_digit s \<noteq> [] \<and> dropWhile is_digit s \<noteq> [] \<and> hd (dropWhile is_digit s) = CHR '',''
      then strip_decimals (dropWhile is_digit s) else c # strip_decimals s)"
  by pat_completeness auto
termination by (relation "measure length") (auto simp: le_imp_less_Suc length_dropWhile_le)

definition color_inject :: "string \<Rightarrow> string" where
  "color_inject v = ''rgba('' @ strip_decimals (spaces_to_commas (add_alpha v)) @ '')''"


subsection \<open>Transforms\<close>

definition transforms :: "string list" where
  "transforms = [''translateX'', ''translateY'', ''scale'', ''scaleX'', ''scaleY'', ''skewX'', ''skewY'', ''rotateZ''] @
     [''transformPerspective'', ''translateZ'', ''scaleZ'', ''rotateX'', ''rotateY'']"

text \<open>The cache of an element: transforms in the order in which they were first set, with their values in parentheses.\<close>

type_synonym transform_cache = "(string \<times> string) list"

definition transform_extract :: "transform_cache \<Rightarrow> string \<Rightarrow> string" where
  "transform_extract cache name =
     (case map_of cache name of
        None \<Rightarrow> (if take 5 (toLowerCase name) = ''scale'' then ''1'' else ''0'')
      | Some v \<Rightarrow> filter (\<lambda>c. c \<notin> set ''()'') v)"

definition last_digit :: "string \<Rightarrow> bool" where
  "last_digit v \<longleftrightarrow> v \<noteq> [] \<and> is_digit (last v)"

definition transform_invalid :: "string \<Rightarrow> string \<Rightarrow> bool" where
  "transform_invalid name v =
     (let kind = butlast name in
      if kind = ''translate'' then
        \<not> (last_digit v \<or> list_ex (ends_with (toLowerCase v)) [''%'', ''px'', ''em'', ''rem'', ''vw'', ''vh''])
      else if kind \<in> set [''scal'', ''scale''] then \<not> last_digit v
      else if kind \<in> set [''skew'', ''rotate''] then \<not> (last_digit v \<or> ends_with (toLowerCase v) ''deg'')
      else False)"

text \<open>On Android a scale that is set for the first time is at least 1.\<close>

definition transform_inject :: "bool \<Rightarrow> string \<Rightarrow> string \<Rightarrow> transform_cache \<Rightarrow> transform_cache" where
  "transform_inject isAndroid name v cache =
     (let v = (if butlast name \<in> set [''scal'', ''scale''] \<and> isAndroid \<and> map_of cache name = None \<and> parseFloat v < Num 1
               then ''1'' else v)
      in if transform_invalid name v then cache else AList.update name (''('' @ v @ '')'') cache)"

definition flushTransformCache :: "transform_cache \<Rightarrow> string" where
  "flushTransformCache cache =
     (let s = concat (map (\<lambda>(n, v). n @ v @ '' '') (filter (\<lambda>(n, v). n \<noteq> ''transformPerspective'') cache))
      in case map_of cache ''transformPerspective'' of
           None \<Rightarrow> s
         | Some v \<Rightarrow> ''perspective'' @ v @ '' '' @ s)"

end
