(* ===== verification/Velocity_Style_Props.thy ===== *)
theory Velocity_Style_Props
  imports Velocity_Styles
begin

section \<open>Hooks, colours and transforms: what is written can be read\<close>

text \<open>
  A hook that is set is read back and leaves the other values of its property alone, a colour survives
  being written, and the text of an element's transforms holds the values that were set, with allowed
  units only.
\<close>

subsection \<open>Hooks\<close>

definition plain_word :: "string \<Rightarrow> bool" where
  "plain_word w \<longleftrightarrow> w \<noteq> [] \<and> list_all (\<lambda>c. value_char c \<and> c \<noteq> CHR ''('') w"

lemma blank_not_value: "blank c \<Longrightarrow> \<not> value_char c"
  by (auto simp: blank_def value_char_def az_def is_digit_def Let_def)

lemma az_value: "az c \<Longrightarrow> value_char c"
  by (simp add: value_char_def)

lemma takeWhile_word:
  assumes "list_all P w" "r = [] \<or> \<not> P (hd r)"
  shows "takeWhile P (w @ r) = w" "dropWhile P (w @ r) = r"
  using assms by (induction w) (auto simp: hd_conv_nth takeWhile_eq_Nil_iff dropWhile_eq_self_iff)

lemma hd_tw: "takeWhile P xs \<noteq> [] \<Longrightarrow> hd (takeWhile P xs) = hd xs"
  by (cases xs) (auto split: if_splits)

lemma split_word:
  assumes w: "plain_word w" and r: "r = [] \<or> blank (hd r)"
  shows "split_values (w @ r) = w # split_values r"
proof -
  have v: "list_all value_char w" using w by (auto simp: plain_word_def list_all_iff)
  have nr: "r = [] \<or> \<not> value_char (hd r)" using r blank_not_value by blast
  have n: "takeWhile value_char (w @ r) = w" using takeWhile_word(1) [OF v nr] .
  have wl: "word_length (w @ r) = length w"
  proof (cases r)
    case Nil
    with n have "takeWhile value_char w = w" by (metis append_Nil2)
    then show ?thesis unfolding word_length_def Let_def Nil append_Nil2 by (metis less_irrefl)
  next
    case (Cons c r')
    then have "blank c" using r by simp
    then show ?thesis using n by (simp add: word_length_def Cons nth_append)
  qed
  have cl: "call_length (w @ r) = 0"
  proof -
    let ?k = "length (takeWhile az (w @ r))"
    have "drop ?k (w @ r) = dropWhile az (w @ r)" by (simp add: dropWhile_eq_drop)
    moreover have "dropWhile az (w @ r) = [] \<or> hd (dropWhile az (w @ r)) \<noteq> CHR ''(''"
    proof (cases "list_all az w")
      case True
      moreover have "r = [] \<or> \<not> az (hd r)" using nr az_value by blast
      ultimately have "dropWhile az (w @ r) = r" using takeWhile_word(2) by blast
      then show ?thesis using nr r by (auto simp: blank_def)
    next
      case False
      then have "dropWhile az (w @ r) = dropWhile az w @ r" "dropWhile az w \<noteq> []"
        by (auto simp: list_all_iff dropWhile_append dropWhile_eq_Nil_conv)
      moreover have "hd (dropWhile az w) \<in> set w"
        using calculation(2) by (metis hd_in_set set_dropWhileD)
      ultimately show ?thesis using w by (auto simp: plain_word_def list_all_iff)
    qed
    ultimately show ?thesis
      unfolding call_length_def Let_def by (elim ssubst disjE) (auto simp: hd_tw)
  qed
  have ne: "w @ r \<noteq> []" "length w > 0" using w by (auto simp: plain_word_def)
  show ?thesis by (subst split_values.simps) (use ne wl cl in simp)
qed

lemma split_blank: "blank c \<Longrightarrow> split_values (c # s) = split_values s"
proof -
  assume c: "blank c"
  then have "\<not> value_char c" "\<not> az c" using blank_not_value az_value by blast+
  then have "call_length (c # s) = 0" "word_length (c # s) = 0"
    using c by (simp_all add: call_length_def word_length_def Let_def)
  then show ?thesis by (subst split_values.simps) simp
qed

lemma split_values_join: "list_all plain_word ws \<Longrightarrow> split_values (str_join '' '' ws) = ws"
proof (induction "'' ''" ws rule: str_join.induct)
  case 1 then show ?case by (simp add: split_values.simps)
next
  case (2 s) then show ?case using split_word [of s "[]"] by (simp add: split_values.simps)
next
  case (3 s w ws)
  have "blank (CHR '' '')" by (simp add: blank_def)
  then show ?case using 3 split_word [of s "CHR '' '' # str_join '' '' (w # ws)"] split_blank by simp
qed

lemma set_join: "c \<in> set (str_join '' '' ws) \<Longrightarrow> c = CHR '' '' \<or> (\<exists>w \<in> set ws. c \<in> set w)"
  by (induction "'' ''" ws rule: str_join.induct) auto

lemma of_char_lower: "(of_char (lower_char c) :: nat) = (if is_upper c then of_char c + 32 else of_char c)"
proof (cases "is_upper c")
  case True
  then have "(of_char c + 32 :: nat) mod 256 = of_char c + 32" by (simp add: is_upper_def Let_def)
  then show ?thesis by (simp add: True lower_char_def)
next
  case False then show ?thesis by (simp add: lower_char_def)
qed

lemma lower_paren:
  assumes "lower_char c = CHR ''(''"
  shows "c = CHR ''(''"
proof -
  have "(of_char (lower_char c) :: nat) = 40" unfolding assms by simp
  then have "\<not> is_upper c" by (simp add: of_char_lower is_upper_def Let_def split: if_splits)
  then show ?thesis using assms by (simp add: lower_char_def)
qed

lemma zero_dot: "CHR '' '' \<notin> set ''0.''"
  by simp

lemma join_clean:
  assumes "list_all plain_word ws" "length ws \<ge> 2"
  shows "cleanRootPropertyValue rt (str_join '' '' ws) = str_join '' '' ws"
proof -
  obtain w v vs where ws: "ws = w # v # vs" using assms(2)
    by (metis One_nat_def Suc_1 Suc_le_length_iff)
  define s where "s = str_join '' '' ws"
  have w: "w \<noteq> []" using assms(1) by (simp add: ws plain_word_def)
  have s: "s = w @ CHR '' '' # str_join '' '' (v # vs)" by (simp add: s_def ws)
  have p: "CHR ''('' \<notin> set s"
    using set_join [of "CHR ''(''" ws] assms(1) by (auto simp: s_def list_all_iff plain_word_def)
  have "unwrap s = None"
  proof -
    have "hd (dropWhile az s) \<noteq> CHR ''(''" if "length (dropWhile az s) \<ge> 2"
    proof -
      have "dropWhile az s \<noteq> []"
      proof
        assume "dropWhile az s = []"
        with that show False unfolding \<open>dropWhile az s = []\<close> by simp
      qed
      then have "hd (dropWhile az s) \<in> set s" by (meson hd_in_set set_dropWhileD)
      then show ?thesis using p by auto
    qed
    then show ?thesis by (auto simp: unwrap_def Let_def)
  qed
  moreover have "\<not> is_zero_text s"
  proof -
    have "CHR '' '' \<in> set (tl s)" "CHR '' '' \<in> set s" "s \<noteq> []" using w by (auto simp: s)
    moreover have "\<not> list_all (\<lambda>c. c \<in> set ''0.'') u" if "CHR '' '' \<in> set u" for u
      using that unfolding list_all_iff by (metis zero_dot)
    ultimately show ?thesis unfolding is_zero_text_def Let_def by presburger
  qed
  moreover have "toLowerCase s \<notin> set null_texts"
  proof -
    have "CHR '' '' \<in> set (toLowerCase s)"
      by (auto simp: s toLowerCase_def lower_char_def is_upper_def)
    moreover have "CHR ''('' \<notin> set (toLowerCase s)" using p lower_paren unfolding toLowerCase_def set_map by (metis imageE)
    moreover have "list_all (\<lambda>t. CHR '' '' \<in> set t \<longrightarrow> CHR ''('' \<in> set t) null_texts" by code_simp
    ultimately show ?thesis unfolding list_all_iff by blast
  qed
  ultimately show ?thesis by (simp add: cleanRootPropertyValue_def isCSSNullValue_def s_def)
qed

text \<open>
  C19.  In a property with at least two values, each a word, a hook of the property that is set is read
  back, and the other hooks of the property keep their values.
\<close>

theorem hook_roundtrip:
  assumes "hook name = Some (rt, i)" "i < length ws" "length ws \<ge> 2" "list_all plain_word ws" "plain_word v"
  shows "\<exists>rv. injectValue name v (str_join '' '' ws) = Inr rv \<and> extractValue name rv = Inr (Some v) \<and>
    (\<forall>other j. hook other = Some (rt, j) \<and> j < length ws \<and> j \<noteq> i \<longrightarrow>
      extractValue other rv = Inr (Some (ws ! j)) \<and> extractValue other (str_join '' '' ws) = Inr (Some (ws ! j)))"
proof -
  define us where "us = ws[i := v]"
  have us: "list_all plain_word us" "length us = length ws"
    using assms(4,5) by (auto simp: us_def list_all_iff dest: set_update_subset_insert [THEN subsetD])
  have j: "extractValue other (str_join '' '' xs) = Inr (Some (xs ! j))"
    if "hook other = Some (rt, j)" "j < length xs" "list_all plain_word xs" "length xs \<ge> 2" for other j xs
    using that by (auto simp: extractValue_def join_clean split_values_join Let_def)
  have "injectValue name v (str_join '' '' ws) = Inr (str_join '' '' us)"
    using assms by (auto simp: injectValue_def join_clean split_values_join Let_def us_def)
  then show ?thesis
    using j us assms by (intro exI [of _ "str_join '' '' us"]) (auto simp: us_def nth_list_update)
qed


theorem hook_roundtrip_witness:
  "\<exists>rv. injectValue ''boxShadowBlur'' ''7.5px'' ''#f00 1px 2px 3px 0px'' = Inr rv \<and>
     extractValue ''boxShadowBlur'' rv = Inr (Some ''7.5px'')"
proof -
  have h: "hook ''boxShadowBlur'' = Some (''boxShadow'', 3)" by code_simp
  have w: "list_all plain_word [''#f00'', ''1px'', ''2px'', ''3px'', ''0px'']" "plain_word ''7.5px''" by code_simp+
  show ?thesis using hook_roundtrip [OF h _ _ w] by auto
qed

subsection \<open>Colours\<close>

definition digits :: "string \<Rightarrow> bool" where
  "digits w \<longleftrightarrow> w \<noteq> [] \<and> list_all is_digit w"

lemma digit_not:
  "is_digit c \<Longrightarrow> \<not> blank c \<and> \<not> az c \<and> c \<noteq> CHR '','' \<and> c \<noteq> CHR ''.'' \<and> c \<noteq> CHR '' '' \<and> c \<noteq> CHR '')'' \<and> num_char c"
  by (auto simp: is_digit_def blank_def az_def num_char_def Let_def)

lemma num_not: "num_char c \<Longrightarrow> \<not> blank c \<and> c \<noteq> CHR '','' \<and> c \<noteq> CHR '' ''"
  by (auto simp: is_digit_def blank_def num_char_def Let_def)

lemma newline: "\<not> blank c \<Longrightarrow> of_char c \<noteq> (10::nat)"
  by (auto simp: blank_def)

lemma split_on_word: "CHR '' '' \<notin> set w \<Longrightarrow> split_on CHR '' '' (w @ CHR '' '' # s) = w # split_on CHR '' '' s"
  by (induction w) auto

lemma split_on_end: "CHR '' '' \<notin> set w \<Longrightarrow> split_on CHR '' '' w = [w]"
  by (induction w) auto

lemma spaces_word: "list_all (\<lambda>c. \<not> blank c) w \<Longrightarrow> spaces_to_commas (w @ s) = w @ spaces_to_commas s"
  by (induction w) auto

lemma commas_word: "CHR '','' \<notin> set w \<Longrightarrow> commas_to_spaces (w @ s) = w @ commas_to_spaces s"
  by (induction w) auto

lemma strip_word: "CHR ''.'' \<notin> set w \<Longrightarrow> strip_decimals (w @ s) = w @ strip_decimals s"
  by (induction w) auto

lemma strip_end: "CHR '','' \<notin> set w \<Longrightarrow> strip_decimals w = w"
proof (induction w)
  case (Cons c w)
  have "dropWhile is_digit w \<noteq> [] \<Longrightarrow> hd (dropWhile is_digit w) \<noteq> CHR '',''"
    using Cons.prems by (metis hd_in_set list.set_intros(2) set_dropWhileD)
  then show ?case using Cons by auto
qed simp

lemma groups_space: "groups_at (Suc k) s \<Longrightarrow> CHR '' '' \<in> set s"
proof -
  assume "groups_at (Suc k) s"
  then have "dropWhile num_char s \<noteq> []" "hd (dropWhile num_char s) = CHR '' ''"
    by (simp_all add: Let_def)
  then show ?thesis by (metis hd_in_set set_dropWhileD)
qed

lemma no_groups: "CHR '' '' \<notin> set s \<Longrightarrow> \<not> already_extracted s"
proof (induction s)
  case (Cons c s)
  then show ?case using groups_space [of 1 "c # s"] by (auto simp: numeral_2_eq_2)
qed simp

text \<open>
  A colour of four numbers that is written and read back is the same, if red, green and blue are whole
  and alpha has digits and dots.
\<close>

theorem color_roundtrip:
  assumes "digits r" "digits g" "digits b" "a \<noteq> []" "list_all num_char a" "v = str_join '' '' [r, g, b, a]"
  shows "color_extract (color_inject v) = Inr v"
proof -
  have w: "list_all (\<lambda>c. \<not> blank c) x" "CHR '','' \<notin> set x" "CHR ''.'' \<notin> set x" "CHR '' '' \<notin> set x"
    if "digits x" for x
    using that digit_not unfolding digits_def list_all_iff by blast+
  have a: "list_all (\<lambda>c. \<not> blank c) a" "CHR '','' \<notin> set a" "CHR '' '' \<notin> set a" 
    using assms(5) num_not unfolding list_all_iff by blast+
  have sp: "spaces_to_commas (CHR '' '' # x @ s) = CHR '','' # spaces_to_commas (x @ s)"
    if "x \<noteq> []" "list_all (\<lambda>c. \<not> blank c) x" for x s
    using that by (cases x) (auto simp: blank_def)
  have cs: "commas_to_spaces (CHR '','' # x @ s) = CHR '' '' # commas_to_spaces (x @ s)"
    if "x \<noteq> []" "list_all (\<lambda>c. \<not> blank c) x" for x s
    using that by (cases x) auto
  have ne: "r \<noteq> []" "g \<noteq> []" "b \<noteq> []" using assms(1-3) by (auto simp: digits_def)
  have v: "v = r @ CHR '' '' # g @ CHR '' '' # b @ CHR '' '' # a @ []" using assms(6) by simp
  have alpha: "add_alpha v = v"
    using w assms(1-3) a by (simp add: add_alpha_def v split_on_word split_on_end)
  have "spaces_to_commas v = r @ CHR '','' # g @ CHR '','' # b @ CHR '','' # a"
    unfolding v spaces_word [OF w(1) [OF assms(1)]] sp [OF ne(2) w(1) [OF assms(2)]] spaces_word [OF w(1) [OF assms(2)]]
      sp [OF ne(3) w(1) [OF assms(3)]] spaces_word [OF w(1) [OF assms(3)]] sp [OF assms(4) a(1)] spaces_word [OF a(1)] by simp
  moreover have "strip_decimals \<dots> = \<dots>"
    using w assms(1-3) a by (simp add: strip_word strip_end)
  ultimately have inj: "color_inject v = ''rgba('' @ (r @ CHR '','' # g @ CHR '','' # b @ CHR '','' # a) @ '')''"
    by (simp add: color_inject_def alpha)
  define t where "t = r @ CHR '','' # g @ CHR '','' # b @ CHR '','' # a"
  have c: "color_inject v = ''rgba('' @ t @ '')''" using inj by (simp add: t_def)
  have sp_t: "CHR '' '' \<notin> set t" using w assms(1-3) a by (simp add: t_def)
  have "\<not> already_extracted (color_inject v)" using sp_t by (intro no_groups) (simp add: c)
  moreover have "\<not> list_all az (color_inject v)" "\<not> isHex (color_inject v)" "take 5 (toLowerCase (color_inject v)) = ''rgba(''"
    by (simp_all add: c az_def isHex_def toLowerCase_def lower_char_def is_upper_def)
  moreover have "unwrap (color_inject v) = Some t"
  proof -
    have "list_all (\<lambda>c. of_char c \<noteq> (10::nat)) t"
      using w(1) assms(1-3) a(1) newline unfolding t_def by (auto simp: list_all_iff)
    then show ?thesis by (simp add: unwrap_def c az_def)
  qed
  moreover have "commas_to_spaces t = v"
    unfolding t_def v commas_word [OF w(2) [OF assms(1)]] cs [OF ne(2) w(1) [OF assms(2)]] commas_word [OF w(2) [OF assms(2)]]
      cs [OF ne(3) w(1) [OF assms(3)]] commas_word [OF w(2) [OF assms(3)]]
    using cs [OF assms(4) a(1), of "[]"] commas_word [OF a(2), of "[]"] by simp
  ultimately show ?thesis
    by (simp add: color_extract_def alpha Let_def)
qed


theorem color_roundtrip_witness:
  "color_extract (color_inject ''255 0 12 0.5'') = Inr ''255 0 12 0.5''"
  using color_roundtrip [of "''255''" "''0''" "''12''" "''0.5''" "''255 0 12 0.5''"]
  by (simp add: digits_def is_digit_def num_char_def)

text \<open>A short hexadecimal colour, and a text that passes for one.\<close>

lemma hex_colors:
  "color_extract ''#f0A'' = Inr ''255 0 170 1''" "color_extract ''#xyz'' = Inr ''0 0 0 1''"
  by code_simp+

subsection \<open>Transforms\<close>

definition transforms_ok :: "transform_cache \<Rightarrow> bool" where
  "transforms_ok cache \<longleftrightarrow>
     distinct (map fst cache) \<and>
     (\<forall>(n, x) \<in> set cache. \<exists>v. x = ''('' @ v @ '')'' \<and> \<not> transform_invalid n v)"

fun set_transforms :: "bool \<Rightarrow> (string \<times> string) list \<Rightarrow> transform_cache \<Rightarrow> transform_cache" where
  "set_transforms isAndroid [] cache = cache"
| "set_transforms isAndroid ((n, v) # nvs) cache = set_transforms isAndroid nvs (transform_inject isAndroid n v cache)"

lemma update_member: "(n, x) \<in> set (AList.update k y al) \<Longrightarrow> (n, x) = (k, y) \<or> (n, x) \<in> set al"
  by (induction al) (auto split: if_splits)

lemma inject_ok: "transforms_ok cache \<Longrightarrow> transforms_ok (transform_inject isAndroid n v cache)"
  by (auto simp: transforms_ok_def transform_inject_def Let_def distinct_update dest!: update_member)

lemma set_transforms_snoc:
  "set_transforms a (nvs @ [(n, v)]) cache = transform_inject a n v (set_transforms a nvs cache)"
  by (induction nvs arbitrary: cache) auto

definition allowed :: "(string \<times> string) list \<Rightarrow> (string \<times> string) list" where
  "allowed nvs = filter (\<lambda>(n, v). \<not> transform_invalid n v) nvs"

text \<open>
  After transforms with any values are set, each of the element's transforms has a value of an allowed
  kind, so that the browser does not discard the text of all; they are in the order in which they were
  first set; and a transform is read back as it was last set to an allowed value (without parentheses).
\<close>

theorem transforms_written:
  "let cache = set_transforms False nvs [] in
    transforms_ok cache \<and>
    map fst cache = rev (remdups (rev (map fst (allowed nvs)))) \<and>
    (\<forall>n v. map_of (rev (allowed nvs)) n = Some v \<and> CHR ''('' \<notin> set v \<and> CHR '')'' \<notin> set v \<longrightarrow>
      transform_extract cache n = v)"
proof -
  have "transforms_ok (set_transforms False nvs []) \<and>
    map fst (set_transforms False nvs []) = rev (remdups (rev (map fst (allowed nvs)))) \<and>
    (\<forall>n. map_of (set_transforms False nvs []) n = map_option (\<lambda>v. ''('' @ v @ '')'') (map_of (rev (allowed nvs)) n))"
  proof (induction nvs rule: rev_induct)
    case Nil
    then show ?case by (simp add: transforms_ok_def allowed_def)
  next
    case (snoc x nvs)
    obtain n v where x: "x = (n, v)" by (cases x)
    show ?case
    proof (cases "transform_invalid n v")
      case True
      then show ?thesis using snoc by (simp add: x set_transforms_snoc transform_inject_def allowed_def)
    next
      case False
      then have u: "set_transforms False (nvs @ [x]) [] = AList.update n (''('' @ v @ '')'') (set_transforms False nvs [])"
        by (simp add: x set_transforms_snoc transform_inject_def)
      have al: "allowed (nvs @ [x]) = allowed nvs @ [(n, v)]" using False by (simp add: x allowed_def)
      have "transforms_ok (set_transforms False (nvs @ [x]) [])"
        using snoc inject_ok by (simp add: x set_transforms_snoc)
      moreover have "set (map fst (set_transforms False nvs [])) = set (map fst (allowed nvs))" using snoc by simp
      ultimately show ?thesis
        using snoc by (auto simp: u al update_keys update_conv)
    qed
  qed
  then show ?thesis
    unfolding Let_def transform_extract_def by (auto simp: filter_id_conv)
qed


theorem transforms_written_witness:
  "transform_extract (set_transforms False [(''scaleX'', ''2''), (''rotateZ'', ''10deg''), (''scaleX'', ''3px''), (''rotateZ'', ''20deg'')] [])
     ''rotateZ'' = ''20deg''"
proof -
  have "map_of (rev (allowed [(''scaleX'', ''2''), (''rotateZ'', ''10deg''), (''scaleX'', ''3px''), (''rotateZ'', ''20deg'')])) ''rotateZ'' =
      Some ''20deg''" by code_simp
  then show ?thesis
    using transforms_written [of "[(''scaleX'', ''2''), (''rotateZ'', ''10deg''), (''scaleX'', ''3px''), (''rotateZ'', ''20deg'')]"]
    by (simp add: Let_def)
qed

end
