(* ===== verification/Velocity_Effects.thy ===== *)
theory Velocity_Effects
  imports Velocity_Styles
begin

section \<open>velocity.ui.js: effects\<close>

text \<open>
  An effect is a sequence of calls that share a duration, and values that are set when they are over.
  \<open>RegisterEffect\<close> makes a redirect of it, which issues the calls on an element; the redirect keeps what
  it finds in the effect.  Callbacks are the actions they perform.
\<close>

subsection \<open>Effects\<close>

datatype motion = Props "(string \<times> pdata) list" | ReverseCall

record ecall =
  motion_of :: motion
  share :: "jsnum option"
  easing_opt :: "string option"
  delay_opt :: jsnum

datatype default_duration = Given jsnum | Computed "nat list \<Rightarrow> jsnum"

record effect =
  defaultDuration :: default_duration
  ecalls :: "ecall list"
  reset :: "(string \<times> pdata) list option"

definition to_num :: "real \<Rightarrow> pdata" where
  "to_num x = One (Number (Num x))"

definition to_text :: "string \<Rightarrow> pdata" where
  "to_text s = One (Text s)"

definition fed :: "real \<Rightarrow> real \<Rightarrow> pdata" where
  "fed x y = Many [Number (Num x), Number (Num y)]"

definition fed_text :: "string \<Rightarrow> string \<Rightarrow> pdata" where
  "fed_text s t = Many [Text s, Text t]"

definition eased_to :: "real \<Rightarrow> string \<Rightarrow> pdata" where
  "eased_to x e = Many [Number (Num x), Text e]"

definition eased_fed :: "real \<Rightarrow> string \<Rightarrow> real \<Rightarrow> pdata" where
  "eased_fed x e y = Many [Number (Num x), Text e, Number (Num y)]"

definition whole :: "motion \<Rightarrow> ecall" where
  "whole m = \<lparr>motion_of = m, share = None, easing_opt = None, delay_opt = NaN\<rparr>"

definition part :: "motion \<Rightarrow> real \<Rightarrow> ecall" where
  "part m x = (whole m)\<lparr>share := Some (Num x)\<rparr>"

definition part_eased :: "motion \<Rightarrow> real \<Rightarrow> string \<Rightarrow> ecall" where
  "part_eased m x e = (part m x)\<lparr>easing_opt := Some e\<rparr>"

definition effect_of :: "real \<Rightarrow> ecall list \<Rightarrow> (string \<times> pdata) list option \<Rightarrow> effect" where
  "effect_of d cs r = \<lparr>defaultDuration = Given (Num d), ecalls = cs, reset = r\<rparr>"

subsection \<open>The packaged effects\<close>

definition callouts_effects :: "(string \<times> effect) list" where
  "callouts_effects =
     [(''callout.bounce'',
       effect_of 550
        [part (Props [(''translateY'', to_num (- 30))]) 0.25,
         part (Props [(''translateY'', to_num 0)]) 0.125,
         part (Props [(''translateY'', to_num (- 15))]) 0.125,
         part (Props [(''translateY'', to_num 0)]) 0.25]
        None),
      (''callout.shake'',
       effect_of 800
        [part (Props [(''translateX'', to_num (- 11))]) 0.125,
         part (Props [(''translateX'', to_num 11)]) 0.125,
         part (Props [(''translateX'', to_num (- 11))]) 0.125,
         part (Props [(''translateX'', to_num 11)]) 0.125,
         part (Props [(''translateX'', to_num (- 11))]) 0.125,
         part (Props [(''translateX'', to_num 11)]) 0.125,
         part (Props [(''translateX'', to_num (- 11))]) 0.125,
         part (Props [(''translateX'', to_num 0)]) 0.125]
        None),
      (''callout.flash'',
       effect_of 1100
        [part (Props [(''opacity'', eased_fed 0 ''easeInOutQuad'' 1)]) 0.25,
         part (Props [(''opacity'', eased_to 1 ''easeInOutQuad'')]) 0.25,
         part (Props [(''opacity'', eased_to 0 ''easeInOutQuad'')]) 0.25,
         part (Props [(''opacity'', eased_to 1 ''easeInOutQuad'')]) 0.25]
        None),
      (''callout.pulse'',
       effect_of 825
        [part_eased (Props [(''scaleX'', to_num 1.1), (''scaleY'', to_num 1.1)]) 0.5 ''easeInExpo'',
         part (Props [(''scaleX'', to_num 1), (''scaleY'', to_num 1)]) 0.5]
        None),
      (''callout.swing'',
       effect_of 950
        [part (Props [(''rotateZ'', to_num 15)]) 0.2,
         part (Props [(''rotateZ'', to_num (- 10))]) 0.2,
         part (Props [(''rotateZ'', to_num 5)]) 0.2,
         part (Props [(''rotateZ'', to_num (- 5))]) 0.2,
         part (Props [(''rotateZ'', to_num 0)]) 0.2]
        None),
      (''callout.tada'',
       effect_of 1000
        [part (Props [(''scaleX'', to_num 0.9), (''scaleY'', to_num 0.9), (''rotateZ'', to_num (- 3))]) 0.1,
         part (Props [(''scaleX'', to_num 1.1), (''scaleY'', to_num 1.1), (''rotateZ'', to_num 3)]) 0.1,
         part (Props [(''scaleX'', to_num 1.1), (''scaleY'', to_num 1.1), (''rotateZ'', to_num (- 3))]) 0.1,
         part ReverseCall 0.125,
         part ReverseCall 0.125,
         part ReverseCall 0.125,
         part ReverseCall 0.125,
         part ReverseCall 0.125,
         part (Props [(''scaleX'', to_num 1), (''scaleY'', to_num 1), (''rotateZ'', to_num 0)]) 0.2]
        None)]"

definition flips_effects :: "(string \<times> effect) list" where
  "flips_effects =
     [(''transition.fadeIn'',
       effect_of 500
        [whole (Props [(''opacity'', fed 1 0)])]
        None),
      (''transition.fadeOut'',
       effect_of 500
        [whole (Props [(''opacity'', fed 0 1)])]
        None),
      (''transition.flipXIn'',
       effect_of 700
        [whole (Props [(''opacity'', fed 1 0), (''transformPerspective'', fed 800 800), (''rotateY'', fed 0 (- 55))])]
        (Some [(''transformPerspective'', to_num 0)])),
      (''transition.flipXOut'',
       effect_of 700
        [whole (Props [(''opacity'', fed 0 1), (''transformPerspective'', fed 800 800), (''rotateY'', to_num 55)])]
        (Some [(''transformPerspective'', to_num 0), (''rotateY'', to_num 0)])),
      (''transition.flipYIn'',
       effect_of 800
        [whole (Props [(''opacity'', fed 1 0), (''transformPerspective'', fed 800 800), (''rotateX'', fed 0 (- 45))])]
        (Some [(''transformPerspective'', to_num 0)])),
      (''transition.flipYOut'',
       effect_of 800
        [whole (Props [(''opacity'', fed 0 1), (''transformPerspective'', fed 800 800), (''rotateX'', to_num 25)])]
        (Some [(''transformPerspective'', to_num 0), (''rotateX'', to_num 0)])),
      (''transition.flipBounceXIn'',
       effect_of 900
        [part (Props [(''opacity'', fed 0.725 0), (''transformPerspective'', fed 400 400), (''rotateY'', fed (- 10) 90)]) 0.5,
         part (Props [(''opacity'', to_num 0.8), (''rotateY'', to_num 10)]) 0.25,
         part (Props [(''opacity'', to_num 1), (''rotateY'', to_num 0)]) 0.25]
        (Some [(''transformPerspective'', to_num 0)])),
      (''transition.flipBounceXOut'',
       effect_of 800
        [part (Props [(''opacity'', fed 0.9 1), (''transformPerspective'', fed 400 400), (''rotateY'', to_num (- 10))]) 0.5,
         part (Props [(''opacity'', to_num 0), (''rotateY'', to_num 90)]) 0.5]
        (Some [(''transformPerspective'', to_num 0), (''rotateY'', to_num 0)])),
      (''transition.flipBounceYIn'',
       effect_of 850
        [part (Props [(''opacity'', fed 0.725 0), (''transformPerspective'', fed 400 400), (''rotateX'', fed (- 10) 90)]) 0.5,
         part (Props [(''opacity'', to_num 0.8), (''rotateX'', to_num 10)]) 0.25,
         part (Props [(''opacity'', to_num 1), (''rotateX'', to_num 0)]) 0.25]
        (Some [(''transformPerspective'', to_num 0)])),
      (''transition.flipBounceYOut'',
       effect_of 800
        [part (Props [(''opacity'', fed 0.9 1), (''transformPerspective'', fed 400 400), (''rotateX'', to_num (- 15))]) 0.5,
         part (Props [(''opacity'', to_num 0), (''rotateX'', to_num 90)]) 0.5]
        (Some [(''transformPerspective'', to_num 0), (''rotateX'', to_num 0)]))]"

definition magic_effects :: "(string \<times> effect) list" where
  "magic_effects =
     [(''transition.swoopIn'',
       effect_of 850
        [whole (Props [(''opacity'', fed 1 0), (''transformOriginX'', fed_text ''100%'' ''50%''), (''transformOriginY'', fed_text ''100%'' ''100%''), (''scaleX'', fed 1 0), (''scaleY'', fed 1 0), (''translateX'', fed 0 (- 700)), (''translateZ'', to_num 0)])]
        (Some [(''transformOriginX'', to_text ''50%''), (''transformOriginY'', to_text ''50%'')])),
      (''transition.swoopOut'',
       effect_of 850
        [whole (Props [(''opacity'', fed 0 1), (''transformOriginX'', fed_text ''50%'' ''100%''), (''transformOriginY'', fed_text ''100%'' ''100%''), (''scaleX'', to_num 0), (''scaleY'', to_num 0), (''translateX'', to_num (- 700)), (''translateZ'', to_num 0)])]
        (Some [(''transformOriginX'', to_text ''50%''), (''transformOriginY'', to_text ''50%''), (''scaleX'', to_num 1), (''scaleY'', to_num 1), (''translateX'', to_num 0)])),
      (''transition.whirlIn'',
       effect_of 850
        [part_eased (Props [(''opacity'', fed 1 0), (''transformOriginX'', fed_text ''50%'' ''50%''), (''transformOriginY'', fed_text ''50%'' ''50%''), (''scaleX'', fed 1 0), (''scaleY'', fed 1 0), (''rotateY'', fed 0 160)]) 1 ''easeInOutSine'']
        None),
      (''transition.whirlOut'',
       effect_of 750
        [part_eased (Props [(''opacity'', eased_fed 0 ''easeInOutQuint'' 1), (''transformOriginX'', fed_text ''50%'' ''50%''), (''transformOriginY'', fed_text ''50%'' ''50%''), (''scaleX'', to_num 0), (''scaleY'', to_num 0), (''rotateY'', to_num 160)]) 1 ''swing'']
        (Some [(''scaleX'', to_num 1), (''scaleY'', to_num 1), (''rotateY'', to_num 0)])),
      (''transition.shrinkIn'',
       effect_of 750
        [whole (Props [(''opacity'', fed 1 0), (''transformOriginX'', fed_text ''50%'' ''50%''), (''transformOriginY'', fed_text ''50%'' ''50%''), (''scaleX'', fed 1 1.5), (''scaleY'', fed 1 1.5), (''translateZ'', to_num 0)])]
        None),
      (''transition.shrinkOut'',
       effect_of 600
        [whole (Props [(''opacity'', fed 0 1), (''transformOriginX'', fed_text ''50%'' ''50%''), (''transformOriginY'', fed_text ''50%'' ''50%''), (''scaleX'', to_num 1.3), (''scaleY'', to_num 1.3), (''translateZ'', to_num 0)])]
        (Some [(''scaleX'', to_num 1), (''scaleY'', to_num 1)])),
      (''transition.expandIn'',
       effect_of 700
        [whole (Props [(''opacity'', fed 1 0), (''transformOriginX'', fed_text ''50%'' ''50%''), (''transformOriginY'', fed_text ''50%'' ''50%''), (''scaleX'', fed 1 0.625), (''scaleY'', fed 1 0.625), (''translateZ'', to_num 0)])]
        None),
      (''transition.expandOut'',
       effect_of 700
        [whole (Props [(''opacity'', fed 0 1), (''transformOriginX'', fed_text ''50%'' ''50%''), (''transformOriginY'', fed_text ''50%'' ''50%''), (''scaleX'', to_num 0.5), (''scaleY'', to_num 0.5), (''translateZ'', to_num 0)])]
        (Some [(''scaleX'', to_num 1), (''scaleY'', to_num 1)]))]"

definition bounces_effects :: "(string \<times> effect) list" where
  "bounces_effects =
     [(''transition.bounceIn'',
       effect_of 800
        [part (Props [(''opacity'', fed 1 0), (''scaleX'', fed 1.05 0.3), (''scaleY'', fed 1.05 0.3)]) 0.4,
         part (Props [(''scaleX'', to_num 0.9), (''scaleY'', to_num 0.9), (''translateZ'', to_num 0)]) 0.2,
         part (Props [(''scaleX'', to_num 1), (''scaleY'', to_num 1)]) 0.5]
        None),
      (''transition.bounceOut'',
       effect_of 800
        [part (Props [(''scaleX'', to_num 0.95), (''scaleY'', to_num 0.95)]) 0.35,
         part (Props [(''scaleX'', to_num 1.1), (''scaleY'', to_num 1.1), (''translateZ'', to_num 0)]) 0.35,
         part (Props [(''opacity'', fed 0 1), (''scaleX'', to_num 0.3), (''scaleY'', to_num 0.3)]) 0.3]
        (Some [(''scaleX'', to_num 1), (''scaleY'', to_num 1)])),
      (''transition.bounceUpIn'',
       effect_of 800
        [part_eased (Props [(''opacity'', fed 1 0), (''translateY'', fed (- 30) 1000)]) 0.6 ''easeOutCirc'',
         part (Props [(''translateY'', to_num 10)]) 0.2,
         part (Props [(''translateY'', to_num 0)]) 0.2]
        None),
      (''transition.bounceUpOut'',
       effect_of 1000
        [part (Props [(''translateY'', to_num 20)]) 0.2,
         part (Props [(''opacity'', eased_fed 0 ''easeInCirc'' 1), (''translateY'', to_num (- 1000))]) 0.8]
        (Some [(''translateY'', to_num 0)])),
      (''transition.bounceDownIn'',
       effect_of 800
        [part_eased (Props [(''opacity'', fed 1 0), (''translateY'', fed 30 (- 1000))]) 0.6 ''easeOutCirc'',
         part (Props [(''translateY'', to_num (- 10))]) 0.2,
         part (Props [(''translateY'', to_num 0)]) 0.2]
        None),
      (''transition.bounceDownOut'',
       effect_of 1000
        [part (Props [(''translateY'', to_num (- 20))]) 0.2,
         part (Props [(''opacity'', eased_fed 0 ''easeInCirc'' 1), (''translateY'', to_num 1000)]) 0.8]
        (Some [(''translateY'', to_num 0)])),
      (''transition.bounceLeftIn'',
       effect_of 750
        [part_eased (Props [(''opacity'', fed 1 0), (''translateX'', fed 30 (- 1250))]) 0.6 ''easeOutCirc'',
         part (Props [(''translateX'', to_num (- 10))]) 0.2,
         part (Props [(''translateX'', to_num 0)]) 0.2]
        None),
      (''transition.bounceLeftOut'',
       effect_of 750
        [part (Props [(''translateX'', to_num 30)]) 0.2,
         part (Props [(''opacity'', eased_fed 0 ''easeInCirc'' 1), (''translateX'', to_num (- 1250))]) 0.8]
        (Some [(''translateX'', to_num 0)])),
      (''transition.bounceRightIn'',
       effect_of 750
        [part_eased (Props [(''opacity'', fed 1 0), (''translateX'', fed (- 30) 1250)]) 0.6 ''easeOutCirc'',
         part (Props [(''translateX'', to_num 10)]) 0.2,
         part (Props [(''translateX'', to_num 0)]) 0.2]
        None),
      (''transition.bounceRightOut'',
       effect_of 750
        [part (Props [(''translateX'', to_num (- 30))]) 0.2,
         part (Props [(''opacity'', eased_fed 0 ''easeInCirc'' 1), (''translateX'', to_num 1250)]) 0.8]
        (Some [(''translateX'', to_num 0)]))]"

definition slides_effects :: "(string \<times> effect) list" where
  "slides_effects =
     [(''transition.slideUpIn'',
       effect_of 900
        [whole (Props [(''opacity'', fed 1 0), (''translateY'', fed 0 20), (''translateZ'', to_num 0)])]
        None),
      (''transition.slideUpOut'',
       effect_of 900
        [whole (Props [(''opacity'', fed 0 1), (''translateY'', to_num (- 20)), (''translateZ'', to_num 0)])]
        (Some [(''translateY'', to_num 0)])),
      (''transition.slideDownIn'',
       effect_of 900
        [whole (Props [(''opacity'', fed 1 0), (''translateY'', fed 0 (- 20)), (''translateZ'', to_num 0)])]
        None),
      (''transition.slideDownOut'',
       effect_of 900
        [whole (Props [(''opacity'', fed 0 1), (''translateY'', to_num 20), (''translateZ'', to_num 0)])]
        (Some [(''translateY'', to_num 0)])),
      (''transition.slideLeftIn'',
       effect_of 1000
        [whole (Props [(''opacity'', fed 1 0), (''translateX'', fed 0 (- 20)), (''translateZ'', to_num 0)])]
        None),
      (''transition.slideLeftOut'',
       effect_of 1050
        [whole (Props [(''opacity'', fed 0 1), (''translateX'', to_num (- 20)), (''translateZ'', to_num 0)])]
        (Some [(''translateX'', to_num 0)])),
      (''transition.slideRightIn'',
       effect_of 1000
        [whole (Props [(''opacity'', fed 1 0), (''translateX'', fed 0 20), (''translateZ'', to_num 0)])]
        None),
      (''transition.slideRightOut'',
       effect_of 1050
        [whole (Props [(''opacity'', fed 0 1), (''translateX'', to_num 20), (''translateZ'', to_num 0)])]
        (Some [(''translateX'', to_num 0)])),
      (''transition.slideUpBigIn'',
       effect_of 850
        [whole (Props [(''opacity'', fed 1 0), (''translateY'', fed 0 75), (''translateZ'', to_num 0)])]
        None),
      (''transition.slideUpBigOut'',
       effect_of 800
        [whole (Props [(''opacity'', fed 0 1), (''translateY'', to_num (- 75)), (''translateZ'', to_num 0)])]
        (Some [(''translateY'', to_num 0)])),
      (''transition.slideDownBigIn'',
       effect_of 850
        [whole (Props [(''opacity'', fed 1 0), (''translateY'', fed 0 (- 75)), (''translateZ'', to_num 0)])]
        None),
      (''transition.slideDownBigOut'',
       effect_of 800
        [whole (Props [(''opacity'', fed 0 1), (''translateY'', to_num 75), (''translateZ'', to_num 0)])]
        (Some [(''translateY'', to_num 0)])),
      (''transition.slideLeftBigIn'',
       effect_of 800
        [whole (Props [(''opacity'', fed 1 0), (''translateX'', fed 0 (- 75)), (''translateZ'', to_num 0)])]
        None),
      (''transition.slideLeftBigOut'',
       effect_of 750
        [whole (Props [(''opacity'', fed 0 1), (''translateX'', to_num (- 75)), (''translateZ'', to_num 0)])]
        (Some [(''translateX'', to_num 0)])),
      (''transition.slideRightBigIn'',
       effect_of 800
        [whole (Props [(''opacity'', fed 1 0), (''translateX'', fed 0 75), (''translateZ'', to_num 0)])]
        None),
      (''transition.slideRightBigOut'',
       effect_of 750
        [whole (Props [(''opacity'', fed 0 1), (''translateX'', to_num 75), (''translateZ'', to_num 0)])]
        (Some [(''translateX'', to_num 0)]))]"

definition perspectives_effects :: "(string \<times> effect) list" where
  "perspectives_effects =
     [(''transition.perspectiveUpIn'',
       effect_of 800
        [whole (Props [(''opacity'', fed 1 0), (''transformPerspective'', fed 800 800), (''transformOriginX'', fed 0 0), (''transformOriginY'', fed_text ''100%'' ''100%''), (''rotateX'', fed 0 (- 180))])]
        (Some [(''transformPerspective'', to_num 0), (''transformOriginX'', to_text ''50%''), (''transformOriginY'', to_text ''50%'')])),
      (''transition.perspectiveUpOut'',
       effect_of 850
        [whole (Props [(''opacity'', fed 0 1), (''transformPerspective'', fed 800 800), (''transformOriginX'', fed 0 0), (''transformOriginY'', fed_text ''100%'' ''100%''), (''rotateX'', to_num (- 180))])]
        (Some [(''transformPerspective'', to_num 0), (''transformOriginX'', to_text ''50%''), (''transformOriginY'', to_text ''50%''), (''rotateX'', to_num 0)])),
      (''transition.perspectiveDownIn'',
       effect_of 800
        [whole (Props [(''opacity'', fed 1 0), (''transformPerspective'', fed 800 800), (''transformOriginX'', fed 0 0), (''transformOriginY'', fed 0 0), (''rotateX'', fed 0 180)])]
        (Some [(''transformPerspective'', to_num 0), (''transformOriginX'', to_text ''50%''), (''transformOriginY'', to_text ''50%'')])),
      (''transition.perspectiveDownOut'',
       effect_of 850
        [whole (Props [(''opacity'', fed 0 1), (''transformPerspective'', fed 800 800), (''transformOriginX'', fed 0 0), (''transformOriginY'', fed 0 0), (''rotateX'', to_num 180)])]
        (Some [(''transformPerspective'', to_num 0), (''transformOriginX'', to_text ''50%''), (''transformOriginY'', to_text ''50%''), (''rotateX'', to_num 0)])),
      (''transition.perspectiveLeftIn'',
       effect_of 950
        [whole (Props [(''opacity'', fed 1 0), (''transformPerspective'', fed 2000 2000), (''transformOriginX'', fed 0 0), (''transformOriginY'', fed 0 0), (''rotateY'', fed 0 (- 180))])]
        (Some [(''transformPerspective'', to_num 0), (''transformOriginX'', to_text ''50%''), (''transformOriginY'', to_text ''50%'')])),
      (''transition.perspectiveLeftOut'',
       effect_of 950
        [whole (Props [(''opacity'', fed 0 1), (''transformPerspective'', fed 2000 2000), (''transformOriginX'', fed 0 0), (''transformOriginY'', fed 0 0), (''rotateY'', to_num (- 180))])]
        (Some [(''transformPerspective'', to_num 0), (''transformOriginX'', to_text ''50%''), (''transformOriginY'', to_text ''50%''), (''rotateY'', to_num 0)])),
      (''transition.perspectiveRightIn'',
       effect_of 950
        [whole (Props [(''opacity'', fed 1 0), (''transformPerspective'', fed 2000 2000), (''transformOriginX'', fed_text ''100%'' ''100%''), (''transformOriginY'', fed 0 0), (''rotateY'', fed 0 180)])]
        (Some [(''transformPerspective'', to_num 0), (''transformOriginX'', to_text ''50%''), (''transformOriginY'', to_text ''50%'')])),
      (''transition.perspectiveRightOut'',
       effect_of 950
        [whole (Props [(''opacity'', fed 0 1), (''transformPerspective'', fed 2000 2000), (''transformOriginX'', fed_text ''100%'' ''100%''), (''transformOriginY'', fed 0 0), (''rotateY'', to_num 180)])]
        (Some [(''transformPerspective'', to_num 0), (''transformOriginX'', to_text ''50%''), (''transformOriginY'', to_text ''50%''), (''rotateY'', to_num 0)]))]"

definition packagedEffects :: "(string \<times> effect) list" where
  "packagedEffects = callouts_effects @ flips_effects @ magic_effects @ bounces_effects @ slides_effects @ perspectives_effects"

subsection \<open>The redirect of an effect\<close>

text \<open>The duration that a user gives: none, a number or one of the named durations, which is no number.\<close>

datatype duration_opt = Missing | Amount jsnum | Named string

record effect_opts =
  duration_opt :: duration_opt
  queue_opt :: "string option"
  delay_arg :: jsnum
  stagger_opt :: jsnum
  display_arg :: keyword
  visibility_arg :: keyword
  animateParent :: bool

definition queue_name :: "string option \<Rightarrow> string" where
  \<comment> \<open>the option \<open>queue\<close>, \<open>None\<close> for \<open>false\<close> and no option\<close>
  "queue_name q = (case q of None \<Rightarrow> [] | Some s \<Rightarrow> s)"

definition default_amount :: "default_duration \<Rightarrow> nat list \<Rightarrow> jsnum" where
  "default_amount d elements = (case d of Given x \<Rightarrow> x | Computed f \<Rightarrow> f elements)"

definition redirectDuration :: "effect_opts \<Rightarrow> jsnum \<Rightarrow> jsnum" where
  \<comment> \<open>\<open>NaN\<close> for a named duration, which is multiplied as it is\<close>
  "redirectDuration ro d =
     (let d = (if num_truthy d then d else Num 1000) in
      case duration_opt ro of
        Missing \<Rightarrow> d
      | Amount x \<Rightarrow> if num_truthy x then x else d
      | Named s \<Rightarrow> if s = [] then d else NaN)"

record acall =
  a_motion :: motion
  a_duration :: jsnum
  a_queue :: string
  a_easing :: string
  a_delay :: jsnum
  a_display :: keyword
  a_visibility :: keyword
  a_begin :: bool
  a_complete :: bool

definition is_In :: "string \<Rightarrow> bool" where
  "is_In name = ends_with name ''In''"

definition is_Out :: "string \<Rightarrow> bool" where
  "is_Out name = ends_with name ''Out''"

definition getDisplayType :: "string \<Rightarrow> string" where
  "getDisplayType tag =
     (let t = toLowerCase tag in
      if t \<in> set [''b'', ''big'', ''i'', ''small'', ''tt'', ''abbr'', ''acronym'', ''cite'', ''code'', ''dfn'', ''em'', ''kbd'', ''strong'',
        ''samp'', ''var'', ''a'', ''bdo'', ''br'', ''img'', ''map'', ''object'', ''q'', ''script'', ''span'', ''sub'', ''sup'', ''button'',
        ''input'', ''label'', ''select'', ''textarea''] then ''inline''
      else if t = ''li'' then ''list-item''
      else if t = ''tr'' then ''table-row''
      else if t = ''table'' then ''table''
      else if t = ''tbody'' then ''table-row-group''
      else ''block'')"

definition first_display :: "string \<Rightarrow> effect_opts \<Rightarrow> string \<Rightarrow> keyword" where
  "first_display name ro tag =
     (if display_arg ro = Null then Undefined
      else if display_arg ro \<noteq> Undefined \<and> display_arg ro \<noteq> Word ''none'' then display_arg ro
      else if is_In name then
        (let d = getDisplayType tag in Word (if d = ''inline'' then ''inline-block'' else d))
      else Undefined)"

definition call_at :: "string \<Rightarrow> effect \<Rightarrow> effect_opts \<Rightarrow> jsnum \<Rightarrow> string \<Rightarrow> nat \<Rightarrow> nat \<Rightarrow> acall" where
  "call_at name e ro duration tag elementsIndex callIndex =
     (let c = ecalls e ! callIndex;
          is_first = (callIndex = 0);
          is_last = (callIndex = length (ecalls e) - 1);
          shown = (case visibility_arg ro of Word v \<Rightarrow> v \<noteq> [] \<and> v \<noteq> ''hidden'' | _ \<Rightarrow> False);
          visibility = (if is_first \<and> shown then visibility_arg ro else Undefined)
      in \<lparr>a_motion = motion_of c,
          a_duration = duration * (case share c of Some x \<Rightarrow> if num_truthy x then x else Num 1 | None \<Rightarrow> Num 1),
          a_queue = queue_name (queue_opt ro),
          a_easing = (case easing_opt c of Some s \<Rightarrow> if s = [] then ''ease'' else s | None \<Rightarrow> ''ease''),
          a_delay = or_zero (delay_opt c) + (if is_first then or_zero (delay_arg ro) else Num 0),
          a_display = (if is_first then first_display name ro tag else Undefined),
          a_visibility = (if is_last \<and> visibility_arg ro = Word ''hidden'' then Word ''hidden'' else visibility),
          a_begin = (is_first \<and> elementsIndex = 0),
          a_complete = is_last\<rparr>)"

text \<open>
  The redirect: the calls that it issues on an element, and the effect with the default duration that it
  found.
\<close>

definition redirect :: "string \<Rightarrow> effect \<Rightarrow> effect_opts \<Rightarrow> nat list \<Rightarrow> string \<Rightarrow> nat \<Rightarrow> acall list \<times> effect" where
  "redirect name e ro elements tag elementsIndex =
     (let d = default_amount (defaultDuration e) elements;
          e = e\<lparr>defaultDuration := Given d\<rparr>
      in (map (call_at name e ro (redirectDuration ro d) tag elementsIndex) [0..<length (ecalls e)], e))"

subsection \<open>Callbacks\<close>

text \<open>
  \<open>UserBegin\<close> and \<open>UserComplete\<close> stand for the callbacks of the user, if there are.  What follows a \<open>ResetCall\<close>
  is done when that call is over.
\<close>

datatype action =
    UserBegin
  | UserComplete
  | SetStyle nat string pval
  | ParentHeight bool jsnum jsnum
  | ResolvePromise
  | ResetCall nat "(string \<times> pdata) list"

text \<open>\<open>animateParentHeight\<close>; \<open>heights\<close>: the sizes of an element that are summed.\<close>

definition animateParentHeight :: "(nat \<Rightarrow> jsnum list) \<Rightarrow> nat list \<Rightarrow> bool \<Rightarrow> jsnum \<Rightarrow> jsnum \<Rightarrow> action" where
  "animateParentHeight heights elements into time stagger =
     (let (delta, time) =
        foldl (\<lambda>(delta, time) (i, x).
            (foldl (+) delta (heights x), if num_truthy stagger then time + Num (real i) * stagger else time))
          (Num 0, time) (zip [0..<length elements] elements)
      in ParentHeight into delta (time * (if into then Num 0.6 else Num 1)))"

text \<open>
  The callback \<open>begin\<close> of the first call.  It reads the variables of the loop when it runs: those of the
  first call if that call is begun at once, and those of the last call, with \<open>late\<close>, if it is begun after
  the redirect has returned, because of a delay or of other calls in the queue.
\<close>

definition begin_actions ::
  "string \<Rightarrow> effect_opts \<Rightarrow> jsnum \<Rightarrow> acall list \<Rightarrow> (nat \<Rightarrow> jsnum list) \<Rightarrow> nat list \<Rightarrow> bool \<Rightarrow> action list" where
  "begin_actions name ro duration cs heights elements late =
     (let c = (if late then last cs else hd cs);
          fades = (case a_motion c of Props m \<Rightarrow> map_of m ''opacity'' \<noteq> None | ReverseCall \<Rightarrow> False)
      in [UserBegin] @
         (if is_In name \<and> fades then map (\<lambda>x. SetStyle x ''opacity'' (Number (Num 0))) elements else []) @
         (if animateParent ro \<and> (is_In name \<or> is_Out name)
          then [animateParentHeight heights elements (is_In name) (duration + a_delay c) (stagger_opt ro)] else []))"

definition final_callbacks :: "string \<Rightarrow> effect_opts \<Rightarrow> nat list \<Rightarrow> action list" where
  "final_callbacks name ro elements =
     (if display_arg ro \<in> {Undefined, Word ''none''} \<and> is_Out name
      then map (\<lambda>x. SetStyle x ''display'' (Text ''none'')) elements else []) @
     [UserComplete, ResolvePromise]"

text \<open>The values of \<open>reset\<close> are made start values too, those of hooks apart; the change stays in the effect.\<close>

definition forcefeed :: "(string \<times> pdata) list \<Rightarrow> (string \<times> pdata) list" where
  "forcefeed m =
     map (\<lambda>(p, d). (p, case d of
         One (Number x) \<Rightarrow> if hook p = None then Many [Number x, Number x] else d
       | One (Text s) \<Rightarrow> if hook p = None then Many [Text s, Text s] else d
       | _ \<Rightarrow> d)) m"

definition complete_actions :: "string \<Rightarrow> effect_opts \<Rightarrow> effect \<Rightarrow> nat list \<Rightarrow> nat \<Rightarrow> nat \<Rightarrow> action list \<times> effect" where
  "complete_actions name ro e elements element elementsIndex =
     (let finalElement = (elementsIndex = length elements - 1);
          final = (if finalElement then final_callbacks name ro elements else [])
      in case reset e of
           Some m \<Rightarrow> (ResetCall element (forcefeed m) # final, e\<lparr>reset := Some (forcefeed m)\<rparr>)
         | None \<Rightarrow> (final, e))"

end
