(* ===== verification/Velocity_Values.thy ===== *)
theory Velocity_Values
  imports Velocity_Tween
begin

section \<open>The values of an animation: lengths, chains, ends\<close>

text \<open>
  What the tweens of a call mean in pixels, that a chained call begins where the one before ended, that a
  call ends at its end values and a loop at its start, and that remembering the ratios of units changes
  nothing.
\<close>

subsection \<open>Lengths\<close>

definition known_units :: "string list" where
  "known_units = [''%'', ''px'', ''em'', ''rem'', ''vw'', ''vh'']"

definition good_ratios :: "ratios \<Rightarrow> bool" where
  "good_ratios r \<longleftrightarrow>
     (\<forall>f \<in> {percentToPxWidth, percentToPxHeight, emToPx, remToPx, vwToPx, vhToPx}. \<exists>a > 0. f r = Num a)"

definition pixels :: "string \<Rightarrow> ratios \<Rightarrow> string \<Rightarrow> jsnum \<Rightarrow> jsnum" where
  "pixels property r u v = v * unit_ratio (horizontal property) r u"

lemma known_ratio:
  assumes "good_ratios r" "u \<in> set known_units"
  obtains a where "a > 0" "unit_ratio x r u = Num a"
proof -
  have "\<exists>a > 0. unit_ratio x r u = Num a"
    using assms by (cases x) (auto simp: good_ratios_def known_units_def unit_ratio_def)
  then show thesis using that by blast
qed

lemma to_unit_pixels:
  assumes r: "good_ratios r" and u: "u \<in> set known_units" and u': "u' \<in> set known_units" and v: "is_Num v"
  shows "to_unit x r u u' v * unit_ratio x r u' = v * unit_ratio x r u \<and> is_Num (to_unit x r u u' v)"
proof -
  obtain a where a: "a > 0" "unit_ratio x r u = Num a" using known_ratio [OF r u] .
  obtain b where b: "b > 0" "unit_ratio x r u' = Num b" using known_ratio [OF r u'] .
  obtain c where c: "v = Num c" using v by auto
  have px: "unit_ratio x r ''px'' = Num 1" by (simp add: unit_ratio_def)
  show ?thesis
    using a b px by (cases "u = ''px''"; cases "u' = ''px''") (auto simp: to_unit_def c)
qed

lemma convert_pixels:
  assumes r: "good_ratios r" "u \<in> set known_units" "u' \<in> set known_units" "is_Num v" "is_Num w"
    and c: "convert (horizontal p) r operator (v, u) (w, u') = (v', w')"
  shows "pixels p r w' v' = pixels p r u v \<and> is_Num v' \<and> w' \<in> set known_units \<and>
    (operator \<notin> {Some CHR ''/'', Some CHR ''*''} \<longrightarrow> pixels p r w' w = pixels p r u' w)"
proof -
  obtain a where a: "a > 0" "unit_ratio (horizontal p) r u = Num a" using known_ratio [OF r(1,2)] .
  obtain b where b: "b > 0" "unit_ratio (horizontal p) r u' = Num b" using known_ratio [OF r(1,3)] .
  show ?thesis
    using c r a b to_unit_pixels [OF r(1-4), of "horizontal p"]
    by (auto simp: convert_def pixels_def js_eq_def split: if_splits)
qed

lemma or_zero_num: "or_zero x = (case x of NaN \<Rightarrow> Num 0 | _ \<Rightarrow> x)"
  by (auto simp: or_zero_def num_truthy_def split: jsnum.split)

text \<open>The tween of a length by the ratios that the call has found.\<close>

lemma lengths_by_ratios:
  assumes "good_ratios r" "unit_ratios k = r"
    and s: "separateValue property startValue = (n, u)" "u \<in> set known_units" "is_Num (number_of n)"
    and e: "separateValue property endValue = (m, u')" "u' \<in> set known_units" "split_operator m = (operator, d)"
      "is_Num (number_of d)" "percent_value property (number_of d, u') = (number_of d, u')"
    and t: "t = tween_values k property endValue startValue easing"
  shows "pixels property r (unit_type t) (start_value t) = pixels property r u (number_of n) \<and>
    pixels property r (unit_type t) (end_value t) =
      (let v = pixels property r u (number_of n); w = pixels property r u' (number_of d) in
       case operator of
         None \<Rightarrow> w
       | Some c \<Rightarrow> if c = CHR ''+'' then v + w else if c = CHR ''-'' then v - w
           else if c = CHR ''*'' then v * number_of d else if c = CHR ''/'' then v / number_of d else w)"
proof -
  obtain v w' where c: "convert (horizontal property) r operator (number_of n, u) (number_of d, u') = (v, w')"
    by fastforce
  note p = convert_pixels [OF assms(1) s(2) e(2) s(3) e(4) c]
  have t: "start_value t = v" "unit_type t = w'" "end_value t = operate operator v (number_of d)"
    using c by (auto simp: t tween_values_def s e assms(2) Let_def)
  obtain a where a: "a > 0" "unit_ratio (horizontal property) r w' = Num a"
    using known_ratio [OF assms(1)] p by blast
  obtain x y where xy: "v = Num x" "number_of d = Num y" using p e(4) by (meson is_NumE)
  have w: "pixels property r w' z = z * Num a" for z by (simp add: pixels_def a(2))
  have e1: "pixels property r u (number_of n) = Num (x * a)" using p w [of v] by (simp add: xy)
  have e2: "operator \<notin> {Some CHR ''/'', Some CHR ''*''} \<Longrightarrow> pixels property r u' (Num y) = Num (y * a)"
    using p w [of "number_of d"] by (simp add: xy)
  have i: "inf_of x * Num a = inf_of (x * a)"
    using a(1) by (auto simp: inf_of_def times_jsnum_def zero_less_mult_iff mult_less_0_iff)
  have st: "pixels property r (unit_type t) (start_value t) = pixels property r u (number_of n)"
    using p by (simp add: t)
  have en: "pixels property r (unit_type t) (end_value t) =
      (let v = pixels property r u (number_of n); w = pixels property r u' (number_of d) in
       case operator of
         None \<Rightarrow> w
       | Some c \<Rightarrow> if c = CHR ''+'' then v + w else if c = CHR ''-'' then v - w
           else if c = CHR ''*'' then v * number_of d else if c = CHR ''/'' then v / number_of d else w)"
    unfolding t e1 using e2 i by (auto simp: w operate_def xy algebra_simps num_divide Let_def split: option.splits)
  from st en show ?thesis by blast
qed

text \<open>
  What the units mean in CSS, for an element in a page: a percentage is one of the width or the height of the
  parent, of the element itself for a translation, of the size of the font for the two properties of the text;
  \<open>em\<close> is the size of the font, that of the parent for the size of the font itself.
\<close>

record css_box =
  parent_w :: real
  parent_h :: real
  own_w :: real
  own_h :: real
  font :: real
  parent_font :: real
  root_font :: real
  view_w :: real
  view_h :: real

definition of_width :: "string list" where
  "of_width = [''width'', ''minWidth'', ''maxWidth'', ''left'', ''right'', ''marginTop'', ''marginRight'', ''marginBottom'', ''marginLeft'',
     ''paddingTop'', ''paddingRight'', ''paddingBottom'', ''paddingLeft'', ''textIndent'']"

definition of_height :: "string list" where
  "of_height = [''height'', ''minHeight'', ''maxHeight'', ''top'', ''bottom'']"

definition css_unit :: "css_box \<Rightarrow> string \<Rightarrow> string \<Rightarrow> real option" where
  "css_unit b p u =
     (if u = ''px'' then Some 1
      else if u = ''em'' then Some (if p = ''fontSize'' then parent_font b else font b)
      else if u = ''rem'' then Some (root_font b)
      else if u = ''vw'' then Some (view_w b / 100)
      else if u = ''vh'' then Some (view_h b / 100)
      else if u = ''%'' then
        (if p \<in> set of_width then Some (parent_w b / 100)
         else if p \<in> set of_height then Some (parent_h b / 100)
         else if p = ''translateX'' then Some (own_w b / 100)
         else if p = ''translateY'' then Some (own_h b / 100)
         else if p = ''fontSize'' then Some (parent_font b / 100)
         else if p = ''lineHeight'' then Some (font b / 100)
         else None)
      else None)"

definition css_pixels :: "css_box \<Rightarrow> string \<Rightarrow> string \<Rightarrow> jsnum \<Rightarrow> jsnum" where
  "css_pixels b p u v = (case css_unit b p u of None \<Rightarrow> NaN | Some a \<Rightarrow> v * Num a)"










definition demo_ratios :: ratios where
  "demo_ratios = \<lparr>percentToPxWidth = Num 8, percentToPxHeight = Num 5, emToPx = Num 16, remToPx = Num 10, vwToPx = Num 12, vhToPx = Num 7\<rparr>"

definition demo_box :: css_box where
  "demo_box = \<lparr>parent_w = 800, parent_h = 500, own_w = 200, own_h = 100, font = 16, parent_font = 12, root_font = 10, view_w = 1200, view_h = 700\<rparr>"

definition demo_env :: "(string \<Rightarrow> tween option) \<Rightarrow> call_env" where
  "demo_env ts = \<lparr>display_opt = Undefined, visibility_opt = Undefined, cacheValues = True, last_tweens = ts,
     page_value = (\<lambda>_. Text ''auto''), unit_ratios = demo_ratios, call_curve = Name ''swing'', call_duration = Num 400,
     default_curve = ''swing''\<rparr>"

lemma demo_good: "good_ratios demo_ratios" "unit_ratios (demo_env l) = demo_ratios"
  by (simp_all add: good_ratios_def demo_ratios_def demo_env_def)


lemma demo_texts:
  "separateValue ''width'' (Text ''-24PX'') = (Digits ''-24'', ''px'')"
  "separateValue ''width'' (Text ''+=2.5em'') = (Digits ''+=2.5'', ''em'')"
  "split_operator (Digits ''+=2.5'') = (Some CHR ''+'', Digits ''2.5'')"
  "number_of (Digits ''-24'') = Num (- 24)"
  "number_of (Digits ''2.5'') = Num (5 / 2)"
  "percent_value ''width'' (Num (5 / 2), ''em'') = (Num (5 / 2), ''em'')"
  "camelCase ''width'' = ''width''"
  by code_simp+


text \<open>
  The exceptions are real.  A translation by 50 percent of an element of 200 pixels is one of 100 pixels, but its
  tween towards pixels starts at 400, half of the parent (a comment of the code says so); and a font of 16
  pixels in a parent with one of 12 starts its tween towards 2 \<open>em\<close> at 1 \<open>em\<close>, which is 12 pixels.
\<close>

lemma translate_percent:
  "(let t = tween_values (demo_env (\<lambda>_. None)) ''translateX'' (Text ''10px'') (Text ''50%'') (Name ''swing'')
    in css_pixels demo_box ''translateX'' (unit_type t) (start_value t)) = Num 400 \<and>
   css_pixels demo_box ''translateX'' ''%'' (Num 50) = Num 100"
proof -
  have "separateValue ''translateX'' (Text ''50%'') = (Digits ''50'', ''%'')"
    "separateValue ''translateX'' (Text ''10px'') = (Digits ''10'', ''px'')"
    "split_operator (Digits ''10'') = (None, Digits ''10'')" "number_of (Digits ''50'') = Num 50" "number_of (Digits ''10'') = Num 10"
    "horizontal ''translateX''" by code_simp+
  then show ?thesis
    by (simp add: tween_values_def demo_env_def percent_value_def convert_def js_eq_def to_unit_def unit_ratio_def demo_ratios_def
        css_pixels_def css_unit_def demo_box_def of_width_def of_height_def)
qed

lemma font_size_jumps:
  "(let t = tween_values (demo_env (\<lambda>_. None)) ''fontSize'' (Text ''2em'') (Text ''16px'') (Name ''swing'')
    in css_pixels demo_box ''fontSize'' (unit_type t) (start_value t)) = Num 12"
proof -
  have "separateValue ''fontSize'' (Text ''16px'') = (Digits ''16'', ''px'')"
    "separateValue ''fontSize'' (Text ''2em'') = (Digits ''2'', ''em'')"
    "split_operator (Digits ''2'') = (None, Digits ''2'')" "number_of (Digits ''16'') = Num 16" "number_of (Digits ''2'') = Num 2"
    by code_simp+
  then show ?thesis
    by (simp add: tween_values_def demo_env_def percent_value_def convert_def js_eq_def to_unit_def unit_ratio_def demo_ratios_def
        css_pixels_def css_unit_def demo_box_def)
qed

subsection \<open>Chains\<close>

text \<open>
  A call that follows another on an element, without a start value of its own, starts each length where the
  call before ends it, by the ratios that it has found, if values are remembered and the call does not reveal
  the element.
\<close>

theorem chain_continues:
  assumes "good_ratios (unit_ratios k)" "cacheValues k" "last_tweens k (camelCase name) = Some prev"
    and "unit_type prev \<in> set known_units" "is_Num (end_value prev)"
    and "\<not> (reveals (display_opt k) (visibility_opt k) \<and>
           (occurs ''opacity'' (camelCase name) \<or> occurs ''filter'' (camelCase name)))"
    and "parsePropertyValue data = (endValue, easing, None)"
    and "separateValue (camelCase name) endValue = (m, u')" "u' \<in> set known_units" "split_operator m = (operator, d)"
      "is_Num (number_of d)" "percent_value (camelCase name) (number_of d, u') = (number_of d, u')"
    and "tween_of k name data = Some t"
  shows "pixels (camelCase name) (unit_ratios k) (unit_type t) (start_value t) =
    pixels (camelCase name) (unit_ratios k) (unit_type prev) (end_value prev)"
proof -
  obtain x where x: "end_value prev = Num x" using assms(5) by blast
  have low: "toLowerCase (unit_type prev) = unit_type prev" "unit_type prev \<noteq> []"
    using assms(4) by (auto simp: known_units_def toLowerCase_def lower_char_def is_upper_def)
  have src: "start_source k (camelCase name) endValue None = Joined (end_value prev) (unit_type prev)"
    using assms(2,3,6) by (auto simp: start_source_def)
  obtain e where t: "t = tween_values k (camelCase name) endValue (Joined (end_value prev) (unit_type prev)) e"
    using assms(7,13) src by (auto simp: tween_of_def)
  have sep: "separateValue (camelCase name) (Joined (end_value prev) (unit_type prev)) = (Known (Num x), unit_type prev)"
    using low by (simp add: separateValue_def separate_number_def x)
  have num: "number_of (Known (Num x)) = Num x"
    by (simp add: number_of_def or_zero_def num_truthy_def)
  show ?thesis
    using conjunct1 [OF lengths_by_ratios [OF assms(1) refl sep assms(4) _ assms(8-12) t]] by (simp add: num x)
qed


theorem chain_continues_witness:
  "let prev = \<lparr>start_value = Num 0, current_value = Num 0, end_value = Num 20, unit_type = ''vw'', curve = Name ''swing''\<rparr>;
       k = demo_env [''width'' \<mapsto> prev]
   in \<exists>t. tween_of k ''width'' (One (Text ''+=2.5em'')) = Some t \<and>
     pixels ''width'' demo_ratios (unit_type t) (start_value t) = Num 240"
proof -
  define prev where "prev = \<lparr>start_value = Num 0, current_value = Num 0, end_value = Num 20, unit_type = ''vw'', curve = Name ''swing''\<rparr>"
  define k where "k = demo_env [''width'' \<mapsto> prev]"
  have k: "good_ratios (unit_ratios k)" "cacheValues k" "last_tweens k (camelCase ''width'') = Some prev"
    "\<not> (reveals (display_opt k) (visibility_opt k) \<and>
           (occurs ''opacity'' (camelCase ''width'') \<or> occurs ''filter'' (camelCase ''width'')))"
    by (simp_all add: k_def demo_env_def demo_texts reveals_def good_ratios_def demo_ratios_def)
  have p: "parsePropertyValue (One (Text ''+=2.5em'')) = (Text ''+=2.5em'', None, None)" by code_simp
  obtain t where t: "tween_of k ''width'' (One (Text ''+=2.5em'')) = Some t"
    by (simp add: tween_of_def p Let_def)
  have v: "unit_ratio (horizontal ''width'') demo_ratios ''vw'' = Num 12" by code_simp
  have "pixels ''width'' demo_ratios (unit_type t) (start_value t) = pixels ''width'' demo_ratios (unit_type prev) (end_value prev)"
    using chain_continues [OF k(1-3) _ _ k(4) p _ _ demo_texts(3) _ _ t]
    by (simp add: demo_texts known_units_def prev_def k_def demo_good)
  with t v show ?thesis unfolding Let_def prev_def [symmetric] k_def [symmetric]
    by (intro exI [of _ t]) (simp add: pixels_def prev_def)
qed

subsection \<open>Ticks\<close>

lemma last_tick_tween: "tick_tween fround firstTick (Num 1) t = Inr (t\<lparr>current_value := end_value t\<rparr>, True)"
  by (simp add: tick_tween_def)

lemma tick_end:
  assumes "distinct (map fst ts)"
  shows "\<exists>ts' page'. tick_tweens fround firstTick (Num 1) ts page = Inr (ts', page') \<and>
    ts' = map (\<lambda>(p, t). (p, t\<lparr>current_value := end_value t\<rparr>)) ts \<and>
    (\<forall>p. page' p = (case map_of ts p of
        Some t \<Rightarrow> if p = ''tween'' then page p else written (t\<lparr>current_value := end_value t\<rparr>)
      | None \<Rightarrow> page p))"
  using assms
proof (induction ts arbitrary: page)
  case Nil
  then show ?case by simp
next
  case (Cons x ts)
  obtain q t where x: "x = (q, t)" by (cases x)
  define page1 where "page1 = (if q \<noteq> ''tween'' then page(q := written (t\<lparr>current_value := end_value t\<rparr>)) else page)"
  have d: "distinct (map fst ts)" "map_of ts q = None"
    using Cons.prems by (auto simp: x map_of_eq_None_iff)
  from Cons.IH [OF d(1), of page1] obtain ts' page' where
    *: "tick_tweens fround firstTick (Num 1) ts page1 = Inr (ts', page')"
      "ts' = map (\<lambda>(p, t). (p, t\<lparr>current_value := end_value t\<rparr>)) ts"
      "\<forall>p. page' p = (case map_of ts p of
        Some t \<Rightarrow> if p = ''tween'' then page1 p else written (t\<lparr>current_value := end_value t\<rparr>)
      | None \<Rightarrow> page1 p)" by blast
  have "tick_tweens fround firstTick (Num 1) (x # ts) page =
      Inr ((q, t\<lparr>current_value := end_value t\<rparr>) # ts', page')"
    using *(1) by (simp add: x last_tick_tween page1_def)
  moreover have "page' p = (case map_of (x # ts) p of
      Some t \<Rightarrow> if p = ''tween'' then page p else written (t\<lparr>current_value := end_value t\<rparr>)
    | None \<Rightarrow> page p)" for p
    using *(3) d(2) by (auto simp: x page1_def split: option.split)
  ultimately show ?case using *(2) by (auto simp: x)
qed


text \<open>
  The last tick of a call writes its end value to every property and leaves the others of the page.
\<close>

theorem last_tick:
  assumes "distinct (map fst ts)"
  shows "\<exists>ts' page'. tick_tweens fround firstTick (Num 1) ts page = Inr (ts', page') \<and>
    ts' = map (\<lambda>(p, t). (p, t\<lparr>current_value := end_value t\<rparr>)) ts \<and>
    (\<forall>p. page' p = (case map_of ts p of
        Some t \<Rightarrow> if p = ''tween'' then page p else written (t\<lparr>current_value := end_value t\<rparr>)
      | None \<Rightarrow> page p))"
  using tick_end [OF assms] .

theorem last_tick_witness:
  "let t = \<lparr>start_value = Num 0, current_value = Num 3, end_value = Num 20, unit_type = ''px'', curve = Name ''swing''\<rparr>
   in \<exists>ts page'. tick_tweens id True (Num 1) [(''width'', t)] (\<lambda>_. Text ''auto'') = Inr (ts, page') \<and>
     page' ''width'' = Joined (Num 20) ''px''"
  using last_tick [of "[(''width'', \<lparr>start_value = Num 0, current_value = Num 3, end_value = Num 20, unit_type = ''px'', curve = Name ''swing''\<rparr>)]"
      id True "\<lambda>_. Text ''auto''"]
  by (auto simp: written_def)

text \<open>Between the ends an easing that stays between 0 and 1 keeps the value between start and end.\<close>

lemma tick_between:
  assumes "start_value t = Num a" "end_value t = Num b" "eased fround (curve t) p = Inr (Num y)" "0 \<le> y" "y \<le> 1"
    and "tick_tween fround firstTick p t = Inr (t', True)"
  shows "Num (min a b) \<le> current_value t' \<and> current_value t' \<le> Num (max a b)"
proof -
  have le: "min a b \<le> a + (b - a) * y" "a + (b - a) * y \<le> max a b"
  proof -
    have "a + (b - a) * y = (1 - y) * a + y * b" by (simp add: algebra_simps)
    moreover have "(1 - y) * min a b + y * min a b \<le> (1 - y) * a + y * b"
      using assms(4,5) by (intro add_mono mult_left_mono) auto
    moreover have "(1 - y) * a + y * b \<le> (1 - y) * max a b + y * max a b"
      using assms(4,5) by (intro add_mono mult_left_mono) auto
    ultimately show "min a b \<le> a + (b - a) * y" "a + (b - a) * y \<le> max a b"
      by (simp_all add: algebra_simps)
  qed
  show ?thesis
    using assms(1-3,6) le by (auto simp: tick_tween_def Let_def split: if_splits)
qed

text \<open>
  The tween of a running call does not throw: its easing is registered, or was made for the call.  The
  value that \<open>springRK4Factory\<close> returns for a duration of 0 would throw, but a call with duration 0 gets
  duration 1 before.
\<close>

lemma registered_runs:
  assumes "map_of Easings n \<noteq> None"
  shows "\<exists>y. eased fround (Name n) p = Inr y"
proof -
  have "list_all (\<lambda>(_, e). case e of SpringTime _ \<Rightarrow> False | _ \<Rightarrow> True) Easings"
    by (auto simp: Easings_def list_all_iff split: option.splits)
  moreover obtain e where e: "map_of Easings n = Some e" using assms by blast
  ultimately have "case e of SpringTime _ \<Rightarrow> False | _ \<Rightarrow> True"
    by (auto simp: list_all_iff dest: map_of_SomeD)
  then show ?thesis using e by (cases e) (simp_all add: eased_def)
qed

lemma easing_runs:
  assumes "getEasing dflt v duration = Some e" "num_truthy duration"
  shows "\<exists>y. eased fround e p = Inr y"
proof -
  have "map_of Easings ''swing'' \<noteq> None" by (simp add: Easings_def)
  then have d: "\<exists>y. eased fround (default_easing dflt) p = Inr y"
    using registered_runs by (simp add: default_easing_def)
  have f: "\<exists>y. eased fround (Function g) p = Inr y" if "\<And>t. g \<noteq> SpringTime t" for g
    using that by (cases g) (auto simp: eased_def)
  show ?thesis
    using assms d f registered_runs
    by (auto simp: getEasing_def springRK4Factory_def split: easing_option.splits list.splits if_splits option.splits bind_splits)
qed

subsection \<open>Reverse and loop\<close>

lemma reverse_ends:
  "start_value ((reverse_tween g ^^ n) t) = (if even n then start_value t else end_value t)"
  "end_value ((reverse_tween g ^^ n) t) = (if even n then end_value t else start_value t)"
  "unit_type ((reverse_tween g ^^ n) t) = unit_type t"
  by (induction n) (auto simp: reverse_tween_def)

text \<open>
  A call with the option \<open>loop\<close> ends where it started: after the reverse calls that the option adds
  every property is written with its start value.
\<close>

theorem loop_returns:
  assumes "n > 0" "distinct (map fst ts)" "(reverse_tweens g ^^ reverse_calls n) ts = rs"
  shows "\<exists>rs' page'. tick_tweens fround firstTick (Num 1) rs page = Inr (rs', page') \<and>
    (\<forall>p t. map_of ts p = Some t \<and> p \<noteq> ''tween'' \<longrightarrow> page' p = written (t\<lparr>current_value := start_value t\<rparr>))"
proof -
  have m: "(reverse_tweens g ^^ k) ts = map (\<lambda>(p, t). (p, (reverse_tween g ^^ k) t)) ts" for k
    by (induction k) (auto simp: reverse_tweens_def)
  then have rs: "rs = map (\<lambda>(p, t). (p, (reverse_tween g ^^ reverse_calls n) t)) ts" using assms(3) by simp
  then have d: "distinct (map fst rs)" using assms(2) by (simp add: comp_def case_prod_unfold)
  have odd: "odd (reverse_calls n)"
    using assms(1) by (simp add: reverse_calls_def even_nat_iff)
  have mo: "map_of rs p = map_option (reverse_tween g ^^ reverse_calls n) (map_of ts p)" for p
    unfolding rs by (induction ts) auto
  have w: "written (s\<lparr>current_value := end_value s\<rparr>) = written (t\<lparr>current_value := start_value t\<rparr>)"
    if "s = (reverse_tween g ^^ reverse_calls n) t" for s t
    using odd by (simp add: that written_def reverse_ends)
  from tick_end [OF d, of fround firstTick page] show ?thesis
    by (auto simp: mo w)
qed

theorem loop_returns_witness:
  "let t = \<lparr>start_value = Num 7, current_value = Num 3, end_value = Num 20, unit_type = ''px'', curve = Name ''swing''\<rparr>
   in \<exists>rs page'. tick_tweens id True (Num 1) ((reverse_tweens None ^^ reverse_calls 2) [(''width'', t)]) (\<lambda>_. Text ''auto'') = Inr (rs, page') \<and>
     page' ''width'' = Joined (Num 7) ''px''"
  using loop_returns [of 2 "[(''width'', \<lparr>start_value = Num 7, current_value = Num 3, end_value = Num 20, unit_type = ''px'', curve = Name ''swing''\<rparr>)]" None _
      id True "\<lambda>_. Text ''auto''", OF _ _ refl]
  by (auto simp: written_def)

subsection \<open>The ratios of units\<close>

text \<open>The ratios measured for one element, without remembering anything.\<close>

definition own_ratios :: "(nat \<Rightarrow> string \<Rightarrow> string \<Rightarrow> measures) \<Rightarrow> jsnum \<Rightarrow> jsnum \<times> jsnum \<Rightarrow> nat \<times> string \<times> string \<Rightarrow> ratios" where
  "own_ratios taken rootSize window e = fst (calculateUnitRatios taken rootSize window e new_cache)"

fun call_ratios ::
  "(nat \<Rightarrow> string \<Rightarrow> string \<Rightarrow> measures) \<Rightarrow> jsnum \<Rightarrow> jsnum \<times> jsnum \<Rightarrow> (nat \<times> string \<times> string) list \<Rightarrow> unit_cache \<Rightarrow> ratios list" where
  "call_ratios taken rootSize window [] c = []"
| "call_ratios taken rootSize window (e # es) c =
     (let (r, c) = calculateUnitRatios taken rootSize window e c in r # call_ratios taken rootSize window es c)"

definition cache_ok :: "(nat \<Rightarrow> string \<Rightarrow> string \<Rightarrow> measures) \<Rightarrow> unit_cache \<Rightarrow> bool" where
  "cache_ok taken c \<longleftrightarrow>
     (\<forall>p q f. lastParent c = Some p \<and> lastPosition c = Some q \<and> lastFontSize c = Some f \<longrightarrow>
        lastPercentToPxWidth c = or_one (widthOf100 (taken p q f)) / Num 100 \<and>
        lastPercentToPxHeight c = or_one (heightOf100 (taken p q f)) / Num 100 \<and>
        lastEmToPx c = or_one (emOf100 (taken p q f)) / Num 100)"

lemma ratios_step:
  assumes "cache_ok taken c" "calculateUnitRatios taken rootSize window e c = (r, c')"
  shows "r = own_ratios taken rootSize window e \<and> cache_ok taken c'"
  using assms by (cases e) (auto simp: calculateUnitRatios_def own_ratios_def cache_ok_def new_cache_def Let_def split: if_splits)

text \<open>
  The ratios of units that a call finds for each of its elements are those that are measured for it:
  remembering the last ones changes nothing, if what is measured depends on the parent, the position and
  the size of the font only.
\<close>

theorem ratios_remembered:
  "call_ratios taken rootSize window es new_cache = map (own_ratios taken rootSize window) es"
proof -
  have "cache_ok taken c \<Longrightarrow> call_ratios taken rootSize window es c = map (own_ratios taken rootSize window) es" for c
  proof (induction es arbitrary: c)
    case (Cons e es)
    obtain r c' where "calculateUnitRatios taken rootSize window e c = (r, c')" by fastforce
    with Cons ratios_step show ?case by (auto simp: Let_def)
  qed simp
  moreover have "cache_ok taken new_cache" by (simp add: cache_ok_def new_cache_def)
  ultimately show ?thesis by blast
qed

end
