(* ===== verification/Velocity_Effect_Props.thy ===== *)
theory Velocity_Effect_Props
  imports Velocity_Effects Velocity_Values
begin

section \<open>Effects: where they end, how long they take\<close>

text \<open>
  An effect run to its end on an element: its calls one after another, then the values that are reset.
  A packaged effect leaves each property that it animates at rest, whatever the page was like, and its
  calls share the duration it is given, but for three of them.
\<close>

subsection \<open>Running the calls of an effect\<close>

definition motions :: "effect \<Rightarrow> motion list" where
  "motions e = map motion_of (ecalls e) @ (case reset e of Some m \<Rightarrow> [Props (forcefeed m)] | None \<Rightarrow> [])"






subsection \<open>Values without an operator\<close>











subsection \<open>What an effect settles\<close>






subsection \<open>The packaged effects\<close>




text \<open>For the few properties and forms of values of the packaged effects the final values are these.\<close>

definition effect_props :: "string list" where
  "effect_props = [''opacity'', ''scaleX'', ''scaleY'', ''rotateX'', ''rotateY'', ''rotateZ'', ''translateX'', ''translateY'', ''translateZ'',
     ''transformPerspective'', ''transformOriginX'', ''transformOriginY'']"



















text \<open>
  Only the origins of the transformation among the properties of the packaged effects are hooks, and a call has
  both or none of them.
\<close>

definition hooks_together :: "string \<times> effect \<Rightarrow> bool" where
  "hooks_together ne \<longleftrightarrow>
     list_all (\<lambda>m. case m of ReverseCall \<Rightarrow> True
        | Props fs \<Rightarrow> (map_of fs ''transformOriginX'' = None) = (map_of fs ''transformOriginY'' = None)) (motions (snd ne))"

lemma effect_hooks: "filter (\<lambda>p. hook p \<noteq> None) effect_props = [''transformOriginX'', ''transformOriginY'']"
  by code_simp

lemmas together_defs = hooks_together_def motions_def forcefeed_def effect_of_def whole_def part_def part_eased_def

lemma packaged_hooks: "list_all hooks_together packagedEffects"
  unfolding packagedEffects_def list_all_append
proof (intro conjI)
  show "list_all hooks_together callouts_effects" by (simp add: callouts_effects_def together_defs)
  show "list_all hooks_together flips_effects" by (simp add: flips_effects_def together_defs)
  show "list_all hooks_together magic_effects" by (simp add: magic_effects_def together_defs)
  show "list_all hooks_together bounces_effects" by (simp add: bounces_effects_def together_defs)
  show "list_all hooks_together slides_effects" by (simp add: slides_effects_def together_defs)
  show "list_all hooks_together perspectives_effects" by (simp add: perspectives_effects_def together_defs)
qed


lemma fade_in_packaged: "(''transition.fadeIn'', effect_of 500 [whole (Props [(''opacity'', fed 1 0)])] None) \<in> set packagedEffects"
  by (simp add: packagedEffects_def flips_effects_def)


subsection \<open>Durations\<close>

definition total_time :: "acall list \<Rightarrow> jsnum" where
  "total_time cs = foldl (+) (Num 0) (map a_duration cs)"

definition share_of :: "ecall \<Rightarrow> jsnum" where
  "share_of c = (case share c of Some x \<Rightarrow> if num_truthy x then x else Num 1 | None \<Rightarrow> Num 1)"

definition total_share :: "effect \<Rightarrow> jsnum" where
  "total_share e = foldl (+) (Num 0) (map share_of (ecalls e))"

definition odd_shares :: "(string \<times> real) list" where
  "odd_shares = [(''callout.bounce'', 0.75), (''callout.tada'', 1.125), (''transition.bounceIn'', 1.1)]"

definition shares_as :: "string \<times> effect \<Rightarrow> bool" where
  "shares_as ne \<longleftrightarrow>
     list_all (\<lambda>c. is_Num (share_of c)) (ecalls (snd ne)) \<and>
     total_share (snd ne) = Num (case map_of odd_shares (fst ne) of Some x \<Rightarrow> x | None \<Rightarrow> 1)"

lemma share_of_simps:
  "share_of (whole m) = Num 1" "x \<noteq> 0 \<Longrightarrow> share_of (part m x) = Num x" "x \<noteq> 0 \<Longrightarrow> share_of (part_eased m x e) = Num x"
  by (simp_all add: share_of_def whole_def part_def part_eased_def num_truthy_def)

lemma shares_as_effect:
  "shares_as (name, effect_of d cs r) \<longleftrightarrow>
     list_all (\<lambda>c. is_Num (share_of c)) cs \<and>
     foldl (+) (Num 0) (map share_of cs) = Num (case map_of odd_shares name of Some x \<Rightarrow> x | None \<Rightarrow> 1)"
  by (simp add: shares_as_def total_share_def effect_of_def)

lemma packaged_shares: "list_all shares_as packagedEffects"
  unfolding packagedEffects_def list_all_append
proof (intro conjI)
  show "list_all shares_as callouts_effects"
    by (simp add: callouts_effects_def shares_as_effect share_of_simps odd_shares_def)
  show "list_all shares_as flips_effects"
    by (simp add: flips_effects_def shares_as_effect share_of_simps odd_shares_def)
  show "list_all shares_as magic_effects"
    by (simp add: magic_effects_def shares_as_effect share_of_simps odd_shares_def)
  show "list_all shares_as bounces_effects"
    by (simp add: bounces_effects_def shares_as_effect share_of_simps odd_shares_def)
  show "list_all shares_as slides_effects"
    by (simp add: slides_effects_def shares_as_effect share_of_simps odd_shares_def)
  show "list_all shares_as perspectives_effects"
    by (simp add: perspectives_effects_def shares_as_effect share_of_simps odd_shares_def)
qed

lemma total_scaled:
  "list_all (\<lambda>c. is_Num (share_of c)) cs \<Longrightarrow>
    foldl (+) (Num (D * s)) (map (\<lambda>c. Num D * share_of c) cs) = Num D * foldl (+) (Num s) (map share_of cs)"
proof (induction cs arbitrary: s)
  case (Cons c cs)
  then obtain x where "share_of c = Num x" by auto
  with Cons show ?case by (simp add: distrib_left [symmetric])
qed simp

text \<open>
  The calls of a packaged effect take the duration the user gives, or that of the effect if the user
  gives none, except that \<open>callout.bounce\<close> takes three quarters of it, \<open>callout.tada\<close> an eighth more and
  \<open>transition.bounceIn\<close> a tenth more.
\<close>

theorem effect_durations:
  assumes "(name, e) \<in> set packagedEffects"
    and "duration_opt ro = Amount (Num D) \<and> D \<noteq> 0 \<or> duration_opt ro = Missing \<and> defaultDuration e = Given (Num D) \<and> D \<noteq> 0"
  shows "total_time (fst (redirect name e ro elements tag i)) =
    Num (D * (case map_of odd_shares name of Some x \<Rightarrow> x | None \<Rightarrow> 1))"
proof -
  have sh: "list_all (\<lambda>c. is_Num (share_of c)) (ecalls e)"
    "total_share e = Num (case map_of odd_shares name of Some x \<Rightarrow> x | None \<Rightarrow> 1)"
    using packaged_shares assms(1) by (auto simp: list_all_iff shares_as_def)
  have d: "redirectDuration ro (default_amount (defaultDuration e) elements) = Num D"
    using assms(2) by (auto simp: redirectDuration_def num_truthy_def default_amount_def)
  have "map a_duration (fst (redirect name e ro elements tag i)) = map (\<lambda>c. Num D * share_of c) (ecalls e)"
    by (rule nth_equalityI) (simp_all add: redirect_def d call_at_def share_of_def Let_def)
  then show ?thesis
    using total_scaled [OF sh(1), of D 0] sh(2) by (simp add: total_time_def total_share_def)
qed


definition plain_opts :: "duration_opt \<Rightarrow> effect_opts" where
  "plain_opts d = \<lparr>duration_opt = d, queue_opt = None, delay_arg = NaN, stagger_opt = NaN, display_arg = Undefined,
     visibility_arg = Undefined, animateParent = False\<rparr>"

theorem effect_durations_witness:
  "total_time (fst (redirect ''transition.fadeIn'' (effect_of 500 [whole (Props [(''opacity'', fed 1 0)])] None)
     (plain_opts (Amount (Num 300))) [7] ''p'' 0)) = Num 300"
proof -
  have "map_of odd_shares ''transition.fadeIn'' = None" by code_simp
  then show ?thesis using effect_durations [OF fade_in_packaged, of "plain_opts (Amount (Num 300))" 300 "[7]" "''p''" 0]
    by (simp add: plain_opts_def)
qed

text \<open>A named duration is no number: the calls of an effect get \<open>NaN\<close>, which \<open>animate\<close> makes 1 millisecond.\<close>

lemma named_durations:
  assumes "duration_opt ro = Named s" "s \<noteq> []"
  shows "\<forall>c \<in> set (fst (redirect name e ro elements tag i)). a_duration c = NaN"
  using assms by (auto simp: redirect_def redirectDuration_def call_at_def Let_def)

text \<open>
  What a redirect keeps: the calls of a second run are those of the first, also on other elements, for which
  a function would have given another duration; and making reset values start values twice changes nothing.
\<close>

lemma redirect_again:
  "redirect name e ro elements tag i = (cs, e') \<Longrightarrow> redirect name e' ro elements' tag i = (cs, e')"
proof -
  assume r: "redirect name e ro elements tag i = (cs, e')"
  have c: "call_at n (e\<lparr>defaultDuration := d\<rparr>) ro x t j l = call_at n (e\<lparr>defaultDuration := d'\<rparr>) ro x t j l" for n d d' x t j l
    by (simp add: call_at_def)
  show ?thesis using r by (auto simp: redirect_def Let_def default_amount_def)
qed

lemma forcefeed_again: "forcefeed (forcefeed m) = forcefeed m"
  by (auto simp: forcefeed_def split: pdata.split pval.split)

subsection \<open>The first frame of an effect\<close>

definition fades :: "motion \<Rightarrow> bool" where
  "fades m = (case m of Props fs \<Rightarrow> map_of fs ''opacity'' \<noteq> None | ReverseCall \<Rightarrow> False)"

definition late_names :: "string list" where
  "late_names = [''transition.bounceIn'', ''transition.bounceUpIn'', ''transition.bounceDownIn'', ''transition.bounceLeftIn'',
     ''transition.bounceRightIn'']"

definition hides :: "string \<times> effect \<Rightarrow> bool" where
  "hides ne \<longleftrightarrow>
     (let ms = map motion_of (ecalls (snd ne)) in
      is_In (fst ne) \<longrightarrow> ms \<noteq> [] \<and> fades (hd ms) \<and> (fades (last ms) \<longleftrightarrow> fst ne \<notin> set late_names))"

lemmas hides_defs =
  hides_def effect_of_def whole_def part_def part_eased_def fades_def is_In_def ends_with_def late_names_def

lemma packaged_hides: "list_all hides packagedEffects"
  unfolding packagedEffects_def list_all_append
proof (intro conjI)
  show "list_all hides callouts_effects" by (simp add: callouts_effects_def hides_defs)
  show "list_all hides flips_effects" by (simp add: flips_effects_def hides_defs)
  show "list_all hides magic_effects" by (simp add: magic_effects_def hides_defs)
  show "list_all hides bounces_effects" by (simp add: bounces_effects_def hides_defs)
  show "list_all hides slides_effects" by (simp add: slides_effects_def hides_defs)
  show "list_all hides perspectives_effects" by (simp add: perspectives_effects_def hides_defs)
qed

text \<open>
  When a packaged effect \<open>In\<close> begins, its elements are made transparent, so that they do not flash
  before the first frame, unless it is one of the bouncing effects and begins late, after a delay or behind
  other calls: the callback then looks for the opacity in the last call of the effect, not in the first.
\<close>

theorem first_frame:
  assumes "(name, e) \<in> set packagedEffects" "is_In name" "x \<in> set elements"
  shows "SetStyle x ''opacity'' (Number (Num 0)) \<in>
      set (begin_actions name ro duration (fst (redirect name e ro elements tag i)) heights elements late)
    \<longleftrightarrow> \<not> late \<or> name \<notin> set late_names"
proof -
  have h: "map motion_of (ecalls e) \<noteq> []" "fades (hd (map motion_of (ecalls e)))"
    "fades (last (map motion_of (ecalls e))) \<longleftrightarrow> name \<notin> set late_names"
    using packaged_hides assms(1,2) by (auto simp: list_all_iff hides_def Let_def)
  define cs where "cs = fst (redirect name e ro elements tag i)"
  have m: "map a_motion cs = map motion_of (ecalls e)"
    by (rule nth_equalityI) (simp_all add: cs_def redirect_def call_at_def Let_def)
  then have ne: "cs \<noteq> []" using h(1) by auto
  have f: "fades (a_motion (if late then last cs else hd cs)) \<longleftrightarrow> \<not> late \<or> name \<notin> set late_names"
    using h(2,3) ne unfolding m [symmetric] by (simp add: last_map hd_map)
  have "SetStyle x ''opacity'' (Number (Num 0)) \<in> set (begin_actions name ro duration cs heights elements late)
    \<longleftrightarrow> fades (a_motion (if late then last cs else hd cs))"
    using assms(2,3) by (auto simp: begin_actions_def Let_def fades_def animateParentHeight_def split: motion.splits prod.splits)
  then show ?thesis using f by (simp add: cs_def)
qed

theorem first_frame_witness:
  "SetStyle 7 ''opacity'' (Number (Num 0)) \<in>
     set (begin_actions ''transition.fadeIn'' (plain_opts Missing) (Num 500)
       (fst (redirect ''transition.fadeIn'' (effect_of 500 [whole (Props [(''opacity'', fed 1 0)])] None) (plain_opts Missing) [7] ''p'' 0))
       (\<lambda>_. []) [7] True)"
  using first_frame [OF fade_in_packaged, of 7 "[7]" "plain_opts Missing" "Num 500" "''p''" 0 "\<lambda>_. []" True]
  by (simp add: is_In_def ends_with_def late_names_def)

end
