(* ===== verification/Velocity_Sequence.thy ===== *)
theory Velocity_Sequence
  imports Velocity_Effects
begin

section \<open>velocity.ui.js: versions and sequences; effects on several elements\<close>

text \<open>
  The comparison of versions at the load of the pack, the options that an effect gets for each element of a
  set, and \<open>RunSequence\<close>, which chains calls by their callbacks.
\<close>

subsection \<open>greaterSemver\<close>

text \<open>A version is the list of its numbers; there may be none.\<close>

definition pad5 :: "nat \<Rightarrow> string" where
  "pad5 n = (let s = show_nat n in replicate (5 - length s) CHR ''0'' @ s)"

definition greaterSemver :: "nat list option \<Rightarrow> nat list option \<Rightarrow> bool" where
  "greaterSemver primary secondary =
     (case (primary, secondary) of
        (Some v, Some w) \<Rightarrow> parseFloat (concat (map pad5 v)) > parseFloat (concat (map pad5 w))
      | _ \<Rightarrow> False)"

text \<open>Versions compared number by number.\<close>

fun newer :: "nat list \<Rightarrow> nat list \<Rightarrow> bool" where
  "newer (a # v) (b # w) = (a > b \<or> a = b \<and> newer v w)"
| "newer _ _ = False"

lemma digits_value_append:
  "digits_value (s @ t) = digits_value s * 10 ^ length t + digits_value t"
proof (induction t rule: rev_induct)
  case (snoc c t)
  then show ?case by (simp add: digits_value_def algebra_simps)
qed (simp add: digits_value_def)

lemma digit_char:
  assumes "n < 10"
  shows "is_digit (char_of (48 + n))" "digits_value [char_of (48 + n)] = real n"
proof -
  have "(48 + n) mod 256 = 48 + n" using assms by simp
  then have c: "of_char (char_of (48 + n) :: char) = 48 + n" by simp
  then show "is_digit (char_of (48 + n))" using assms by (simp add: is_digit_def)
  have "(of_char (char_of (48 + n) :: char) :: real) = of_nat (of_char (char_of (48 + n) :: char))"
    by (simp only: of_nat_of_char)
  then show "digits_value [char_of (48 + n)] = real n" unfolding c by (simp add: digits_value_def)
qed

lemma show_nat_digits:
  "list_all is_digit (show_nat n) \<and> digits_value (show_nat n) = real n \<and> show_nat n \<noteq> [] \<and>
   (n < 10 ^ k \<longrightarrow> k > 0 \<longrightarrow> length (show_nat n) \<le> k)"
proof (induction n arbitrary: k rule: show_nat.induct)
  case (1 n)
  show ?case
  proof (cases "n < 10")
    case True
    then have e: "show_nat n = [char_of (48 + n)]" by (simp add: show_nat.simps)
    show ?thesis unfolding e using digit_char [OF True] by (simp add: Suc_le_eq)
  next
    case False
    have d: "n mod 10 < 10" by simp
    have l: "length (show_nat (n div 10)) \<le> k - 1" if "n < 10 ^ k" "k > 0"
    proof -
      have "k \<noteq> 1" using that False by auto
      then have "k - 1 > 0" "n div 10 < 10 ^ (k - 1)"
        using that by (cases k; auto simp: div_less_iff_less_mult mult.commute)+
      then show ?thesis using 1 [OF False, of "k - 1"] by blast
    qed
    have "real n = real (n div 10) * 10 + real (n mod 10)"
      by (metis div_mult_mod_eq of_nat_add of_nat_mult of_nat_numeral)
    moreover have e: "show_nat n = show_nat (n div 10) @ [char_of (48 + n mod 10)]"
      using False by (subst show_nat.simps) simp
    moreover have "length (show_nat n) \<le> k" if "n < 10 ^ k" "k > 0"
      unfolding e using l [OF that] that(2) by simp
    ultimately show ?thesis
      using 1 [OF False, of 1] digit_char [OF d] by (simp add: digits_value_append)
  qed
qed

lemma pad5_props:
  assumes "n < 100000"
  shows "list_all is_digit (pad5 n)" "length (pad5 n) = 5" "digits_value (pad5 n) = real n"
proof -
  have l: "length (show_nat n) \<le> 5" using assms show_nat_digits [of n 5] by simp
  have z: "digits_value (replicate k CHR ''0'') = 0" for k
    by (induction k) (auto simp: digits_value_def foldl_conv_fold)
  have "is_digit CHR ''0''" by (simp add: is_digit_def)
  then show "list_all is_digit (pad5 n)" using show_nat_digits [of n 5] by (auto simp: pad5_def Let_def list_all_iff)
  show "length (pad5 n) = 5" using l by (simp add: pad5_def Let_def)
  show "digits_value (pad5 n) = real n" using show_nat_digits [of n 5] z by (simp add: pad5_def Let_def digits_value_append)
qed

definition joined_value :: "nat list \<Rightarrow> real" where
  "joined_value v = digits_value (concat (map pad5 v))"

lemma joined_props:
  assumes "list_all (\<lambda>n. n < 100000) v"
  shows "list_all is_digit (concat (map pad5 v))" "length (concat (map pad5 v)) = 5 * length v"
    "0 \<le> joined_value v" "joined_value v < 100000 ^ length v"
    "joined_value (n # v) = digits_value (pad5 n) * 100000 ^ length v + joined_value v"
proof -
  show a: "list_all is_digit (concat (map pad5 v))" "length (concat (map pad5 v)) = 5 * length v"
    using assms by (induction v) (simp_all add: pad5_props)
  have s: "joined_value (n # v) = digits_value (pad5 n) * 100000 ^ length v + joined_value v"
    if "list_all (\<lambda>n. n < 100000) v" for n v
  proof -
    have "length (concat (map pad5 v)) = 5 * length v" using that by (induction v) (simp_all add: pad5_props)
    then show ?thesis by (simp add: joined_value_def digits_value_append power_mult)
  qed
  show "joined_value (n # v) = digits_value (pad5 n) * 100000 ^ length v + joined_value v" using s [OF assms] .
  have "0 \<le> joined_value v \<and> joined_value v < 100000 ^ length v" using assms
  proof (induction v)
    case (Cons n v)
    then have "real n \<le> 99999" by simp
    then have "real n * 100000 ^ length v \<le> 99999 * 100000 ^ length v" by (intro mult_right_mono) auto
    moreover define X where "X = (100000::real) ^ length v"
    ultimately have "real n * X \<le> 99999 * X" by simp
    moreover have "joined_value (n # v) = real n * X + joined_value v" "0 \<le> joined_value v" "joined_value v < X"
      using Cons s [of v n] by (simp_all add: pad5_props X_def)
    moreover have "(100000::real) ^ length (n # v) = 100000 * X" "0 \<le> real n * X" by (simp_all add: X_def)
    ultimately show ?case by linarith
  qed (simp add: joined_value_def digits_value_def)
  then show "0 \<le> joined_value v" "joined_value v < 100000 ^ length v" by auto
qed

lemma parse_digits:
  assumes "list_all is_digit s" "s \<noteq> []"
  shows "parseFloat s = Num (digits_value s)"
proof -
  obtain c t where s: "s = c # t" "is_digit c" using assms by (cases s) auto
  then have c: "c \<noteq> CHR '' ''" "14 \<le> (of_char c :: nat)" "c \<noteq> CHR ''-''" "c \<noteq> CHR ''+''" "c \<noteq> CHR ''I''"
    by (auto simp: is_digit_def Let_def)
  have d: "takeWhile is_digit s = s" "dropWhile is_digit s = []"
    using assms(1) by (simp_all add: list_all_iff)
  have "dropWhile (\<lambda>c. c = CHR '' '' \<or> (9 \<le> (of_char c :: nat) \<and> (of_char c :: nat) \<le> 13)) s = s"
    using s c by simp
  moreover have "hd s = c" "take 8 s \<noteq> ''Infinity''" using s c by (auto simp: eval_nat_numeral)
  ultimately show ?thesis
    using c assms(2) by (simp add: parseFloat_def exponent_of_def Let_def d)
qed

text \<open>
  For versions of as many numbers below 100000 each, \<open>greaterSemver\<close> compares them number by number.
\<close>

theorem semver_order:
  assumes "list_all (\<lambda>n. n < 100000) v" "list_all (\<lambda>n. n < 100000) w" "length v = length w" "v \<noteq> []"
  shows "greaterSemver (Some v) (Some w) \<longleftrightarrow> newer v w"
proof -
  have "joined_value v > joined_value w \<longleftrightarrow> newer v w"
    using assms(3,1,2)
  proof (induction v w rule: list_induct2)
    case (Cons a v b w)
    have v: "joined_value (a # v) = real a * 100000 ^ length v + joined_value v"
      "joined_value (b # w) = real b * 100000 ^ length v + joined_value w"
      using Cons joined_props(5) pad5_props(3) by auto
    have r: "0 \<le> joined_value v" "joined_value v < 100000 ^ length v" "0 \<le> joined_value w" "joined_value w < 100000 ^ length v"
      using Cons.prems Cons.hyps joined_props(3,4) [of v] joined_props(3,4) [of w] by auto
    have step: "real x * 100000 ^ length v + 100000 ^ length v \<le> real y * 100000 ^ length v" if "x < y" for x y
    proof -
      have "real x + 1 \<le> real y" using that by simp
      then have "(real x + 1) * 100000 ^ length v \<le> real y * 100000 ^ length v" by (intro mult_right_mono) auto
      then show ?thesis by (simp add: distrib_right)
    qed
    show ?case
    proof (cases a b rule: linorder_cases)
      case less then show ?thesis using step [of a b] r v by simp
    next
      case equal then show ?thesis using Cons v by simp
    next
      case greater then show ?thesis using step [of b a] r v by simp
    qed
  qed (simp add: joined_value_def)
  moreover have "parseFloat (concat (map pad5 u)) = Num (joined_value u)"
    if "list_all (\<lambda>n. n < 100000) u" "u \<noteq> []" for u
  proof -
    have "concat (map pad5 u) \<noteq> []" using joined_props(2) [OF that(1)] that(2) by (metis length_0_conv mult_is_0 zero_neq_numeral)
    then show ?thesis using joined_props(1) [OF that(1)] parse_digits by (simp add: joined_value_def)
  qed
  moreover have "w \<noteq> []" using assms(3,4) by auto
  ultimately show ?thesis using assms by (auto simp: greaterSemver_def)
qed


theorem semver_order_witness: "\<not> greaterSemver (Some [1, 1, 0]) (Some [1, 10, 0])"
  using semver_order [of "[1, 1, 0]" "[1, 10, 0]"] by simp

subsection \<open>An effect on a set of elements\<close>

text \<open>
  \<open>stagger\<close> delays each element more than the one before, \<open>drag\<close> shortens the durations of the first
  elements, or with \<open>backwards\<close>, which also reverses the set, of the last.
\<close>

definition base_duration :: "string \<Rightarrow> duration_opt \<Rightarrow> jsnum" where
  \<comment> \<open>\<open>parseFloat\<close> of the duration, or the default\<close>
  "base_duration name d =
     (let dflt = (if take 7 name = ''callout'' \<or> take 10 name = ''transition'' then Num 1000 else Num 400) in
      case d of
        Amount x \<Rightarrow> if num_truthy x then x else dflt
      | _ \<Rightarrow> dflt)"

definition element_opts :: "string \<Rightarrow> bool \<Rightarrow> bool \<Rightarrow> effect_opts \<Rightarrow> nat \<Rightarrow> nat \<Rightarrow> effect_opts" where
  "element_opts name drag backwards ro count i =
     (let ro = (if num_truthy (stagger_opt ro) then ro\<lparr>delay_arg := or_zero (delay_arg ro) + stagger_opt ro * Num (real i)\<rparr> else ro)
      in if drag then
           let d = base_duration name (duration_opt ro);
               r = (if backwards then Num 1 - Num (real i) / Num (real count) else (Num (real i) + Num 1) / Num (real count))
           in ro\<lparr>duration_opt := Amount (Math_max (Math_max (d * r) (d * Num 0.75)) (Num 200))\<rparr>
         else ro)"

definition redirect_set :: "string \<Rightarrow> bool \<Rightarrow> bool \<Rightarrow> effect \<Rightarrow> effect_opts \<Rightarrow> (nat \<Rightarrow> string) \<Rightarrow> nat list \<Rightarrow> acall list list \<times> effect" where
  "redirect_set name drag backwards e ro tag elements =
     (let elements = (if backwards then rev elements else elements);
          count = length elements
      in foldl (\<lambda>(css, e) i.
           let (cs, e) = redirect name e (element_opts name drag backwards ro count i) elements (tag (elements ! i)) i
           in (css @ [cs], e)) ([], e) [0..<count])"

text \<open>A dragged duration is between three quarters of the given one and that, but at least 200, and grows with the element.\<close>

lemma drag_bounds:
  assumes "duration_opt ro = Amount (Num D)" "D > 0" "i < count"
  shows "\<exists>x. duration_opt (element_opts name True backwards ro count i) = Amount (Num x) \<and>
    max 200 (0.75 * D) \<le> x \<and> x \<le> max 200 D"
proof -
  define f where "f = (if backwards then 1 - real i / real count else (real i + 1) / real count)"
  have s: "real count > 0" using assms(3) by simp
  have f: "0 \<le> f" "f \<le> 1" using assms(3) s by (auto simp: f_def field_simps)
  have opt: "duration_opt (element_opts name True backwards ro count i) = Amount (Num (max (max (D * f) (D * 0.75)) 200))"
    using s assms(1,2) by (auto simp: element_opts_def base_duration_def num_truthy_def f_def Let_def)
  have "D * f \<le> D" using f assms(2) by (simp add: mult_left_le)
  moreover have "D * 0.75 \<le> D" using assms(2) by simp
  ultimately have le: "max (max (D * f) (D * 0.75)) 200 \<le> max 200 D" by auto
  have "max 200 (0.75 * D) \<le> max (max (D * f) (D * 0.75)) 200" by (simp add: mult.commute)
  with le opt show ?thesis by blast
qed

subsection \<open>RunSequence\<close>

text \<open>
  A call of a sequence: the user's callbacks, if there are, and whether the call waits for the end of the
  one before (it does not with \<open>sequenceQueue: false\<close>).  \<open>RunSequence\<close> works on a copy; it goes from the
  last call to the first and appends to a callback of each call the start of the next.
\<close>

datatype sact = UserBegan nat | UserEnded nat | Start nat

record scall =
  waits :: bool
  begin_acts :: "sact list"
  complete_acts :: "sact list"

definition scall_of :: "nat \<Rightarrow> bool \<Rightarrow> bool \<Rightarrow> bool \<Rightarrow> scall" where
  "scall_of i w b c = \<lparr>waits = w, begin_acts = (if b then [UserBegan i] else []), complete_acts = (if c then [UserEnded i] else [])\<rparr>"

definition link_call :: "nat \<Rightarrow> scall list \<Rightarrow> scall list" where
  \<comment> \<open>the pass of the loop for the call \<open>i + 1\<close>, whose \<open>nextCall\<close> is \<open>i\<close>\<close>
  "link_call i cs =
     (if waits (cs ! Suc i) then cs[i := (cs ! i)\<lparr>complete_acts := complete_acts (cs ! i) @ [Start (Suc i)]\<rparr>]
      else cs[i := (cs ! i)\<lparr>begin_acts := begin_acts (cs ! i) @ [Start (Suc i)]\<rparr>])"

definition linked :: "scall list \<Rightarrow> scall list" where
  "linked cs = foldr link_call [0..<length cs - 1] cs"

text \<open>
  The run: \<open>Velocity\<close> calls back when a started call begins and when it ends, each once and in this order.
\<close>

record srun =
  started :: "nat list"
  begun :: "nat set"
  ended_calls :: "nat set"
  acts :: "sact list"

fun perform :: "sact list \<Rightarrow> srun \<Rightarrow> srun" where
  "perform [] s = s"
| "perform (a # as) s =
     perform as (s\<lparr>acts := acts s @ [a], started := (case a of Start i \<Rightarrow> started s @ [i] | _ \<Rightarrow> started s)\<rparr>)"

datatype sevent = Begins nat | Ends nat

definition sequence_step :: "scall list \<Rightarrow> sevent \<Rightarrow> srun \<Rightarrow> srun" where
  "sequence_step cs ev s =
     (case ev of
        Begins i \<Rightarrow>
          if i \<in> set (started s) \<and> i \<notin> begun s
          then perform (begin_acts (cs ! i)) (s\<lparr>begun := insert i (begun s)\<rparr>) else s
      | Ends i \<Rightarrow>
          if i \<in> begun s \<and> i \<notin> ended_calls s
          then perform (complete_acts (cs ! i)) (s\<lparr>ended_calls := insert i (ended_calls s)\<rparr>) else s)"

definition RunSequence :: "srun" where
  \<comment> \<open>the last line: the first call is started\<close>
  "RunSequence = \<lparr>started = [0], begun = {}, ended_calls = {}, acts = [Start 0]\<rparr>"

definition sequence_run :: "scall list \<Rightarrow> sevent list \<Rightarrow> srun" where
  "sequence_run cs evs = fold (sequence_step (linked cs)) evs RunSequence"


definition no_starts :: "scall list \<Rightarrow> bool" where
  "no_starts cs \<longleftrightarrow> (\<forall>c \<in> set cs. \<forall>j. Start j \<notin> set (begin_acts c) \<and> Start j \<notin> set (complete_acts c))"

definition next_start :: "scall list \<Rightarrow> bool \<Rightarrow> nat \<Rightarrow> sact list" where
  "next_start cs ending i = (if Suc i < length cs \<and> waits (cs ! Suc i) = ending then [Start (Suc i)] else [])"

lemma link_call_nth:
  assumes "Suc i < length cs" "j < length cs"
  shows "link_call i cs ! j =
     (if j = i then (cs ! i)\<lparr>begin_acts := begin_acts (cs ! i) @ next_start cs False i,
        complete_acts := complete_acts (cs ! i) @ next_start cs True i\<rparr> else cs ! j)"
    and "length (link_call i cs) = length cs"
  using assms by (auto simp: link_call_def next_start_def nth_list_update)

lemma linked_nth:
  assumes "i < length cs"
  shows "linked cs ! i = (cs ! i)\<lparr>begin_acts := begin_acts (cs ! i) @ next_start cs False i,
        complete_acts := complete_acts (cs ! i) @ next_start cs True i\<rparr>"
    and "length (linked cs) = length cs"
proof -
  have "k \<le> length cs - 1 \<Longrightarrow>
    length (foldr link_call [k..<length cs - 1] cs) = length cs \<and>
    (\<forall>j < length cs. foldr link_call [k..<length cs - 1] cs ! j =
      (if k \<le> j \<and> j < length cs - 1 then (cs ! j)\<lparr>begin_acts := begin_acts (cs ! j) @ next_start cs False j,
        complete_acts := complete_acts (cs ! j) @ next_start cs True j\<rparr> else cs ! j))" for k
  proof (induction k rule: inc_induct)
    case base
    show ?case by (intro conjI allI impI) auto
  next
    case (step k)
    define ds where "ds = foldr link_call [Suc k..<length cs - 1] cs"
    have d: "length ds = length cs" "\<forall>j < length cs. ds ! j =
      (if Suc k \<le> j \<and> j < length cs - 1 then (cs ! j)\<lparr>begin_acts := begin_acts (cs ! j) @ next_start cs False j,
        complete_acts := complete_acts (cs ! j) @ next_start cs True j\<rparr> else cs ! j)"
      using step by (simp_all add: ds_def)
    have n: "next_start ds b k = next_start cs b k" for b using d step by (simp add: next_start_def)
    have f: "foldr link_call [k..<length cs - 1] cs = link_call k ds"
      using step by (simp add: ds_def upt_conv_Cons)
    have k: "Suc k < length ds" "k < length ds" using step d(1) by auto
    show ?case unfolding f using d step(1,2) link_call_nth(1) [OF k(1)] link_call_nth(2) [OF k] n by auto
  qed
  from this [of 0] show "linked cs ! i = (cs ! i)\<lparr>begin_acts := begin_acts (cs ! i) @ next_start cs False i,
        complete_acts := complete_acts (cs ! i) @ next_start cs True i\<rparr>" "length (linked cs) = length cs"
    using assms by (auto simp: linked_def next_start_def)
qed

definition triggered :: "scall list \<Rightarrow> srun \<Rightarrow> nat \<Rightarrow> bool" where
  "triggered cs s i \<longleftrightarrow> i = 0 \<or> (if waits (cs ! i) then i - 1 \<in> ended_calls s else i - 1 \<in> begun s)"

definition sequence_inv :: "scall list \<Rightarrow> srun \<Rightarrow> bool" where
  "sequence_inv cs s \<longleftrightarrow>
     (\<exists>m. 0 < m \<and> m \<le> length cs \<and> started s = [0..<m] \<and> begun s \<subseteq> {..<m} \<and> ended_calls s \<subseteq> begun s \<and>
       (\<forall>i < length cs. i < m \<longleftrightarrow> triggered cs s i))"

definition starts_of :: "sact list \<Rightarrow> nat list" where
  "starts_of as = concat (map (\<lambda>a. case a of Start i \<Rightarrow> [i] | _ \<Rightarrow> []) as)"

lemma starts_of_simps [simp]:
  "starts_of [] = []" "starts_of (as @ bs) = starts_of as @ starts_of bs" "starts_of (Start i # as) = i # starts_of as"
  by (simp_all add: starts_of_def)

lemma perform_started:
  "started (perform as s) = started s @ starts_of as"
  "begun (perform as s) = begun s" "ended_calls (perform as s) = ended_calls s"
  by (induction as s rule: perform.induct) (auto simp: starts_of_def split: sact.split)

lemma user_starts: "\<forall>j. Start j \<notin> set as \<Longrightarrow> starts_of as = []"
  by (induction as) (auto simp: starts_of_def split: sact.split)

lemma sequence_inv_step:
  assumes cs: "no_starts cs" and inv: "sequence_inv cs s"
  shows "sequence_inv cs (sequence_step (linked cs) ev s)"
proof -
  obtain m where m: "0 < m" "m \<le> length cs" "started s = [0..<m]" "begun s \<subseteq> {..<m}" "ended_calls s \<subseteq> begun s"
    "\<forall>i < length cs. i < m \<longleftrightarrow> triggered cs s i"
    using inv by (auto simp: sequence_inv_def)
  have acts: "starts_of (begin_acts (linked cs ! i)) =
      (if Suc i < length cs \<and> \<not> waits (cs ! Suc i) then [Suc i] else [])"
    "starts_of (complete_acts (linked cs ! i)) =
      (if Suc i < length cs \<and> waits (cs ! Suc i) then [Suc i] else [])" if "i < length cs" for i
  proof -
    have "\<forall>j. Start j \<notin> set (begin_acts (cs ! i))" "\<forall>j. Start j \<notin> set (complete_acts (cs ! i))"
      using cs that nth_mem [OF that] unfolding no_starts_def by blast+
    note u = this [THEN user_starts]
    show "starts_of (begin_acts (linked cs ! i)) =
      (if Suc i < length cs \<and> \<not> waits (cs ! Suc i) then [Suc i] else [])"
    "starts_of (complete_acts (linked cs ! i)) =
      (if Suc i < length cs \<and> waits (cs ! Suc i) then [Suc i] else [])"
      using u by (simp_all add: linked_nth [OF that] next_start_def)
  qed
  have next_m: "m = Suc i" if "i < m" "Suc i < length cs" "\<not> triggered cs s (Suc i)" for i
    using that m(6) by (metis less_antisym not_less_eq)
  show ?thesis
  proof (cases ev)
    case (Begins i)
    show ?thesis
    proof (cases "i < m \<and> i \<notin> begun s")
      case True
      then have i: "i < length cs" using m(2) by simp
      define s' where "s' = sequence_step (linked cs) ev s"
      have s': "started s' = [0..<m] @ (if Suc i < length cs \<and> \<not> waits (cs ! Suc i) then [Suc i] else [])"
        "begun s' = insert i (begun s)" "ended_calls s' = ended_calls s"
        using True m(3) by (simp_all add: s'_def sequence_step_def Begins perform_started acts [OF i])
      have t: "triggered cs s' j \<longleftrightarrow> triggered cs s j \<or> (j = Suc i \<and> \<not> waits (cs ! Suc i))" for j
        using s' True by (auto simp: triggered_def gr0_conv_Suc)
      show ?thesis
      proof (cases "Suc i < length cs \<and> \<not> waits (cs ! Suc i)")
        case w: True
        then have "\<not> triggered cs s (Suc i)" using True by (simp add: triggered_def)
        then have "m = Suc i" using next_m True w by blast
        then show ?thesis
          using m s' t w unfolding s'_def [symmetric] sequence_inv_def
          by (intro exI [of _ "Suc m"]) (auto simp: less_Suc_eq)
      next
        case w: False
        then show ?thesis
          using m s' t True unfolding s'_def [symmetric] sequence_inv_def
          by (intro exI [of _ m]) auto
      qed
    next
      case False
      then have "sequence_step (linked cs) ev s = s" using m(3) by (auto simp: sequence_step_def Begins)
      then show ?thesis using inv by simp
    qed
  next
    case (Ends i)
    show ?thesis
    proof (cases "i \<in> begun s \<and> i \<notin> ended_calls s")
      case True
      then have im: "i < m" using m(4) by auto
      then have i: "i < length cs" using m(2) by simp
      define s' where "s' = sequence_step (linked cs) ev s"
      have s': "started s' = [0..<m] @ (if Suc i < length cs \<and> waits (cs ! Suc i) then [Suc i] else [])"
        "begun s' = begun s" "ended_calls s' = insert i (ended_calls s)"
        using True m(3) by (simp_all add: s'_def sequence_step_def Ends perform_started acts [OF i])
      have t: "triggered cs s' j \<longleftrightarrow> triggered cs s j \<or> (j = Suc i \<and> waits (cs ! Suc i))" for j
        using s' True by (auto simp: triggered_def gr0_conv_Suc)
      show ?thesis
      proof (cases "Suc i < length cs \<and> waits (cs ! Suc i)")
        case w: True
        then have "\<not> triggered cs s (Suc i)" using True by (simp add: triggered_def)
        then have "m = Suc i" using next_m im w by blast
        then show ?thesis
          using m s' t w True unfolding s'_def [symmetric] sequence_inv_def
          by (intro exI [of _ "Suc m"]) (auto simp: less_Suc_eq)
      next
        case w: False
        then show ?thesis
          using m s' t True unfolding s'_def [symmetric] sequence_inv_def
          by (intro exI [of _ m]) auto
      qed
    next
      case False
      then have "sequence_step (linked cs) ev s = s" by (auto simp: sequence_step_def Ends)
      then show ?thesis using inv by simp
    qed
  qed
qed

text \<open>
  C29.  Whatever the order in which the calls of a sequence begin and end, they are started in their order,
  each at most once; a call is started exactly when the call before it has ended, or, if it does not wait,
  when that has begun.
\<close>

theorem sequence_in_order:
  assumes "no_starts cs" "cs \<noteq> []" "s = sequence_run cs evs"
  shows "\<exists>m. started s = [0..<m] \<and> 0 < m \<and> m \<le> length cs \<and>
    (\<forall>i < length cs. i \<in> set (started s) \<longleftrightarrow>
      i = 0 \<or> (if waits (cs ! i) then i - 1 \<in> ended_calls s else i - 1 \<in> begun s))"
proof -
  have "sequence_inv cs RunSequence"
    using assms(2) by (auto simp: sequence_inv_def RunSequence_def triggered_def Suc_le_eq intro!: exI [of _ 1])
  then have "sequence_inv cs (sequence_run cs evs)"
    unfolding sequence_run_def using sequence_inv_step [OF assms(1)]
    by (induction evs arbitrary: rule: rev_induct) auto
  then show ?thesis by (auto simp: sequence_inv_def triggered_def assms(3))
qed

theorem sequence_in_order_witness:
  "let cs = [scall_of 0 True False True, scall_of 1 True True False, scall_of 2 False False False]
   in 1 \<notin> set (started (sequence_run cs [Begins 0, Ends 1]))"
proof -
  define cs where "cs = [scall_of 0 True False True, scall_of 1 True True False, scall_of 2 False False False]"
  have n: "no_starts cs" "cs \<noteq> []" by (auto simp: cs_def no_starts_def scall_of_def)
  have e: "0 \<notin> ended_calls (sequence_run cs [Begins 0, Ends 1])" unfolding cs_def by code_simp
  show ?thesis
    using sequence_in_order [OF n refl, of "[Begins 0, Ends 1]"] e unfolding cs_def [symmetric] Let_def
    by (auto simp: cs_def scall_of_def)
qed

end
