(* ===== verification/Spec2Isabelle.thy ===== *)
theory Spec2Isabelle
  imports Particles_Loop Particles_Canvas Particles_Number Particles_Forces Particles_Overlap Particles_Colour Particles_Types
    Base64 Json_Viewer Fancybox_Swipe Fancybox_Hash Fancybox_Show Fancybox_Stack Fancybox_Item_Props Face Chat Cookie_Props Site Velocity_Spec Velocity_Curves Velocity_Style_Props Velocity_Effect_Props Velocity_Sequence
begin

text \<open>
  \<^bold>\<open>The browser code of cortono.\<close>  Cortono is a C++ network library; the JavaScript of the repository
  runs in the pages of its two example servers.  The file server (\<open>src/http/example/file_server/www/js\<close>)
  shows a page with animated particles, two chat pages and a viewer for JSON texts; the blog server
  (\<open>src/http/example/blog_server/web\<close>) serves a site built with the theme NexT.  This development models
  the scripts of these pages.  A script is a set of event handlers over a state, which the pages keep in
  global variables, in the DOM and in objects; here the state of each script is a record, each handler a
  function on it, and the theorems are about all sequences of events.

  \<^bold>\<open>Shared theories.\<close>
  \<^item> \<open>JsNumber\<close>: numbers are reals with the two infinities and \<open>NaN\<close>; comparisons, arithmetic and the
    \<open>Math\<close> functions follow the language on these, without the rounding of finite results and the sign
    of zero.
  \<^item> \<open>JsPrelude\<close>: exceptions as the left side of a sum (\<open>res\<close>), loops over lists and ranges with their
    invariant rules, random numbers as a stream of values in [0, 1), texts and \<open>indexOf\<close>.
  \<^item> \<open>JsValue\<close>: the values of configuration objects and JSON texts, reading and updating properties.
  \<^item> \<open>JsText\<close>: texts as lists of 16-bit units, replacing, splitting, trimming.
  \<^item> \<open>Js_Uri\<close>: \<open>encodeURIComponent\<close> and \<open>decodeURIComponent\<close> with their failures.
  \<^item> \<open>Js_Regex\<close>: regular expressions with the order in which the language tries their alternatives, as lists of
    successes, and the relation of what they match, whatever the order.

  \<^bold>\<open>particles.js, app.js.\<close>  \<open>Particles_State\<close> has the records of an instance (canvas, options, particles,
  mouse, counters) and the canvas operations that drawing emits; \<open>Particles_Config\<close> the defaults,
  \<open>Object.deepExtend\<close> and the options of the page; \<open>Particles_Create\<close> the constructor of a particle,
  section by section, with the random numbers in the order of the code, and \<open>checkOverlap\<close>;
  \<open>Particles_Interact\<close> links, attraction, bouncing and the mouse modes; \<open>Particles_Frame\<close> the update and
  the drawing of a frame and the functions that add and remove particles; \<open>Particles_Vendors\<close> the
  animation loop, the events, refresh and the life cycle, with \<open>pjs_event\<close> as the step function.  The
  locale \<open>frame_law\<close> of \<open>Particles_Laws\<close> states what each operation of a frame has to keep of a predicate on
  particles and gives that a frame keeps it (\<open>Particles_Frames\<close> has the frame's invariant rules); \<open>particle_law\<close>
  extends it by the constructor and gives that every reachable state has it.  Opacity and colour are
  interpretations of the second; that no radius is negative, which a click bubble can break, is one of the
  first.  The other theories hold the properties: no frame throws as long as no radius is negative, and one frame is
  pending (\<open>Particles_Loop\<close>), particles stay on the canvas (\<open>Particles_Canvas\<close>), their number
  (\<open>Particles_Number\<close>), the geometry of the forces (\<open>Particles_Forces\<close>), creation without overlap
  (\<open>Particles_Overlap\<close>), colours (\<open>Particles_Colour\<close>), a type system for configuration objects and the
  types that the options keep through extension and use (\<open>Particles_Types\<close>); \<open>Particles_Demo\<close> has small
  instances for witnesses.
  \<open>checkOverlap\<close> calls itself until a free place is found: the model has the depth of the call stack as
  an argument and the exception of an exhausted stack as a result, and \<open>overlap_search_returns\<close> says
  which depth is enough.  Loops that a bad option makes endless give the error \<open>Hangs\<close>.

  \<^bold>\<open>chatRoom.js, im.js, face.js.\<close>  \<open>Chat_Store\<close> is what the two pages share: users, messages, the history
  of every channel, and the locale \<open>conversation\<close> with the laws of a page's handlers; \<open>Chat_Room\<close> and
  \<open>Im\<close> have the handlers of the pages and interpret it; \<open>Chat\<close> holds the properties.  Answers of the robot
  service arrive as events with any content.  \<open>Face\<close> is the panel of emoticons and the formatting of times;
  the calendar of the browser is a parameter.

  \<^bold>\<open>jquery.json-viewer.js\<close> is \<open>Json_Viewer\<close>: the HTML text of a JSON value, and a reader of HTML that respects
  the quotes of attributes, for which it is well nested but for the strings and keys that the theorem excepts.

  \<^bold>\<open>The blog.\<close>  \<open>Base64\<close> is the coder of exturl.js, \<open>Cookies\<close> and \<open>Cookie_Props\<close> js.cookie.js and
  scroll-cookie.js over the browser's cookie string, \<open>Next_Utils\<close> utils.js, \<open>Scrollspy\<close> scrollspy.js,
  \<open>Affix\<close> affix.js and pisces.js, \<open>Motion\<close> motion.js (the sidebar and the sequence of animations of the
  page's entrance; a stage runs at most once, so the depth of the calls is the length of the queue),
  \<open>Site\<close> bootstrap.js, post-details.js and algolia-search.js.

  \<^bold>\<open>velocity.js.\<close>  \<open>Velocity_Queue\<close> models the scheduling: the queues of the elements, the calls in
  progress, ticks, completion and \<open>stop\<close>, with the invariant of reachable states; \<open>Velocity_Calls\<close> the
  promises of it: order, one call at a time, progress; \<open>Velocity_Spec\<close> states an abstract scheduler with
  waiting and running calls and proves that every step of the detailed state is one of it or none.
  \<open>Velocity_Easing\<close> has the easing functions (a
  simulation of a spring is a partial function, \<open>None\<close> if it does not end) and \<open>Velocity_Curves\<close> their
  ends, the precision of the bisection and the end of the first simulation of the default spring.
  \<open>Velocity_Tween\<close> turns a map of properties into tweens (the forms of a property's value, units and their
  conversion, the operators \<open>+=\<close> and its like, the transfer of the values of the last call, the value of a
  tick, the calls of \<open>reverse\<close> and of loops), \<open>Velocity_Values\<close> shows that the lengths of a tween
  are those of CSS (with the exceptions), chains, loops and the ratios that are kept; \<open>Velocity_Styles\<close> has hooks, colours and transforms, with their round trips in
  \<open>Velocity_Style_Props\<close>.  \<open>Velocity_Effects\<close> has the packaged effects of velocity.ui.js and the redirect that
  \<open>RegisterEffect\<close> makes of one, \<open>Velocity_Effect_Props\<close> shows that they settle and how long they last, and
  \<open>Velocity_Sequence\<close> the order of versions, the options per element and \<open>RunSequence\<close>.

  \<^bold>\<open>jquery.fancybox.js\<close>, the viewer of the images of a post.  \<open>Fancybox_Gallery\<close> has the state of an open
  gallery (slides, current and previous position) and
  \<open>jumpTo\<close>, \<open>createSlide\<close>, \<open>loadSlide\<close>, \<open>revealContent\<close>, \<open>complete\<close> and
  closing, with answers and ends of animations as events; \<open>Fancybox_Slides\<close> which slides it
  holds, and that an aborted load stays.  \<open>Fancybox_Slideshow\<close> is the slide show over such a gallery with its
  timers, and \<open>Fancybox_Show\<close> shows that it goes on while it is on, that it has no effect once it has ended, and
  where it goes wrong.  \<open>Fancybox_Geometry\<close> has
  \<open>getFitPos\<close>, the zoom and the arithmetic of dragging and pinching, with the bounds of each.
  \<open>Fancybox_Touch\<close> is the state machine of a gesture (tap, pan, swipe, zoom) over the gallery and
  \<open>Fancybox_Swipe\<close> shows that every gesture ends, if one finger is set down at a time, and where
  a swipe goes.  \<open>Fancybox_Hash\<close> is the module
  that keeps the address in step with the gallery: round trip of the hash, one entry in the history,
  the address after closing.
  \<open>Fancybox_Instances\<close> has several viewers on one page: the handlers that they put on the document, which
  belong to the page and are removed for all, activation, the keyboard, the trap of the focus, the idle time and
  the controls, opening, closing and what is restored; \<open>Fancybox_Boxes\<close> proves the invariants of such a page
  operation by operation, and \<open>Fancybox_Stack\<close> states that one viewer listens and is active, that the last one
  does, that closing ends and that the page is given back as it was found.
  \<open>Fancybox_Items\<close> is \<open>createGroup\<close>, which makes items with types and full options of what the page gives, and
  \<open>Fancybox_Media\<close> the module that recognises addresses of videos and maps by regular expressions and rewrites
  them, with \<open>$.extend\<close> on values of options; \<open>Fancybox_Item_Props\<close> shows which types are guessed, what items
  keep of their options, and that an item with the option \<open>modal\<close> has all controls off.

  \<^bold>\<open>Kinds of lemmas.\<close>  For each script: what single operations do on each branch, an invariant with one
  preservation lemma per operation, the induction over all events, and the statements over reachable
  states that follow; for the pure functions equations with a reference definition, bounds and round
  trips.

  \<^bold>\<open>Not modelled.\<close>  The library itself and its examples in C++ (another language, and outside these
  pages); minified and vendored libraries as far as the pages only call them (jQuery, Vue, Bootstrap,
  layer and others are parameters or events where a script depends on them); of fancybox
  the full screen, thumbnails and sharing; of velocity.js the reading of
  computed styles, scrolling, SVG, the branches for old browsers, and in the scheduler delays, loops and custom
  queues; everywhere the layout that the browser computes, which appears as
  parameters (sizes and offsets of elements).
\<close>

end
